(* ===== verification/Prelude.thy ===== *)
theory Prelude
  imports Main "HOL-Library.Word"
begin

text \<open>
  Shared vocabulary of the development.

  \<^item> Go byte slices are lists of 8-bit words; the fixed-width integers that the wire formats
    store are words of that width, with the little-endian and big-endian accessors of
    \<^verbatim>\<open>encoding/binary\<close>.
  \<^item> Go strings are byte strings, here \<open>string\<close>.  \<^verbatim>\<open>strings.TrimSpace\<close>, \<^verbatim>\<open>strings.ToLower\<close> and
    \<^verbatim>\<open>strings.EqualFold\<close> are modelled on ASCII text, which is what the identifiers,
    endpoints and cursors handled by the modelled code consist of.
  \<^item> \<^verbatim>\<open>strconv.FormatInt\<close>/\<^verbatim>\<open>ParseInt\<close> in base 10 with their round trip.
  \<^item> Fallible stateful code is a function \<open>'s \<Rightarrow> ('e + 'a) \<times> 's\<close>: Go's \<open>(value, error)\<close>
    result is the sum, the receiver of the method is the state.  \<open>wp\<close> is the weakest
    precondition of such a computation; its rules are equations, collected in
    \<open>wp_simps\<close>, so that \<open>simp\<close> walks through a method body in program order.
\<close>

named_theorems wp_simps "weakest precondition equations for the error-state combinators"

unbundle bit_operations_syntax

section \<open>Bytes and little-endian integers\<close>

type_synonym byte = "8 word"
type_synonym bytes = "byte list"

definition putUint16 :: "16 word \<Rightarrow> bytes" where
  "putUint16 w = [ucast w, ucast (drop_bit 8 w)]"

definition putUint32 :: "32 word \<Rightarrow> bytes" where
  "putUint32 w = [ucast w, ucast (drop_bit 8 w), ucast (drop_bit 16 w), ucast (drop_bit 24 w)]"

definition putUint64 :: "64 word \<Rightarrow> bytes" where
  "putUint64 w = map (\<lambda>i. ucast (drop_bit (8 * i) w)) [0..<8]"

definition getUint16 :: "bytes \<Rightarrow> 16 word" where
  "getUint16 bs = ucast (bs ! 0) OR push_bit 8 (ucast (bs ! 1))"

definition getUint32 :: "bytes \<Rightarrow> 32 word" where
  "getUint32 bs = ucast (bs ! 0) OR push_bit 8 (ucast (bs ! 1))
     OR push_bit 16 (ucast (bs ! 2)) OR push_bit 24 (ucast (bs ! 3))"

lemma length_putUint16 [simp]: "length (putUint16 w) = 2"
  by (simp add: putUint16_def)

lemma length_putUint32 [simp]: "length (putUint32 w) = 4"
  by (simp add: putUint32_def)

lemma length_putUint64 [simp]: "length (putUint64 w) = 8"
  by (simp add: putUint64_def)

lemma get_put_Uint16 [simp]: "getUint16 (putUint16 w) = w"
  by (rule bit_word_eqI)
     (auto simp: getUint16_def putUint16_def bit_simps nth_Cons' not_less intro: ccontr)

lemma get_put_Uint32 [simp]: "getUint32 (putUint32 w) = w"
proof (rule bit_word_eqI)
  fix n assume n: "n < LENGTH(32)"
  consider "n < 8" | "8 \<le> n" "n < 16" | "16 \<le> n" "n < 24" | "24 \<le> n" by linarith
  then show "bit (getUint32 (putUint32 w)) n = bit w n"
    using n by cases (auto simp: getUint32_def putUint32_def bit_simps)
qed

lemma xor_word_right_cancel [simp]: "((a :: 'a::len word) XOR x = b XOR x) = (a = b)"
proof
  assume "a XOR x = b XOR x"
  then have "(a XOR x) XOR x = (b XOR x) XOR x" by simp
  then show "a = b" by (simp add: xor.assoc)
qed simp

lemma xor_word_left_cancel [simp]: "(x XOR (a :: 'a::len word) = x XOR b) = (a = b)"
  by (simp add: xor.commute [of x])

section \<open>Strings\<close>

definition bytesOf :: "string \<Rightarrow> bytes" where
  "bytesOf s = map (\<lambda>c. of_nat (of_char c)) s"

definition stringOf :: "bytes \<Rightarrow> string" where
  "stringOf bs = map (\<lambda>b. char_of (unat b)) bs"

lemma of_char_less: "(of_char c :: nat) < 256"
proof -
  have "(of_char c :: nat) mod 256 = of_char c" by (rule of_char_mod_256)
  then show ?thesis by (metis mod_less_divisor zero_less_numeral)
qed

lemma stringOf_bytesOf [simp]: "stringOf (bytesOf s) = s"
proof (induction s)
  case (Cons c s)
  have "(of_char c :: nat) < 256" by (rule of_char_less)
  then have "unat (of_nat (of_char c) :: byte) = of_char c"
    by (simp add: unat_of_nat)
  with Cons show ?case by (simp add: stringOf_def bytesOf_def)
qed (simp add: stringOf_def bytesOf_def)

lemma length_bytesOf [simp]: "length (bytesOf s) = length s"
  by (simp add: bytesOf_def)

definition isSpace :: "char \<Rightarrow> bool" where
  "isSpace c = (let n = of_char c :: nat in (9 \<le> n \<and> n \<le> 13) \<or> n = 32)"

definition trimSpace :: "string \<Rightarrow> string" where
  "trimSpace s = rev (dropWhile isSpace (rev (dropWhile isSpace s)))"

definition lowerChar :: "char \<Rightarrow> char" where
  "lowerChar c = (let n = of_char c :: nat in if 65 \<le> n \<and> n \<le> 90 then char_of (n + 32) else c)"

definition toLower :: "string \<Rightarrow> string" where
  "toLower s = map lowerChar s"

definition equalFold :: "string \<Rightarrow> string \<Rightarrow> bool" where
  "equalFold a b = (toLower a = toLower b)"

lemma dropWhile_idem [simp]: "dropWhile P (dropWhile P xs) = dropWhile P xs"
  by (induction xs) auto

lemma trimSpace_Nil [simp]: "trimSpace [] = []"
  by (simp add: trimSpace_def)

lemma dropWhile_rev_dropWhile:
  assumes "dropWhile P xs = xs"
  shows "dropWhile P (rev (dropWhile P (rev xs))) = rev (dropWhile P (rev xs))"
proof (cases xs)
  case (Cons x ys)
  with assms have nx: "\<not> P x" by (metis dropWhile_eq_Cons_conv list.inject)
  then have "dropWhile P (rev xs) = dropWhile P (rev ys) @ [x] \<or> dropWhile P (rev xs) = [x]"
    using Cons by (simp add: dropWhile_append)
  with nx show ?thesis by auto
qed simp

lemma trimSpace_idem [simp]: "trimSpace (trimSpace s) = trimSpace s"
proof -
  let ?d = "dropWhile isSpace s"
  have "dropWhile isSpace (trimSpace s) = trimSpace s"
    unfolding trimSpace_def by (rule dropWhile_rev_dropWhile) simp
  then have "trimSpace (trimSpace s) = rev (dropWhile isSpace (rev (trimSpace s)))"
    by (simp only: trimSpace_def [of "trimSpace s"])
  then show ?thesis by (simp add: trimSpace_def)
qed

lemma lowerChar_idem [simp]: "lowerChar (lowerChar c) = lowerChar c"
  using of_char_less [of c] by (auto simp: lowerChar_def Let_def)

lemma toLower_idem [simp]: "toLower (toLower s) = toLower s"
  by (simp add: toLower_def)

lemma equalFold_refl [simp]: "equalFold a a"
  by (simp add: equalFold_def)

lemma equalFold_sym: "equalFold a b \<longleftrightarrow> equalFold b a"
  by (auto simp: equalFold_def)

section \<open>Decimal integers\<close>

definition digitChar :: "nat \<Rightarrow> char" where
  "digitChar d = char_of (48 + d)"

definition charDigit :: "char \<Rightarrow> nat option" where
  "charDigit c = (let n = of_char c :: nat in if 48 \<le> n \<and> n \<le> 57 then Some (n - 48) else None)"

fun formatNat :: "nat \<Rightarrow> string" where
  "formatNat n = (if n < 10 then [digitChar n] else formatNat (n div 10) @ [digitChar (n mod 10)])"

declare formatNat.simps [simp del]

definition formatInt :: "int \<Rightarrow> string" where
  "formatInt i = (if i < 0 then ''-'' @ formatNat (nat (- i)) else formatNat (nat i))"

fun parseDigits :: "nat \<Rightarrow> string \<Rightarrow> nat option" where
  "parseDigits acc [] = Some acc"
| "parseDigits acc (c # cs) =
     (case charDigit c of None \<Rightarrow> None | Some d \<Rightarrow> parseDigits (10 * acc + d) cs)"

text \<open>\<^verbatim>\<open>strconv.ParseInt(s, 10, 64)\<close>: an optional sign, at least one digit, and the value must
  fit in 64 bits.\<close>

definition parseInt :: "string \<Rightarrow> int option" where
  "parseInt s =
     (let (neg, ds) = (case s of [] \<Rightarrow> (False, [])
                       | c # cs \<Rightarrow> if c = CHR ''-'' then (True, cs)
                                   else if c = CHR ''+'' then (False, cs) else (False, s))
      in if ds = [] then None
         else case parseDigits 0 ds of None \<Rightarrow> None
              | Some n \<Rightarrow> if neg then (if n \<le> 2 ^ 63 then Some (- int n) else None)
                          else (if n < 2 ^ 63 then Some (int n) else None))"

lemma charDigit_digitChar [simp]: "d < 10 \<Longrightarrow> charDigit (digitChar d) = Some d"
  by (simp add: charDigit_def digitChar_def)

lemma isSpace_digitChar [simp]: "d < 10 \<Longrightarrow> \<not> isSpace (digitChar d)"
  by (simp add: isSpace_def digitChar_def)

lemma parseDigits_append:
  "parseDigits acc (xs @ ys) = (case parseDigits acc xs of None \<Rightarrow> None | Some a \<Rightarrow> parseDigits a ys)"
  by (induction acc xs rule: parseDigits.induct) (auto split: option.splits)

lemma formatNat_nonempty [simp]: "formatNat n \<noteq> []"
  by (subst formatNat.simps) simp

lemma formatNat_digits: "\<forall>c \<in> set (formatNat n). \<exists>d < 10. c = digitChar d"
proof (induction n rule: formatNat.induct)
  case (1 n)
  show ?case
  proof (cases "n < 10")
    case True
    then show ?thesis by (subst formatNat.simps) auto
  next
    case False
    with "1.IH" have "\<forall>c \<in> set (formatNat (n div 10)). \<exists>d < 10. c = digitChar d" by simp
    moreover have "\<exists>d < 10. digitChar (n mod 10) = digitChar d"
      by (rule exI [of _ "n mod 10"]) simp
    ultimately show ?thesis using False by (subst formatNat.simps) auto
  qed
qed

lemma parseDigits_formatNat: "parseDigits 0 (formatNat n) = Some n"
proof (induction n rule: formatNat.induct)
  case (1 n)
  then show ?case
    by (cases "n < 10") (subst formatNat.simps, simp add: parseDigits_append)+
qed

lemma digitChar_not_sign: "d < 10 \<Longrightarrow> digitChar d \<noteq> CHR ''-'' \<and> digitChar d \<noteq> CHR ''+''"
  by (auto simp: digitChar_def char_of_eq_iff take_bit_eq_mod)

lemma parseInt_formatNat:
  assumes "n < 2 ^ 63"
  shows "parseInt (formatNat n) = Some (int n)"
proof -
  obtain c cs where c: "formatNat n = c # cs" by (meson formatNat_nonempty neq_Nil_conv)
  with formatNat_digits [of n] obtain d where "d < 10" "c = digitChar d" by auto
  then have "c \<noteq> CHR ''-''" "c \<noteq> CHR ''+''" using digitChar_not_sign by auto
  with c assms parseDigits_formatNat [of n] show ?thesis by (simp add: parseInt_def)
qed

lemma trimSpace_formatNat_nl: "trimSpace (formatNat n @ [CHR 10]) = formatNat n"
proof -
  have nosp: "\<forall>c \<in> set (formatNat n). \<not> isSpace c" using formatNat_digits [of n] by auto
  then have dw: "dropWhile isSpace (formatNat n @ zs) = formatNat n @ zs" for zs
    using formatNat_nonempty [of n] by (cases "formatNat n") auto
  have "dropWhile isSpace (rev (formatNat n)) = rev (formatNat n)"
    using nosp formatNat_nonempty [of n]
    by (cases "rev (formatNat n)") (auto simp: dropWhile_eq_self_iff)
  moreover have "isSpace (CHR 10)" by (simp add: isSpace_def)
  ultimately show ?thesis by (simp add: trimSpace_def dw)
qed

section \<open>Computations with state and errors\<close>

type_synonym ('s, 'e, 'a) act = "'s \<Rightarrow> ('e + 'a) \<times> 's"

definition ret :: "'a \<Rightarrow> ('s, 'e, 'a) act" where
  "ret x = (\<lambda>s. (Inr x, s))"

definition throw :: "'e \<Rightarrow> ('s, 'e, 'a) act" where
  "throw e = (\<lambda>s. (Inl e, s))"

definition bindE :: "('s, 'e, 'a) act \<Rightarrow> ('a \<Rightarrow> ('s, 'e, 'b) act) \<Rightarrow> ('s, 'e, 'b) act" where
  "bindE m f = (\<lambda>s. case m s of (Inl e, s') \<Rightarrow> (Inl e, s') | (Inr x, s') \<Rightarrow> f x s')"

definition seqE :: "('s, 'e, 'a) act \<Rightarrow> ('s, 'e, 'b) act \<Rightarrow> ('s, 'e, 'b) act" where
  "seqE m k = bindE m (\<lambda>_. k)"

definition gets :: "('s \<Rightarrow> 'a) \<Rightarrow> ('s, 'e, 'a) act" where
  "gets f = (\<lambda>s. (Inr (f s), s))"

definition modify :: "('s \<Rightarrow> 's) \<Rightarrow> ('s, 'e, unit) act" where
  "modify f = (\<lambda>s. (Inr (), f s))"

text \<open>Go's \<^verbatim>\<open>_ = m\<close>: run the computation and discard its error.\<close>

definition ignoreE :: "('s, 'e, 'a) act \<Rightarrow> ('s, 'e, unit) act" where
  "ignoreE m = (\<lambda>s. (Inr (), snd (m s)))"

text \<open>Run a cleanup on the error path and return the original error.\<close>

definition onErr :: "('s, 'e, 'a) act \<Rightarrow> ('s, 'e, 'b) act \<Rightarrow> ('s, 'e, 'a) act" where
  "onErr m h = (\<lambda>s. case m s of (Inl e, s') \<Rightarrow> (Inl e, snd (h s')) | (Inr x, s') \<Rightarrow> (Inr x, s'))"

definition wp :: "('s, 'e, 'a) act \<Rightarrow> ('e + 'a \<Rightarrow> 's \<Rightarrow> bool) \<Rightarrow> 's \<Rightarrow> bool" where
  "wp m Q s = (case m s of (r, s') \<Rightarrow> Q r s')"

lemma wp_ret [wp_simps]: "wp (ret x) Q s = Q (Inr x) s"
  by (simp add: wp_def ret_def)

lemma wp_throw [wp_simps]: "wp (throw e) Q s = Q (Inl e) s"
  by (simp add: wp_def throw_def)

lemma wp_bindE [wp_simps]:
  "wp (bindE m f) Q s = wp m (\<lambda>r s'. case r of Inl e \<Rightarrow> Q (Inl e) s' | Inr x \<Rightarrow> wp (f x) Q s') s"
  by (auto simp: wp_def bindE_def split: prod.splits sum.splits)

lemma wp_seqE [wp_simps]:
  "wp (seqE m k) Q s = wp m (\<lambda>r s'. case r of Inl e \<Rightarrow> Q (Inl e) s' | Inr _ \<Rightarrow> wp k Q s') s"
  by (simp add: seqE_def wp_bindE)

lemma wp_gets [wp_simps]: "wp (gets f) Q s = Q (Inr (f s)) s"
  by (simp add: wp_def gets_def)

lemma wp_modify [wp_simps]: "wp (modify f) Q s = Q (Inr ()) (f s)"
  by (simp add: wp_def modify_def)

lemma wp_ignoreE [wp_simps]: "wp (ignoreE m) Q s = wp m (\<lambda>_ s'. Q (Inr ()) s') s"
  by (simp add: wp_def ignoreE_def split: prod.splits)

lemma wp_onErr [wp_simps]:
  "wp (onErr m h) Q s =
     wp m (\<lambda>r s'. case r of Inl e \<Rightarrow> wp h (\<lambda>_ s''. Q (Inl e) s'') s' | Inr x \<Rightarrow> Q (Inr x) s') s"
  by (auto simp: wp_def onErr_def split: prod.splits sum.splits)

lemma wp_if [wp_simps]: "wp (if b then m else k) Q s = (if b then wp m Q s else wp k Q s)"
  by simp

lemma wp_mono: "wp m Q s \<Longrightarrow> (\<And>r s'. Q r s' \<Longrightarrow> Q' r s') \<Longrightarrow> wp m Q' s"
  by (auto simp: wp_def split: prod.splits)

lemma wp_conj: "wp m (\<lambda>r s'. Q r s' \<and> Q' r s') s = (wp m Q s \<and> wp m Q' s)"
  by (auto simp: wp_def split: prod.splits)

lemma wpD: "wp m Q s \<Longrightarrow> m s = (r, s') \<Longrightarrow> Q r s'"
  by (simp add: wp_def)

lemma wp_det: "m s = (r, s') \<Longrightarrow> wp m Q s = Q r s'"
  by (simp add: wp_def)

lemma wpI: "(\<And>r s'. m s = (r, s') \<Longrightarrow> Q r s') \<Longrightarrow> wp m Q s"
  by (auto simp: wp_def split: prod.splits)

text \<open>Read fields of the receiver; handle an error value.\<close>

definition getS :: "('s \<Rightarrow> ('s, 'e, 'a) act) \<Rightarrow> ('s, 'e, 'a) act" where
  "getS f = (\<lambda>s. f s s)"

definition catchE :: "('s, 'e, 'a) act \<Rightarrow> ('e \<Rightarrow> ('s, 'e, 'a) act) \<Rightarrow> ('s, 'e, 'a) act" where
  "catchE m h = (\<lambda>s. case m s of (Inl e, s') \<Rightarrow> h e s' | (Inr x, s') \<Rightarrow> (Inr x, s'))"

lemma wp_getS [wp_simps]: "wp (getS f) Q s = wp (f s) Q s"
  by (simp add: wp_def getS_def)

lemma wp_catchE [wp_simps]:
  "wp (catchE m h) Q s = wp m (\<lambda>r s'. case r of Inl e \<Rightarrow> wp (h e) Q s' | Inr x \<Rightarrow> Q (Inr x) s') s"
  by (auto simp: wp_def catchE_def split: prod.splits sum.splits)

text \<open>Compose a body from the specification of its first part.\<close>

lemma wp_seqE_I:
  assumes "wp m P s" "\<And>e s'. P (Inl e) s' \<Longrightarrow> Q (Inl e) s'" "\<And>x s'. P (Inr x) s' \<Longrightarrow> wp k Q s'"
  shows "wp (seqE m k) Q s"
  unfolding wp_seqE by (rule wp_mono [OF assms(1)]) (auto split: sum.splits intro: assms(2,3))

lemma wp_bindE_I:
  assumes "wp m P s" "\<And>e s'. P (Inl e) s' \<Longrightarrow> Q (Inl e) s'" "\<And>x s'. P (Inr x) s' \<Longrightarrow> wp (f x) Q s'"
  shows "wp (bindE m f) Q s"
  unfolding wp_bindE by (rule wp_mono [OF assms(1)]) (auto split: sum.splits intro: assms(2,3))

text \<open>Sequencing with an assertion on the state in between.\<close>

lemma wp_seq_inv:
  assumes "wp m (\<lambda>_ s'. P s') s" "\<And>e s'. P s' \<Longrightarrow> Q (Inl e) s'" "\<And>s'. P s' \<Longrightarrow> wp k Q s'"
  shows "wp (seqE m k) Q s"
  unfolding wp_seqE by (rule wp_mono [OF assms(1)]) (auto split: sum.splits intro: assms(2,3))

lemma wp_result: "wp m Q s \<longleftrightarrow> Q (fst (m s)) (snd (m s))"
  by (simp add: wp_def split: prod.splits)

lemma length_trimSpace: "length (trimSpace s) \<le> length s"
  unfolding trimSpace_def by (metis length_dropWhile_le length_rev le_trans)

lemma trimSpace_id: "\<forall>c \<in> set s. \<not> isSpace c \<Longrightarrow> trimSpace s = s"
  by (simp add: trimSpace_def dropWhile_eq_self_iff hd_in_set hd_rev)
     (metis dropWhile_eq_self_iff hd_in_set rev_rev_ident set_rev)

end
