(* ===== verification/Telemetry.thy ===== *)
theory Telemetry
  imports Prelude Complex_Main
begin

text \<open>
  The messages that collectors send to the controller, and the errors that transport and ingest
  exchange.  A message pointer that may be nil is an option.  Encoding and decoding of protocol
  buffers are parameters of the definitions that use them.  A float64 is NaN, an infinity with its
  sign, or a rational number: the modelled code only classifies and compares these values.
\<close>

section \<open>Messages\<close>

text \<open>Nanoseconds from Go's zero time to the Unix epoch.\<close>

definition unixEpoch :: int where "unixEpoch = 62135596800 * 10 ^ 9"

datatype float64 = NaN | Inf bool | Fin rat

text \<open>Comparison of floating-point numbers; \<open>Inf True\<close> is the negative infinity.\<close>

fun flt :: "float64 \<Rightarrow> float64 \<Rightarrow> bool" where
  "flt (Fin p) (Fin q) = (p < q)"
| "flt (Fin p) (Inf neg) = (\<not> neg)"
| "flt (Inf neg) (Fin q) = neg"
| "flt (Inf n1) (Inf n2) = (n1 \<and> \<not> n2)"
| "flt _ _ = False"

record Label =
  Key :: string
  Value :: string

record CollectorInfo =
  CollectorId :: string
  Hostname :: string
  CollectorVersion :: string
  Os :: string
  Arch :: string
  CollectorLabels :: "Label option list"

record Metric =
  MetricName :: string
  MetricValue :: float64
  MetricTime :: int
  MetricLabels :: "Label option list"

record ProcessSample =
  Pid :: int
  ProcessName :: string
  CpuPercent :: float64
  RssBytes :: "64 word"
  IoReadBps :: float64
  IoWriteBps :: float64

record LogFingerprint =
  Fingerprint :: string
  FingerprintCount :: "64 word"
  Example :: string
  FingerprintTime :: int

record TelemetryBatch =
  Collector :: "CollectorInfo option"
  WallTimeUnixNano :: int
  MonotonicTimeUnixNano :: int
  Metrics :: "Metric option list"
  Processes :: "ProcessSample option list"
  Logs :: "LogFingerprint option list"
  BatchId :: string
  ProducerEpoch :: string
  ProducerSequence :: "64 word"

record Ack =
  AckBatchId :: string

section \<open>Errors\<close>

datatype Code =
    OK | Canceled | Unknown | InvalidArgument | DeadlineExceeded | NotFound | AlreadyExists
  | PermissionDenied | ResourceExhausted | FailedPrecondition | Aborted | OutOfRange
  | Unimplemented | Internal | Unavailable | DataLoss | Unauthenticated

datatype ErrorKind =
    ErrorKindConfig | ErrorKindDial | ErrorKindStream | ErrorKindDecode | ErrorKindSend
  | ErrorKindReceive | ErrorKindRetryExhaust | ErrorKindTLS

text \<open>Go error values as trees: \<open>Wrapped\<close> is \<^verbatim>\<open>fmt.Errorf\<close> with one \<^verbatim>\<open>%w\<close>, \<open>Joined\<close> is
  \<^verbatim>\<open>errors.Join\<close>, \<open>TransportError\<close> is the transport's own \<^verbatim>\<open>*Error\<close>.\<close>

datatype goerr =
    ErrInvalidBatch | ErrNoEndpoints | ErrEmptyAckBatchID | ErrUnexpectedAckBatchID
  | StatusError Code string
  | Plain string
  | Wrapped string goerr
  | Joined "goerr list"
  | TransportError ErrorKind string nat goerr

text \<open>\<^verbatim>\<open>errors.Is(err, ErrInvalidBatch)\<close>, \<^verbatim>\<open>errors.As\<close> with target \<^verbatim>\<open>*Error\<close> (depth first), and
  \<^verbatim>\<open>errors.Unwrap\<close> (which does not look into \<^verbatim>\<open>errors.Join\<close>).\<close>

fun errorsIsInvalidBatch :: "goerr \<Rightarrow> bool" where
  "errorsIsInvalidBatch ErrInvalidBatch = True"
| "errorsIsInvalidBatch (Wrapped _ e) = errorsIsInvalidBatch e"
| "errorsIsInvalidBatch (Joined es) = list_ex errorsIsInvalidBatch es"
| "errorsIsInvalidBatch (TransportError _ _ _ e) = errorsIsInvalidBatch e"
| "errorsIsInvalidBatch _ = False"

fun errorsAs :: "goerr \<Rightarrow> (ErrorKind \<times> string \<times> nat \<times> goerr) option"
  and errorsAsList :: "goerr list \<Rightarrow> (ErrorKind \<times> string \<times> nat \<times> goerr) option" where
  "errorsAs (TransportError k ep n e) = Some (k, ep, n, e)"
| "errorsAs (Wrapped _ e) = errorsAs e"
| "errorsAs (Joined es) = errorsAsList es"
| "errorsAs _ = None"
| "errorsAsList [] = None"
| "errorsAsList (e # es) = (case errorsAs e of Some t \<Rightarrow> Some t | None \<Rightarrow> errorsAsList es)"

fun errorsUnwrap :: "goerr \<Rightarrow> goerr option" where
  "errorsUnwrap (Wrapped _ e) = Some e"
| "errorsUnwrap (TransportError _ _ _ e) = Some e"
| "errorsUnwrap _ = None"

lemma errorsAs_size:
  "errorsAs err = Some (k, ep, n, e) \<Longrightarrow> size e < size err"
  "errorsAsList errs = Some (k, ep, n, e) \<Longrightarrow> size e < size_list size errs"
  by (induction err and errs rule: errorsAs_errorsAsList.induct) (auto split: option.splits)

lemma errorsUnwrap_size: "errorsUnwrap err = Some e \<Longrightarrow> size e < size err"
  by (cases err) auto

text \<open>All errors in the tree of an error value.\<close>

fun nodes :: "goerr \<Rightarrow> goerr list" where
  "nodes (Wrapped m e) = Wrapped m e # nodes e"
| "nodes (Joined es) = Joined es # concat (map nodes es)"
| "nodes (TransportError k ep n e) = TransportError k ep n e # nodes e"
| "nodes e = [e]"

lemma nodes_self [simp]: "e \<in> set (nodes e)"
  by (cases e) auto

lemma errorsIs_nodes: "errorsIsInvalidBatch e \<longleftrightarrow> ErrInvalidBatch \<in> set (nodes e)"
  by (induction e) (auto simp: list_ex_iff)

lemma errorsAs_node:
  "errorsAs err = Some (k, ep, n, e) \<Longrightarrow> TransportError k ep n e \<in> set (nodes err)"
  "errorsAsList errs = Some (k, ep, n, e) \<Longrightarrow> \<exists>x \<in> set errs. TransportError k ep n e \<in> set (nodes x)"
  by (induction err and errs rule: errorsAs_errorsAsList.induct) (auto split: option.splits)

lemma nodes_trans: "y \<in> set (nodes x) \<Longrightarrow> z \<in> set (nodes y) \<Longrightarrow> z \<in> set (nodes x)"
  by (induction x) auto

end
