(* ===== verification/Identities.thy ===== *)
theory Identities
  imports Prelude
begin

text \<open>
  Authenticated identities and signed tokens (\<^verbatim>\<open>pkg/identity/identity.go\<close>, \<^verbatim>\<open>pkg/identity/token.go\<close>).

  HMAC-SHA256, the JSON encoding of the claims and raw URL base64 are arguments, collected in the
  record \<open>TokenCodec\<close>; \<open>codecLaws\<close> states what the code relies on.
  Unix seconds are integers; a zero time is 0.
\<close>

section \<open>Identities\<close>

datatype ActorType = ActorTypeUnknown | ActorTypeUser | ActorTypeService | ActorTypeInternal
datatype Role = RoleViewer | RoleOperator | RoleApprover | RoleAdmin | RoleCollector
datatype AuthnMethod = AuthnMethodAnonymous | AuthnMethodBearer | AuthnMethodAPIKey | AuthnMethodIngestAuth

fun roleName :: "Role \<Rightarrow> string" where
  "roleName RoleViewer = ''viewer''"
| "roleName RoleOperator = ''operator''"
| "roleName RoleApprover = ''approver''"
| "roleName RoleAdmin = ''admin''"
| "roleName RoleCollector = ''collector''"

record IdentityRec =
  Subject :: string
  ActorTypeOf :: ActorType
  Roles :: "Role list"
  AuthnMethodOf :: AuthnMethod
  IssuedAt :: int
  ExpiresAt :: int
  SourceIP :: string
  Audience :: string
  ActorCollectorID :: string

definition HasAnyRole :: "IdentityRec option \<Rightarrow> Role list \<Rightarrow> bool" where
  "HasAnyRole actor required = (case actor of None \<Rightarrow> False
     | Some a \<Rightarrow> required \<noteq> [] \<and> list_ex (\<lambda>have. list_ex (\<lambda>need. have = need) required) (Roles a))"

fun joinWith :: "string \<Rightarrow> string list \<Rightarrow> string" where
  "joinWith sep [] = ''''"
| "joinWith sep [x] = x"
| "joinWith sep (x # y # ys) = x @ sep @ joinWith sep (y # ys)"

definition RolesCSV :: "IdentityRec option \<Rightarrow> string" where
  "RolesCSV actor = (case actor of None \<Rightarrow> '''' | Some a \<Rightarrow> joinWith '','' (map roleName (Roles a)))"

definition NormalizeActorType :: "string \<Rightarrow> ActorType" where
  "NormalizeActorType raw = (let s = toLower (trimSpace raw) in
     if s = ''user'' then ActorTypeUser else if s = ''service'' then ActorTypeService
     else if s = ''internal'' then ActorTypeInternal else ActorTypeUnknown)"

definition NormalizeRole :: "string \<Rightarrow> Role option" where
  "NormalizeRole raw = (let s = toLower (trimSpace raw) in
     if s = ''viewer'' \<or> s = ''read_only_analyst'' \<or> s = ''analyst'' then Some RoleViewer
     else if s = ''operator'' then Some RoleOperator
     else if s = ''approver'' then Some RoleApprover
     else if s = ''admin'' then Some RoleAdmin
     else if s = ''collector'' then Some RoleCollector else None)"

fun normalizeRolesLoop :: "Role list \<Rightarrow> string list \<Rightarrow> Role list" where
  "normalizeRolesLoop out [] = out"
| "normalizeRolesLoop out (item # items) = (case NormalizeRole item of
     None \<Rightarrow> normalizeRolesLoop out items
   | Some role \<Rightarrow> if role \<in> set out then normalizeRolesLoop out items else normalizeRolesLoop (out @ [role]) items)"

definition NormalizeRoles :: "string list \<Rightarrow> Role list" where
  "NormalizeRoles raw = normalizeRolesLoop [] raw"

text \<open>\<^verbatim>\<open>strings.Split\<close> with a separator of one character.\<close>

fun splitChar :: "char \<Rightarrow> string \<Rightarrow> string list" where
  "splitChar c [] = [[]]"
| "splitChar c (x # xs) = (if x = c then [] # splitChar c xs
     else case splitChar c xs of [] \<Rightarrow> [[x]] | y # ys \<Rightarrow> (x # y) # ys)"

definition ParseRolesCSV :: "string \<Rightarrow> Role list" where
  "ParseRolesCSV raw = (let raw = trimSpace raw in
     if raw = '''' then []
     else NormalizeRoles (filter (\<lambda>p. p \<noteq> '''') (map trimSpace (splitChar (CHR '','') raw))))"

section \<open>Tokens\<close>

datatype token_error =
    ErrTokenMalformed | ErrTokenSignature | ErrTokenExpired | ErrTokenIssuer | ErrTokenAudience
  | ErrTokenMissingSub | ErrTokenMissingRoles | ErrTokenMissingSecret | ErrTokenEncode

record TokenClaims =
  CSubject :: string
  CActorType :: string
  CRoles :: "string list"
  CIssuer :: string
  CAudience :: string
  CIssuedAt :: int
  CExpiresAt :: int
  CCollectorID :: string

record VerifyOptions =
  OIssuer :: string
  OAudience :: string
  ONow :: int
  OMethod :: AuthnMethod
  OSourceIP :: string

record TokenCodec =
  hmac :: "bytes \<Rightarrow> bytes \<Rightarrow> bytes"
  b64encode :: "bytes \<Rightarrow> string"
  b64decode :: "string \<Rightarrow> bytes option"
  headerJSON :: bytes
  claimsJSON :: "TokenClaims \<Rightarrow> bytes option"
  parseClaims :: "bytes \<Rightarrow> TokenClaims option"

definition normalizeClaimRoles :: "string list \<Rightarrow> string list" where
  "normalizeClaimRoles raw = map roleName (NormalizeRoles raw)"

definition SignToken :: "TokenCodec \<Rightarrow> bytes \<Rightarrow> TokenClaims \<Rightarrow> token_error + string" where
  "SignToken T secret claims =
     (if secret = [] then Inl ErrTokenMissingSecret
      else let claims = claims\<lparr>CSubject := trimSpace (CSubject claims)\<rparr> in
        if CSubject claims = '''' then Inl ErrTokenMissingSub
        else let claims = claims\<lparr>CRoles := normalizeClaimRoles (CRoles claims)\<rparr> in
          if CRoles claims = [] then Inl ErrTokenMissingRoles
          else case claimsJSON T claims of None \<Rightarrow> Inl ErrTokenEncode
            | Some payload \<Rightarrow>
                let signingInput = b64encode T (headerJSON T) @ ''.'' @ b64encode T payload
                in Inr (signingInput @ ''.'' @ b64encode T (hmac T secret (bytesOf signingInput))))"

text \<open>\<open>clock\<close> is \<^verbatim>\<open>time.Now\<close>, used when the options carry no time.  Times are compared in nanoseconds.\<close>

definition identityOf :: "TokenClaims \<Rightarrow> Role list \<Rightarrow> VerifyOptions \<Rightarrow> IdentityRec" where
  "identityOf claims roles opts =
     \<lparr>Subject = trimSpace (CSubject claims),
      ActorTypeOf = (case NormalizeActorType (CActorType claims) of ActorTypeUnknown \<Rightarrow> ActorTypeService | t \<Rightarrow> t),
      Roles = roles, AuthnMethodOf = OMethod opts,
      IssuedAt = (if CIssuedAt claims > 0 then CIssuedAt claims * 10 ^ 9 else 0),
      ExpiresAt = (if CExpiresAt claims > 0 then CExpiresAt claims * 10 ^ 9 else 0),
      SourceIP = trimSpace (OSourceIP opts), Audience = trimSpace (CAudience claims),
      ActorCollectorID = trimSpace (CCollectorID claims)\<rparr>"

definition VerifyToken :: "TokenCodec \<Rightarrow> int \<Rightarrow> bytes \<Rightarrow> string \<Rightarrow> VerifyOptions \<Rightarrow> token_error + IdentityRec" where
  "VerifyToken T clockNow secret token opts =
     (if secret = [] then Inl ErrTokenMissingSecret
      else case splitChar (CHR ''.'') (trimSpace token) of
        [h, p, sig] \<Rightarrow>
          (case b64decode T sig of None \<Rightarrow> Inl ErrTokenMalformed
           | Some providedSig \<Rightarrow>
             if providedSig \<noteq> hmac T secret (bytesOf (h @ ''.'' @ p)) then Inl ErrTokenSignature
             else case b64decode T p of None \<Rightarrow> Inl ErrTokenMalformed
              | Some payload \<Rightarrow> (case parseClaims T payload of None \<Rightarrow> Inl ErrTokenMalformed
                | Some claims \<Rightarrow>
                    let roles = NormalizeRoles (CRoles claims);
                        now = (if ONow opts = 0 then clockNow else ONow opts) in
                    if trimSpace (CSubject claims) = '''' then Inl ErrTokenMissingSub
                    else if roles = [] then Inl ErrTokenMissingRoles
                    else if CExpiresAt claims > 0 \<and> now > CExpiresAt claims * 10 ^ 9 then Inl ErrTokenExpired
                    else if trimSpace (OIssuer opts) \<noteq> '''' \<and> trimSpace (CIssuer claims) \<noteq> trimSpace (OIssuer opts)
                      then Inl ErrTokenIssuer
                    else if trimSpace (OAudience opts) \<noteq> '''' \<and> trimSpace (CAudience claims) \<noteq> trimSpace (OAudience opts)
                      then Inl ErrTokenAudience
                    else Inr (identityOf claims roles opts)))
      | _ \<Rightarrow> Inl ErrTokenMalformed)"

fun actorTypeName :: "ActorType \<Rightarrow> string" where
  "actorTypeName ActorTypeUnknown = ''unknown''"
| "actorTypeName ActorTypeUser = ''user''"
| "actorTypeName ActorTypeService = ''service''"
| "actorTypeName ActorTypeInternal = ''internal''"

definition MintToken :: "TokenCodec \<Rightarrow> int \<Rightarrow> bytes \<Rightarrow> string \<Rightarrow> ActorType \<Rightarrow> Role list \<Rightarrow> string \<Rightarrow> string \<Rightarrow> string
    \<Rightarrow> int \<Rightarrow> int \<Rightarrow> token_error + string" where
  "MintToken T clockNow secret subject actorType roles issuer audience collectorID ttl now =
     (let now = (if now = 0 then clockNow else now) in
      SignToken T secret \<lparr>CSubject = trimSpace subject, CActorType = actorTypeName actorType, CRoles = map roleName roles,
        CIssuer = trimSpace issuer, CAudience = trimSpace audience, CIssuedAt = now div 10 ^ 9,
        CExpiresAt = (if ttl > 0 then (now + ttl) div 10 ^ 9 else 0), CCollectorID = trimSpace collectorID\<rparr>)"

section \<open>Lemmas\<close>

lemma NormalizeRole_name [simp]: "NormalizeRole (roleName r) = Some r"
  by (cases r) (simp_all add: NormalizeRole_def trimSpace_def isSpace_def toLower_def lowerChar_def Let_def)

lemma NormalizeActorType_name [simp]: "NormalizeActorType (actorTypeName t) = t"
  by (cases t) (simp_all add: NormalizeActorType_def trimSpace_def isSpace_def toLower_def lowerChar_def Let_def)

lemma normalizeRolesLoop_set: "set (normalizeRolesLoop out items) = set out \<union> {r. Some r \<in> NormalizeRole ` set items}"
  by (induction items arbitrary: out) (auto split: option.splits)

lemma normalizeRolesLoop_distinct: "distinct out \<Longrightarrow> distinct (normalizeRolesLoop out items)"
  by (induction items arbitrary: out) (auto split: option.splits)

lemma normalizeRolesLoop_names: "distinct (out @ rs) \<Longrightarrow> normalizeRolesLoop out (map roleName rs) = out @ rs"
  by (induction rs arbitrary: out) auto

lemma NormalizeRoles_idem: "NormalizeRoles (normalizeClaimRoles raw) = NormalizeRoles raw"
  using normalizeRolesLoop_names [of "[]"] normalizeRolesLoop_distinct [of "[]" raw]
  by (simp add: NormalizeRoles_def normalizeClaimRoles_def)

lemma splitChar_no: "c \<notin> set xs \<Longrightarrow> splitChar c xs = [xs]"
  by (induction xs) auto

lemma splitChar_append: "c \<notin> set xs \<Longrightarrow> splitChar c (xs @ c # ys) = xs # splitChar c ys"
  by (induction xs) auto

lemma joinWith_nonempty: "xs \<noteq> [] \<Longrightarrow> \<forall>x \<in> set xs. x \<noteq> '''' \<Longrightarrow> joinWith sep xs \<noteq> ''''"
  by (cases xs; cases "tl xs") auto

lemma splitChar_join: "xs \<noteq> [] \<Longrightarrow> \<forall>x \<in> set xs. c \<notin> set x \<Longrightarrow> splitChar c (joinWith [c] xs) = xs"
  by (induction "[c]" xs rule: joinWith.induct) (auto simp: splitChar_no splitChar_append)

lemma roleName_clean: "roleName r \<noteq> ''''" "CHR '','' \<notin> set (roleName r)" "trimSpace (roleName r) = roleName r"
  "\<forall>c \<in> set (roleName r). \<not> isSpace c"
  by (cases r; simp add: trimSpace_def isSpace_def)+

text \<open>What the code relies on in the encodings: base64 and JSON can be read back, and the base64
  alphabet has neither a dot nor white space.\<close>

definition codecLaws :: "TokenCodec \<Rightarrow> bool" where
  "codecLaws T \<longleftrightarrow> (\<forall>x. b64decode T (b64encode T x) = Some x)
     \<and> (\<forall>x. \<forall>c \<in> set (b64encode T x). c \<noteq> CHR ''.'' \<and> \<not> isSpace c)
     \<and> (\<forall>c j. claimsJSON T c = Some j \<longrightarrow> parseClaims T j = Some c)"

lemma split_signed:
  assumes "codecLaws T"
  shows "splitChar (CHR ''.'') (trimSpace (b64encode T a @ ''.'' @ b64encode T b @ ''.'' @ b64encode T c)) = [b64encode T a, b64encode T b, b64encode T c]"
proof -
  have nodot: "CHR ''.'' \<notin> set (b64encode T x)" for x using assms unfolding codecLaws_def by blast
  have "\<forall>ch \<in> set (b64encode T a @ ''.'' @ b64encode T b @ ''.'' @ b64encode T c). \<not> isSpace ch"
    using assms by (auto simp: codecLaws_def isSpace_def)
  then have "trimSpace (b64encode T a @ ''.'' @ b64encode T b @ ''.'' @ b64encode T c)
      = b64encode T a @ ''.'' @ b64encode T b @ ''.'' @ b64encode T c" by (rule trimSpace_id)
  then show ?thesis by (simp add: splitChar_append splitChar_no nodot)
qed

lemma verify_signed:
  assumes laws: "codecLaws T" and sign: "SignToken T secret claims = Inr token"
  shows "VerifyToken T clockNow secret token opts =
    (let now = (if ONow opts = 0 then clockNow else ONow opts) in
     if CExpiresAt claims > 0 \<and> now > CExpiresAt claims * 10 ^ 9 then Inl ErrTokenExpired
     else if trimSpace (OIssuer opts) \<noteq> '''' \<and> trimSpace (CIssuer claims) \<noteq> trimSpace (OIssuer opts) then Inl ErrTokenIssuer
     else if trimSpace (OAudience opts) \<noteq> '''' \<and> trimSpace (CAudience claims) \<noteq> trimSpace (OAudience opts) then Inl ErrTokenAudience
     else Inr (identityOf claims (NormalizeRoles (CRoles claims)) opts))"
proof -
  let ?c = "claims\<lparr>CSubject := trimSpace (CSubject claims), CRoles := normalizeClaimRoles (CRoles claims)\<rparr>"
  from sign obtain payload where s: "secret \<noteq> []" "trimSpace (CSubject claims) \<noteq> ''''" "normalizeClaimRoles (CRoles claims) \<noteq> []"
    "claimsJSON T ?c = Some payload"
    "token = b64encode T (headerJSON T) @ ''.'' @ b64encode T payload @ ''.'' @
       b64encode T (hmac T secret (bytesOf (b64encode T (headerJSON T) @ ''.'' @ b64encode T payload)))"
    by (auto simp: SignToken_def Let_def split: if_splits option.splits)
  have sp: "splitChar (CHR ''.'') (trimSpace token) = [b64encode T (headerJSON T), b64encode T payload,
      b64encode T (hmac T secret (bytesOf (b64encode T (headerJSON T) @ ''.'' @ b64encode T payload)))]"
    unfolding s(5) by (rule split_signed [OF laws])
  have "NormalizeRoles (CRoles claims) \<noteq> []" using s(3) by (simp add: normalizeClaimRoles_def)
  then show ?thesis
    unfolding VerifyToken_def sp
    using s(1,2,4) laws by (simp add: codecLaws_def NormalizeRoles_idem Let_def identityOf_def)
qed

end
