(* ===== verification/IngestPolicy.thy ===== *)
theory IngestPolicy
  imports Telemetry Identities
begin

text \<open>
  What the ingest server accepts (\<^verbatim>\<open>controller/ingest/server.go\<close>): validation of a batch, and
  authorization of a collector by allowlists, token identity and client certificate.

  An error of the validation is a value that names the check that failed, where the code formats a
  message.  The wire size of a batch is an argument.
\<close>

section \<open>Validation\<close>

definition maxMetricsPerBatch :: nat where "maxMetricsPerBatch = 20000"
definition maxProcessesPerBatch :: nat where "maxProcessesPerBatch = 5000"
definition maxLogsPerBatch :: nat where "maxLogsPerBatch = 5000"
definition maxNameLength :: nat where "maxNameLength = 256"
definition maxLabelLength :: nat where "maxLabelLength = 256"
definition maxBatchIDLength :: nat where "maxBatchIDLength = 256"
definition maxCollectorIDLength :: nat where "maxCollectorIDLength = 128"

lemmas ingest_limits = maxMetricsPerBatch_def maxProcessesPerBatch_def maxLogsPerBatch_def maxNameLength_def
  maxLabelLength_def maxBatchIDLength_def maxCollectorIDLength_def

datatype invalid =
    LabelNil | LabelKeyRequired | LabelKeyTooLong | LabelValueTooLong | LabelControl
  | MetricNil | NameRequired | NameTooLong | ValueNotFinite
  | ProcessNil | PidNegative | ProcessNameTooLong | ProcessNotFinite
  | LogNil | FingerprintRequired | FingerprintTooLong | ExampleTooLong
  | CollectorIdRequired | CollectorIdTooLong | HostnameRequired | CollectorLabelInvalid invalid
  | PayloadTooLarge | BatchNil | BatchIdRequired | BatchIdTooLong | EpochTooLong | EpochWithoutSequence
  | CollectorRequired | TooManyMetrics nat | TooManyProcesses nat | TooManyLogs nat
  | AtMetric nat invalid | AtProcess nat invalid | AtLog nat invalid

definition finiteValue :: "float64 \<Rightarrow> bool" where
  "finiteValue v = (case v of NaN \<Rightarrow> False | Inf _ \<Rightarrow> False | Fin _ \<Rightarrow> True)"

definition controlChars :: "char list" where
  "controlChars = [CHR 10, CHR 13, CHR 9]"

definition containsAny :: "string \<Rightarrow> char list \<Rightarrow> bool" where
  "containsAny s cs = list_ex (\<lambda>c. c \<in> set cs) s"

definition validateLabel :: "Label option \<Rightarrow> invalid option" where
  "validateLabel l = (case l of None \<Rightarrow> Some LabelNil
     | Some label \<Rightarrow> let key = trimSpace (Key label) in
        if key = '''' then Some LabelKeyRequired
        else if length key > maxLabelLength then Some LabelKeyTooLong
        else if length (Value label) > maxLabelLength then Some LabelValueTooLong
        else if containsAny key controlChars \<or> containsAny (Value label) controlChars then Some LabelControl
        else None)"

text \<open>The first error in a list, with the loops of the code as structural recursion.\<close>

fun firstInvalid :: "('a \<Rightarrow> invalid option) \<Rightarrow> 'a list \<Rightarrow> invalid option" where
  "firstInvalid f [] = None"
| "firstInvalid f (x # xs) = (case f x of Some e \<Rightarrow> Some e | None \<Rightarrow> firstInvalid f xs)"

fun firstInvalidAt :: "(nat \<Rightarrow> invalid \<Rightarrow> invalid) \<Rightarrow> ('a \<Rightarrow> invalid option) \<Rightarrow> nat \<Rightarrow> 'a list \<Rightarrow> invalid option" where
  "firstInvalidAt w f i [] = None"
| "firstInvalidAt w f i (x # xs) = (case f x of Some e \<Rightarrow> Some (w i e) | None \<Rightarrow> firstInvalidAt w f (Suc i) xs)"

definition validateMetric :: "Metric option \<Rightarrow> invalid option" where
  "validateMetric mo = (case mo of None \<Rightarrow> Some MetricNil
     | Some m \<Rightarrow>
        if trimSpace (MetricName m) = '''' then Some NameRequired
        else if length (MetricName m) > maxNameLength then Some NameTooLong
        else if \<not> finiteValue (MetricValue m) then Some ValueNotFinite
        else firstInvalid validateLabel (MetricLabels m))"

definition validateProcess :: "ProcessSample option \<Rightarrow> invalid option" where
  "validateProcess po = (case po of None \<Rightarrow> Some ProcessNil
     | Some p \<Rightarrow>
        if Pid p < 0 then Some PidNegative
        else if length (ProcessName p) > maxNameLength then Some ProcessNameTooLong
        else if \<not> finiteValue (CpuPercent p) \<or> \<not> finiteValue (IoReadBps p) \<or> \<not> finiteValue (IoWriteBps p)
        then Some ProcessNotFinite else None)"

definition validateLog :: "LogFingerprint option \<Rightarrow> invalid option" where
  "validateLog lo = (case lo of None \<Rightarrow> Some LogNil
     | Some l \<Rightarrow>
        if trimSpace (Fingerprint l) = '''' then Some FingerprintRequired
        else if length (Fingerprint l) > maxNameLength then Some FingerprintTooLong
        else if length (Example l) > 4096 then Some ExampleTooLong else None)"

definition validateCollector :: "CollectorInfo \<Rightarrow> invalid option" where
  "validateCollector c =
     (if trimSpace (CollectorId c) = '''' then Some CollectorIdRequired
      else if length (CollectorId c) > maxCollectorIDLength then Some CollectorIdTooLong
      else if trimSpace (Hostname c) = '''' then Some HostnameRequired
      else map_option CollectorLabelInvalid (firstInvalid validateLabel (CollectorLabels c)))"

definition validateIngestBatch :: "(TelemetryBatch \<Rightarrow> nat) \<Rightarrow> TelemetryBatch option \<Rightarrow> invalid option" where
  "validateIngestBatch protoSize bo = (case bo of None \<Rightarrow> Some BatchNil
     | Some b \<Rightarrow>
        if protoSize b > 4 * 1024 * 1024 then Some PayloadTooLarge
        else if trimSpace (BatchId b) = '''' then Some BatchIdRequired
        else if length (BatchId b) > maxBatchIDLength then Some BatchIdTooLong
        else let producerEpoch = trimSpace (ProducerEpoch b) in
        if length producerEpoch > 64 then Some EpochTooLong
        else if (producerEpoch = '''') \<noteq> (ProducerSequence b = 0) then Some EpochWithoutSequence
        else case Collector b of None \<Rightarrow> Some CollectorRequired
        | Some c \<Rightarrow> (case validateCollector c of Some e \<Rightarrow> Some e
          | None \<Rightarrow>
            if length (Metrics b) > maxMetricsPerBatch then Some (TooManyMetrics (length (Metrics b)))
            else if length (Processes b) > maxProcessesPerBatch then Some (TooManyProcesses (length (Processes b)))
            else if length (Logs b) > maxLogsPerBatch then Some (TooManyLogs (length (Logs b)))
            else case firstInvalidAt AtMetric validateMetric 0 (Metrics b) of Some e \<Rightarrow> Some e
              | None \<Rightarrow> (case firstInvalidAt AtProcess validateProcess 0 (Processes b) of Some e \<Rightarrow> Some e
                | None \<Rightarrow> firstInvalidAt AtLog validateLog 0 (Logs b))))"

text \<open>\<^verbatim>\<open>auxPayloadRefreshed\<close>: a metric that marks a payload of the component as refreshed.  The comparison
  with NaN is false in Go, so a NaN value does not skip the metric.\<close>

definition belowHalf :: "float64 \<Rightarrow> bool" where
  "belowHalf v = (case v of NaN \<Rightarrow> False | Inf neg \<Rightarrow> neg | Fin x \<Rightarrow> x < 1 / 2)"

definition auxPayloadRefreshed :: "Metric option list \<Rightarrow> string \<Rightarrow> bool" where
  "auxPayloadRefreshed metrics component = (let component = trimSpace component in
     if component = '''' then False
     else list_ex (\<lambda>mo. case mo of None \<Rightarrow> False
       | Some m \<Rightarrow> MetricName m = ''collector_aux_payload_refreshed'' \<and> \<not> belowHalf (MetricValue m)
           \<and> list_ex (\<lambda>lo. case lo of None \<Rightarrow> False
               | Some l \<Rightarrow> Key l = ''component'' \<and> trimSpace (Value l) = component) (MetricLabels m)) metrics)"

section \<open>Authorization\<close>

record AccessPolicy =
  AllowedCollectorIDs :: "string list"
  AllowedClusterNames :: "string list"
  AllowedPeerSubjects :: "string list"

datatype authorizationErrorKind = authorizationErrorAllowlist | authorizationErrorIdentityMismatch

datatype authorizationError =
    CollectorNotAllowed string | ClusterNotAllowed string string | PeerNotAllowed string
  | ActorNotAllowed string | CollectorMismatch string string | PeerMismatch string string

fun classifyAuthorizationError :: "authorizationError \<Rightarrow> authorizationErrorKind" where
  "classifyAuthorizationError (CollectorNotAllowed _) = authorizationErrorAllowlist"
| "classifyAuthorizationError (ClusterNotAllowed _ _) = authorizationErrorAllowlist"
| "classifyAuthorizationError (PeerNotAllowed _) = authorizationErrorAllowlist"
| "classifyAuthorizationError (ActorNotAllowed _) = authorizationErrorIdentityMismatch"
| "classifyAuthorizationError (CollectorMismatch _ _) = authorizationErrorIdentityMismatch"
| "classifyAuthorizationError (PeerMismatch _ _) = authorizationErrorIdentityMismatch"

text \<open>Trim, drop blanks, keep the first of the entries that agree up to case; \<open>seen\<close> is the map of
  lower-case keys.\<close>

fun foldedDedupe :: "string list \<Rightarrow> string list \<Rightarrow> string list" where
  "foldedDedupe seen [] = []"
| "foldedDedupe seen (v # vs) = (let value = trimSpace v in
     if value = '''' then foldedDedupe seen vs
     else if toLower value \<in> set seen then foldedDedupe seen vs
     else value # foldedDedupe (toLower value # seen) vs)"

definition normalizeStringList :: "string list \<Rightarrow> string list" where
  "normalizeStringList xs = foldedDedupe [] xs"

definition containsFold :: "string list \<Rightarrow> string \<Rightarrow> bool" where
  "containsFold values needle = (let needle = trimSpace needle in
     if needle = '''' then False else list_ex (\<lambda>v. equalFold (trimSpace v) needle) values)"

definition containsAnyFold :: "string list \<Rightarrow> string list \<Rightarrow> bool" where
  "containsAnyFold values candidates = list_ex (containsFold values) candidates"

fun firstString :: "string list \<Rightarrow> string" where
  "firstString [] = ''''"
| "firstString (v # vs) = (if trimSpace v \<noteq> '''' then trimSpace v else firstString vs)"

definition clusterKeys :: "string list" where
  "clusterKeys = [''cluster'', ''cluster_name'', ''sre.cluster'', ''topology.kubernetes.io/cluster'']"

fun clusterLabel :: "Label option list \<Rightarrow> string" where
  "clusterLabel [] = ''''"
| "clusterLabel (None # ls) = clusterLabel ls"
| "clusterLabel (Some l # ls) =
     (if toLower (trimSpace (Key l)) \<in> set clusterKeys then trimSpace (Value l) else clusterLabel ls)"

definition collectorClusterName :: "CollectorInfo option \<Rightarrow> string" where
  "collectorClusterName c = (case c of None \<Rightarrow> '''' | Some c \<Rightarrow> clusterLabel (CollectorLabels c))"

definition peerIdentityMatchesCollector :: "string list \<Rightarrow> string \<Rightarrow> bool" where
  "peerIdentityMatchesCollector subjects collectorID = (let collectorID = trimSpace collectorID in
     if collectorID = '''' then False else list_ex (\<lambda>s. equalFold (trimSpace s) collectorID) subjects)"

definition authorizeCollector :: "IdentityRec option \<Rightarrow> CollectorInfo option \<Rightarrow> string list \<Rightarrow> AccessPolicy
    \<Rightarrow> authorizationError option" where
  "authorizeCollector actor collector peerSubjects policy =
     (let collectorID = (case collector of None \<Rightarrow> '''' | Some c \<Rightarrow> trimSpace (CollectorId c));
          collectorAllowed = normalizeStringList (AllowedCollectorIDs policy);
          clusterAllowed = normalizeStringList (AllowedClusterNames policy);
          subjectAllowed = normalizeStringList (AllowedPeerSubjects policy);
          cluster = collectorClusterName collector;
          peerCheck = (if peerSubjects = [] \<or> peerIdentityMatchesCollector peerSubjects collectorID then None
                       else Some (PeerMismatch (firstString peerSubjects) collectorID))
      in if collectorAllowed \<noteq> [] \<and> \<not> containsFold collectorAllowed collectorID then Some (CollectorNotAllowed collectorID)
         else if clusterAllowed \<noteq> [] \<and> \<not> containsFold clusterAllowed cluster then Some (ClusterNotAllowed collectorID cluster)
         else if subjectAllowed \<noteq> [] \<and> \<not> containsAnyFold subjectAllowed peerSubjects
         then Some (PeerNotAllowed (firstString peerSubjects))
         else case actor of None \<Rightarrow> peerCheck
         | Some a \<Rightarrow>
             if HasAnyRole actor [RoleAdmin] then None
             else if \<not> HasAnyRole actor [RoleCollector] then Some (ActorNotAllowed (trimSpace (Subject a)))
             else let allowed = (if trimSpace (ActorCollectorID a) = '''' then trimSpace (Subject a) else trimSpace (ActorCollectorID a)) in
               if allowed \<noteq> ''*'' \<and> (allowed = '''' \<or> \<not> equalFold allowed collectorID)
               then Some (CollectorMismatch allowed collectorID)
               else peerCheck)"

definition authenticatedSubject :: "IdentityRec option \<Rightarrow> string" where
  "authenticatedSubject actor = (case actor of None \<Rightarrow> '''' | Some a \<Rightarrow> trimSpace (Subject a))"

text \<open>Identities in a client certificate: the common name, for every URI its text, host and last path
  element, and the DNS names.  \<open>pathBase\<close> is \<^verbatim>\<open>path.Base\<close>: trailing slashes are removed, an empty path
  becomes a dot and a path of slashes becomes a slash.\<close>

record Uri =
  UriString :: string
  UriHost :: string
  UriPath :: string

definition pathBase :: "string \<Rightarrow> string" where
  "pathBase p = (if p = '''' then ''.''
     else let q = rev (dropWhile (\<lambda>c. c = CHR ''/'') (rev p)) in
       let b = rev (takeWhile (\<lambda>c. c \<noteq> CHR ''/'') (rev q)) in if b = '''' then ''/'' else b)"

definition uriAliases :: "Uri option \<Rightarrow> string list" where
  "uriAliases u = (case u of None \<Rightarrow> [] | Some u \<Rightarrow> [UriString u, UriHost u, pathBase (trimSpace (UriPath u))])"

definition certificateIdentityAliases :: "string \<Rightarrow> string list \<Rightarrow> Uri option list \<Rightarrow> string list" where
  "certificateIdentityAliases commonName dnsNames uris =
     foldedDedupe [] ([commonName] @ concat (map uriAliases uris) @ dnsNames)"

text \<open>The peer of a stream: no TLS information, or the leaf certificate of a TLS connection.\<close>

record Certificate =
  CommonName :: string
  DNSNames :: "string list"
  URIs :: "Uri option list"

definition peerIdentitySubjects :: "Certificate option \<Rightarrow> string list" where
  "peerIdentitySubjects cert = (case cert of None \<Rightarrow> []
     | Some c \<Rightarrow> certificateIdentityAliases (CommonName c) (DNSNames c) (URIs c))"

section \<open>Lemmas\<close>

lemma firstInvalid_None: "firstInvalid f xs = None \<longleftrightarrow> (\<forall>x \<in> set xs. f x = None)"
  by (induction xs) (auto split: option.splits)

lemma firstInvalidAt_None: "firstInvalidAt w f i xs = None \<longleftrightarrow> (\<forall>x \<in> set xs. f x = None)"
  by (induction xs arbitrary: i) (auto split: option.splits)

lemma firstInvalidAt_Some:
  "firstInvalidAt w f i xs = Some e \<longleftrightarrow> (\<exists>j e'. j < length xs \<and> f (xs ! j) = Some e' \<and> e = w (i + j) e' \<and> (\<forall>l < j. f (xs ! l) = None))"
proof (induction xs arbitrary: i)
  case (Cons x xs)
  show ?case
  proof (cases "f x")
    case None
    have "(\<exists>j e'. j < length (x # xs) \<and> f ((x # xs) ! j) = Some e' \<and> e = w (i + j) e' \<and> (\<forall>l < j. f ((x # xs) ! l) = None))
      \<longleftrightarrow> (\<exists>j e'. j < length xs \<and> f (xs ! j) = Some e' \<and> e = w (Suc i + j) e' \<and> (\<forall>l < j. f (xs ! l) = None))" (is "?L \<longleftrightarrow> ?R")
    proof
      assume ?L
      then obtain j e' where j: "j < length (x # xs)" "f ((x # xs) ! j) = Some e'" "e = w (i + j) e'" "\<forall>l < j. f ((x # xs) ! l) = None" by blast
      with None obtain j' where "j = Suc j'" by (cases j) auto
      with j show ?R by (intro exI [of _ j'] exI [of _ e']) auto
    next
      assume ?R
      then obtain j e' where "j < length xs" "f (xs ! j) = Some e'" "e = w (Suc i + j) e'" "\<forall>l < j. f (xs ! l) = None" by blast
      with None show ?L by (intro exI [of _ "Suc j"] exI [of _ e']) (auto simp: less_Suc_eq_0_disj)
    qed
    with None Cons.IH [of "Suc i"] show ?thesis by simp
  next
    case (Some e0)
    then show ?thesis by (auto intro!: exI [of _ 0] dest: spec [of _ 0])
  qed
qed simp

lemma foldedDedupe_set:
  "{toLower v |v. v \<in> set (foldedDedupe seen xs)} \<union> set seen = {toLower (trimSpace x) |x. x \<in> set xs \<and> trimSpace x \<noteq> ''''} \<union> set seen"
proof (induction xs arbitrary: seen)
  case (Cons x xs)
  then show ?case using Cons.IH [of seen] Cons.IH [of "toLower (trimSpace x) # seen"] by (auto simp: Let_def)
qed simp

lemma foldedDedupe_trimmed: "v \<in> set (foldedDedupe seen xs) \<Longrightarrow> \<exists>x \<in> set xs. v = trimSpace x \<and> v \<noteq> ''''"
  by (induction xs arbitrary: seen) (auto simp: Let_def split: if_splits)

lemma foldedDedupe_distinct: "distinct (map toLower (foldedDedupe seen xs)) \<and> set (map toLower (foldedDedupe seen xs)) \<inter> set seen = {}"
proof (induction xs arbitrary: seen)
  case (Cons x xs)
  then show ?case using Cons.IH [of seen] Cons.IH [of "toLower (trimSpace x) # seen"] by (auto simp: Let_def)
qed simp

lemma foldedDedupe_mem: "(\<exists>v \<in> set (foldedDedupe [] xs). toLower v = toLower s) \<longleftrightarrow> (\<exists>x \<in> set xs. trimSpace x \<noteq> '''' \<and> toLower (trimSpace x) = toLower s)"
proof -
  have "toLower s \<in> {toLower v |v. v \<in> set (foldedDedupe [] xs)} \<longleftrightarrow> toLower s \<in> {toLower (trimSpace x) |x. x \<in> set xs \<and> trimSpace x \<noteq> ''''}"
    using foldedDedupe_set [of "[]" xs] by simp
  then show ?thesis by (auto simp: eq_commute)
qed

text \<open>Normalizing a list does not change what it contains.\<close>

lemma containsFold_iff:
  "containsFold xs s \<longleftrightarrow> trimSpace s \<noteq> '''' \<and> (\<exists>x \<in> set xs. toLower (trimSpace x) = toLower (trimSpace s))"
  by (simp add: containsFold_def Let_def list_ex_iff equalFold_def)

lemma toLower_Nil [simp]: "toLower s = [] \<longleftrightarrow> s = []"
  by (simp add: toLower_def)

lemma containsFold_normalize: "containsFold (normalizeStringList xs) s \<longleftrightarrow> containsFold xs s"
proof -
  have "(\<exists>v \<in> set (normalizeStringList xs). toLower (trimSpace v) = toLower (trimSpace s))
      \<longleftrightarrow> (\<exists>v \<in> set (foldedDedupe [] xs). toLower v = toLower (trimSpace s))"
    unfolding normalizeStringList_def using foldedDedupe_trimmed [of _ "[]" xs] by (metis trimSpace_idem)
  then show ?thesis
    unfolding containsFold_iff foldedDedupe_mem using toLower_Nil by metis
qed

lemma normalizeStringList_empty: "normalizeStringList xs = [] \<longleftrightarrow> (\<forall>x \<in> set xs. trimSpace x = '''')"
proof
  assume "normalizeStringList xs = []"
  then show "\<forall>x \<in> set xs. trimSpace x = ''''" using foldedDedupe_set [of "[]" xs] by (auto simp: normalizeStringList_def)
next
  assume "\<forall>x \<in> set xs. trimSpace x = ''''"
  then show "normalizeStringList xs = []" unfolding normalizeStringList_def by (induction xs) auto
qed

lemma peerMatches_iff:
  "peerIdentityMatchesCollector subjects c \<longleftrightarrow> trimSpace c \<noteq> '''' \<and> (\<exists>s \<in> set subjects. equalFold (trimSpace s) (trimSpace c))"
  by (simp add: peerIdentityMatchesCollector_def Let_def list_ex_iff)

end
