(* ===== verification/AccessProps.thy ===== *)
theory AccessProps
  imports IngestPolicy
begin

text \<open>The correctness properties of tokens, authorization and batch validation.\<close>

section \<open>Tokens\<close>

text \<open>A minted token verifies: a token signed for claims verifies with the same secret to the identity of
  these claims (trimmed subject, normalized roles, and so on), unless it has expired or the verifier
  expects another issuer or audience, and then with exactly that error.\<close>

theorem Token_roundtrip:
  assumes "codecLaws T" "SignToken T secret claims = Inr token"
  shows "VerifyToken T clockNow secret token opts =
    (let now = (if ONow opts = 0 then clockNow else ONow opts) in
     if CExpiresAt claims > 0 \<and> now > CExpiresAt claims * 10 ^ 9 then Inl ErrTokenExpired
     else if trimSpace (OIssuer opts) \<noteq> '''' \<and> trimSpace (CIssuer claims) \<noteq> trimSpace (OIssuer opts) then Inl ErrTokenIssuer
     else if trimSpace (OAudience opts) \<noteq> '''' \<and> trimSpace (CAudience claims) \<noteq> trimSpace (OAudience opts) then Inl ErrTokenAudience
     else Inr (identityOf claims (NormalizeRoles (CRoles claims)) opts))"
  using assms by (rule verify_signed)

text \<open>Only signed, unexpired tokens are accepted, and they carry no authority beyond their claims: if
  verification succeeds, the token consists of three parts whose last decodes to the HMAC of the first
  two under a nonempty secret, it has not expired, issuer and audience are as demanded, the subject is
  not blank, and the roles are known roles that the claims name.\<close>

theorem VerifyToken_authentic:
  assumes "VerifyToken T clockNow secret token opts = Inr ident"
  shows "secret \<noteq> [] \<and> (\<exists>h p sig payload claims. splitChar (CHR ''.'') (trimSpace token) = [h, p, sig]
      \<and> b64decode T sig = Some (hmac T secret (bytesOf (h @ ''.'' @ p))) \<and> b64decode T p = Some payload
      \<and> parseClaims T payload = Some claims
      \<and> (CExpiresAt claims > 0 \<longrightarrow> (if ONow opts = 0 then clockNow else ONow opts) \<le> CExpiresAt claims * 10 ^ 9)
      \<and> (trimSpace (OIssuer opts) \<noteq> '''' \<longrightarrow> trimSpace (CIssuer claims) = trimSpace (OIssuer opts))
      \<and> (trimSpace (OAudience opts) \<noteq> '''' \<longrightarrow> trimSpace (CAudience claims) = trimSpace (OAudience opts))
      \<and> Subject ident = trimSpace (CSubject claims) \<and> Subject ident \<noteq> ''''
      \<and> Roles ident \<noteq> [] \<and> distinct (Roles ident) \<and> (\<forall>r \<in> set (Roles ident). \<exists>s \<in> set (CRoles claims). NormalizeRole s = Some r)
      \<and> ActorTypeOf ident \<noteq> ActorTypeUnknown)"
proof -
  from assms obtain h p sig payload claims where c: "secret \<noteq> []" "splitChar (CHR ''.'') (trimSpace token) = [h, p, sig]"
    "b64decode T sig = Some (hmac T secret (bytesOf (h @ ''.'' @ p)))" "b64decode T p = Some payload" "parseClaims T payload = Some claims"
    unfolding VerifyToken_def by (auto split: if_splits list.splits option.splits)
  with assms have ident: "ident = identityOf claims (NormalizeRoles (CRoles claims)) opts" and
    rest: "trimSpace (CSubject claims) \<noteq> ''''" "NormalizeRoles (CRoles claims) \<noteq> []"
      "CExpiresAt claims > 0 \<longrightarrow> (if ONow opts = 0 then clockNow else ONow opts) \<le> CExpiresAt claims * 10 ^ 9"
      "trimSpace (OIssuer opts) \<noteq> '''' \<longrightarrow> trimSpace (CIssuer claims) = trimSpace (OIssuer opts)"
      "trimSpace (OAudience opts) \<noteq> '''' \<longrightarrow> trimSpace (CAudience claims) = trimSpace (OAudience opts)"
    by (auto simp: VerifyToken_def Let_def split: if_splits)
  have "ActorTypeOf ident \<noteq> ActorTypeUnknown" unfolding ident identityOf_def by (simp split: ActorType.splits)
  moreover have "distinct (NormalizeRoles (CRoles claims))" by (simp add: NormalizeRoles_def normalizeRolesLoop_distinct)
  moreover have "\<forall>r \<in> set (NormalizeRoles (CRoles claims)). \<exists>s \<in> set (CRoles claims). NormalizeRole s = Some r"
    using normalizeRolesLoop_set [of "[]" "CRoles claims"] by (auto simp: NormalizeRoles_def)
  ultimately show ?thesis using c rest unfolding ident by (auto simp: identityOf_def)
qed

section \<open>Authorization\<close>

text \<open>A cascade of checks passes if every check passes.\<close>

lemma cascade:
  "(case x of None \<Rightarrow> y | Some e \<Rightarrow> Some e) = None \<longleftrightarrow> x = None \<and> y = None"
  "(if b then Some e else y) = None \<longleftrightarrow> \<not> b \<and> y = None"
  by (auto split: option.splits)

text \<open>C14. The authorization decision, without the order of the checks: a collector may submit exactly if its
  id, its cluster and its peer subjects satisfy the allowlists that are set (up to case and
  surrounding blanks), and the actor is an admin, or is absent or a collector bound to this id (or to
  the wildcard) while every client certificate presented also names this id.\<close>

theorem authorizeCollector_iff:
  "authorizeCollector actor (Some c) peers policy = None \<longleftrightarrow>
     ((\<exists>x \<in> set (AllowedCollectorIDs policy). trimSpace x \<noteq> '''') \<longrightarrow> containsFold (AllowedCollectorIDs policy) (CollectorId c))
   \<and> ((\<exists>x \<in> set (AllowedClusterNames policy). trimSpace x \<noteq> '''') \<longrightarrow> containsFold (AllowedClusterNames policy) (clusterLabel (CollectorLabels c)))
   \<and> ((\<exists>x \<in> set (AllowedPeerSubjects policy). trimSpace x \<noteq> '''') \<longrightarrow> (\<exists>p \<in> set peers. containsFold (AllowedPeerSubjects policy) p))
   \<and> ((\<exists>a. actor = Some a \<and> RoleAdmin \<in> set (Roles a))
      \<or> ((\<forall>a. actor = Some a \<longrightarrow> RoleCollector \<in> set (Roles a) \<and>
            (let bound = (if trimSpace (ActorCollectorID a) = '''' then trimSpace (Subject a) else trimSpace (ActorCollectorID a))
             in bound = ''*'' \<or> bound \<noteq> '''' \<and> equalFold bound (trimSpace (CollectorId c))))
         \<and> (peers = [] \<or> trimSpace (CollectorId c) \<noteq> '''' \<and> (\<exists>p \<in> set peers. equalFold (trimSpace p) (trimSpace (CollectorId c))))))"
proof -
  have trim: "containsFold xs (trimSpace s) = containsFold xs s" for xs s by (simp add: containsFold_iff)
  have role: "HasAnyRole (Some a) [r] \<longleftrightarrow> r \<in> set (Roles a)" for a r
    by (auto simp: HasAnyRole_def list_ex_iff)
  define P where "P = (if peers = [] \<or> peerIdentityMatchesCollector peers (trimSpace (CollectorId c)) then None
     else Some (PeerMismatch (firstString peers) (trimSpace (CollectorId c))))"
  have peer: "P = None \<longleftrightarrow> peers = [] \<or> trimSpace (CollectorId c) \<noteq> '''' \<and> (\<exists>p \<in> set peers. equalFold (trimSpace p) (trimSpace (CollectorId c)))"
    by (simp add: P_def peerMatches_iff)
  define A where "A = (case actor of None \<Rightarrow> P
     | Some a \<Rightarrow> if HasAnyRole actor [RoleAdmin] then None
         else if \<not> HasAnyRole actor [RoleCollector] then Some (ActorNotAllowed (trimSpace (Subject a)))
         else let allowed = (if trimSpace (ActorCollectorID a) = '''' then trimSpace (Subject a) else trimSpace (ActorCollectorID a)) in
           if allowed \<noteq> ''*'' \<and> (allowed = '''' \<or> \<not> equalFold allowed (trimSpace (CollectorId c)))
           then Some (CollectorMismatch allowed (trimSpace (CollectorId c))) else P)"
  have act: "A = None \<longleftrightarrow> ((\<exists>a. actor = Some a \<and> RoleAdmin \<in> set (Roles a))
      \<or> ((\<forall>a. actor = Some a \<longrightarrow> RoleCollector \<in> set (Roles a) \<and>
            (let bound = (if trimSpace (ActorCollectorID a) = '''' then trimSpace (Subject a) else trimSpace (ActorCollectorID a))
             in bound = ''*'' \<or> bound \<noteq> '''' \<and> equalFold bound (trimSpace (CollectorId c)))) \<and> P = None))"
    unfolding A_def Let_def by (cases actor) (simp_all add: role cascade(2) del: not_None_eq)
  have "authorizeCollector actor (Some c) peers policy = None \<longleftrightarrow>
      \<not> (normalizeStringList (AllowedCollectorIDs policy) \<noteq> [] \<and> \<not> containsFold (normalizeStringList (AllowedCollectorIDs policy)) (trimSpace (CollectorId c)))
    \<and> \<not> (normalizeStringList (AllowedClusterNames policy) \<noteq> [] \<and> \<not> containsFold (normalizeStringList (AllowedClusterNames policy)) (clusterLabel (CollectorLabels c)))
    \<and> \<not> (normalizeStringList (AllowedPeerSubjects policy) \<noteq> [] \<and> \<not> containsAnyFold (normalizeStringList (AllowedPeerSubjects policy)) peers)
    \<and> A = None"
    unfolding authorizeCollector_def Let_def option.case collectorClusterName_def P_def [symmetric] A_def [unfolded Let_def, symmetric] cascade(2) by (rule refl)
  moreover have list: "\<not> (normalizeStringList xs \<noteq> [] \<and> \<not> Q) \<longleftrightarrow> ((\<exists>x \<in> set xs. trimSpace x \<noteq> '''') \<longrightarrow> Q)" for xs Q
    unfolding normalizeStringList_empty by blast
  ultimately show ?thesis
    unfolding act peer list containsFold_normalize containsAnyFold_def list_ex_iff trim by simp
qed

text \<open>The identities read from a client certificate are exactly the trimmed non-blank common name, DNS
  names, and URI texts, hosts and last path elements, without repetition up to case; for a URI with an
  empty path the last path element is the single dot that \<^verbatim>\<open>path.Base\<close> returns.\<close>

theorem certificate_aliases:
  "distinct (map toLower (certificateIdentityAliases cn dns uris))
   \<and> (\<forall>s. (\<exists>v \<in> set (certificateIdentityAliases cn dns uris). equalFold v s) \<longleftrightarrow>
        (\<exists>v. trimSpace v \<noteq> '''' \<and> equalFold (trimSpace v) s \<and>
          (v = cn \<or> v \<in> set dns \<or> (\<exists>u. Some u \<in> set uris \<and> (v = UriString u \<or> v = UriHost u
             \<or> v = pathBase (trimSpace (UriPath u)))))))
   \<and> pathBase '''' = ''.''"
proof -
  let ?xs = "[cn] @ concat (map uriAliases uris) @ dns"
  have mem: "v \<in> set ?xs \<longleftrightarrow> v = cn \<or> v \<in> set dns \<or> (\<exists>u. Some u \<in> set uris \<and> (v = UriString u \<or> v = UriHost u
             \<or> v = pathBase (trimSpace (UriPath u))))" for v
    by (auto simp: uriAliases_def split: option.splits)
  have "(\<exists>v \<in> set (certificateIdentityAliases cn dns uris). equalFold v s) \<longleftrightarrow>
      (\<exists>v \<in> set ?xs. trimSpace v \<noteq> '''' \<and> equalFold (trimSpace v) s)" for s
    unfolding certificateIdentityAliases_def equalFold_def by (rule foldedDedupe_mem)
  moreover have "distinct (map toLower (certificateIdentityAliases cn dns uris))"
    unfolding certificateIdentityAliases_def using foldedDedupe_distinct by blast
  moreover have "(\<exists>v \<in> set ?xs. trimSpace v \<noteq> '''' \<and> equalFold (trimSpace v) s) \<longleftrightarrow>
        (\<exists>v. trimSpace v \<noteq> '''' \<and> equalFold (trimSpace v) s \<and>
          (v = cn \<or> v \<in> set dns \<or> (\<exists>u. Some u \<in> set uris \<and> (v = UriString u \<or> v = UriHost u
             \<or> v = pathBase (trimSpace (UriPath u))))))" for s
    unfolding mem [symmetric] by blast
  moreover have "pathBase '''' = ''.''" by (simp add: pathBase_def)
  ultimately show ?thesis by blast
qed

section \<open>Validation\<close>

text \<open>Batch validation accepts exactly the batches within the documented limits: bounded size and
  counts, a batch id, an epoch together with a sequence number, a named collector with a host name, and
  only well-formed metrics, processes, logs and labels with finite numbers.\<close>

definition labelOK :: "Label option \<Rightarrow> bool" where
  "labelOK lo \<longleftrightarrow> (\<exists>l. lo = Some l \<and> trimSpace (Key l) \<noteq> '''' \<and> length (trimSpace (Key l)) \<le> 256 \<and> length (Value l) \<le> 256
     \<and> set (trimSpace (Key l)) \<inter> {CHR 10, CHR 13, CHR 9} = {} \<and> set (Value l) \<inter> {CHR 10, CHR 13, CHR 9} = {})"

definition metricOK :: "Metric option \<Rightarrow> bool" where
  "metricOK mo \<longleftrightarrow> (\<exists>m. mo = Some m \<and> trimSpace (MetricName m) \<noteq> '''' \<and> length (MetricName m) \<le> 256
     \<and> (\<exists>x. MetricValue m = Fin x) \<and> (\<forall>l \<in> set (MetricLabels m). labelOK l))"

definition processOK :: "ProcessSample option \<Rightarrow> bool" where
  "processOK po \<longleftrightarrow> (\<exists>p. po = Some p \<and> 0 \<le> Pid p \<and> length (ProcessName p) \<le> 256
     \<and> (\<exists>x y z. CpuPercent p = Fin x \<and> IoReadBps p = Fin y \<and> IoWriteBps p = Fin z))"

definition logOK :: "LogFingerprint option \<Rightarrow> bool" where
  "logOK lo \<longleftrightarrow> (\<exists>l. lo = Some l \<and> trimSpace (Fingerprint l) \<noteq> '''' \<and> length (Fingerprint l) \<le> 256 \<and> length (Example l) \<le> 4096)"

definition collectorOK :: "CollectorInfo \<Rightarrow> bool" where
  "collectorOK c \<longleftrightarrow> trimSpace (CollectorId c) \<noteq> '''' \<and> length (CollectorId c) \<le> 128 \<and> trimSpace (Hostname c) \<noteq> ''''
     \<and> (\<forall>l \<in> set (CollectorLabels c). labelOK l)"

lemma finiteValue_iff: "finiteValue v \<longleftrightarrow> (\<exists>x. v = Fin x)"
  by (cases v) (simp_all add: finiteValue_def)

lemma containsAny_iff: "containsAny s cs \<longleftrightarrow> set s \<inter> set cs \<noteq> {}"
  by (auto simp: containsAny_def list_ex_iff)

lemma validateLabel_iff: "validateLabel l = None \<longleftrightarrow> labelOK l"
  by (auto simp: validateLabel_def labelOK_def Let_def maxLabelLength_def containsAny_iff controlChars_def split: option.splits)

lemma validateMetric_iff: "validateMetric m = None \<longleftrightarrow> metricOK m"
  by (auto simp: validateMetric_def metricOK_def maxNameLength_def finiteValue_iff firstInvalid_None validateLabel_iff split: option.splits)

lemma validateProcess_iff: "validateProcess p = None \<longleftrightarrow> processOK p"
  by (auto simp: validateProcess_def processOK_def maxNameLength_def finiteValue_iff split: option.splits)

lemma validateLog_iff: "validateLog l = None \<longleftrightarrow> logOK l"
  by (auto simp: validateLog_def logOK_def maxNameLength_def split: option.splits)

lemma validateCollector_iff: "validateCollector c = None \<longleftrightarrow> collectorOK c"
  by (auto simp: validateCollector_def collectorOK_def maxCollectorIDLength_def firstInvalid_None validateLabel_iff)

theorem validateIngestBatch_iff:
  "validateIngestBatch protoSize (Some b) = None \<longleftrightarrow>
     protoSize b \<le> 4 * 1024 * 1024 \<and> trimSpace (BatchId b) \<noteq> '''' \<and> length (BatchId b) \<le> 256
   \<and> length (trimSpace (ProducerEpoch b)) \<le> 64 \<and> (trimSpace (ProducerEpoch b) = '''' \<longleftrightarrow> ProducerSequence b = 0)
   \<and> (\<exists>c. Collector b = Some c \<and> collectorOK c)
   \<and> length (Metrics b) \<le> 20000 \<and> length (Processes b) \<le> 5000 \<and> length (Logs b) \<le> 5000
   \<and> list_all metricOK (Metrics b) \<and> list_all processOK (Processes b) \<and> list_all logOK (Logs b)"
proof (cases "Collector b")
  case None
  then show ?thesis by (auto simp: validateIngestBatch_def Let_def)
next
  case (Some c)
  show ?thesis
    unfolding validateIngestBatch_def Let_def option.case Some cascade
    by (simp add: firstInvalidAt_None validateMetric_iff validateProcess_iff validateLog_iff validateCollector_iff list_all_iff
        maxBatchIDLength_def maxMetricsPerBatch_def maxProcessesPerBatch_def maxLogsPerBatch_def not_less)
qed

section \<open>Witnesses\<close>

text \<open>Two letters per byte in place of base64, one set of claims in place of JSON, and a checksum in
  place of the HMAC.\<close>

definition letters :: "bytes \<Rightarrow> string" where
  "letters bs = concat (map (\<lambda>b. [char_of (97 + unat b div 16), char_of (97 + unat b mod 16)]) bs)"

fun unletters :: "string \<Rightarrow> bytes option" where
  "unletters [] = Some []"
| "unletters [c] = None"
| "unletters (a # b # r) = map_option ((#) (of_nat (16 * (of_char a - 97) + (of_char b - 97)))) (unletters r)"

lemma byte_digits: "unat (b :: byte) div 16 < 16" "unat b mod 16 < 16"
  using unsigned_less [of b, where ?'a = nat] by (simp_all add: less_mult_imp_div_less)

lemma of_char_of_97: "n < 16 \<Longrightarrow> (of_char (char_of (97 + n)) :: nat) = 97 + n"
  by simp

lemma unletters_letters: "unletters (letters bs) = Some bs"
proof (induction bs)
  case (Cons b bs)
  have "16 * (unat b div 16) + unat b mod 16 = unat b" by simp
  with Cons byte_digits [of b] show ?case
    by (simp add: letters_def of_char_of_97 del: of_char_of)
qed (simp add: letters_def)

lemma letters_clean: "c \<in> set (letters bs) \<Longrightarrow> c \<noteq> CHR ''.'' \<and> \<not> isSpace c"
proof -
  assume "c \<in> set (letters bs)"
  then obtain n :: nat where n: "n < 16" "c = char_of (97 + n)" using byte_digits by (auto simp: letters_def) (metis mod_less_divisor zero_less_numeral)
  then have "(of_char c :: nat) = 97 + n" by simp
  moreover have "(of_char (CHR ''.'') :: nat) = 46" by simp
  ultimately show ?thesis using n(1) by (auto simp: isSpace_def)
qed

definition exampleClaims :: TokenClaims where
  "exampleClaims = \<lparr>CSubject = ''n1'', CActorType = ''service'', CRoles = [''collector''], CIssuer = ''ctl'', CAudience = '''',
     CIssuedAt = 0, CExpiresAt = 0, CCollectorID = ''n1''\<rparr>"

definition exampleCodec :: TokenCodec where
  "exampleCodec = \<lparr>hmac = (\<lambda>k m. [sum_list k + sum_list m]), b64encode = letters, b64decode = unletters, headerJSON = [1],
     claimsJSON = (\<lambda>c. if c = exampleClaims then Some [2] else None),
     parseClaims = (\<lambda>j. if j = [2] then Some exampleClaims else None)\<rparr>"

lemma exampleCodec_laws: "codecLaws exampleCodec"
  by (auto simp: codecLaws_def exampleCodec_def unletters_letters dest: letters_clean split: if_splits)

definition exampleOpts :: VerifyOptions where
  "exampleOpts = \<lparr>OIssuer = ''ctl'', OAudience = '''', ONow = 7, OMethod = AuthnMethodIngestAuth, OSourceIP = ''''\<rparr>"

lemma exampleClaims_signed: "\<exists>token. SignToken exampleCodec [9] exampleClaims = Inr token"
  by (simp add: SignToken_def exampleCodec_def exampleClaims_def normalizeClaimRoles_def NormalizeRoles_def NormalizeRole_def
      trimSpace_def isSpace_def toLower_def lowerChar_def Let_def)

theorem Token_roundtrip_witness:
  "\<exists>token. VerifyToken exampleCodec 0 [9] token exampleOpts = Inr (identityOf exampleClaims (NormalizeRoles (CRoles exampleClaims)) exampleOpts)"
proof -
  obtain token where "SignToken exampleCodec [9] exampleClaims = Inr token" using exampleClaims_signed by blast
  from Token_roundtrip [OF exampleCodec_laws this, of 0 exampleOpts] show ?thesis
    by (auto simp: exampleOpts_def exampleClaims_def Let_def)
qed

theorem VerifyToken_authentic_witness:
  "\<exists>token h p sig. splitChar (CHR ''.'') (trimSpace token) = [h, p, sig] \<and> unletters sig = Some (hmac exampleCodec [9] (bytesOf (h @ ''.'' @ p)))"
proof -
  obtain token where t: "SignToken exampleCodec [9] exampleClaims = Inr token" using exampleClaims_signed by blast
  from verify_signed [OF exampleCodec_laws t, of 0 exampleOpts]
  have "VerifyToken exampleCodec 0 [9] token exampleOpts = Inr (identityOf exampleClaims (NormalizeRoles (CRoles exampleClaims)) exampleOpts)"
    by (auto simp: exampleOpts_def exampleClaims_def Let_def)
  from VerifyToken_authentic [OF this] show ?thesis by (auto simp: exampleCodec_def)
qed

definition exampleCollector :: CollectorInfo where
  "exampleCollector = \<lparr>CollectorId = ''n1'', Hostname = ''h'', CollectorVersion = '''', Os = '''', Arch = '''', CollectorLabels = []\<rparr>"

theorem authorizeCollector_iff_witness:
  "authorizeCollector None (Some exampleCollector) [''n1''] \<lparr>AllowedCollectorIDs = [''n1''], AllowedClusterNames = [], AllowedPeerSubjects = []\<rparr> = None"
  unfolding authorizeCollector_iff
  by (simp add: exampleCollector_def containsFold_iff trimSpace_def isSpace_def toLower_def lowerChar_def equalFold_def)

end
