(* ===== verification/SpoolCodec.thy ===== *)
theory SpoolCodec
  imports Prelude
begin

text \<open>
  The byte formats of the collector's spool (\<^verbatim>\<open>collector/spool/spool.go\<close>): the CRC-32C checksum,
  the 16-byte v2 record header, the legacy v1 framing, and the loops that walk over a
  sequence of records (start-up scan, boundary check, eviction).

  Each loop is translated with its position variable as the code has it.  They are then
  related to one reference function, \<open>splitRecords\<close>, which cuts a byte string into its
  complete records and an unparsed rest, so that facts about the format are proved once.
\<close>

named_theorems codec_simps "unfolding rules for the record format"

section \<open>CRC-32C (package hash/crc32)\<close>

text \<open>\<^verbatim>\<open>simpleMakeTable\<close>: the table entry of a byte is eight shift-and-reduce steps by the
  reversed Castagnoli polynomial; \<^verbatim>\<open>simpleUpdate\<close> folds the bytes over the complemented crc.\<close>

definition castagnoli :: "32 word" where
  "castagnoli = 0x82F63B78"

definition crcShift :: "32 word \<Rightarrow> 32 word" where
  "crcShift c = (if bit c 0 then drop_bit 1 c XOR castagnoli else drop_bit 1 c)"

definition castagnoliTable :: "byte \<Rightarrow> 32 word" where
  "castagnoliTable b = (crcShift ^^ 8) (ucast b)"

definition crcStep :: "32 word \<Rightarrow> byte \<Rightarrow> 32 word" where
  "crcStep c v = castagnoliTable (ucast c XOR v) XOR drop_bit 8 c"

definition crcUpdate :: "32 word \<Rightarrow> bytes \<Rightarrow> 32 word" where
  "crcUpdate c p = NOT (foldl crcStep (NOT c) p)"

lemma crcUpdate_append: "crcUpdate (crcUpdate c a) b = crcUpdate c (a @ b)"
  by (simp add: crcUpdate_def)

lemma crcShift_xor: "crcShift (a XOR b) = crcShift a XOR crcShift b"
  by (rule bit_word_eqI) (auto simp: crcShift_def bit_simps)

lemma crcShift_0 [simp]: "crcShift 0 = 0"
  by (simp add: crcShift_def)

lemma crcShift_pow_xor: "(crcShift ^^ n) (a XOR b) = (crcShift ^^ n) a XOR (crcShift ^^ n) b"
  by (induction n) (simp_all add: crcShift_xor)

lemma castagnoli_top: "bit castagnoli 31"
  by (simp add: castagnoli_def)

lemma crcShift_top: "bit (crcShift c) 31 = bit c 0"
  using castagnoli_top bit_imp_le_length [of c 32] by (auto simp: crcShift_def bit_simps)

lemma inj_crcShift: "inj crcShift"
proof (rule injI)
  fix a b assume eq: "crcShift a = crcShift b"
  then have low: "bit a 0 = bit b 0" by (metis crcShift_top)
  with eq have "drop_bit 1 a = drop_bit 1 b" by (auto simp: crcShift_def split: if_splits)
  then have "bit (drop_bit 1 a) n = bit (drop_bit 1 b) n" for n by simp
  then have "bit a (Suc n) = bit b (Suc n)" for n by (simp add: bit_simps)
  with low show "a = b" by (intro bit_word_eqI) (metis nat.exhaust)
qed

lemma inj_crcShift_pow: "inj (crcShift ^^ n)"
  by (induction n) (simp_all add: inj_crcShift inj_compose [unfolded comp_def] comp_def)

lemma crcShift_pow_high:
  assumes "\<forall>i < n. \<not> bit c i" "n \<le> 32"
  shows "(crcShift ^^ n) c = drop_bit n c"
  using assms
proof (induction n arbitrary: c)
  case (Suc n)
  have "crcShift c = drop_bit 1 c" using Suc.prems by (simp add: crcShift_def)
  moreover have "\<forall>i < n. \<not> bit (drop_bit 1 c) i" using Suc.prems(1) by (auto simp: bit_simps)
  ultimately have "(crcShift ^^ Suc n) c = drop_bit n (drop_bit 1 c)"
    using Suc.IH [of "drop_bit 1 c"] Suc.prems(2) by (simp add: funpow_swap1)
  then show ?case by (simp add: drop_bit_drop_bit)
qed simp

text \<open>The table-driven step is the bitwise reduction of the whole register.\<close>

lemma crcStep_bitwise: "crcStep c v = (crcShift ^^ 8) (c XOR ucast v)"
proof -
  define lo :: "32 word" where "lo = ucast (ucast c XOR v :: byte)"
  define hi where "hi = push_bit 8 (drop_bit 8 c)"
  have split: "c XOR ucast v = lo XOR hi"
    by (rule bit_word_eqI) (auto simp: lo_def hi_def bit_simps)
  have "(crcShift ^^ 8) hi = drop_bit 8 hi"
    by (rule crcShift_pow_high) (simp_all add: hi_def bit_simps)
  also have "\<dots> = drop_bit 8 c"
    by (rule bit_word_eqI) (auto simp: hi_def bit_simps dest: bit_imp_le_length)
  finally show ?thesis
    by (simp add: crcStep_def castagnoliTable_def split crcShift_pow_xor lo_def)
qed

lemma crcStep_inj_state: "crcStep c v = crcStep d v \<longleftrightarrow> c = d"
  using inj_crcShift_pow [of 8] by (simp add: crcStep_bitwise inj_eq)

lemma crcStep_inj_byte: "crcStep c v = crcStep c w \<longleftrightarrow> v = w"
proof
  assume "crcStep c v = crcStep c w"
  then have eq: "(ucast v :: 32 word) = ucast w"
    using inj_crcShift_pow [of 8] by (simp add: crcStep_bitwise inj_eq)
  show "v = w"
  proof (rule bit_word_eqI)
    fix n assume "n < LENGTH(8)"
    with arg_cong [OF eq, of "\<lambda>x. bit x n"] show "bit v n = bit w n" by (simp add: bit_simps)
  qed
qed simp

lemma foldl_crcStep_inj: "foldl crcStep c p = foldl crcStep d p \<longleftrightarrow> c = d"
  by (induction p arbitrary: c d) (simp_all add: crcStep_inj_state)

text \<open>Any change confined to one byte changes the checksum.\<close>

lemma crcUpdate_single_byte:
  assumes "v \<noteq> w"
  shows "crcUpdate c (xs @ v # ys) \<noteq> crcUpdate c (xs @ w # ys)"
  using assms
  by (simp add: crcUpdate_def foldl_crcStep_inj crcStep_inj_byte)

section \<open>The v2 record\<close>

definition recordMagic :: string where "recordMagic = ''SPL2''"
definition recordVersion :: byte where "recordVersion = 2"
abbreviation (input) recordHeaderSize :: nat where "recordHeaderSize \<equiv> 16"
abbreviation (input) legacyHeaderSize :: nat where "legacyHeaderSize \<equiv> 4"

text \<open>The first twelve header bytes, as \<^verbatim>\<open>encodeRecord\<close> lays them out before the checksum.\<close>

definition headerPrefix :: "nat \<Rightarrow> bytes" where
  "headerPrefix n = bytesOf recordMagic @ [recordVersion, 0] @ putUint16 16 @ putUint32 (of_nat n)"

definition recordChecksum :: "bytes \<Rightarrow> bytes \<Rightarrow> 32 word" where
  "recordChecksum header payload = crcUpdate (crcUpdate 0 (take 12 header)) payload"

definition encodeRecord :: "bytes \<Rightarrow> bytes" where
  "encodeRecord payload =
     headerPrefix (length payload)
     @ putUint32 (recordChecksum (headerPrefix (length payload)) payload)
     @ payload"

definition decodeHeader :: "bytes \<Rightarrow> nat \<Rightarrow> nat \<times> bool" where
  "decodeHeader header maxPayload =
     (if length header \<noteq> recordHeaderSize \<or> take 4 header \<noteq> bytesOf recordMagic
         \<or> header ! 4 \<noteq> recordVersion then (0, False)
      else if getUint16 (take 2 (drop 6 header)) \<noteq> 16 then (0, False)
      else let n = unat (getUint32 (take 4 (drop 8 header))) in (n, n \<le> maxPayload))"

lemma length_headerPrefix [simp]: "length (headerPrefix n) = 12"
  by (simp add: headerPrefix_def recordMagic_def)

lemma length_encodeRecord [simp]: "length (encodeRecord p) = 16 + length p"
  by (simp add: encodeRecord_def)

lemma encodeRecord_nonempty [simp]: "encodeRecord p \<noteq> []"
  using length_encodeRecord [of p] by (metis list.size(3) add_is_0 zero_neq_numeral)

lemma take_header_encodeRecord:
  "take 16 (encodeRecord p @ t) =
     headerPrefix (length p) @ putUint32 (recordChecksum (headerPrefix (length p)) p)"
  by (simp add: encodeRecord_def)

lemma drop_header_encodeRecord: "drop 16 (encodeRecord p @ t) = p @ t"
  by (simp add: encodeRecord_def)

lemma headerPrefix_fields:
  "take 4 (headerPrefix n) = bytesOf recordMagic"
  "headerPrefix n ! 4 = recordVersion"
  "take 2 (drop 6 (headerPrefix n)) = putUint16 16"
  "drop 8 (headerPrefix n) = putUint32 (of_nat n)"
  by (simp_all add: headerPrefix_def recordMagic_def nth_append numeral_2_eq_2)

text \<open>The header written for a payload is decoded to the length reduced modulo \<open>2 ^ 32\<close>, the
  width of the length field.\<close>

lemma decodeHeader_encodeRecord:
  "decodeHeader (take 16 (encodeRecord p @ t)) mx =
     (length p mod 2 ^ 32, length p mod 2 ^ 32 \<le> mx)"
  by (simp only: take_header_encodeRecord decodeHeader_def)
     (simp add: headerPrefix_fields nth_append unat_of_nat Let_def)

lemma decodeHeader_bound: "decodeHeader h mx = (n, True) \<Longrightarrow> n \<le> mx"
  by (auto simp: decodeHeader_def Let_def split: if_splits)

lemma decodeHeader_lt: "decodeHeader h mx = (n, ok) \<Longrightarrow> n < 2 ^ 32"
  using unsigned_less [of "getUint32 (take 4 (drop 8 h))"]
  by (auto simp: decodeHeader_def Let_def split: if_splits)

lemma decodeHeader_length: "decodeHeader h mx = (n, True) \<Longrightarrow> length h = 16"
  by (auto simp: decodeHeader_def split: if_splits)

text \<open>The stored checksum of an encoded record is the checksum of its own header and payload.\<close>

lemma encodeRecord_checksum:
  "getUint32 (take 4 (drop 12 (take 16 (encodeRecord p @ t)))) =
     recordChecksum (take 16 (encodeRecord p @ t)) p"
  by (simp only: take_header_encodeRecord) (simp add: recordChecksum_def)

section \<open>Reference cut into complete records\<close>

function splitRecords :: "nat \<Rightarrow> bytes \<Rightarrow> (bytes \<times> bytes) list \<times> bytes" where
  "splitRecords mx d =
     (if length d < 16 then ([], d)
      else case decodeHeader (take 16 d) mx of (n, ok) \<Rightarrow>
        if ok \<and> 16 + n \<le> length d
        then (case splitRecords mx (drop (16 + n) d) of (rs, t) \<Rightarrow>
               ((take 16 d, take n (drop 16 d)) # rs, t))
        else ([], d))"
  by pat_completeness auto
termination
  by (relation "measure (\<lambda>(mx, d). length d)") auto

declare splitRecords.simps [simp del]

definition tailReason :: "nat \<Rightarrow> bytes \<Rightarrow> string" where
  "tailReason mx t =
     (if t = [] then ''''
      else if length t < 16 then ''truncated_header''
      else if \<not> snd (decodeHeader (take 16 t) mx) then ''invalid_record_header''
      else ''truncated_payload'')"

definition rawRecord :: "bytes \<times> bytes \<Rightarrow> bytes" where
  "rawRecord r = fst r @ snd r"

lemma rawRecord_pair [simp]: "rawRecord (h, p) = h @ p"
  by (simp add: rawRecord_def)

definition rawLength :: "bytes \<times> bytes \<Rightarrow> nat" where
  "rawLength r = 16 + length (snd r)"

fun recordEnds :: "nat \<Rightarrow> (bytes \<times> bytes) list \<Rightarrow> nat list" where
  "recordEnds pos [] = []"
| "recordEnds pos (r # rs) = (pos + rawLength r) # recordEnds (pos + rawLength r) rs"

definition totalLength :: "(bytes \<times> bytes) list \<Rightarrow> nat" where
  "totalLength rs = sum_list (map rawLength rs)"

lemma totalLength_simps [simp]:
  "totalLength [] = 0" "totalLength (r # rs) = rawLength r + totalLength rs"
  by (simp_all add: totalLength_def)

text \<open>The three shapes of a step of the cut.\<close>

lemma splitRecords_short: "length d < 16 \<Longrightarrow> splitRecords mx d = ([], d)"
  by (simp add: splitRecords.simps)

lemma splitRecords_bad: "\<not> snd (decodeHeader (take 16 d) mx) \<Longrightarrow> splitRecords mx d = ([], d)"
  by (subst splitRecords.simps) (auto split: prod.splits)

lemma splitRecords_torn:
  "decodeHeader (take 16 d) mx = (n, True) \<Longrightarrow> length d < 16 + n \<Longrightarrow> splitRecords mx d = ([], d)"
  by (simp add: splitRecords.simps)

lemma splitRecords_step:
  assumes "decodeHeader (take 16 d) mx = (n, True)" "16 + n \<le> length d"
    "splitRecords mx (drop (16 + n) d) = (rs, t)"
  shows "splitRecords mx d = ((take 16 d, take n (drop 16 d)) # rs, t)"
  using assms by (subst splitRecords.simps) simp

lemma splitRecords_concat:
  "splitRecords mx d = (rs, t) \<Longrightarrow> d = concat (map rawRecord rs) @ t \<and> (\<forall>r \<in> set rs. length (fst r) = 16)"
proof (induction mx d arbitrary: rs t rule: splitRecords.induct)
  case (1 mx d)
  obtain n ok where dh: "decodeHeader (take 16 d) mx = (n, ok)" by fastforce
  show ?case
  proof (cases "length d < 16 \<or> \<not> (ok \<and> 16 + n \<le> length d)")
    case True
    with "1.prems" dh show ?thesis by (subst (asm) splitRecords.simps) (auto split: if_splits)
  next
    case False
    obtain rs' t' where sp: "splitRecords mx (drop (16 + n) d) = (rs', t')" by fastforce
    with False "1.IH" [OF _ dh [symmetric]] have
      ih: "drop (16 + n) d = concat (map rawRecord rs') @ t'" "\<forall>r \<in> set rs'. length (fst r) = 16"
      by auto
    have eq: "rs = (take 16 d, take n (drop 16 d)) # rs'" "t = t'"
      using "1.prems" splitRecords_step [of d mx n, OF _ _ sp] dh False by auto
    have "d = take 16 d @ take n (drop 16 d) @ drop (16 + n) d"
      by (metis append_take_drop_id drop_drop add.commute)
    with ih eq False show ?thesis by simp
  qed
qed

lemma splitRecords_length:
  assumes "splitRecords mx d = (rs, t)"
  shows "length d = totalLength rs + length t"
proof -
  have *: "\<forall>r \<in> set rs. length (fst r) = 16 \<Longrightarrow> length (concat (map rawRecord rs)) = totalLength rs" for rs
    by (induction rs) (auto simp: rawRecord_def rawLength_def)
  from splitRecords_concat [OF assms] * [of rs] show ?thesis by simp
qed

section \<open>Encoded records under the cut\<close>

definition okPayload :: "nat \<Rightarrow> bytes \<Rightarrow> bool" where
  "okPayload mx p \<longleftrightarrow> length p \<le> mx \<and> length p < 2 ^ 32"

definition recordOf :: "bytes \<Rightarrow> bytes \<times> bytes" where
  "recordOf p = (headerPrefix (length p) @ putUint32 (recordChecksum (headerPrefix (length p)) p), p)"

definition encodeAll :: "bytes list \<Rightarrow> bytes" where
  "encodeAll ps = concat (map encodeRecord ps)"

lemma encodeAll_simps [simp]:
  "encodeAll [] = []" "encodeAll (p # ps) = encodeRecord p @ encodeAll ps"
  "encodeAll (ps @ qs) = encodeAll ps @ encodeAll qs"
  by (simp_all add: encodeAll_def)

lemma encodeAll_Nil_iff [simp]: "encodeAll ps = [] \<longleftrightarrow> ps = []"
  by (cases ps) auto

lemma rawRecord_recordOf [simp]: "rawRecord (recordOf p) = encodeRecord p"
  by (simp add: recordOf_def encodeRecord_def)

lemma rawLength_recordOf [simp]: "rawLength (recordOf p) = 16 + length p"
  by (simp add: recordOf_def rawLength_def)

lemma snd_recordOf [simp]: "snd (recordOf p) = p"
  by (simp add: recordOf_def)

lemma length_encodeAll: "length (encodeAll ps) = totalLength (map recordOf ps)"
  by (induction ps) auto

lemma decodeHeader_ok:
  assumes "okPayload mx p"
  shows "decodeHeader (take 16 (encodeRecord p @ t)) mx = (length p, True)"
  using assms by (simp only: decodeHeader_encodeRecord) (simp add: okPayload_def)

lemma splitRecords_encode:
  assumes "okPayload mx p" "splitRecords mx t = (rs, t')"
  shows "splitRecords mx (encodeRecord p @ t) = (recordOf p # rs, t')"
proof -
  have "splitRecords mx (encodeRecord p @ t) =
      ((take 16 (encodeRecord p @ t), take (length p) (drop 16 (encodeRecord p @ t))) # rs, t')"
    by (rule splitRecords_step [OF decodeHeader_ok [OF assms(1)]]) (simp_all add: assms(2))
  then show ?thesis
    by (simp only: take_header_encodeRecord drop_header_encodeRecord) (simp add: recordOf_def)
qed

lemma splitRecords_encodeAll:
  assumes "\<forall>p \<in> set ps. okPayload mx p" "splitRecords mx t = (rs, t')"
  shows "splitRecords mx (encodeAll ps @ t) = (map recordOf ps @ rs, t')"
  using assms by (induction ps) (simp_all add: splitRecords_encode)

lemma splitRecords_Nil [simp]: "splitRecords mx [] = ([], [])"
  by (simp add: splitRecords_short)

lemma splitRecords_encodeAll_only:
  "\<forall>p \<in> set ps. okPayload mx p \<Longrightarrow> splitRecords mx (encodeAll ps) = (map recordOf ps, [])"
  using splitRecords_encodeAll [of ps mx "[]" "[]" "[]"] by simp

text \<open>A torn write leaves a proper prefix of a record, which the cut leaves as rest and which is
  classified as truncation, never as structural corruption.\<close>

lemma splitRecords_torn_record:
  assumes "okPayload mx p" "k < length (encodeRecord p)"
  shows "splitRecords mx (take k (encodeRecord p)) = ([], take k (encodeRecord p))"
    and "tailReason mx (take k (encodeRecord p)) \<in> {'''', ''truncated_header'', ''truncated_payload''}"
proof -
  have hd: "16 \<le> k \<Longrightarrow> decodeHeader (take 16 (take k (encodeRecord p))) mx = (length p, True)"
    using decodeHeader_ok [OF assms(1), of "[]"] by (simp add: min_def)
  show "splitRecords mx (take k (encodeRecord p)) = ([], take k (encodeRecord p))"
  proof (cases "k < 16")
    case True
    then show ?thesis by (intro splitRecords_short) simp
  next
    case False
    with hd assms(2) show ?thesis by (intro splitRecords_torn [where n = "length p"]) auto
  qed
  show "tailReason mx (take k (encodeRecord p)) \<in> {'''', ''truncated_header'', ''truncated_payload''}"
    using hd assms(2) by (cases "k < 16") (auto simp: tailReason_def)
qed

section \<open>The loops of the spool\<close>

text \<open>\<^verbatim>\<open>scanLocked\<close> over a file held in memory: valid end, structural offset, reason.\<close>

function scanBytes :: "nat \<Rightarrow> bytes \<Rightarrow> nat \<Rightarrow> nat \<Rightarrow> nat \<times> int \<times> string" where
  "scanBytes mx file pos validEnd =
     (if pos < length file then
        if length file - pos < recordHeaderSize then (pos, -1, ''truncated_header'')
        else case decodeHeader (take 16 (drop pos file)) mx of (n, ok) \<Rightarrow>
          if \<not> ok then (pos, int pos, ''invalid_record_header'')
          else if pos + recordHeaderSize + n > length file then (pos, -1, ''truncated_payload'')
          else scanBytes mx file (pos + recordHeaderSize + n) (pos + recordHeaderSize + n)
      else (validEnd, -1, ''''))"
  by pat_completeness auto
termination
  by (relation "measure (\<lambda>(mx, file, pos, ve). length file - pos)") auto

declare scanBytes.simps [simp del]

function recordBoundary :: "nat \<Rightarrow> bytes \<Rightarrow> nat \<Rightarrow> nat \<Rightarrow> bool" where
  "recordBoundary mx file target pos =
     (if pos < length file then
        if length file - pos < recordHeaderSize then False
        else case decodeHeader (take 16 (drop pos file)) mx of (n, ok) \<Rightarrow>
          if \<not> ok then False
          else let pos' = pos + recordHeaderSize + n in
            if pos' = target then True
            else if pos' > target then False
            else recordBoundary mx file target pos'
      else False)"
  by pat_completeness auto
termination
  by (relation "measure (\<lambda>(mx, file, target, pos). length file - pos)") auto

declare recordBoundary.simps [simp del]

function countCompleteRecords :: "bytes \<Rightarrow> nat \<Rightarrow> nat \<Rightarrow> nat \<Rightarrow> nat" where
  "countCompleteRecords d mx pos count =
     (if pos + recordHeaderSize \<le> length d then
        case decodeHeader (take 16 (drop pos d)) mx of (n, ok) \<Rightarrow>
          if \<not> ok then count
          else let end = pos + recordHeaderSize + n in
            if end > length d then count
            else countCompleteRecords d mx end (count + 1)
      else count)"
  by pat_completeness auto
termination
  by (relation "measure (\<lambda>(d, mx, pos, count). length d - pos)") auto

declare countCompleteRecords.simps [simp del]

text \<open>The first loop of \<^verbatim>\<open>trimV2ToFit\<close>: record ends, valid end and the reason it stopped.\<close>

function trimScan :: "bytes \<Rightarrow> nat \<Rightarrow> nat \<Rightarrow> nat list \<Rightarrow> nat \<Rightarrow> nat list \<times> nat \<times> string" where
  "trimScan d mx pos ends validEnd =
     (if pos < length d then
        if length d - pos < recordHeaderSize then (ends, validEnd, ''truncated_header'')
        else case decodeHeader (take 16 (drop pos d)) mx of (n, ok) \<Rightarrow>
          if \<not> ok then (ends, validEnd, ''invalid_record_header'')
          else let end = pos + recordHeaderSize + n in
            if end > length d then (ends, validEnd, ''truncated_payload'')
            else trimScan d mx end (ends @ [end]) end
      else (ends, validEnd, ''''))"
  by pat_completeness auto
termination
  by (relation "measure (\<lambda>(d, mx, pos, ends, ve). length d - pos)") auto

declare trimScan.simps [simp del]

text \<open>Its second loop: drop whole records from the front until the rest fits the budget.\<close>

fun trimEvict :: "int \<Rightarrow> nat \<Rightarrow> nat \<Rightarrow> nat \<Rightarrow> nat list \<Rightarrow> nat \<times> nat" where
  "trimEvict budget validEnd start evicted [] = (start, evicted)"
| "trimEvict budget validEnd start evicted (e # es) =
     (if int (validEnd - start) \<le> budget then (start, evicted)
      else trimEvict budget validEnd e (evicted + 1) es)"

definition boolInt :: "bool \<Rightarrow> nat" where
  "boolInt b = (if b then 1 else 0)"

definition trimV2ToFit :: "bytes \<Rightarrow> int \<Rightarrow> nat \<Rightarrow> bytes \<times> nat \<times> nat \<times> string" where
  "trimV2ToFit d budget mx =
     (if d = [] \<or> budget \<le> 0 then ([], countCompleteRecords d mx 0 0, 0, '''')
      else case trimScan d mx 0 [] 0 of (ends, validEnd, reason) \<Rightarrow>
        if validEnd = 0 then ([], 0, (if d \<noteq> [] \<and> reason \<noteq> '''' then 1 else 0), reason)
        else if int validEnd \<le> budget
          then (take validEnd d, 0, boolInt (validEnd < length d), reason)
        else case trimEvict budget validEnd 0 0 ends of (start, evicted) \<Rightarrow>
          if start \<ge> validEnd then ([], length ends, boolInt (validEnd < length d), reason)
          else (take (validEnd - start) (drop start (take validEnd d)), evicted,
                boolInt (validEnd < length d), reason))"

text \<open>\<^verbatim>\<open>decodeLegacyRecords\<close>: the v1 framing is a bare 4-byte length.\<close>

function decodeLegacyRecords :: "bytes \<Rightarrow> nat \<Rightarrow> nat \<Rightarrow> bytes list \<Rightarrow> nat + (bytes list \<times> string)" where
  "decodeLegacyRecords d mx pos payloads =
     (if pos < length d then
        if length d - pos < legacyHeaderSize then Inr (payloads, ''truncated_header'')
        else let n = unat (getUint32 (take 4 (drop pos d))) in
          if n > mx then Inl n
          else let end = pos + legacyHeaderSize + n in
            if end > length d then Inr (payloads, ''truncated_payload'')
            else decodeLegacyRecords d mx end (payloads @ [take n (drop (pos + 4) d)])
      else Inr (payloads, ''''))"
  by pat_completeness auto
termination
  by (relation "measure (\<lambda>(d, mx, pos, ps). length d - pos)") (auto simp: Let_def)

declare decodeLegacyRecords.simps [simp del]

text \<open>\<^verbatim>\<open>fileStartsWithV2\<close>: a file shorter than the magic makes \<^verbatim>\<open>ReadAt\<close> fail.\<close>

definition startsWithV2 :: "bytes \<Rightarrow> bool" where
  "startsWithV2 file = (4 \<le> length file \<and> take 4 file = bytesOf recordMagic)"

section \<open>The loops agree with the cut\<close>

lemma splitRecords_cases [case_names Empty Short Bad Torn Step]:
  obtains "d = []" "splitRecords mx d = ([], [])" "tailReason mx d = ''''"
  | "d \<noteq> []" "length d < 16" "splitRecords mx d = ([], d)" "tailReason mx d = ''truncated_header''"
  | n where "16 \<le> length d" "decodeHeader (take 16 d) mx = (n, False)" "splitRecords mx d = ([], d)"
      "tailReason mx d = ''invalid_record_header''"
  | n where "16 \<le> length d" "length d < 16 + n" "decodeHeader (take 16 d) mx = (n, True)"
      "splitRecords mx d = ([], d)" "tailReason mx d = ''truncated_payload''"
  | n r rs t where "16 + n \<le> length d" "decodeHeader (take 16 d) mx = (n, True)"
      "splitRecords mx (drop (16 + n) d) = (rs, t)" "splitRecords mx d = (r # rs, t)"
      "r = (take 16 d, take n (drop 16 d))" "rawLength r = 16 + n"
proof -
  obtain n ok where dh: "decodeHeader (take 16 d) mx = (n, ok)" by fastforce
  obtain rs t where sp: "splitRecords mx (drop (16 + n) d) = (rs, t)" by fastforce
  consider (e) "d = []" | (s) "d \<noteq> []" "length d < 16" | (b) "16 \<le> length d" "\<not> ok"
    | (t) "16 \<le> length d" ok "length d < 16 + n" | (st) ok "16 + n \<le> length d"
    using leI by blast
  then show thesis
  proof cases
    case e then show ?thesis by (intro that(1)) (auto simp: tailReason_def)
  next
    case s then show ?thesis by (intro that(2)) (auto simp: tailReason_def splitRecords_short)
  next
    case b then show ?thesis using dh by (intro that(3) [of n]) (auto simp: tailReason_def splitRecords_bad)
  next
    case t then show ?thesis using dh
      by (intro that(4) [of n]) (auto simp: tailReason_def splitRecords_torn)
  next
    case st
    with dh sp show ?thesis
      by (intro that(5) [of n rs t "(take 16 d, take n (drop 16 d))"])
         (auto simp: splitRecords_step rawLength_def)
  qed
qed

lemma splitRecords_ConsD:
  assumes "splitRecords mx (drop pos d) = (r # rs, t)" "pos \<le> length d"
  obtains n where "pos + 16 + n \<le> length d" "rawLength r = 16 + n"
    "decodeHeader (take 16 (drop pos d)) mx = (n, True)"
    "splitRecords mx (drop (pos + 16 + n) d) = (rs, t)"
proof (cases rule: splitRecords_cases [of "drop pos d" mx])
  case (Step n r' rs' t')
  moreover have "drop (16 + n) (drop pos d) = drop (pos + 16 + n) d"
    by (simp add: add.commute add.left_commute)
  ultimately show thesis using assms by (intro that [of n]) auto
qed (use assms in auto)

lemma scanBytes_split:
  assumes "pos \<le> length file" "splitRecords mx (drop pos file) = (rs, t)"
  shows "scanBytes mx file pos pos =
    (pos + totalLength rs,
     (if tailReason mx t = ''invalid_record_header'' then int (pos + totalLength rs) else -1),
     tailReason mx t)"
  using assms
proof (induction rs arbitrary: pos)
  case Nil
  then show ?case
    by (subst scanBytes.simps, cases rule: splitRecords_cases [of "drop pos file" mx]) auto
next
  case (Cons r rs)
  from splitRecords_ConsD [OF Cons.prems(2) Cons.prems(1)] obtain n where
    n: "pos + 16 + n \<le> length file" "rawLength r = 16 + n"
    "decodeHeader (take 16 (drop pos file)) mx = (n, True)"
    "splitRecords mx (drop (pos + 16 + n) file) = (rs, t)" .
  with Cons.IH [of "pos + 16 + n"] show ?case
    by (subst scanBytes.simps) (auto simp: algebra_simps)
qed

lemma recordEnds_gt: "e \<in> set (recordEnds pos rs) \<Longrightarrow> pos < e"
  by (induction rs arbitrary: pos) (auto simp: rawLength_def, fastforce)

lemma recordBoundary_split:
  assumes "pos \<le> length file" "target \<le> length file" "splitRecords mx (drop pos file) = (rs, t)"
  shows "recordBoundary mx file target pos \<longleftrightarrow> target \<in> set (recordEnds pos rs)"
  using assms
proof (induction rs arbitrary: pos)
  case Nil
  then show ?case
    by (subst recordBoundary.simps, cases rule: splitRecords_cases [of "drop pos file" mx])
       (auto simp: Let_def)
next
  case (Cons r rs)
  from splitRecords_ConsD [OF Cons.prems(3) Cons.prems(1)] obtain n where
    n: "pos + 16 + n \<le> length file" "rawLength r = 16 + n"
    "decodeHeader (take 16 (drop pos file)) mx = (n, True)"
    "splitRecords mx (drop (pos + 16 + n) file) = (rs, t)" .
  with Cons.IH [of "pos + 16 + n"] Cons.prems(2) recordEnds_gt [of target "pos + 16 + n" rs] show ?case
    by (subst recordBoundary.simps) (auto simp: Let_def add.assoc)
qed

lemma countCompleteRecords_split:
  assumes "pos \<le> length d" "splitRecords mx (drop pos d) = (rs, t)"
  shows "countCompleteRecords d mx pos c = c + length rs"
  using assms
proof (induction rs arbitrary: pos c)
  case Nil
  then show ?case
    by (subst countCompleteRecords.simps, cases rule: splitRecords_cases [of "drop pos d" mx])
       (auto simp: Let_def)
next
  case (Cons r rs)
  from splitRecords_ConsD [OF Cons.prems(2) Cons.prems(1)] obtain n where
    n: "pos + 16 + n \<le> length d" "rawLength r = 16 + n"
    "decodeHeader (take 16 (drop pos d)) mx = (n, True)"
    "splitRecords mx (drop (pos + 16 + n) d) = (rs, t)" .
  with Cons.IH [of "pos + 16 + n"] show ?case
    by (subst countCompleteRecords.simps) (auto simp: Let_def)
qed

lemma trimScan_split:
  assumes "pos \<le> length d" "splitRecords mx (drop pos d) = (rs, t)"
  shows "trimScan d mx pos ends ve =
    (ends @ recordEnds pos rs, (if rs = [] then ve else pos + totalLength rs), tailReason mx t)"
  using assms
proof (induction rs arbitrary: pos ends ve)
  case Nil
  then show ?case
    by (subst trimScan.simps, cases rule: splitRecords_cases [of "drop pos d" mx]) (auto simp: Let_def)
next
  case (Cons r rs)
  from splitRecords_ConsD [OF Cons.prems(2) Cons.prems(1)] obtain n where
    n: "pos + 16 + n \<le> length d" "rawLength r = 16 + n"
    "decodeHeader (take 16 (drop pos d)) mx = (n, True)"
    "splitRecords mx (drop (pos + 16 + n) d) = (rs, t)" .
  with Cons.IH [of "pos + 16 + n"] show ?case
    by (subst trimScan.simps) (auto simp: Let_def algebra_simps)
qed

text \<open>Eviction on a record list: the front records are dropped while the rest exceeds the
  budget.\<close>

fun evictCount :: "int \<Rightarrow> (bytes \<times> bytes) list \<Rightarrow> nat" where
  "evictCount budget [] = 0"
| "evictCount budget (r # rs) =
     (if int (totalLength (r # rs)) \<le> budget then 0 else Suc (evictCount budget rs))"

lemma evictCount_le: "evictCount b rs \<le> length rs"
  by (induction rs) auto

lemma evictCount_fits: "0 \<le> b \<Longrightarrow> int (totalLength (drop (evictCount b rs) rs)) \<le> b"
  by (induction rs) auto

text \<open>It is the least number of evictions that fits.\<close>

lemma evictCount_least:
  "k < evictCount b rs \<Longrightarrow> b < int (totalLength (drop k rs))"
proof (induction rs arbitrary: k)
  case (Cons r rs)
  then show ?case by (cases k) (auto split: if_splits)
qed simp

lemma trimEvict_split:
  "trimEvict b (start + totalLength rs) start ev (recordEnds start rs) =
     (start + totalLength (take (evictCount b rs) rs), ev + evictCount b rs)"
proof (induction rs arbitrary: start ev)
  case (Cons r rs)
  from Cons.IH [of "start + rawLength r" "Suc ev"] show ?case
    by (auto simp: add.assoc)
qed simp

lemma totalLength_append [simp]: "totalLength (xs @ ys) = totalLength xs + totalLength ys"
  by (simp add: totalLength_def)

lemma totalLength_take_drop: "totalLength (take k rs) + totalLength (drop k rs) = totalLength rs"
  by (metis append_take_drop_id totalLength_append)

lemma length_recordEnds [simp]: "length (recordEnds pos rs) = length rs"
  by (induction rs arbitrary: pos) auto

lemma totalLength_0_iff [simp]: "totalLength rs = 0 \<longleftrightarrow> rs = []"
  by (cases rs) (auto simp: rawLength_def)

text \<open>On a well-formed backlog the trim keeps the longest suffix of whole records that fits.\<close>

lemma drop_encodeAll: "drop (totalLength (take k (map recordOf ps))) (encodeAll ps) = encodeAll (drop k ps)"
proof -
  have "encodeAll ps = encodeAll (take k ps) @ encodeAll (drop k ps)"
    by (metis append_take_drop_id encodeAll_simps(3))
  then show ?thesis by (simp add: length_encodeAll take_map)
qed

lemma trimV2ToFit_encodeAll:
  assumes ok: "\<forall>p \<in> set ps. okPayload mx p"
  shows "trimV2ToFit (encodeAll ps) b mx =
    (let k = (if b \<le> 0 then length ps else evictCount b (map recordOf ps))
     in (encodeAll (drop k ps), k, 0, ''''))"
proof -
  let ?rs = "map recordOf ps"
  note sp = splitRecords_encodeAll_only [OF ok]
  have len: "length (encodeAll ps) = totalLength ?rs" by (rule length_encodeAll)
  have scan: "trimScan (encodeAll ps) mx 0 [] 0 = (recordEnds 0 ?rs, totalLength ?rs, '''')"
    using trimScan_split [of 0 "encodeAll ps" mx ?rs "[]" "[]" 0] sp by (auto simp: tailReason_def)
  have cnt: "countCompleteRecords (encodeAll ps) mx 0 0 = length ps"
    using countCompleteRecords_split [of 0 "encodeAll ps" mx ?rs "[]" 0] sp by simp
  have ev: "trimEvict b (totalLength ?rs) 0 0 (recordEnds 0 ?rs)
      = (totalLength (take (evictCount b ?rs) ?rs), evictCount b ?rs)"
    using trimEvict_split [of b 0 ?rs 0] by simp
  consider (nil) "ps = [] \<or> b \<le> 0" | (fit) "ps \<noteq> []" "0 < b" "int (totalLength ?rs) \<le> b"
    | (cut) "ps \<noteq> []" "0 < b" "b < int (totalLength ?rs)" by linarith
  then show ?thesis
  proof cases
    case nil
    then show ?thesis by (auto simp: trimV2ToFit_def cnt countCompleteRecords_split)
  next
    case fit
    then have "evictCount b ?rs = 0" by (cases ps) auto
    with fit show ?thesis by (simp add: trimV2ToFit_def scan len boolInt_def)
  next
    case cut
    let ?k = "evictCount b ?rs"
    have sum: "totalLength (take ?k ?rs) + totalLength (drop ?k ?rs) = totalLength ?rs"
      by (rule totalLength_take_drop)
    show ?thesis
    proof (cases "drop ?k ?rs = []")
      case True
      then have k: "?k = length ps" using evictCount_le [of b ?rs] by simp
      with cut sum show ?thesis by (simp add: trimV2ToFit_def scan ev len boolInt_def)
    next
      case False
      then have "0 < totalLength (drop ?k ?rs)" using totalLength_0_iff by blast
      then have "totalLength (take ?k ?rs) < totalLength ?rs" using sum by linarith
      moreover have "take (totalLength ?rs - totalLength (take ?k ?rs)) (encodeAll (drop ?k ps))
          = encodeAll (drop ?k ps)"
        using sum by (simp add: length_encodeAll drop_map)
      ultimately show ?thesis
        using cut len by (simp add: trimV2ToFit_def scan ev boolInt_def drop_encodeAll Let_def)
    qed
  qed
qed

end
