(* ===== verification/SpoolDisk.thy ===== *)
theory SpoolDisk
  imports SpoolCodec
begin

text \<open>
  The files of the spool directory and the system calls that the spool makes on them.

  A file is an \<open>inode\<close> with the content the process sees and the content that has reached
  stable storage; \<^verbatim>\<open>Sync\<close> makes the second equal to the first.  Every system call first takes
  the next entry of the schedule \<open>faults\<close>: an empty schedule means success, \<open>FailAfter n\<close>
  means that the call fails, a write having transferred \<open>n\<close> bytes.  A theorem that holds for
  every schedule therefore covers every I/O error, every torn write, and every crash between
  two system calls (a schedule whose remaining entries all fail leaves the disk as it was at
  that point).  Closing a descriptor whose error the code discards has no effect on the files
  and is not a step.
\<close>

section \<open>State\<close>

record inode =
  content :: bytes
  stable :: bytes

datatype outcome = Succeed | FailAfter nat

record world =
  disk :: "string \<rightharpoonup> inode"
  faults :: "outcome list"

datatype FaultPoint =
    FaultBeforeRecordWrite | FaultAfterRecordWrite | FaultBeforeDataSync | FaultAfterDataSync
  | FaultBeforeCursorPersist | FaultAfterCursorPersist
  | FaultBeforeMigrationSwap | FaultAfterMigrationBackup

datatype spool_error =
    ErrPayloadTooLarge | ErrCorruptSegment | ErrClosed | ErrMigrationCapacity
  | ErrDirRequired | ErrInvalidCursor int | ErrLegacyLength nat
  | ErrFault FaultPoint string | ErrIO | ErrNotExist | ErrExist | ErrEOF

record spool = world +
  maxBytes :: nat
  maxPayloadBytes :: nat
  faultInjector :: "(FaultPoint \<Rightarrow> string option) option"
  fileOpen :: bool
  offset :: nat
  evictedRecords :: "64 word"
  corruptionRecoveries :: "64 word"
  checksumFailures :: "64 word"
  tornTailRecoveries :: "64 word"
  migrations :: "64 word"
  fsyncFailures :: "64 word"
  quarantinedRecords :: "64 word"
  discardedRecords :: "64 word"
  lastRecoveryReason :: string

type_synonym 'a spool_act = "(spool, spool_error, 'a) act"

abbreviation (input) spoolFileName :: string where "spoolFileName \<equiv> ''spool.log''"
abbreviation (input) offsetFileName :: string where "offsetFileName \<equiv> ''spool.offset''"
abbreviation (input) legacyBackupFileName :: string where "legacyBackupFileName \<equiv> ''spool.log.v1.backup''"
abbreviation (input) migrationTempFileName :: string where "migrationTempFileName \<equiv> ''spool.log.v2.migrating''"
abbreviation (input) migrationMarkerName :: string where "migrationMarkerName \<equiv> ''spool.migrating''"
abbreviation (input) quarantineFileName :: string where "quarantineFileName \<equiv> ''spool.quarantine.log''"
abbreviation (input) rewriteFileName :: string where "rewriteFileName \<equiv> ''spool.log.rewrite''"

section \<open>System calls\<close>

definition sys :: "'a spool_act \<Rightarrow> (nat \<Rightarrow> spool \<Rightarrow> spool) \<Rightarrow> 'a spool_act" where
  "sys ok part = (\<lambda>s. case faults s of
       [] \<Rightarrow> ok s
     | Succeed # fs \<Rightarrow> ok (s\<lparr>faults := fs\<rparr>)
     | FailAfter n # fs \<Rightarrow> (Inl ErrIO, part n (s\<lparr>faults := fs\<rparr>)))"

text \<open>What a call yields on success, on a file that must exist.\<close>

definition onFile :: "string \<Rightarrow> (inode \<Rightarrow> 'a spool_act) \<Rightarrow> 'a spool_act" where
  "onFile nm f = (\<lambda>s. case disk s nm of None \<Rightarrow> (Inl ErrNotExist, s) | Some i \<Rightarrow> f i s)"

definition setFile :: "string \<Rightarrow> inode \<Rightarrow> spool \<Rightarrow> spool" where
  "setFile nm i s = s\<lparr>disk := (disk s)(nm \<mapsto> i)\<rparr>"

definition appendFile :: "string \<Rightarrow> bytes \<Rightarrow> spool \<Rightarrow> spool" where
  "appendFile nm bs s = (case disk s nm of None \<Rightarrow> s
     | Some i \<Rightarrow> setFile nm (i\<lparr>content := content i @ bs\<rparr>) s)"

definition statSize :: "string \<Rightarrow> nat spool_act" where
  "statSize nm = sys (onFile nm (\<lambda>i. ret (length (content i)))) (\<lambda>_ s. s)"

definition openExisting :: "string \<Rightarrow> unit spool_act" where
  "openExisting nm = sys (onFile nm (\<lambda>i. ret ())) (\<lambda>_ s. s)"

definition openCreate :: "string \<Rightarrow> unit spool_act" where
  "openCreate nm = sys (\<lambda>s. (Inr (), case disk s nm of Some _ \<Rightarrow> s
     | None \<Rightarrow> setFile nm \<lparr>content = [], stable = []\<rparr> s)) (\<lambda>_ s. s)"

definition openTrunc :: "string \<Rightarrow> unit spool_act" where
  "openTrunc nm = sys (\<lambda>s. (Inr (), setFile nm \<lparr>content = [], stable = []\<rparr> s)) (\<lambda>_ s. s)"

definition openExcl :: "string \<Rightarrow> unit spool_act" where
  "openExcl nm = sys (\<lambda>s. case disk s nm of Some _ \<Rightarrow> (Inl ErrExist, s)
     | None \<Rightarrow> (Inr (), setFile nm \<lparr>content = [], stable = []\<rparr> s)) (\<lambda>_ s. s)"

definition closeFile :: "string \<Rightarrow> unit spool_act" where
  "closeFile nm = sys (ret ()) (\<lambda>_ s. s)"

definition truncateFile :: "string \<Rightarrow> nat \<Rightarrow> unit spool_act" where
  "truncateFile nm n = sys (onFile nm (\<lambda>i s.
     (Inr (), setFile nm (i\<lparr>content := take n (content i) @ replicate (n - length (content i)) 0\<rparr>) s)))
     (\<lambda>_ s. s)"

definition renameFile :: "string \<Rightarrow> string \<Rightarrow> unit spool_act" where
  "renameFile a b = sys (onFile a (\<lambda>i s. (Inr (), s\<lparr>disk := (disk s)(a := None, b \<mapsto> i)\<rparr>))) (\<lambda>_ s. s)"

definition removeFile :: "string \<Rightarrow> unit spool_act" where
  "removeFile nm = sys (onFile nm (\<lambda>i s. (Inr (), s\<lparr>disk := (disk s)(nm := None)\<rparr>))) (\<lambda>_ s. s)"

text \<open>\<^verbatim>\<open>ReadAt\<close>: fewer bytes than asked for is \<^verbatim>\<open>io.EOF\<close>.\<close>

definition readAt :: "string \<Rightarrow> nat \<Rightarrow> nat \<Rightarrow> bytes spool_act" where
  "readAt nm off n = sys (onFile nm (\<lambda>i.
     if off + n \<le> length (content i) then ret (take n (drop off (content i))) else throw ErrEOF)) (\<lambda>_ s. s)"

text \<open>\<^verbatim>\<open>writeFull\<close> on a file: no call for an empty slice; otherwise \<^verbatim>\<open>os.File.Write\<close> either writes
  everything or returns an error after a prefix, so the loop body runs once.\<close>

definition writeFull :: "string \<Rightarrow> bytes \<Rightarrow> unit spool_act" where
  "writeFull nm d = (if d = [] then ret ()
     else sys (\<lambda>s. (Inr (), appendFile nm d s)) (\<lambda>n. appendFile nm (take n d)))"

definition syncFile :: "string \<Rightarrow> unit spool_act" where
  "syncFile nm = sys (onFile nm (\<lambda>i s. (Inr (), setFile nm (i\<lparr>stable := content i\<rparr>) s)))
     (\<lambda>_ s. s\<lparr>fsyncFailures := fsyncFailures s + 1\<rparr>)"

definition syncDirectory :: "unit spool_act" where
  "syncDirectory = seqE (sys (ret ()) (\<lambda>_ s. s))
     (sys (ret ()) (\<lambda>_ s. s\<lparr>fsyncFailures := fsyncFailures s + 1\<rparr>))"

definition fileExists :: "string \<Rightarrow> bool spool_act" where
  "fileExists nm = (\<lambda>s. case sys (onFile nm (\<lambda>i. ret ())) (\<lambda>_ s. s) s of
     (Inl _, s') \<Rightarrow> (Inr False, s') | (Inr _, s') \<Rightarrow> (Inr True, s'))"

fun steps :: "unit spool_act list \<Rightarrow> unit spool_act" where
  "steps [] = ret ()"
| "steps [m] = m"
| "steps (m # m' # ms) = seqE m (steps (m' # ms))"

declare steps.simps [simp del, wp_simps]

lemma seqE_unit: "seqE m (ret ()) = (m :: unit spool_act)"
  by (auto simp: seqE_def bindE_def ret_def fun_eq_iff split: prod.splits sum.splits)

lemma steps_Cons: "steps (m # ms) = seqE m (steps ms)"
  by (cases ms) (simp_all add: steps.simps seqE_unit)

section \<open>Reasoning about every schedule\<close>

text \<open>Consuming the schedule is the only thing a call does beside its effect.\<close>

lemma wp_sysI:
  assumes "\<And>fs. wp ok Q (s\<lparr>faults := fs\<rparr>)" "\<And>n fs. Q (Inl ErrIO) (part n (s\<lparr>faults := fs\<rparr>))"
  shows "wp (sys ok part) Q s"
proof -
  have "wp ok Q s" using assms(1) [of "faults s"] by simp
  with assms show ?thesis
    by (auto simp: wp_def sys_def split: list.splits outcome.splits)
qed

lemma sys_ok [simp]: "faults s = [] \<Longrightarrow> sys ok part s = ok s"
  by (simp add: sys_def)

lemma wp_sys_ok: "faults s = [] \<Longrightarrow> wp (sys ok part) Q s = wp ok Q s"
  by (simp add: wp_def)

lemma wp_onFile [wp_simps]:
  "wp (onFile nm f) Q s = (case disk s nm of None \<Rightarrow> Q (Inl ErrNotExist) s | Some i \<Rightarrow> wp (f i) Q s)"
  by (simp add: wp_def onFile_def split: option.splits)

lemma wp_fun [wp_simps]: "wp (\<lambda>s. (r, g s)) Q s = Q r (g s)"
  by (simp add: wp_def)

lemmas io_primitives = statSize_def openExisting_def openCreate_def openTrunc_def openExcl_def
  closeFile_def truncateFile_def renameFile_def removeFile_def readAt_def writeFull_def
  syncFile_def syncDirectory_def

end
