(* ===== verification/Spool.thy ===== *)
theory Spool
  imports SpoolDisk
begin

text \<open>
  The operations of the durable spool (\<^verbatim>\<open>collector/spool/spool.go\<close>) on an open spool:
  \<^verbatim>\<open>Enqueue\<close>, \<^verbatim>\<open>Next\<close>, \<^verbatim>\<open>Commit\<close>, \<^verbatim>\<open>Snapshot\<close>, \<^verbatim>\<open>Close\<close> and the helpers they call.  Each public
  method holds the mutex for its whole body, so a method is one step on the state.

  The second half holds the frame lemmas of these methods; their abstraction to a queue of
  payloads is \<open>spoolInv\<close> of theory \<open>SpoolQueue\<close>.
\<close>

section \<open>Helpers\<close>

definition inject :: "FaultPoint \<Rightarrow> unit spool_act" where
  "inject point = (\<lambda>s. case faultInjector s of None \<Rightarrow> (Inr (), s)
     | Some f \<Rightarrow> (case f point of None \<Rightarrow> (Inr (), s) | Some m \<Rightarrow> (Inl (ErrFault point m), s)))"

definition cursorBytes :: "nat \<Rightarrow> bytes" where
  "cursorBytes n = bytesOf (formatInt (int n) @ [CHR 10])"

definition atomicWriteFile :: "string \<Rightarrow> bytes \<Rightarrow> unit spool_act" where
  "atomicWriteFile path d =
     (let tmp = path @ ''.tmp'' in
      steps [openTrunc tmp,
             onErr (writeFull tmp d) (removeFile tmp),
             onErr (syncFile tmp) (removeFile tmp),
             onErr (closeFile tmp) (removeFile tmp),
             renameFile tmp path,
             syncDirectory])"

definition persistCursorLocked :: "nat \<Rightarrow> unit spool_act" where
  "persistCursorLocked n =
     steps [inject FaultBeforeCursorPersist,
            atomicWriteFile offsetFileName (cursorBytes n),
            inject FaultAfterCursorPersist]"

definition recordRecoveryLocked :: "string \<Rightarrow> unit spool_act" where
  "recordRecoveryLocked reason = modify (\<lambda>s.
     s\<lparr>corruptionRecoveries := corruptionRecoveries s + 1, lastRecoveryReason := reason\<rparr>)"

definition quarantineLocked :: "bytes \<Rightarrow> unit spool_act" where
  "quarantineLocked raw =
     (if raw = [] then ret ()
      else seqE (openCreate quarantineFileName)
        (bindE (statSize quarantineFileName) (\<lambda>size. getS (\<lambda>s.
          steps ((if size + (8 + length raw) > maxBytes s
                  then [truncateFile quarantineFileName 0, sys (ret ()) (\<lambda>_ s. s)] else [])
            @ [writeFull quarantineFileName (putUint64 (of_nat (length raw))),
               writeFull quarantineFileName raw,
               syncFile quarantineFileName])))))"

definition recoverTornTailLocked :: "string \<Rightarrow> 'a spool_act" where
  "recoverTornTailLocked reason = getS (\<lambda>s.
     seqE (truncateFile spoolFileName (offset s))
       (seqE (syncFile spoolFileName)
         (seqE (modify (\<lambda>s. s\<lparr>tornTailRecoveries := tornTailRecoveries s + 1\<rparr>))
           (seqE (recordRecoveryLocked reason) (throw ErrCorruptSegment)))))"

text \<open>On \<^verbatim>\<open>io.EOF\<close> the buffer keeps what was read, followed by zeros.\<close>

definition readUnreadLocked :: "nat \<Rightarrow> bytes spool_act" where
  "readUnreadLocked fileSize = getS (\<lambda>s.
     if offset s \<ge> fileSize then ret []
     else catchE (readAt spoolFileName (offset s) (fileSize - offset s)) (\<lambda>e.
       if e = ErrEOF then gets (\<lambda>s'. take (fileSize - offset s)
              ((case disk s' spoolFileName of None \<Rightarrow> [] | Some i \<Rightarrow> drop (offset s) (content i))
               @ replicate (fileSize - offset s) 0))
       else throw e))"

definition recoverStructuralCorruptionLocked :: "string \<Rightarrow> nat \<Rightarrow> 'a spool_act" where
  "recoverStructuralCorruptionLocked reason fileSize =
     bindE (readUnreadLocked fileSize) (\<lambda>raw. getS (\<lambda>s.
       seqE (if raw = [] then ret ()
             else seqE (quarantineLocked raw) (modify (\<lambda>s. s\<lparr>
               quarantinedRecords := quarantinedRecords s + 1,
               discardedRecords := discardedRecords s + 1\<rparr>)))
         (seqE (truncateFile spoolFileName (offset s))
           (seqE (syncFile spoolFileName)
             (seqE (recordRecoveryLocked reason) (throw ErrCorruptSegment))))))"

definition readHeaderLocked :: "nat \<Rightarrow> nat \<Rightarrow> (bytes \<times> nat \<times> nat) spool_act" where
  "readHeaderLocked off fileSize =
     (if fileSize - off < recordHeaderSize then recoverTornTailLocked ''truncated_header''
      else bindE (catchE (readAt spoolFileName off recordHeaderSize) (\<lambda>e.
                    if e = ErrEOF then recoverTornTailLocked ''truncated_header'' else throw e))
        (\<lambda>header. getS (\<lambda>s.
           case decodeHeader header (maxPayloadBytes s) of (n, ok) \<Rightarrow>
             if \<not> ok then recoverStructuralCorruptionLocked ''invalid_record_header'' fileSize
             else let nextOffset = off + recordHeaderSize + n in
               if nextOffset > fileSize then recoverTornTailLocked ''truncated_payload''
               else ret (header, n, nextOffset))))"

definition rollbackAppendLocked :: "nat \<Rightarrow> unit spool_act" where
  "rollbackAppendLocked start = getS (\<lambda>s.
     if \<not> fileOpen s then ret ()
     else ignoreE (seqE (truncateFile spoolFileName start) (syncFile spoolFileName)))"

text \<open>\<^verbatim>\<open>recordBoundaryLocked\<close>: a failed header read answers false.\<close>

function boundaryLoop :: "nat \<Rightarrow> nat \<Rightarrow> nat \<Rightarrow> spool \<Rightarrow> bool \<times> spool" where
  "boundaryLoop target fileSize pos s =
     (if pos < fileSize then
        if fileSize - pos < recordHeaderSize then (False, s)
        else case readAt spoolFileName pos recordHeaderSize s of
          (Inl _, s1) \<Rightarrow> (False, s1)
        | (Inr header, s1) \<Rightarrow>
            (case decodeHeader header (maxPayloadBytes s1) of (n, ok) \<Rightarrow>
               if \<not> ok then (False, s1)
               else let pos' = pos + (recordHeaderSize + n) in
                 if pos' = target then (True, s1)
                 else if pos' > target then (False, s1)
                 else boundaryLoop target fileSize pos' s1)
      else (False, s))"
  by pat_completeness auto
termination
  by (relation "measure (\<lambda>(target, fileSize, pos, s). fileSize - pos)") auto

declare boundaryLoop.simps [simp del]

definition recordBoundaryLocked :: "nat \<Rightarrow> nat \<Rightarrow> bool spool_act" where
  "recordBoundaryLocked target fileSize = (\<lambda>s.
     if target = 0 then (Inr True, s)
     else case boundaryLoop target fileSize 0 s of (b, s') \<Rightarrow> (Inr b, s'))"

definition rewriteLocked :: "bytes \<Rightarrow> unit spool_act" where
  "rewriteLocked backlog =
     steps [openTrunc rewriteFileName,
            onErr (writeFull rewriteFileName backlog) (removeFile rewriteFileName),
            onErr (syncFile rewriteFileName) (removeFile rewriteFileName),
            onErr (closeFile rewriteFileName) (removeFile rewriteFileName),
            onErr (persistCursorLocked 0) (removeFile rewriteFileName),
            renameFile rewriteFileName spoolFileName,
            modify (\<lambda>s. s\<lparr>fileOpen := False\<rparr>),
            syncDirectory,
            openExisting spoolFileName,
            modify (\<lambda>s. s\<lparr>fileOpen := True, offset := 0\<rparr>)]"

definition compactLocked :: "nat \<Rightarrow> unit spool_act" where
  "compactLocked requiredBytes =
     bindE (statSize spoolFileName) (\<lambda>size. getS (\<lambda>s.
       if size + requiredBytes \<le> maxBytes s then ret ()
       else bindE (readUnreadLocked size) (\<lambda>backlog. getS (\<lambda>s.
         case trimV2ToFit backlog (int (maxBytes s) - int requiredBytes) (maxPayloadBytes s) of
           (kept, evicted, discarded, reason) \<Rightarrow>
             steps [if reason \<noteq> '''' then recordRecoveryLocked reason else ret (),
                    modify (\<lambda>s. s\<lparr>evictedRecords := evictedRecords s + of_nat evicted,
                                  discardedRecords := discardedRecords s + of_nat discarded\<rparr>),
                    rewriteLocked kept]))))"

section \<open>Public methods\<close>

definition Enqueue :: "bytes \<Rightarrow> unit spool_act" where
  "Enqueue payload = getS (\<lambda>s.
     if length payload > maxPayloadBytes s then throw ErrPayloadTooLarge
     else if length (encodeRecord payload) > maxBytes s then throw ErrPayloadTooLarge
     else if \<not> fileOpen s then throw ErrClosed
     else seqE (compactLocked (length (encodeRecord payload)))
       (seqE (inject FaultBeforeRecordWrite)
         (bindE (statSize spoolFileName) (\<lambda>start.
           steps [onErr (writeFull spoolFileName (encodeRecord payload)) (rollbackAppendLocked start),
                  inject FaultAfterRecordWrite,
                  inject FaultBeforeDataSync,
                  onErr (syncFile spoolFileName) (rollbackAppendLocked start),
                  inject FaultAfterDataSync]))))"

definition Next :: "(bytes option \<times> nat) spool_act" where
  "Next = getS (\<lambda>s.
     if \<not> fileOpen s then throw ErrClosed
     else bindE (statSize spoolFileName) (\<lambda>size.
       if offset s \<ge> size then ret (None, offset s)
       else bindE (readHeaderLocked (offset s) size) (\<lambda>(header, payloadLength, nextOffset).
         bindE (if payloadLength = 0 then ret []
                else catchE (readAt spoolFileName (offset s + recordHeaderSize) payloadLength) (\<lambda>e.
                  if e = ErrEOF then recoverTornTailLocked ''truncated_payload'' else throw e))
           (\<lambda>payload.
             if recordChecksum header payload \<noteq> getUint32 (take 4 (drop 12 header))
             then seqE (steps [modify (\<lambda>s. s\<lparr>checksumFailures := checksumFailures s + 1\<rparr>),
                               recordRecoveryLocked ''checksum_mismatch'',
                               quarantineLocked (header @ payload),
                               persistCursorLocked nextOffset,
                               modify (\<lambda>s. s\<lparr>offset := nextOffset,
                                 quarantinedRecords := quarantinedRecords s + 1,
                                 discardedRecords := discardedRecords s + 1\<rparr>)])
                       (throw ErrCorruptSegment)
             else ret (Some payload, nextOffset)))))"

definition Commit :: "int \<Rightarrow> unit spool_act" where
  "Commit nextOffset = getS (\<lambda>s.
     if \<not> fileOpen s then throw ErrClosed
     else if nextOffset \<le> int (offset s) then ret ()
     else bindE (statSize spoolFileName) (\<lambda>size.
       if nextOffset > int size then throw (ErrInvalidCursor nextOffset)
       else bindE (recordBoundaryLocked (nat nextOffset) size) (\<lambda>ok.
         if \<not> ok then throw (ErrInvalidCursor nextOffset)
         else steps [persistCursorLocked (nat nextOffset),
                     modify (\<lambda>s. s\<lparr>offset := nat nextOffset\<rparr>)])))"

text \<open>The descriptor is dropped whether or not the close reports an error.\<close>

definition Close :: "unit spool_act" where
  "Close = getS (\<lambda>s. if \<not> fileOpen s then ret ()
     else seqE (syncFile spoolFileName)
       (seqE (onErr (closeFile spoolFileName) (modify (\<lambda>s. s\<lparr>fileOpen := False\<rparr>)))
         (modify (\<lambda>s. s\<lparr>fileOpen := False\<rparr>))))"

record Snapshot =
  FormatVersion :: byte
  BacklogBytes :: int
  FileSizeBytes :: int
  MaxBytes :: int
  MaxPayloadBytes :: int
  Offset :: int
  EvictedRecords :: "64 word"
  CorruptionRecoveries :: "64 word"
  ChecksumFailures :: "64 word"
  TornTailRecoveries :: "64 word"
  Migrations :: "64 word"
  FsyncFailures :: "64 word"
  QuarantinedRecords :: "64 word"
  DiscardedRecords :: "64 word"
  LastRecoveryReason :: string

definition snapshotOf :: "spool \<Rightarrow> Snapshot \<times> spool" where
  "snapshotOf s =
     (let snapshot = \<lparr>FormatVersion = recordVersion, BacklogBytes = 0, FileSizeBytes = 0,
        MaxBytes = int (maxBytes s), MaxPayloadBytes = int (maxPayloadBytes s), Offset = int (offset s),
        EvictedRecords = evictedRecords s, CorruptionRecoveries = corruptionRecoveries s,
        ChecksumFailures = checksumFailures s, TornTailRecoveries = tornTailRecoveries s,
        Migrations = migrations s, FsyncFailures = fsyncFailures s,
        QuarantinedRecords = quarantinedRecords s, DiscardedRecords = discardedRecords s,
        LastRecoveryReason = lastRecoveryReason s\<rparr>
      in if \<not> fileOpen s then (snapshot, s)
         else case statSize spoolFileName s of
           (Inl _, s') \<Rightarrow> (snapshot, s')
         | (Inr n, s') \<Rightarrow>
             (snapshot\<lparr>FileSizeBytes := int n, BacklogBytes := max 0 (int n - int (offset s'))\<rparr>, s'))"

definition Stats :: "spool \<Rightarrow> (int \<times> int) \<times> spool" where
  "Stats s = (case snapshotOf s of (snap, s') \<Rightarrow> ((BacklogBytes snap, FileSizeBytes snap), s'))"

section \<open>Frames\<close>

text \<open>What a group of system calls may change besides the named files: the schedule and the
  failed-sync counter.\<close>

abbreviation upd :: "spool \<Rightarrow> (string \<rightharpoonup> inode) \<Rightarrow> outcome list \<Rightarrow> 64 word \<Rightarrow> spool" where
  "upd s d f k \<equiv> s\<lparr>disk := d, faults := f, fsyncFailures := k\<rparr>"

definition agree :: "string set \<Rightarrow> (string \<rightharpoonup> inode) \<Rightarrow> (string \<rightharpoonup> inode) \<Rightarrow> bool" where
  "agree D d d' \<longleftrightarrow> (\<forall>nm. nm \<notin> D \<longrightarrow> d nm = d' nm)"

lemma agreeD: "agree D d d' \<Longrightarrow> nm \<notin> D \<Longrightarrow> d nm = d' nm"
  by (simp add: agree_def)

lemma agree_refl [simp]: "agree D d d"
  by (simp add: agree_def)

text \<open>Every result of a computation is of the form \<open>upd\<close>: the shape in which the rules below
  hand the state on.\<close>

definition touches :: "string set \<Rightarrow> spool \<Rightarrow> spool \<Rightarrow> bool" where
  "touches D s s' \<longleftrightarrow> agree D (disk s') (disk s) \<and> s' = upd s (disk s') (faults s') (fsyncFailures s')"

lemma touchesE:
  assumes "touches D s s'"
  obtains d f k where "s' = upd s d f k" "agree D d (disk s)"
  using assms by (auto simp: touches_def)

lemma wp_touches:
  assumes "wp m (\<lambda>r s'. touches D s s' \<and> P r (disk s')) s"
    and "\<And>r d f k. agree D d (disk s) \<Longrightarrow> P r d \<Longrightarrow> Q r (upd s d f k)"
  shows "wp m Q s"
  by (rule wp_mono [OF assms(1)]) (auto elim!: touchesE intro: assms(2))

lemma wp_injectI:
  "Q (Inr ()) s \<Longrightarrow> (\<And>m. Q (Inl (ErrFault point m)) s) \<Longrightarrow> wp (inject point) Q s"
  by (simp add: wp_def inject_def split: option.splits)

lemma wp_inject_off: "faultInjector s = None \<Longrightarrow> wp (inject point) Q s = Q (Inr ()) s"
  by (simp add: wp_def inject_def)

definition synced :: "bytes \<Rightarrow> inode" where
  "synced b = \<lparr>content = b, stable = b\<rparr>"

lemma content_synced [simp]: "content (synced b) = b" "stable (synced b) = b"
  by (simp_all add: synced_def)

lemmas io_exec = io_primitives setFile_def appendFile_def

section \<open>Cursor file\<close>

definition cursorIs :: "(string \<rightharpoonup> inode) \<Rightarrow> nat \<Rightarrow> bool" where
  "cursorIs d n \<longleftrightarrow> (\<exists>i. d offsetFileName = Some i
     \<and> parseInt (trimSpace (stringOf (content i))) = Some (int n))"

lemma parse_cursorBytes:
  "n < 2 ^ 63 \<Longrightarrow> parseInt (trimSpace (stringOf (cursorBytes n))) = Some (int n)"
  by (simp add: cursorBytes_def formatInt_def trimSpace_formatNat_nl parseInt_formatNat)

lemma cursorIs_written: "d offsetFileName = Some (synced (cursorBytes n)) \<Longrightarrow> n < 2 ^ 63 \<Longrightarrow> cursorIs d n"
  by (simp add: cursorIs_def parse_cursorBytes)

lemma persistCursor_touches:
  "wp (persistCursorLocked n) (\<lambda>r s'. touches {''spool.offset'', ''spool.offset.tmp''} s s'
     \<and> ((r = Inr () \<longrightarrow> disk s' ''spool.offset'' = Some (synced (cursorBytes n)))
        \<and> (disk s' ''spool.offset'' = disk s ''spool.offset''
           \<or> disk s' ''spool.offset'' = Some (synced (cursorBytes n)))
        \<and> r \<noteq> Inl ErrCorruptSegment)) s"
  unfolding persistCursorLocked_def atomicWriteFile_def Let_def
  by (intro wp_sysI wp_injectI conjI allI impI
      | simp add: wp_simps io_exec touches_def agree_def synced_def)+

lemma wp_persistCursorI:
  assumes "\<And>d f k. agree {''spool.offset'', ''spool.offset.tmp''} d (disk s) \<Longrightarrow>
     d ''spool.offset'' = Some (synced (cursorBytes n)) \<Longrightarrow> Q (Inr ()) (upd s d f k)"
   and "\<And>e d f k. agree {''spool.offset'', ''spool.offset.tmp''} d (disk s) \<Longrightarrow>
     d ''spool.offset'' = disk s ''spool.offset'' \<or> d ''spool.offset'' = Some (synced (cursorBytes n)) \<Longrightarrow>
     e \<noteq> ErrCorruptSegment \<Longrightarrow> Q (Inl e) (upd s d f k)"
  shows "wp (persistCursorLocked n) Q s"
proof (rule wp_touches [OF persistCursor_touches])
  fix r :: "spool_error + unit" and d f k
  assume "agree {''spool.offset'', ''spool.offset.tmp''} d (disk s)"
    "(r = Inr () \<longrightarrow> d ''spool.offset'' = Some (synced (cursorBytes n))) \<and>
     (d ''spool.offset'' = disk s ''spool.offset'' \<or> d ''spool.offset'' = Some (synced (cursorBytes n)))
     \<and> r \<noteq> Inl ErrCorruptSegment"
  with assms show "Q r (upd s d f k)" by (cases r) auto
qed

text \<open>The swap of the log, for every schedule: it is complete, or nothing but the cursor has
  changed, or the new log is in place with cursor 0 and the spool is closed.\<close>

abbreviation "rewriteFiles \<equiv> {''spool.log.rewrite'', ''spool.offset'', ''spool.offset.tmp''}"

definition rewriteResult :: "bytes \<Rightarrow> spool \<Rightarrow> spool_error + unit \<Rightarrow> spool \<Rightarrow> bool" where
  "rewriteResult b s r s' \<longleftrightarrow>
     s' = (upd s (disk s') (faults s') (fsyncFailures s'))\<lparr>fileOpen := fileOpen s', offset := offset s'\<rparr>
     \<and> agree (insert ''spool.log'' rewriteFiles) (disk s') (disk s)
     \<and> (if r = Inr () then disk s' ''spool.log'' = Some (synced b)
            \<and> disk s' ''spool.offset'' = Some (synced (cursorBytes 0)) \<and> fileOpen s' \<and> offset s' = 0
        else offset s' = offset s \<and>
          (disk s' ''spool.log'' = disk s ''spool.log'' \<and> fileOpen s' = fileOpen s
             \<and> (disk s' ''spool.offset'' = disk s ''spool.offset''
                \<or> disk s' ''spool.offset'' = Some (synced (cursorBytes 0)))
           \<or> disk s' ''spool.log'' = Some (synced b) \<and> \<not> fileOpen s'
             \<and> disk s' ''spool.offset'' = Some (synced (cursorBytes 0))))"


lemma wp_steps_append: "wp (steps (ms @ ns)) Q s = wp (seqE (steps ms) (steps ns)) Q s"
  by (induction ms arbitrary: s) (simp_all add: steps_Cons steps.simps(1) wp_ret wp_seqE cong: sum.case_cong)

lemma rewrite_prepare:
  "wp (steps [openTrunc rewriteFileName,
            onErr (writeFull rewriteFileName b) (removeFile rewriteFileName),
            onErr (syncFile rewriteFileName) (removeFile rewriteFileName),
            onErr (closeFile rewriteFileName) (removeFile rewriteFileName),
            onErr (persistCursorLocked 0) (removeFile rewriteFileName)])
    (\<lambda>r s'. touches rewriteFiles s s'
      \<and> (if r = Inr () then disk s' ''spool.log.rewrite'' = Some (synced b)
            \<and> disk s' ''spool.offset'' = Some (synced (cursorBytes 0))
         else disk s' ''spool.offset'' = disk s ''spool.offset''
            \<or> disk s' ''spool.offset'' = Some (synced (cursorBytes 0)))) s"
  by (intro wp_sysI wp_persistCursorI conjI allI impI
      | simp add: wp_simps io_exec touches_def agree_def synced_def split: option.splits)+


lemma wp_rewriteLocked: "wp (rewriteLocked b) (rewriteResult b s) s"
proof -
  let ?prep = "[openTrunc rewriteFileName,
            onErr (writeFull rewriteFileName b) (removeFile rewriteFileName),
            onErr (syncFile rewriteFileName) (removeFile rewriteFileName),
            onErr (closeFile rewriteFileName) (removeFile rewriteFileName),
            onErr (persistCursorLocked 0) (removeFile rewriteFileName)]"
  let ?swap = "[renameFile rewriteFileName spoolFileName,
            modify (\<lambda>s. s\<lparr>fileOpen := False\<rparr>), syncDirectory, openExisting spoolFileName,
            modify (\<lambda>s. s\<lparr>fileOpen := True, offset := 0\<rparr>)]"
  have fail: "rewriteResult b s (Inl e) (upd s d f k)"
    if "agree rewriteFiles d (disk s)"
      "d ''spool.offset'' = disk s ''spool.offset'' \<or> d ''spool.offset'' = Some (synced (cursorBytes 0))"
    for e d f k using that by (auto simp: rewriteResult_def agree_def)
  have swap: "wp (steps ?swap) (rewriteResult b s) (upd s d f k)"
    if "agree rewriteFiles d (disk s)" "d ''spool.log.rewrite'' = Some (synced b)"
      "d ''spool.offset'' = Some (synced (cursorBytes 0))" for d f k
    using that
    by (intro wp_sysI conjI allI impI
        | simp add: wp_simps io_exec rewriteResult_def agree_def)+
  have "wp (steps (?prep @ ?swap)) (rewriteResult b s) s"
    unfolding wp_steps_append wp_seqE
    by (rule wp_touches [OF rewrite_prepare]) (auto split: sum.splits if_splits intro: swap fail)
  then show ?thesis by (simp add: rewriteLocked_def)
qed

end
