(* ===== verification/SpoolQueue.thy ===== *)
theory SpoolQueue
  imports Spool
begin

text \<open>
  The spool as a durable queue.  \<open>spoolInv s ps c q\<close> relates an open spool to the payloads in
  its log, \<open>diskHolds\<close> does the same for a directory.  For every operation there is a result
  predicate that describes what is left in memory and on disk for \<^emph>\<open>every\<close> fault schedule and
  every fault injector, and a lemma that the operation establishes it.  On top of these come
  the functional properties (FIFO order, bounded size, eviction of the oldest records only)
  and the failure properties (no unread record disappears unless it is evicted).
\<close>

section \<open>Abstraction\<close>

definition cursorOf :: "bytes list \<Rightarrow> nat \<Rightarrow> nat" where
  "cursorOf ps c = length (encodeAll (take c ps))"

text \<open>The directory holds the log of the payloads \<open>ps\<close> followed by the bytes \<open>t\<close>, and a cursor
  file that points behind the first \<open>q\<close> records.\<close>

definition diskHolds :: "(string \<rightharpoonup> inode) \<Rightarrow> bytes list \<Rightarrow> bytes \<Rightarrow> nat \<Rightarrow> bool" where
  "diskHolds d ps t q \<longleftrightarrow> (\<exists>i. d ''spool.log'' = Some i \<and> content i = encodeAll ps @ t)
     \<and> q \<le> length ps \<and> cursorIs d (cursorOf ps q)"

text \<open>An open spool: the log is exactly the records of \<open>ps\<close>, the cursor in memory is behind the
  first \<open>c\<close> of them and the persisted one behind the first \<open>q\<close>.\<close>

definition spoolInv :: "spool \<Rightarrow> bytes list \<Rightarrow> nat \<Rightarrow> nat \<Rightarrow> bool" where
  "spoolInv s ps c q \<longleftrightarrow> fileOpen s \<and> diskHolds (disk s) ps [] q
     \<and> c \<le> length ps \<and> offset s = cursorOf ps c
     \<and> (\<forall>p \<in> set ps. okPayload (maxPayloadBytes s) p)
     \<and> length (encodeAll ps) \<le> maxBytes s \<and> maxBytes s < 2 ^ 63"

lemma cursorOf_0 [simp]: "cursorOf ps 0 = 0"
  by (simp add: cursorOf_def)

lemma cursorOf_le: "cursorOf ps c \<le> length (encodeAll ps)"
proof -
  have "encodeAll ps = encodeAll (take c ps) @ encodeAll (drop c ps)"
    by (metis append_take_drop_id encodeAll_simps(3))
  then show ?thesis by (simp add: cursorOf_def)
qed

lemma drop_cursorOf: "drop (cursorOf ps c) (encodeAll ps) = encodeAll (drop c ps)"
  using drop_encodeAll [of c ps] by (simp add: cursorOf_def length_encodeAll take_map)

lemma cursorOf_append [simp]: "c \<le> length ps \<Longrightarrow> cursorOf (ps @ qs) c = cursorOf ps c"
  by (simp add: cursorOf_def)

lemma length_encodeAll_drop: "length (encodeAll (drop c ps)) = length (encodeAll ps) - cursorOf ps c"
  by (simp flip: drop_cursorOf)

lemma spoolInv_faults [simp]: "spoolInv (s\<lparr>faults := f\<rparr>) ps c q = spoolInv s ps c q"
  by (simp add: spoolInv_def)

lemma spoolInv_log:
  assumes "spoolInv s ps c q"
  obtains i where "disk s ''spool.log'' = Some i" "content i = encodeAll ps"
  using assms by (auto simp: spoolInv_def diskHolds_def)

lemma wp_statSizeI:
  assumes "disk s nm = Some i" "\<And>fs. Q (Inr (length (content i))) (s\<lparr>faults := fs\<rparr>)"
    "\<And>fs. Q (Inl ErrIO) (s\<lparr>faults := fs\<rparr>)"
  shows "wp (statSize nm) Q s"
  unfolding statSize_def using assms by (intro wp_sysI) (simp_all add: wp_simps)

lemma wp_readUnreadI:
  assumes inv: "spoolInv s ps c q"
    and ok: "\<And>fs. Q (Inr (encodeAll (drop c ps))) (s\<lparr>faults := fs\<rparr>)"
    and io: "\<And>fs. Q (Inl ErrIO) (s\<lparr>faults := fs\<rparr>)"
  shows "wp (readUnreadLocked (length (encodeAll ps))) Q s"
proof -
  obtain i where i: "disk s ''spool.log'' = Some i" "content i = encodeAll ps"
    by (rule spoolInv_log [OF inv])
  have off: "offset s = cursorOf ps c" using inv by (simp add: spoolInv_def)
  show ?thesis
  proof (cases "offset s \<ge> length (encodeAll ps)")
    case True
    then have "encodeAll (drop c ps) = []" using off drop_cursorOf [of ps c] by simp
    with True ok [of "faults s"] show ?thesis by (simp add: wp_simps readUnreadLocked_def)
  next
    case False
    with i off show ?thesis using ok io drop_cursorOf [of ps c] length_encodeAll_drop [of c ps]
      unfolding readUnreadLocked_def readAt_def
      by (simp add: wp_simps) (intro wp_sysI, simp_all add: wp_simps)
  qed
qed

section \<open>Compaction\<close>

definition evictions :: "spool \<Rightarrow> bytes list \<Rightarrow> nat \<Rightarrow> nat \<Rightarrow> nat" where
  "evictions s ps c req =
     (if maxBytes s \<le> req then length ps - c
      else evictCount (int (maxBytes s) - int req) (map recordOf (drop c ps)))"

definition sameConfig :: "spool \<Rightarrow> spool \<Rightarrow> bool" where
  "sameConfig s s' \<longleftrightarrow> maxBytes s' = maxBytes s \<and> maxPayloadBytes s' = maxPayloadBytes s
     \<and> faultInjector s' = faultInjector s"

definition compactResult :: "spool \<Rightarrow> bytes list \<Rightarrow> nat \<Rightarrow> nat \<Rightarrow> nat \<Rightarrow> spool_error + unit \<Rightarrow> spool \<Rightarrow> bool" where
  "compactResult s ps c q req r s' \<longleftrightarrow> sameConfig s s' \<and>
     (if length (encodeAll ps) + req \<le> maxBytes s then spoolInv s' ps c q \<and> evictedRecords s' = evictedRecords s
      else let k = evictions s ps c req; ps' = drop (c + k) ps in
        case r of
          Inr _ \<Rightarrow> spoolInv s' ps' 0 0 \<and> length (encodeAll ps') + req \<le> maxBytes s
                 \<and> evictedRecords s' = evictedRecords s + of_nat k
        | Inl _ \<Rightarrow> spoolInv s' ps c q \<or> spoolInv s' ps c 0 \<or> (\<not> fileOpen s' \<and> diskHolds (disk s') ps' [] 0))"

lemma evictions_fit:
  assumes "req \<le> maxBytes s" "c \<le> length ps"
  shows "length (encodeAll (drop (c + evictions s ps c req) ps)) + req \<le> maxBytes s"
proof (cases "maxBytes s \<le> req")
  case True
  with assms show ?thesis by (simp add: evictions_def)
next
  case False
  then have "int (totalLength (drop (evictions s ps c req) (map recordOf (drop c ps)))) \<le> int (maxBytes s) - int req"
    unfolding evictions_def by (auto intro: evictCount_fits)
  then show ?thesis by (simp add: length_encodeAll drop_map add.commute)
qed

lemma diskHolds_rewritten:
  assumes "d ''spool.log'' = Some (synced (encodeAll ps))" "d ''spool.offset'' = Some (synced (cursorBytes 0))"
  shows "diskHolds d ps [] 0"
  using assms by (simp add: diskHolds_def cursorIs_written)

lemma diskHolds_cursor:
  assumes "diskHolds d ps t q" "d' ''spool.log'' = d ''spool.log''" "d' ''spool.offset'' = d ''spool.offset''"
  shows "diskHolds d' ps t q"
  using assms by (simp add: diskHolds_def cursorIs_def)

lemma diskHolds_cursor0:
  assumes "diskHolds d ps t q" "d' ''spool.log'' = d ''spool.log''" "d' ''spool.offset'' = Some (synced (cursorBytes 0))"
  shows "diskHolds d' ps t 0"
  using assms by (simp add: diskHolds_def cursorIs_written)

lemma rewriteResult_compact:
  assumes inv: "spoolInv s ps c q" and nofit: "\<not> length (encodeAll ps) + req \<le> maxBytes s"
    and req: "req \<le> maxBytes s" and k: "k = evictions s ps c req"
    and s1: "s1 = s\<lparr>faults := f, evictedRecords := evictedRecords s + of_nat k, discardedRecords := x\<rparr>"
    and rw: "rewriteResult (encodeAll (drop (c + k) ps)) s1 r s'"
  shows "compactResult s ps c q req r s'"
proof -
  let ?ps = "drop (c + k) ps"
  from rw obtain d g j fo o' where s': "s' = (upd s1 d g j)\<lparr>fileOpen := fo, offset := o'\<rparr>"
    unfolding rewriteResult_def by blast
  have base: "\<forall>p \<in> set ?ps. okPayload (maxPayloadBytes s) p" "maxBytes s < 2 ^ 63" "c \<le> length ps"
    using inv by (auto simp: spoolInv_def dest: in_set_dropD)
  have fit: "length (encodeAll ?ps) + req \<le> maxBytes s"
    unfolding k using req base(3) by (rule evictions_fit)
  have cfg: "sameConfig s s'" "evictedRecords s' = evictedRecords s + of_nat k"
    by (simp_all add: s' s1 sameConfig_def)
  show ?thesis
  proof (cases r)
    case (Inr u)
    with rw have "d ''spool.log'' = Some (synced (encodeAll ?ps))"
      "d ''spool.offset'' = Some (synced (cursorBytes 0))" fo "o' = 0"
      by (auto simp: rewriteResult_def s')
    then have "spoolInv s' ?ps 0 0"
      using base fit by (simp add: spoolInv_def s' s1 diskHolds_rewritten)
    with cfg fit nofit Inr show ?thesis by (simp add: compactResult_def Let_def flip: k)
  next
    case (Inl e)
    have mem: "spoolInv s ps c q" "diskHolds (disk s) ps [] q" using inv by (simp_all add: spoolInv_def)
    from rw Inl have "o' = offset s" and
      "d ''spool.log'' = disk s ''spool.log'' \<and> fo = fileOpen s \<and> d ''spool.offset'' = disk s ''spool.offset''
       \<or> d ''spool.log'' = disk s ''spool.log'' \<and> fo = fileOpen s \<and> d ''spool.offset'' = Some (synced (cursorBytes 0))
       \<or> d ''spool.log'' = Some (synced (encodeAll ?ps)) \<and> \<not> fo \<and> d ''spool.offset'' = Some (synced (cursorBytes 0))"
      by (auto simp: rewriteResult_def s' s1)
    then have "spoolInv s' ps c q \<or> spoolInv s' ps c 0 \<or> (\<not> fileOpen s' \<and> diskHolds (disk s') ?ps [] 0)"
      using mem diskHolds_cursor [OF mem(2), of d] diskHolds_cursor0 [OF mem(2), of d] diskHolds_rewritten [of d ?ps]
      by (auto simp: spoolInv_def s' s1)
    with cfg nofit Inl show ?thesis by (simp add: compactResult_def Let_def flip: k)
  qed
qed

lemma trim_backlog:
  assumes "\<forall>p \<in> set ps. okPayload (maxPayloadBytes s) p" "c \<le> length ps"
  shows "trimV2ToFit (encodeAll (drop c ps)) (int (maxBytes s) - int req) (maxPayloadBytes s)
      = (encodeAll (drop (c + evictions s ps c req) ps), evictions s ps c req, 0, '''')"
proof -
  have ok: "\<forall>p \<in> set (drop c ps). okPayload (maxPayloadBytes s) p"
    using assms(1) by (auto dest: in_set_dropD)
  have "evictions s ps c req = (if int (maxBytes s) - int req \<le> 0 then length (drop c ps)
      else evictCount (int (maxBytes s) - int req) (map recordOf (drop c ps)))"
    by (simp add: evictions_def)
  moreover have "drop k (drop c ps) = drop (c + k) ps" for k by (simp add: add.commute)
  ultimately show ?thesis
    by (simp only: trimV2ToFit_encodeAll [OF ok] Let_def)
qed

lemma wp_compactLocked:
  assumes inv: "spoolInv s ps c q" and req: "req \<le> maxBytes s"
  shows "wp (compactLocked req) (compactResult s ps c q req) s"
proof -
  obtain i where i: "disk s ''spool.log'' = Some i" "content i = encodeAll ps"
    by (rule spoolInv_log [OF inv])
  have same: "length (encodeAll ps) + req \<le> maxBytes s \<Longrightarrow> compactResult s ps c q req r (s\<lparr>faults := fs\<rparr>)"
    "compactResult s ps c q req (Inl e) (s\<lparr>faults := fs\<rparr>)" for r e fs
    using inv by (auto simp: compactResult_def sameConfig_def Let_def)
  let ?k = "evictions s ps c req"
  have trim: "trimV2ToFit (encodeAll (drop c ps)) (int (maxBytes s) - int req) (maxPayloadBytes s)
      = (encodeAll (drop (c + ?k) ps), ?k, 0, '''')"
    using inv by (intro trim_backlog) (simp_all add: spoolInv_def)
  have rw: "wp (rewriteLocked (encodeAll (drop (c + ?k) ps))) (compactResult s ps c q req)
      (s\<lparr>faults := fs, evictedRecords := evictedRecords s + of_nat ?k, discardedRecords := x\<rparr>)"
    if "\<not> length (encodeAll ps) + req \<le> maxBytes s" for fs x
    by (rule wp_mono [OF wp_rewriteLocked]) (rule rewriteResult_compact [OF inv that req refl refl])
  show ?thesis
    unfolding compactLocked_def wp_bindE wp_getS
  proof (rule wp_statSizeI [OF i(1)], goal_cases)
    case (1 fs)
    have inv': "spoolInv (s\<lparr>faults := fs\<rparr>) ps c q" using inv by simp
    show ?case
    proof (cases "length (encodeAll ps) + req \<le> maxBytes s")
      case True
      then show ?thesis by (simp add: i wp_simps same)
    next
      case False
      note rw' = rw [OF False, where x = "discardedRecords s", simplified]
      from False show ?thesis
        by (simp add: i wp_getS wp_bindE)
           (rule wp_readUnreadI [OF inv'], simp_all add: trim wp_simps same rw')
    qed
  qed (simp add: same)
qed

section \<open>Enqueue\<close>

text \<open>The tail of \<^verbatim>\<open>Enqueue\<close> after compaction, for every schedule and injector: a success leaves
  exactly the appended record, synchronized; a failure leaves a prefix of it.\<close>

definition appendResult :: "spool \<Rightarrow> bytes list \<Rightarrow> nat \<Rightarrow> nat \<Rightarrow> bytes \<Rightarrow> spool_error + unit \<Rightarrow> spool \<Rightarrow> bool" where
  "appendResult s ps c q p r s' \<longleftrightarrow> sameConfig s s' \<and> evictedRecords s' = evictedRecords s
     \<and> (case r of
          Inr _ \<Rightarrow> spoolInv s' (ps @ [p]) c q
                 \<and> (\<exists>i. disk s' ''spool.log'' = Some i \<and> stable i = content i)
        | Inl _ \<Rightarrow> \<exists>j. diskHolds (disk s') ps (take j (encodeRecord p)) q)"

definition torn :: "bytes list \<Rightarrow> bytes \<Rightarrow> bytes \<Rightarrow> bool" where
  "torn ps p b \<longleftrightarrow> (\<exists>j. b = encodeAll ps @ take j (encodeRecord p))"

lemma torn_simps [simp]:
  "torn ps p (encodeAll ps)" "torn ps p (encodeAll ps @ encodeRecord p)"
  "torn ps p (encodeAll ps @ take n (encodeRecord p))"
  by (auto simp: torn_def intro: exI [of _ 0] exI [of _ "length (encodeRecord p)"])

lemma diskHolds_append:
  assumes "diskHolds d ps [] q" "d' ''spool.log'' = Some i" "content i = encodeAll ps @ t"
    "d' ''spool.offset'' = d ''spool.offset''"
  shows "diskHolds d' ps t q"
  using assms by (auto simp: diskHolds_def cursorIs_def)

lemma diskHolds_snoc: "diskHolds d ps (encodeRecord p) q \<Longrightarrow> diskHolds d (ps @ [p]) [] q"
  by (auto simp: diskHolds_def)

lemma wp_append:
  assumes inv: "spoolInv s ps c q" and ok: "okPayload (maxPayloadBytes s) p"
    and fit: "length (encodeAll ps) + length (encodeRecord p) \<le> maxBytes s"
  shows "wp (seqE (inject FaultBeforeRecordWrite)
         (bindE (statSize spoolFileName) (\<lambda>start.
           steps [onErr (writeFull spoolFileName (encodeRecord p)) (rollbackAppendLocked start),
                  inject FaultAfterRecordWrite,
                  inject FaultBeforeDataSync,
                  onErr (syncFile spoolFileName) (rollbackAppendLocked start),
                  inject FaultAfterDataSync]))) (appendResult s ps c q p) s"
proof -
  obtain i where i: "disk s ''spool.log'' = Some i" "content i = encodeAll ps"
    by (rule spoolInv_log [OF inv])
  have dh: "diskHolds (disk s) ps [] q" and open': "fileOpen s" using inv by (simp_all add: spoolInv_def)
  have fail: "appendResult s ps c q p (Inl e) s'"
    if "sameConfig s s'" "evictedRecords s' = evictedRecords s" "disk s' ''spool.offset'' = disk s ''spool.offset''"
      "\<exists>i'. disk s' ''spool.log'' = Some i' \<and> torn ps p (content i')" for e s'
    using that diskHolds_append [OF dh] by (fastforce simp: appendResult_def torn_def)
  have succ: "appendResult s ps c q p (Inr ()) s'"
    if "sameConfig s s'" "evictedRecords s' = evictedRecords s" "disk s' ''spool.offset'' = disk s ''spool.offset''"
      "fileOpen s'" "offset s' = offset s"
      "disk s' ''spool.log'' = Some (synced (encodeAll ps @ encodeRecord p))" for s'
  proof -
    have "diskHolds (disk s') (ps @ [p]) [] q"
      using that by (intro diskHolds_snoc diskHolds_append [OF dh]) auto
    with that inv ok fit show ?thesis by (auto simp: appendResult_def sameConfig_def spoolInv_def)
  qed
  show ?thesis
    by (intro fail succ wp_injectI wp_sysI conjI allI impI
        | simp add: wp_simps io_exec rollbackAppendLocked_def i open' sameConfig_def synced_def)+
qed

definition enqueueFits :: "spool \<Rightarrow> bytes list \<Rightarrow> bytes \<Rightarrow> bool" where
  "enqueueFits s ps p \<longleftrightarrow> length (encodeAll ps) + length (encodeRecord p) \<le> maxBytes s"

definition enqueueResult :: "spool \<Rightarrow> bytes list \<Rightarrow> nat \<Rightarrow> nat \<Rightarrow> bytes \<Rightarrow> spool_error + unit \<Rightarrow> spool \<Rightarrow> bool" where
  "enqueueResult s ps c q p r s' \<longleftrightarrow> sameConfig s s' \<and>
     (let k = evictions s ps c (length (encodeRecord p)) in
      case r of
        Inr _ \<Rightarrow> (\<exists>i. disk s' ''spool.log'' = Some i \<and> stable i = content i)
          \<and> (if enqueueFits s ps p
             then spoolInv s' (ps @ [p]) c q \<and> evictedRecords s' = evictedRecords s
             else spoolInv s' (drop (c + k) ps @ [p]) 0 0
                  \<and> evictedRecords s' = evictedRecords s + of_nat k)
      | Inl _ \<Rightarrow> \<exists>ps' q' j. diskHolds (disk s') ps' (take j (encodeRecord p)) q'
          \<and> (ps' = ps \<and> q' = q \<and> (enqueueFits s ps p \<or> j = 0)
             \<or> \<not> enqueueFits s ps p \<and> ps' = ps \<and> q' = 0 \<and> j = 0
             \<or> \<not> enqueueFits s ps p \<and> ps' = drop (c + k) ps \<and> q' = 0))"

lemma spoolInv_disk: "spoolInv s ps c q \<Longrightarrow> diskHolds (disk s) ps (take 0 b) q"
  by (simp add: spoolInv_def)

lemma enqueueResult_compact_err:
  assumes "compactResult s ps c q (length (encodeRecord p)) (Inl e) s'"
  shows "enqueueResult s ps c q p (Inl e) s'"
proof -
  let ?k = "evictions s ps c (length (encodeRecord p))"
  have *: "spoolInv s' ps c q \<or> \<not> enqueueFits s ps p \<and> spoolInv s' ps c 0
      \<or> \<not> enqueueFits s ps p \<and> diskHolds (disk s') (drop (c + ?k) ps) (take 0 (encodeRecord p)) 0"
    using assms by (auto simp: compactResult_def enqueueFits_def Let_def split: if_splits)
  show ?thesis
    using assms * spoolInv_disk [of s' ps c _ "encodeRecord p"]
    unfolding enqueueResult_def compactResult_def Let_def sum.case by metis
qed

lemma enqueueResult_append:
  assumes "compactResult s ps c q (length (encodeRecord p)) (Inr ()) s1"
    "if enqueueFits s ps p then appendResult s1 ps c q p r s'
     else appendResult s1 (drop (c + evictions s ps c (length (encodeRecord p))) ps) 0 0 p r s'"
  shows "enqueueResult s ps c q p r s'"
  using assms
  by (cases r) (fastforce simp: enqueueResult_def compactResult_def appendResult_def sameConfig_def
      enqueueFits_def Let_def split: if_splits)+

text \<open>The whole of \<^verbatim>\<open>Enqueue\<close>, for every schedule of I/O errors and every fault injector.\<close>

lemma wp_Enqueue:
  assumes inv: "spoolInv s ps c q" and ok: "okPayload (maxPayloadBytes s) p"
    and max: "length (encodeRecord p) \<le> maxBytes s"
  shows "wp (Enqueue p) (enqueueResult s ps c q p) s"
proof -
  let ?req = "length (encodeRecord p)"
  have guards: "\<not> length p > maxPayloadBytes s" "fileOpen s"
    using inv ok by (auto simp: okPayload_def spoolInv_def)
  let ?rest = "seqE (inject FaultBeforeRecordWrite) (bindE (statSize spoolFileName) (\<lambda>start.
           steps [onErr (writeFull spoolFileName (encodeRecord p)) (rollbackAppendLocked start),
                  inject FaultAfterRecordWrite, inject FaultBeforeDataSync,
                  onErr (syncFile spoolFileName) (rollbackAppendLocked start),
                  inject FaultAfterDataSync]))"
  have rest: "wp ?rest (enqueueResult s ps c q p) s1"
    if "compactResult s ps c q ?req (Inr x) s1" for x s1
  proof -
    from that have cr: "compactResult s ps c q ?req (Inr ()) s1" by (cases x) simp
    have cfg: "maxPayloadBytes s1 = maxPayloadBytes s" "maxBytes s1 = maxBytes s"
      using cr by (auto simp: compactResult_def sameConfig_def)
    show ?thesis
    proof (cases "enqueueFits s ps p")
      case True
      with cr have "spoolInv s1 ps c q" by (simp add: compactResult_def enqueueFits_def)
      then have "wp ?rest (appendResult s1 ps c q p) s1"
        using ok True by (intro wp_append) (simp_all add: cfg enqueueFits_def)
      then show ?thesis
        by (rule wp_mono) (rule enqueueResult_append [OF cr], simp add: True)
    next
      case False
      let ?ps = "drop (c + evictions s ps c ?req) ps"
      from cr False have "spoolInv s1 ?ps 0 0" "length (encodeAll ?ps) + ?req \<le> maxBytes s"
        by (simp_all add: compactResult_def enqueueFits_def Let_def)
      then have "wp ?rest (appendResult s1 ?ps 0 0 p) s1"
        using ok by (intro wp_append) (simp_all add: cfg)
      then show ?thesis
        by (rule wp_mono) (rule enqueueResult_append [OF cr], simp add: False)
    qed
  qed
  have "wp (seqE (compactLocked ?req) ?rest) (enqueueResult s ps c q p) s"
    by (rule wp_seqE_I [OF wp_compactLocked [OF inv max]])
       (erule enqueueResult_compact_err, erule rest)
  then show ?thesis using guards max by (simp add: Enqueue_def wp_getS)
qed

end
