(* ===== verification/SpoolConsume.thy ===== *)
theory SpoolConsume
  imports SpoolQueue
begin

text \<open>
  Reading and committing.  On a well-formed log \<open>Next\<close> returns the first record behind the
  cursor and changes nothing, and \<open>Commit\<close> of the offset that \<open>Next\<close> returned moves the
  cursor by one record, in memory only after it is on disk.  On arbitrary bytes \<open>Next\<close>
  returns only payloads whose checksum matches.
\<close>

section \<open>Next on a well-formed log\<close>

lemma encodeAll_from:
  "c < length ps \<Longrightarrow> encodeAll (drop c ps) = encodeRecord (ps ! c) @ encodeAll (drop (Suc c) ps)"
  by (metis Cons_nth_drop_Suc encodeAll_simps(2))

lemma cursorOf_Suc: "c < length ps \<Longrightarrow> cursorOf ps (Suc c) = cursorOf ps c + 16 + length (ps ! c)"
  by (simp add: cursorOf_def take_Suc_conv_app_nth)

lemma cursorOf_length: "cursorOf ps (length ps) = length (encodeAll ps)"
  by (simp add: cursorOf_def)

lemma cursorOf_mono: "c \<le> d \<Longrightarrow> cursorOf ps c \<le> cursorOf ps d"
proof (induction d rule: dec_induct)
  case (step n)
  then show ?case
    by (cases "n < length ps") (simp_all add: cursorOf_Suc, simp add: cursorOf_def)
qed simp

lemma cursorOf_lt: "c < d \<Longrightarrow> d \<le> length ps \<Longrightarrow> cursorOf ps c < cursorOf ps d"
  using cursorOf_mono [of "Suc c" d ps] by (simp add: cursorOf_Suc)

lemma cursorOf_end_iff: "c \<le> length ps \<Longrightarrow> length (encodeAll ps) \<le> cursorOf ps c \<longleftrightarrow> c = length ps"
  using cursorOf_lt [of c "length ps" ps] by (cases "c < length ps") (auto simp: cursorOf_length)

lemma record_at_cursor:
  assumes "c < length ps" "\<forall>p \<in> set ps. okPayload mx p"
  shows "decodeHeader (take 16 (drop (cursorOf ps c) (encodeAll ps))) mx = (length (ps ! c), True)"
    and "take (length (ps ! c)) (drop (cursorOf ps c + 16) (encodeAll ps)) = ps ! c"
    and "recordChecksum (take 16 (drop (cursorOf ps c) (encodeAll ps))) (ps ! c)
       = getUint32 (take 4 (drop 12 (take 16 (drop (cursorOf ps c) (encodeAll ps)))))"
    and "cursorOf ps c + 16 + length (ps ! c) \<le> length (encodeAll ps)"
proof -
  have d: "drop (cursorOf ps c) (encodeAll ps) = encodeRecord (ps ! c) @ encodeAll (drop (Suc c) ps)"
    using assms(1) by (simp add: drop_cursorOf encodeAll_from)
  have "okPayload mx (ps ! c)" using assms by simp
  then show "decodeHeader (take 16 (drop (cursorOf ps c) (encodeAll ps))) mx = (length (ps ! c), True)"
    unfolding d by (rule decodeHeader_ok)
  show "recordChecksum (take 16 (drop (cursorOf ps c) (encodeAll ps))) (ps ! c)
       = getUint32 (take 4 (drop 12 (take 16 (drop (cursorOf ps c) (encodeAll ps)))))"
    unfolding d by (simp only: encodeRecord_checksum)
  have "drop (cursorOf ps c + 16) (encodeAll ps) = drop 16 (encodeRecord (ps ! c) @ encodeAll (drop (Suc c) ps))"
    by (metis add.commute d drop_drop)
  then show "take (length (ps ! c)) (drop (cursorOf ps c + 16) (encodeAll ps)) = ps ! c"
    by (simp only: drop_header_encodeRecord) simp
  show "cursorOf ps c + 16 + length (ps ! c) \<le> length (encodeAll ps)"
    using cursorOf_le [of ps "Suc c"] assms(1) by (simp add: cursorOf_Suc)
qed

lemma wp_readAtI:
  assumes "disk s nm = Some i" "off + n \<le> length (content i)"
    "\<And>fs. Q (Inr (take n (drop off (content i)))) (s\<lparr>faults := fs\<rparr>)"
    "\<And>fs. Q (Inl ErrIO) (s\<lparr>faults := fs\<rparr>)"
  shows "wp (readAt nm off n) Q s"
  unfolding readAt_def using assms by (intro wp_sysI) (simp_all add: wp_simps)

definition nextResult :: "spool \<Rightarrow> bytes list \<Rightarrow> nat \<Rightarrow> spool_error + (bytes option \<times> nat) \<Rightarrow> spool \<Rightarrow> bool" where
  "nextResult s ps c r s' \<longleftrightarrow> s' = s\<lparr>faults := faults s'\<rparr> \<and>
     (r = Inl ErrIO \<or>
      r = Inr (if c < length ps then (Some (ps ! c), cursorOf ps (Suc c)) else (None, offset s)))"

lemma wp_Next:
  assumes inv: "spoolInv s ps c q"
  shows "wp Next (nextResult s ps c) s"
proof -
  obtain i where i: "disk s ''spool.log'' = Some i" "content i = encodeAll ps"
    by (rule spoolInv_log [OF inv])
  have open': "fileOpen s" and off: "offset s = cursorOf ps c" and le: "c \<le> length ps"
    and ok: "\<forall>p \<in> set ps. okPayload (maxPayloadBytes s) p"
    using inv by (auto simp: spoolInv_def)
  show ?thesis
  proof (cases "c < length ps")
    case True
    define h where "h = take 16 (drop (cursorOf ps c) (encodeAll ps))"
    note rec = record_at_cursor [OF True ok, folded h_def]
    have lt: "\<not> length (encodeAll ps) \<le> cursorOf ps c" "\<not> length (encodeAll ps) - cursorOf ps c < 16"
      "cursorOf ps c + 16 \<le> length (encodeAll ps)"
      using rec(4) by auto
    have rd: "wp (readAt ''spool.log'' at n) Q (s\<lparr>faults := fs\<rparr>)"
      if "at + n \<le> length (encodeAll ps)" "\<And>fs. Q (Inr (take n (drop at (encodeAll ps)))) (s\<lparr>faults := fs\<rparr>)"
        "\<And>fs. Q (Inl ErrIO) (s\<lparr>faults := fs\<rparr>)" for at n Q fs
      using that i by (intro wp_readAtI) auto
    have header: "wp (readHeaderLocked (offset s) (length (encodeAll ps))) Q (s\<lparr>faults := fs\<rparr>)"
      if "\<And>fs. Q (Inr (h, length (ps ! c), cursorOf ps (Suc c))) (s\<lparr>faults := fs\<rparr>)"
        "\<And>fs. Q (Inl ErrIO) (s\<lparr>faults := fs\<rparr>)" for Q fs
      using rec that unfolding readHeaderLocked_def off
      by (simp add: wp_simps lt) (rule rd [OF lt(3)], simp_all add: wp_simps Let_def cursorOf_Suc True flip: h_def)
    have body: "wp (if length (ps ! c) = 0 then ret []
          else catchE (readAt ''spool.log'' (offset s + 16) (length (ps ! c))) (\<lambda>e.
                  if e = ErrEOF then recoverTornTailLocked ''truncated_payload'' else throw e)) Q (s\<lparr>faults := fs\<rparr>)"
      if "\<And>fs. Q (Inr (ps ! c)) (s\<lparr>faults := fs\<rparr>)" "\<And>fs. Q (Inl ErrIO) (s\<lparr>faults := fs\<rparr>)" for Q fs
      using that rec by (auto simp: wp_simps off intro!: rd)
    show ?thesis
      unfolding Next_def
      apply (simp add: wp_getS wp_bindE open')
      apply (rule wp_statSizeI [OF i(1)])
       apply (simp add: i wp_bindE wp_ret off lt del: length_0_conv)
       apply (rule header [unfolded off])
        apply (simp only: wp_bindE prod.case sum.case)
        apply (rule body)
         apply (simp_all add: wp_simps rec nextResult_def True)
      done
  next
    case False
    with le have "\<not> cursorOf ps c < length (encodeAll ps)"
      using cursorOf_end_iff [OF le] by auto
    with False show ?thesis
      unfolding Next_def
      by (simp add: wp_simps open') (rule wp_statSizeI [OF i(1)], simp_all add: wp_simps i off nextResult_def)
  qed
qed

section \<open>Commit on a well-formed log\<close>

lemma readAt_shape:
  assumes "disk t nm = Some i" "off + n \<le> length (content i)"
  obtains g where "readAt nm off n (t\<lparr>faults := f\<rparr>) = (Inr (take n (drop off (content i))), t\<lparr>faults := g\<rparr>)"
      "f = [] \<Longrightarrow> g = []"
  | g where "readAt nm off n (t\<lparr>faults := f\<rparr>) = (Inl ErrIO, t\<lparr>faults := g\<rparr>)" "f \<noteq> []"
  using assms
  by (cases f; cases "hd f") (auto simp: readAt_def sys_def onFile_def ret_def)

text \<open>Reading the headers one by one decides the same as the scan of the whole file; a failed
  read can only answer no.\<close>

lemma boundaryLoop_shape:
  assumes log: "disk t ''spool.log'' = Some i"
    and run: "boundaryLoop target (length (content i)) pos (t\<lparr>faults := f\<rparr>) = (b, s')"
  shows "(\<exists>g. s' = t\<lparr>faults := g\<rparr> \<and> (f = [] \<longrightarrow> g = []))
    \<and> (b \<longrightarrow> recordBoundary (maxPayloadBytes t) (content i) target pos)
    \<and> (f = [] \<longrightarrow> b = recordBoundary (maxPayloadBytes t) (content i) target pos)"
  using run
proof (induction "length (content i) - pos" arbitrary: pos f rule: less_induct)
  case less
  let ?f = "content i" and ?mx = "maxPayloadBytes t"
  let ?rb = "recordBoundary ?mx ?f target"
  note eqs = boundaryLoop.simps [of target "length ?f" pos "t\<lparr>faults := f\<rparr>"]
      recordBoundary.simps [of ?mx ?f target pos]
  show ?case
  proof (cases "pos < length ?f \<and> \<not> length ?f - pos < 16")
    case False
    with less.prems eqs show ?thesis by (auto split: if_splits)
  next
    case True
    then have "pos + 16 \<le> length ?f" by auto
    from readAt_shape [OF log this, of f] show ?thesis
    proof cases
      case (2 g)
      with less.prems True eqs(1) show ?thesis by auto
    next
      case (1 g)
      obtain n ok where dh: "decodeHeader (take 16 (drop pos ?f)) ?mx = (n, ok)" by fastforce
      show ?thesis
      proof (cases "ok \<and> pos + 16 + n < target")
        case False
        with less.prems True eqs 1 dh show ?thesis
          by (auto simp: Let_def add.assoc split: if_splits)
      next
        case rec: True
        then have run': "boundaryLoop target (length ?f) (pos + 16 + n) (t\<lparr>faults := g\<rparr>) = (b, s')"
          and rb: "?rb pos = ?rb (pos + 16 + n)"
          using less.prems True 1(1) dh eqs by (simp_all add: Let_def add.assoc)
        have "length ?f - (pos + 16 + n) < length ?f - pos" using True by auto
        from less.hyps [OF this run'] 1(2) show ?thesis unfolding rb by blast
      qed
    qed
  qed
qed


lemma recordEnds_cursorOf:
  "t \<in> set (recordEnds 0 (map recordOf ps)) \<longleftrightarrow> (\<exists>k. 0 < k \<and> k \<le> length ps \<and> t = cursorOf ps k)"
proof -
  have *: "recordEnds b (map recordOf qs) = map (\<lambda>k. b + cursorOf qs k) [1..<Suc (length qs)]" for b qs
  proof (induction qs arbitrary: b)
    case (Cons p qs)
    have "[1..<Suc (length (p # qs))] = 1 # map Suc [1..<Suc (length qs)]"
      by (simp add: upt_conv_Cons map_Suc_upt del: upt_Suc)
    then show ?case by (simp add: Cons cursorOf_def comp_def del: upt_Suc)
  qed simp
  show ?thesis unfolding * by (auto simp: Suc_le_eq less_Suc_eq_le simp del: upt_Suc)
qed

lemma boundary_cursorOf:
  assumes "\<forall>p \<in> set ps. okPayload mx p" "t \<le> length (encodeAll ps)"
  shows "recordBoundary mx (encodeAll ps) t 0 \<longleftrightarrow> (\<exists>k. 0 < k \<and> k \<le> length ps \<and> t = cursorOf ps k)"
  using recordBoundary_split [of 0 "encodeAll ps" t mx, OF _ assms(2)] splitRecords_encodeAll_only [OF assms(1)]
  by (simp add: recordEnds_cursorOf)

definition commitResult :: "spool \<Rightarrow> bytes list \<Rightarrow> nat \<Rightarrow> nat \<Rightarrow> nat \<Rightarrow> spool_error + unit \<Rightarrow> spool \<Rightarrow> bool" where
  "commitResult s ps c q k r s' \<longleftrightarrow> sameConfig s s' \<and> evictedRecords s' = evictedRecords s
     \<and> (case r of Inr _ \<Rightarrow> spoolInv s' ps k k
        | Inl _ \<Rightarrow> spoolInv s' ps c q \<or> spoolInv s' ps c k)"

lemma diskHolds_persisted:
  assumes "diskHolds d ps t q" "agree {''spool.offset'', ''spool.offset.tmp''} d' d"
    "d' ''spool.offset'' = Some (synced (cursorBytes (cursorOf ps k)))" "k \<le> length ps"
    "cursorOf ps k < 2 ^ 63"
  shows "diskHolds d' ps t k"
  using assms by (auto simp: diskHolds_def cursorIs_written agree_def)

lemma wp_persistCommit:
  assumes inv: "spoolInv s ps c q" and k: "k \<le> length ps"
  shows "wp (steps [persistCursorLocked (cursorOf ps k), modify (\<lambda>s. s\<lparr>offset := cursorOf ps k\<rparr>)])
    (commitResult s ps c q k) s"
proof -
  have small: "cursorOf ps k < 2 ^ 63" using inv cursorOf_le [of ps k] by (simp add: spoolInv_def)
  have dh: "diskHolds (disk s) ps [] q" using inv by (simp add: spoolInv_def)
  have new: "diskHolds d ps [] k" if "agree {''spool.offset'', ''spool.offset.tmp''} d (disk s)"
    "d ''spool.offset'' = Some (synced (cursorBytes (cursorOf ps k)))" for d
    by (rule diskHolds_persisted [OF dh that k small])
  have old: "diskHolds d ps [] q" if "agree {''spool.offset'', ''spool.offset.tmp''} d (disk s)"
    "d ''spool.offset'' = disk s ''spool.offset''" for d
    using that by (intro diskHolds_cursor [OF dh]) (simp_all add: agree_def)
  show ?thesis
    unfolding steps.simps wp_seqE
  proof (rule wp_persistCursorI, goal_cases)
    case (1 d f j)
    with inv k new [OF 1] show ?case
      by (simp add: wp_modify commitResult_def sameConfig_def spoolInv_def)
  next
    case (2 e d f j)
    then have "diskHolds d ps [] q \<or> diskHolds d ps [] k" using new old by blast
    with inv show ?case by (auto simp: commitResult_def sameConfig_def spoolInv_def)
  qed
qed

lemma wp_boundaryI:
  assumes inv: "spoolInv s ps c q" and t: "0 < t"
    and yes: "\<And>fs k. 0 < k \<Longrightarrow> k \<le> length ps \<Longrightarrow> t = cursorOf ps k \<Longrightarrow> Q (Inr True) (s\<lparr>faults := fs\<rparr>)"
    and no: "\<And>fs. Q (Inr False) (s\<lparr>faults := fs\<rparr>)"
    and le: "t \<le> length (encodeAll ps)"
  shows "wp (recordBoundaryLocked t (length (encodeAll ps))) Q (s\<lparr>faults := f\<rparr>)"
proof -
  obtain i where i: "disk s ''spool.log'' = Some i" "content i = encodeAll ps"
    by (rule spoolInv_log [OF inv])
  have ok: "\<forall>p \<in> set ps. okPayload (maxPayloadBytes s) p" using inv by (simp add: spoolInv_def)
  obtain b s' where run: "boundaryLoop t (length (encodeAll ps)) 0 (s\<lparr>faults := f\<rparr>) = (b, s')" by fastforce
  from boundaryLoop_shape [OF i(1) run [folded i(2)]]
  obtain g where "s' = s\<lparr>faults := g\<rparr>" "b \<Longrightarrow> \<exists>k. 0 < k \<and> k \<le> length ps \<and> t = cursorOf ps k"
    using boundary_cursorOf [OF ok le] i(2) by auto
  with run t yes no show ?thesis by (cases b) (auto simp: recordBoundaryLocked_def wp_def)
qed

lemma wp_Commit:
  assumes inv: "spoolInv s ps c q" and k: "c < k" "k \<le> length ps"
  shows "wp (Commit (int (cursorOf ps k))) (commitResult s ps c q k) s"
proof -
  obtain i where i: "disk s ''spool.log'' = Some i" "content i = encodeAll ps"
    by (rule spoolInv_log [OF inv])
  have lt: "cursorOf ps c < cursorOf ps k" "cursorOf ps k \<le> length (encodeAll ps)"
    using cursorOf_lt [OF k] cursorOf_le by auto
  have fail: "commitResult s ps c q k (Inl e) (s\<lparr>faults := fs\<rparr>)" for e fs
    using inv by (simp add: commitResult_def sameConfig_def)
  have rest: "wp (steps [persistCursorLocked t, modify (\<lambda>s. s\<lparr>offset := t\<rparr>)])
    (commitResult s ps c q k) (s\<lparr>faults := fs\<rparr>)" if t: "t = cursorOf ps k" for t fs
    unfolding t by (rule wp_mono [OF wp_persistCommit [where s = "s\<lparr>faults := fs\<rparr>" and c = c and q = q]])
       (use inv k in \<open>auto simp: commitResult_def sameConfig_def split: sum.splits\<close>)
  show ?thesis
    unfolding Commit_def wp_getS
    using inv lt
    by (simp add: spoolInv_def wp_bindE)
       (rule wp_statSizeI [OF i(1)], simp_all add: i wp_bindE fail,
        rule wp_boundaryI [OF inv], simp_all add: wp_simps(2) fail rest)
qed

text \<open>A cursor that is not behind a whole record is refused and nothing changes; an older cursor
  is accepted and changes nothing.\<close>

lemma wp_Commit_reject:
  assumes inv: "spoolInv s ps c q" and n: "int (offset s) < n" "\<forall>k \<le> length ps. n \<noteq> int (cursorOf ps k)"
  shows "wp (Commit n) (\<lambda>r s'. s' = s\<lparr>faults := faults s'\<rparr>
    \<and> (r = Inl ErrIO \<or> r = Inl (ErrInvalidCursor n))) s"
proof -
  obtain i where i: "disk s ''spool.log'' = Some i" "content i = encodeAll ps"
    by (rule spoolInv_log [OF inv])
  obtain t where t: "n = int t" "0 < t" using n(1) by (metis zero_less_imp_eq_int of_nat_less_0_iff
      less_trans not_less_iff_gr_or_eq of_nat_0_less_iff)
  have no: "t \<noteq> cursorOf ps k" if "k \<le> length ps" for k using n(2) t(1) that by auto
  have "wp (recordBoundaryLocked t (length (encodeAll ps)))
      (\<lambda>r s'. r = Inr False \<and> s' = s\<lparr>faults := faults s'\<rparr>) (s\<lparr>faults := fs\<rparr>)"
    if "t \<le> length (encodeAll ps)" for fs
    by (rule wp_boundaryI [OF inv t(2) _ _ that]) (use no in auto)
  note bnd = wp_mono [OF this]
  show ?thesis
    unfolding Commit_def wp_getS
    using inv n(1) t
    by (simp add: spoolInv_def wp_bindE)
       (rule wp_statSizeI [OF i(1)], auto simp: i wp_bindE wp_throw intro!: bnd)
qed

lemma Commit_stale: "fileOpen s \<Longrightarrow> n \<le> int (offset s) \<Longrightarrow> Commit n s = (Inr (), s)"
  by (simp add: Commit_def getS_def ret_def)

section \<open>Runs without I/O errors\<close>

definition quiet :: "spool \<Rightarrow> bool" where
  "quiet s \<longleftrightarrow> faults s = [] \<and> faultInjector s = None"

definition succeeds :: "spool_error + 'a \<Rightarrow> spool \<Rightarrow> bool" where
  "succeeds r s' \<longleftrightarrow> (\<exists>x. r = Inr x) \<and> quiet s'"

lemma wp_sys_quiet: "quiet s \<Longrightarrow> wp (sys ok part) Q s = wp ok Q s"
  by (simp add: quiet_def wp_sys_ok)

lemma wp_inject_quiet: "quiet s \<Longrightarrow> wp (inject point) Q s = Q (Inr ()) s"
  by (simp add: quiet_def wp_inject_off)

lemma quiet_upd [simp]:
  "quiet (s\<lparr>disk := d\<rparr>) = quiet s" "quiet (s\<lparr>fileOpen := b\<rparr>) = quiet s" "quiet (s\<lparr>offset := n\<rparr>) = quiet s"
  "quiet (s\<lparr>evictedRecords := e\<rparr>) = quiet s" "quiet (s\<lparr>discardedRecords := e\<rparr>) = quiet s"
  "quiet (s\<lparr>fsyncFailures := e\<rparr>) = quiet s" "quiet (s\<lparr>tornTailRecoveries := e\<rparr>) = quiet s"
  "quiet (s\<lparr>migrations := e\<rparr>) = quiet s"
  "quiet (s\<lparr>corruptionRecoveries := e\<rparr>) = quiet s" "quiet (s\<lparr>lastRecoveryReason := r\<rparr>) = quiet s"
  by (simp_all add: quiet_def)

lemmas quiet_exec = wp_sys_quiet wp_inject_quiet succeeds_def

lemma quiet_persist: "quiet s \<Longrightarrow> wp (persistCursorLocked n) succeeds s"
  by (simp add: persistCursorLocked_def atomicWriteFile_def wp_simps quiet_exec io_exec Let_def)

lemma quiet_rewrite: "quiet s \<Longrightarrow> wp (rewriteLocked b) succeeds s"
  by (simp add: rewriteLocked_def persistCursorLocked_def atomicWriteFile_def wp_simps quiet_exec io_exec Let_def)

lemma quiet_readUnread:
  assumes "quiet s" "disk s ''spool.log'' = Some i"
  shows "wp (readUnreadLocked (length (content i))) (\<lambda>r s'. s' = s \<and> (\<exists>x. r = Inr x)) s"
  using assms by (auto simp: readUnreadLocked_def readAt_def wp_simps quiet_exec)

lemma quiet_compact:
  assumes q: "quiet s" and i: "disk s ''spool.log'' = Some i"
  shows "wp (compactLocked req) succeeds s"
proof -
  have rest: "wp (getS (\<lambda>s. case trimV2ToFit x (int (maxBytes s) - int req) (maxPayloadBytes s) of
           (kept, evicted, discarded, reason) \<Rightarrow>
             steps [if reason \<noteq> '''' then recordRecoveryLocked reason else ret (),
                    modify (\<lambda>s. s\<lparr>evictedRecords := evictedRecords s + of_nat evicted,
                                  discardedRecords := discardedRecords s + of_nat discarded\<rparr>),
                    rewriteLocked kept])) succeeds s" for x
    using q by (simp add: wp_simps recordRecoveryLocked_def quiet_rewrite split: prod.splits)
  show ?thesis
    using q i unfolding compactLocked_def wp_bindE statSize_def
    by (simp add: wp_getS quiet_exec wp_onFile wp_ret)
       (auto simp: wp_bindE quiet_exec [symmetric] intro!: wp_mono [OF quiet_readUnread [OF q i]] rest)
qed

lemma quiet_append:
  assumes "quiet s" "disk s ''spool.log'' = Some i"
  shows "wp (seqE (inject FaultBeforeRecordWrite)
         (bindE (statSize spoolFileName) (\<lambda>start.
           steps [onErr (writeFull spoolFileName (encodeRecord p)) (rollbackAppendLocked start),
                  inject FaultAfterRecordWrite,
                  inject FaultBeforeDataSync,
                  onErr (syncFile spoolFileName) (rollbackAppendLocked start),
                  inject FaultAfterDataSync]))) succeeds s"
  using assms by (simp add: wp_simps quiet_exec io_exec)

lemma quiet_Enqueue:
  assumes q: "quiet s" and inv: "spoolInv s ps c q'" and ok: "okPayload (maxPayloadBytes s) p"
    and max: "length (encodeRecord p) \<le> maxBytes s"
  shows "wp (Enqueue p) succeeds s"
proof -
  let ?req = "length (encodeRecord p)"
  obtain i where i: "disk s ''spool.log'' = Some i" by (rule spoolInv_log [OF inv])
  have guards: "\<not> length p > maxPayloadBytes s" "fileOpen s"
    using inv ok by (auto simp: okPayload_def spoolInv_def)
  have log: "\<exists>j. disk s1 ''spool.log'' = Some j" if "compactResult s ps c q' ?req (Inr x) s1" for x s1
    using that by (auto simp: compactResult_def spoolInv_def diskHolds_def Let_def split: if_splits)
  have "wp (compactLocked ?req) (\<lambda>r s'. succeeds r s' \<and> compactResult s ps c q' ?req r s') s"
    unfolding wp_conj using quiet_compact [OF q i] wp_compactLocked [OF inv max] by simp
  then have "wp (seqE (compactLocked ?req) k) succeeds s"
    if "\<And>s1 j. quiet s1 \<Longrightarrow> disk s1 ''spool.log'' = Some j \<Longrightarrow> wp k succeeds s1" for k :: "unit spool_act"
    by (rule wp_seqE_I) (auto simp: succeeds_def dest!: log [simplified] intro: that)
  from this [OF quiet_append] show ?thesis
    unfolding Enqueue_def wp_getS using guards max by simp
qed

lemma quiet_Next:
  assumes q: "quiet s" and inv: "spoolInv s ps c q'"
  shows "Next s = (Inr (if c < length ps then (Some (ps ! c), cursorOf ps (Suc c)) else (None, offset s)), s)"
proof -
  obtain i where i: "disk s ''spool.log'' = Some i" "content i = encodeAll ps" by (rule spoolInv_log [OF inv])
  have "wp Next (\<lambda>r s'. faults s' = [] \<and> r \<noteq> Inl ErrIO) s"
  proof (cases "c < length ps")
    case True
    have ok: "\<forall>p \<in> set ps. okPayload (maxPayloadBytes s) p" and off: "fileOpen s" "offset s = cursorOf ps c"
      using inv by (auto simp: spoolInv_def)
    define h where "h = take 16 (drop (cursorOf ps c) (encodeAll ps))"
    note rec = record_at_cursor [OF True ok, folded h_def]
    have lt: "\<not> length (encodeAll ps) \<le> cursorOf ps c" "\<not> length (encodeAll ps) - cursorOf ps c < 16"
      "cursorOf ps c + 16 \<le> length (encodeAll ps)"
      using rec(4) by auto
    show ?thesis
      using q i rec lt off
      by (cases "ps ! c = []")
         (simp_all add: Next_def wp_simps wp_sys_quiet io_exec readHeaderLocked_def Let_def quiet_def flip: h_def)
  next
    case False
    then have "cursorOf ps c = length (encodeAll ps)" using inv by (simp add: spoolInv_def cursorOf_def)
    with inv q i show ?thesis
      by (simp add: Next_def wp_simps wp_sys_quiet io_exec quiet_def spoolInv_def)
  qed
  then have "wp Next (\<lambda>r s'. (faults s' = [] \<and> r \<noteq> Inl ErrIO) \<and> nextResult s ps c r s') s"
    unfolding wp_conj using wp_Next [OF inv] by simp
  then show ?thesis using q by (auto simp: wp_def nextResult_def quiet_def split: prod.splits)
qed

lemma quiet_Commit:
  assumes q: "quiet s" and inv: "spoolInv s ps c q'" and k: "c < k" "k \<le> length ps"
  shows "wp (Commit (int (cursorOf ps k))) succeeds s"
proof -
  obtain i where i: "disk s ''spool.log'' = Some i" "content i = encodeAll ps" by (rule spoolInv_log [OF inv])
  have off: "fileOpen s" "offset s = cursorOf ps c" and ok: "\<forall>p \<in> set ps. okPayload (maxPayloadBytes s) p"
    using inv by (auto simp: spoolInv_def)
  have lt: "cursorOf ps c < cursorOf ps k" "cursorOf ps k \<le> length (encodeAll ps)" "0 < cursorOf ps k"
    using cursorOf_lt [OF k] cursorOf_le by auto
  obtain b s' where run: "boundaryLoop (cursorOf ps k) (length (encodeAll ps)) 0 s = (b, s')" by fastforce
  have f: "faults s = []" using q by (simp add: quiet_def)
  have "\<exists>j. 0 < j \<and> j \<le> length ps \<and> cursorOf ps k = cursorOf ps j"
    using k by (intro exI [of _ k]) auto
  then have "recordBoundary (maxPayloadBytes s) (encodeAll ps) (cursorOf ps k) 0"
    using boundary_cursorOf [OF ok lt(2)] by simp
  moreover have s0: "s\<lparr>faults := []\<rparr> = s" using f by simp
  ultimately have "b" "s' = s"
    using boundaryLoop_shape [OF i(1), of "cursorOf ps k" 0 "[]" b s', unfolded s0 i(2), OF run] by auto
  with run lt(3) have bl: "recordBoundaryLocked (cursorOf ps k) (length (encodeAll ps)) s = (Inr True, s)"
    by (simp add: recordBoundaryLocked_def)
  have "wp (steps [persistCursorLocked (cursorOf ps k), modify (\<lambda>s. s\<lparr>offset := cursorOf ps k\<rparr>)]) succeeds s"
    using q by (simp add: persistCursorLocked_def atomicWriteFile_def wp_simps quiet_exec io_exec Let_def)
  then show ?thesis
    using q off lt i
    by (simp add: Commit_def wp_getS wp_bindE statSize_def wp_sys_quiet wp_onFile wp_ret wp_det [of "recordBoundaryLocked _ _", OF bl])
qed

end
