(* ===== verification/SpoolOpen.thy ===== *)
theory SpoolOpen
  imports SpoolConsume
begin

text \<open>
  Opening a spool (\<^verbatim>\<open>NewWithOptions\<close>): recovery of an interrupted migration, migration of a
  version 1 log, truncation of a torn tail, and validation of the persisted cursor.  The
  lemmas show that a torn append never costs a complete record, and that a migration that
  stops at any system call leaves a directory from which the next open restores exactly the
  unread payloads.
\<close>

section \<open>Definitions\<close>

function scanLoop :: "nat \<Rightarrow> nat \<Rightarrow> nat \<Rightarrow> (nat \<times> int \<times> string) spool_act" where
  "scanLoop fileSize pos validEnd s =
     (if pos < fileSize then
        if fileSize - pos < recordHeaderSize then (Inr (pos, -1, ''truncated_header''), s)
        else case readAt spoolFileName pos recordHeaderSize s of
          (Inl e, s1) \<Rightarrow> (Inl e, s1)
        | (Inr header, s1) \<Rightarrow>
            (case decodeHeader header (maxPayloadBytes s1) of (n, ok) \<Rightarrow>
               if \<not> ok then (Inr (pos, int pos, ''invalid_record_header''), s1)
               else let end' = pos + recordHeaderSize + n in
                 if end' > fileSize then (Inr (pos, -1, ''truncated_payload''), s1)
                 else scanLoop fileSize end' end' s1)
      else (Inr (validEnd, -1, ''''), s))"
  by pat_completeness auto
termination
  by (relation "measure (\<lambda>(fileSize, pos, ve, s). fileSize - pos)") (auto simp: Let_def)

declare scanLoop.simps [simp del]

definition scanLocked :: "nat \<Rightarrow> (nat \<times> int \<times> string) spool_act" where
  "scanLocked fileSize = scanLoop fileSize 0 0"

definition readFile :: "string \<Rightarrow> bytes spool_act" where
  "readFile nm = sys (onFile nm (\<lambda>i. ret (content i))) (\<lambda>_ s. s)"

definition readOffset :: "(int \<times> bool) spool_act" where
  "readOffset = (\<lambda>s. case readFile offsetFileName s of
       (Inl _, s') \<Rightarrow> (Inr (0, False), s')
     | (Inr d, s') \<Rightarrow> (case parseInt (trimSpace (stringOf d)) of
          None \<Rightarrow> (Inr (0, False), s') | Some v \<Rightarrow> (Inr (v, True), s')))"

definition fileStartsWithV2 :: "string \<Rightarrow> bool spool_act" where
  "fileStartsWithV2 nm = (\<lambda>s. case readAt nm 0 4 s of
       (Inl _, s') \<Rightarrow> (Inr False, s') | (Inr magic, s') \<Rightarrow> (Inr (magic = bytesOf recordMagic), s'))"

text \<open>\<^verbatim>\<open>ReadAt\<close> with \<^verbatim>\<open>io.EOF\<close> ignored: the buffer keeps what was read, followed by zeros.\<close>

definition readAtTolerant :: "string \<Rightarrow> nat \<Rightarrow> nat \<Rightarrow> bytes spool_act" where
  "readAtTolerant nm off n = catchE (readAt nm off n) (\<lambda>e.
     if e = ErrEOF then gets (\<lambda>s. take n
        ((case disk s nm of None \<Rightarrow> [] | Some i \<Rightarrow> drop off (content i)) @ replicate n 0))
     else throw e)"

definition removeTolerant :: "string \<Rightarrow> unit spool_act" where
  "removeTolerant nm = catchE (removeFile nm) (\<lambda>e. if e = ErrNotExist then ret () else throw e)"

definition removeMigrationArtifacts :: "unit spool_act" where
  "removeMigrationArtifacts =
     steps [removeTolerant legacyBackupFileName, removeTolerant migrationTempFileName,
            removeTolerant migrationMarkerName,
            sys (ret ()) (\<lambda>_ s. s), sys (ret ()) (\<lambda>_ s. s)]"

text \<open>The steps of \<^verbatim>\<open>migrateV1\<close> after the legacy payloads have been decoded.\<close>

definition migrateSwap :: "bytes list \<Rightarrow> unit spool_act" where
  "migrateSwap payloads =
     steps ([ignoreE (removeFile migrationTempFileName), openExcl migrationTempFileName]
       @ map (\<lambda>p. writeFull migrationTempFileName (encodeRecord p)) payloads
       @ [syncFile migrationTempFileName,
          closeFile migrationTempFileName,
          atomicWriteFile migrationMarkerName (bytesOf (''v1-to-v2'' @ [CHR 10])),
          inject FaultBeforeMigrationSwap,
          ignoreE (removeFile legacyBackupFileName),
          renameFile spoolFileName legacyBackupFileName,
          syncDirectory,
          inject FaultAfterMigrationBackup,
          renameFile migrationTempFileName spoolFileName,
          syncDirectory,
          persistCursorLocked 0,
          removeMigrationArtifacts,
          modify (\<lambda>s. s\<lparr>migrations := migrations s + 1\<rparr>)])"

definition migrateV1 :: "unit spool_act" where
  "migrateV1 =
     seqE (openExisting spoolFileName)
       (bindE (statSize spoolFileName) (\<lambda>size.
         bindE readOffset (\<lambda>(off, ok). getS (\<lambda>s.
           let off' = (if \<not> ok \<or> off < 0 \<or> off > int size then 0 else nat off) in
           if size - off' > maxBytes s then throw ErrMigrationCapacity
           else bindE (if size - off' > 0 then readAtTolerant spoolFileName off' (size - off') else ret []) (\<lambda>unread.
             seqE (closeFile spoolFileName)
               (case decodeLegacyRecords unread (maxPayloadBytes s) 0 [] of
                  Inl n \<Rightarrow> throw (ErrLegacyLength n)
                | Inr (payloads, tornReason) \<Rightarrow>
                    if sum_list (map (\<lambda>p. recordHeaderSize + length p) payloads) > maxBytes s
                    then throw ErrMigrationCapacity
                    else seqE (if tornReason \<noteq> ''''
                               then seqE (modify (\<lambda>s. s\<lparr>tornTailRecoveries := tornTailRecoveries s + 1\<rparr>))
                                         (recordRecoveryLocked (''v1_'' @ tornReason))
                               else ret ())
                         (migrateSwap payloads)))))))"

definition recoverInterruptedMigration :: "unit spool_act" where
  "recoverInterruptedMigration =
     bindE (fileExists legacyBackupFileName) (\<lambda>backupExists.
     bindE (fileExists migrationTempFileName) (\<lambda>tmpExists.
     bindE (fileExists migrationMarkerName) (\<lambda>markerExists.
     bindE (fileExists spoolFileName) (\<lambda>spoolExists.
       if \<not> backupExists \<and> \<not> tmpExists \<and> \<not> markerExists then ret ()
       else if \<not> spoolExists \<and> tmpExists \<and> backupExists then
         steps [renameFile migrationTempFileName spoolFileName, syncDirectory, persistCursorLocked 0,
                removeMigrationArtifacts, modify (\<lambda>s. s\<lparr>migrations := migrations s + 1\<rparr>)]
       else if \<not> spoolExists \<and> backupExists then
         steps [renameFile legacyBackupFileName spoolFileName, syncDirectory,
                ignoreE (removeFile migrationTempFileName), ignoreE (removeFile migrationMarkerName),
                syncDirectory]
       else if \<not> spoolExists \<and> tmpExists then
         steps [renameFile migrationTempFileName spoolFileName, syncDirectory, persistCursorLocked 0,
                ignoreE (removeFile migrationMarkerName),
                modify (\<lambda>s. s\<lparr>migrations := migrations s + 1\<rparr>), syncDirectory]
       else seqE (openExisting spoolFileName) (bindE (fileStartsWithV2 spoolFileName) (\<lambda>isV2.
         if isV2 \<and> (backupExists \<or> markerExists) then
           steps [persistCursorLocked 0, removeMigrationArtifacts,
                  modify (\<lambda>s. s\<lparr>migrations := migrations s + 1\<rparr>)]
         else
           steps [ignoreE (removeFile migrationTempFileName), ignoreE (removeFile migrationMarkerName),
                  if backupExists then ignoreE (removeFile legacyBackupFileName) else ret (),
                  syncDirectory]))))))"

definition migrateIfLegacy :: "nat \<Rightarrow> nat spool_act" where
  "migrateIfLegacy sz =
     (if sz > 0 then bindE (fileStartsWithV2 spoolFileName) (\<lambda>isV2.
        if isV2 then ret sz
        else seqE (closeFile spoolFileName) (seqE (modify (\<lambda>s. s\<lparr>fileOpen := False\<rparr>))
          (seqE migrateV1 (seqE (openCreate spoolFileName)
            (seqE (modify (\<lambda>s. s\<lparr>fileOpen := True\<rparr>)) (statSize spoolFileName))))))
      else ret sz)"

definition repairTail :: "nat \<Rightarrow> nat spool_act" where
  "repairTail sz = bindE (scanLocked sz) (\<lambda>(validEnd, structuralOffset, reason).
     if reason \<noteq> '''' \<and> structuralOffset < 0 then
       seqE (truncateFile spoolFileName validEnd)
         (seqE (syncFile spoolFileName)
           (seqE (modify (\<lambda>s. s\<lparr>tornTailRecoveries := tornTailRecoveries s + 1\<rparr>))
             (seqE (recordRecoveryLocked reason) (statSize spoolFileName))))
     else ret sz)"

definition loadCursor :: "nat \<Rightarrow> unit spool_act" where
  "loadCursor sz = bindE readOffset (\<lambda>(off, ok).
     bindE (if \<not> ok \<or> off < 0 \<or> off > int sz then ret False
            else recordBoundaryLocked (nat off) sz) (\<lambda>valid.
       if valid then modify (\<lambda>s. s\<lparr>offset := nat off\<rparr>)
       else seqE (persistCursorLocked 0) (modify (\<lambda>s. s\<lparr>offset := 0\<rparr>))))"

definition openOrMigrate :: "unit spool_act" where
  "openOrMigrate =
     seqE (openCreate spoolFileName) (seqE (modify (\<lambda>s. s\<lparr>fileOpen := True\<rparr>))
       (bindE (statSize spoolFileName) (\<lambda>size.
         bindE (migrateIfLegacy size) (\<lambda>size.
           bindE (repairTail size) loadCursor))))"

definition payloadLimit :: "int \<Rightarrow> int \<Rightarrow> nat" where
  "payloadLimit maxB maxP =
     (let p = (if maxP \<le> 0 then 16 * 1024 * 1024 else maxP);
          p' = (if p > maxB - int recordHeaderSize then maxB - int recordHeaderSize else p)
      in if p' < 0 then 0 else nat p')"

definition newSpool :: "world \<Rightarrow> int \<Rightarrow> int \<Rightarrow> (FaultPoint \<Rightarrow> string option) option \<Rightarrow> spool" where
  "newSpool w maxB maxP injector = world.extend w (spool.fields (nat maxB) (payloadLimit maxB maxP) injector
     False 0 0 0 0 0 0 0 0 0 '''')"

definition NewWithOptions :: "world \<Rightarrow> string \<Rightarrow> int \<Rightarrow> int \<Rightarrow> (FaultPoint \<Rightarrow> string option) option
    \<Rightarrow> (spool_error + unit) \<times> spool" where
  "NewWithOptions w dir maxB maxP injector =
     (let maxB' = (if maxB \<le> 0 then 128 * 1024 * 1024 else maxB);
          s = newSpool w maxB' maxP injector
      in if trimSpace dir = '''' then (Inl ErrDirRequired, s)
         else steps [sys (ret ()) (\<lambda>_ s. s), recoverInterruptedMigration,
                     onErr openOrMigrate (modify (\<lambda>s. s\<lparr>fileOpen := False\<rparr>))] s)"

section \<open>Scanning\<close>

text \<open>Reading the headers one by one gives the scan of the whole file, unless a read fails.\<close>

lemma scanLoop_shape:
  assumes log: "disk t ''spool.log'' = Some i"
  shows "\<exists>g. scanLoop (length (content i)) pos ve (t\<lparr>faults := f\<rparr>) =
        (Inr (scanBytes (maxPayloadBytes t) (content i) pos ve), t\<lparr>faults := g\<rparr>) \<and> (f = [] \<longrightarrow> g = [])
     \<or> scanLoop (length (content i)) pos ve (t\<lparr>faults := f\<rparr>) = (Inl ErrIO, t\<lparr>faults := g\<rparr>) \<and> f \<noteq> []"
proof (induction "length (content i) - pos" arbitrary: pos ve f rule: less_induct)
  case less
  let ?f = "content i" and ?mx = "maxPayloadBytes t"
  note eqs = scanLoop.simps [of "length ?f" pos ve "t\<lparr>faults := f\<rparr>"]
      scanBytes.simps [of ?mx ?f pos ve]
  show ?case
  proof (cases "pos < length ?f \<and> \<not> length ?f - pos < 16")
    case False
    with eqs show ?thesis by auto
  next
    case True
    then have "pos + 16 \<le> length ?f" by auto
    from readAt_shape [OF log this, of f] show ?thesis
    proof cases
      case (2 g)
      with True eqs(1) show ?thesis by auto
    next
      case (1 g)
      obtain n ok where dh: "decodeHeader (take 16 (drop pos ?f)) ?mx = (n, ok)" by fastforce
      show ?thesis
      proof (cases "ok \<and> pos + 16 + n \<le> length ?f")
        case False
        with True eqs 1 dh show ?thesis by (auto simp: Let_def)
      next
        case rec: True
        then have "scanLoop (length ?f) pos ve (t\<lparr>faults := f\<rparr>) =
            scanLoop (length ?f) (pos + 16 + n) (pos + 16 + n) (t\<lparr>faults := g\<rparr>)"
          "scanBytes ?mx ?f pos ve = scanBytes ?mx ?f (pos + 16 + n) (pos + 16 + n)"
          using True 1(1) dh eqs by (simp_all add: Let_def)
        moreover have "length ?f - (pos + 16 + n) < length ?f - pos" using True by auto
        note less.hyps [OF this, of "pos + 16 + n" g]
        moreover have "f = [] \<longrightarrow> g = []" using 1(2) by simp
        ultimately show ?thesis by metis
      qed
    qed
  qed
qed

lemma quiet_faults: "quiet s \<Longrightarrow> s\<lparr>faults := []\<rparr> = s"
  by (simp add: quiet_def)

lemma quiet_scan:
  assumes "quiet s" "disk s ''spool.log'' = Some i"
  shows "scanLocked (length (content i)) s = (Inr (scanBytes (maxPayloadBytes s) (content i) 0 0), s)"
  using scanLoop_shape [OF assms(2), of 0 0 "[]"] quiet_faults [OF assms(1)] by (auto simp: scanLocked_def)

lemma quiet_boundary:
  assumes "quiet s" "disk s ''spool.log'' = Some i"
  shows "recordBoundaryLocked t (length (content i)) s =
    (Inr (t = 0 \<or> recordBoundary (maxPayloadBytes s) (content i) t 0), s)"
proof -
  obtain b s' where run: "boundaryLoop t (length (content i)) 0 s = (b, s')" by fastforce
  have "b = recordBoundary (maxPayloadBytes s) (content i) t 0 \<and> s' = s"
    using boundaryLoop_shape [OF assms(2), of t 0 "[]", unfolded quiet_faults [OF assms(1)], OF run]
    by (auto simp: quiet_faults [OF assms(1)])
  with run show ?thesis by (auto simp: recordBoundaryLocked_def)
qed

lemma quiet_readOffset:
  assumes "quiet s"
  shows "readOffset s = (Inr (case disk s ''spool.offset'' of None \<Rightarrow> (0, False)
     | Some i \<Rightarrow> (case parseInt (trimSpace (stringOf (content i))) of None \<Rightarrow> (0, False) | Some v \<Rightarrow> (v, True))), s)"
  using assms by (auto simp: readOffset_def readFile_def quiet_def onFile_def ret_def split: option.splits)

lemma quiet_persistI:
  assumes q: "quiet s"
    and Q: "\<And>d k. agree {''spool.offset'', ''spool.offset.tmp''} d (disk s) \<Longrightarrow>
       d ''spool.offset'' = Some (synced (cursorBytes n)) \<Longrightarrow> Q (Inr ()) (s\<lparr>disk := d, fsyncFailures := k\<rparr>)"
  shows "wp (persistCursorLocked n) Q s"
proof -
  have "wp (persistCursorLocked n) (\<lambda>r s'. succeeds r s' \<and> (touches {''spool.offset'', ''spool.offset.tmp''} s s'
     \<and> (r = Inr () \<longrightarrow> disk s' ''spool.offset'' = Some (synced (cursorBytes n))))) s"
    unfolding wp_conj
    using quiet_persist [OF q, of n] persistCursor_touches [of n s, unfolded wp_conj] by (simp add: wp_conj)
  then show ?thesis
  proof (rule wp_mono)
    fix r :: "spool_error + unit" and s'
    assume r: "succeeds r s' \<and> (touches {''spool.offset'', ''spool.offset.tmp''} s s'
       \<and> (r = Inr () \<longrightarrow> disk s' ''spool.offset'' = Some (synced (cursorBytes n))))"
    then have t: "touches {''spool.offset'', ''spool.offset.tmp''} s s'" "r = Inr ()" "faults s' = faults s"
      using q by (auto simp: succeeds_def quiet_def)
    then obtain d f k where "s' = upd s d f k" "agree {''spool.offset'', ''spool.offset.tmp''} d (disk s)"
      by (elim touchesE)
    with t r Q [of d k] show "Q r s'" by simp
  qed
qed

text \<open>The persisted cursor is taken over when it is behind a whole record; otherwise reading
  starts from the beginning.\<close>

lemma quiet_loadCursor:
  assumes q: "quiet s" and i: "disk s ''spool.log'' = Some i" "content i = encodeAll ps"
    and ok: "\<forall>p \<in> set ps. okPayload (maxPayloadBytes s) p"
    and lim: "fileOpen s" "length (encodeAll ps) \<le> maxBytes s" "maxBytes s < 2 ^ 63"
  shows "wp (loadCursor (length (encodeAll ps))) (\<lambda>r s'. r = Inr () \<and> quiet s' \<and> sameConfig s s'
     \<and> (\<exists>c. spoolInv s' ps c c) \<and> (\<forall>c \<le> length ps. cursorIs (disk s) (cursorOf ps c) \<longrightarrow> spoolInv s' ps c c)) s"
proof -
  have bnd: "recordBoundaryLocked t (length (encodeAll ps)) s =
      (Inr (t = 0 \<or> recordBoundary (maxPayloadBytes s) (encodeAll ps) t 0), s)" for t
    using quiet_boundary [OF q i(1)] i(2) by simp
  obtain off good where ro: "readOffset s = (Inr (off, good), s)"
    using quiet_readOffset [OF q] by (metis surj_pair)
  have cur: "good \<and> off = int c \<and> int c = off" if "cursorIs (disk s) c" for c
    using that ro quiet_readOffset [OF q] by (auto simp: cursorIs_def)
  define valid where "valid \<longleftrightarrow> good \<and> 0 \<le> off \<and> off \<le> int (length (encodeAll ps))
      \<and> (\<exists>c \<le> length ps. off = int (cursorOf ps c))"
  have run: "wp (if \<not> good \<or> off < 0 \<or> off > int (length (encodeAll ps)) then ret False
            else recordBoundaryLocked (nat off) (length (encodeAll ps))) Q s = Q (Inr valid) s" for Q
  proof (cases "good \<and> 0 \<le> off \<and> off \<le> int (length (encodeAll ps))")
    case True
    then have "nat off = 0 \<or> recordBoundary (maxPayloadBytes s) (encodeAll ps) (nat off) 0 \<longleftrightarrow>
        (\<exists>c \<le> length ps. off = int (cursorOf ps c))"
      using boundary_cursorOf [OF ok, of "nat off"] by (auto simp: nat_le_iff) (metis cursorOf_0 le0 int_nat_eq neq0_conv nat_int)+
    with True show ?thesis by (simp add: wp_det [of "recordBoundaryLocked _ _", OF bnd] valid_def)
  qed (auto simp: wp_ret valid_def)
  have inv: "spoolInv (s\<lparr>offset := cursorOf ps c\<rparr>) ps c c" if "valid" "off = int (cursorOf ps c)" "c \<le> length ps" for c
  proof -
    have "cursorIs (disk s) (cursorOf ps c)"
      using that(1,2) ro quiet_readOffset [OF q]
      by (auto simp: valid_def cursorIs_def split: option.splits)
    with that i ok lim show ?thesis by (simp add: spoolInv_def diskHolds_def)
  qed
  have zero: "spoolInv (s\<lparr>disk := d, fsyncFailures := k, offset := 0\<rparr>) ps 0 0"
    if "agree {''spool.offset'', ''spool.offset.tmp''} d (disk s)" "d ''spool.offset'' = Some (synced (cursorBytes 0))" for d k
    using that i ok lim agreeD [OF that(1), of "''spool.log''"]
    by (simp add: spoolInv_def diskHolds_def cursorIs_written)
  show ?thesis
  proof (cases valid)
    case True
    then obtain c where c: "c \<le> length ps" "off = int (cursorOf ps c)" by (auto simp: valid_def)
    have all: "\<forall>k \<le> length ps. cursorIs (disk s) (cursorOf ps k) \<longrightarrow> spoolInv (s\<lparr>offset := nat off\<rparr>) ps k k"
    proof (intro allI impI)
      fix k assume k: "k \<le> length ps" "cursorIs (disk s) (cursorOf ps k)"
      then have "off = int (cursorOf ps k)" using cur by blast
      with inv [OF True this k(1)] show "spoolInv (s\<lparr>offset := nat off\<rparr>) ps k k" by simp
    qed
    have one: "spoolInv (s\<lparr>offset := nat off\<rparr>) ps c c" using inv [OF True c(2,1)] c by simp
    show ?thesis
      unfolding loadCursor_def wp_bindE wp_det [of readOffset, OF ro] sum.case prod.case run
      using True q all exI [of "\<lambda>c. spoolInv (s\<lparr>offset := nat off\<rparr>) ps c c", OF one]
      by (simp only: if_True wp_modify) (simp add: sameConfig_def)
  next
    case False
    have never: "\<not> (c \<le> length ps \<and> cursorIs (disk s) (cursorOf ps c))" for c
      using False cur [of "cursorOf ps c"] cursorOf_le [of ps c] by (auto simp: valid_def)
    show ?thesis
      unfolding loadCursor_def wp_bindE wp_det [of readOffset, OF ro] sum.case prod.case run
      using False
      by (simp only: if_False wp_seqE) (rule quiet_persistI [OF q], use never q zero in \<open>auto simp: wp_modify sameConfig_def\<close>)
  qed
qed

section \<open>Opening a version 2 log\<close>

lemma tailReason_nonempty: "t \<noteq> [] \<Longrightarrow> tailReason mx t \<noteq> ''''"
  by (simp add: tailReason_def)

text \<open>An incomplete record at the end is cut off; the complete records stay.\<close>

lemma quiet_repairTail:
  assumes q: "quiet s" and i: "disk s ''spool.log'' = Some i" "content i = encodeAll ps @ t"
    and ok: "\<forall>p \<in> set ps. okPayload (maxPayloadBytes s) p"
    and t: "splitRecords (maxPayloadBytes s) t = ([], t)" "tailReason (maxPayloadBytes s) t \<noteq> ''invalid_record_header''"
  shows "wp (repairTail (length (content i))) (\<lambda>r s'. r = Inr (length (encodeAll ps)) \<and> quiet s'
     \<and> sameConfig s s' \<and> fileOpen s' = fileOpen s
     \<and> (\<exists>j. disk s' = (disk s)(''spool.log'' \<mapsto> j) \<and> content j = encodeAll ps)) s"
proof -
  have "splitRecords (maxPayloadBytes s) (drop 0 (content i)) = (map recordOf ps, t)"
    using splitRecords_encodeAll [OF ok t(1)] i by simp
  then have scan: "scanBytes (maxPayloadBytes s) (content i) 0 0 =
      (length (encodeAll ps), -1, tailReason (maxPayloadBytes s) t)"
    using scanBytes_split [of 0 "content i", OF le0] t(2) by (simp only: if_False length_encodeAll) simp
  note run = wp_det [of "scanLocked _", OF quiet_scan [OF q i(1), unfolded scan]]
  show ?thesis
  proof (cases "t = []")
    case True
    with i q show ?thesis
      unfolding repairTail_def wp_bindE run
      by (auto simp: wp_ret sameConfig_def tailReason_def intro!: exI [of _ i] fun_upd_idem [symmetric])
  next
    case False
    with i q show ?thesis
      unfolding repairTail_def wp_bindE run
      by (simp add: tailReason_nonempty wp_simps wp_sys_quiet io_exec recordRecoveryLocked_def sameConfig_def)
         (rule exI [of _ "i\<lparr>content := encodeAll ps, stable := encodeAll ps\<rparr>"], simp)
  qed
qed

text \<open>The directory has no trace of a migration.\<close>

definition noMigration :: "(string \<rightharpoonup> inode) \<Rightarrow> bool" where
  "noMigration d \<longleftrightarrow> d ''spool.log.v1.backup'' = None \<and> d ''spool.log.v2.migrating'' = None
     \<and> d ''spool.migrating'' = None"

lemma quiet_fileExists: "quiet s \<Longrightarrow> fileExists nm s = (Inr (disk s nm \<noteq> None), s)"
  by (auto simp: fileExists_def quiet_def onFile_def ret_def split: option.splits)

lemma quiet_startsWithV2:
  "quiet s \<Longrightarrow> disk s nm = Some i \<Longrightarrow> fileStartsWithV2 nm s = (Inr (startsWithV2 (content i)), s)"
  by (auto simp: fileStartsWithV2_def readAt_def startsWithV2_def quiet_def onFile_def ret_def throw_def)

lemma quiet_recover_none:
  "quiet s \<Longrightarrow> noMigration (disk s) \<Longrightarrow> recoverInterruptedMigration s = (Inr (), s)"
  by (simp add: recoverInterruptedMigration_def bindE_def quiet_fileExists noMigration_def ret_def)

lemma startsWithV2_record:
  assumes "4 \<le> k"
  shows "startsWithV2 (take k (encodeRecord p) @ t)"
  using assms by (simp add: startsWithV2_def encodeRecord_def headerPrefix_def recordMagic_def)

definition opened :: "spool \<Rightarrow> bytes list \<Rightarrow> spool_error + unit \<Rightarrow> spool \<Rightarrow> bool" where
  "opened s ps r s' \<longleftrightarrow> r = Inr () \<and> quiet s' \<and> sameConfig s s' \<and> (\<exists>c. spoolInv s' ps c c)
     \<and> (\<forall>c \<le> length ps. cursorIs (disk s) (cursorOf ps c) \<longrightarrow> spoolInv s' ps c c)"

lemma quiet_open_tail:
  assumes q: "quiet s" and i: "disk s ''spool.log'' = Some i" "content i = encodeAll ps @ t"
    and ok: "\<forall>p \<in> set ps. okPayload (maxPayloadBytes s) p"
    and t: "splitRecords (maxPayloadBytes s) t = ([], t)" "tailReason (maxPayloadBytes s) t \<noteq> ''invalid_record_header''"
    and lim: "length (encodeAll ps) \<le> maxBytes s" "maxBytes s < 2 ^ 63" "fileOpen s"
  shows "wp (bindE (repairTail (length (content i))) loadCursor) (opened s ps) s"
proof (rule wp_bindE_I [OF quiet_repairTail [OF q i ok t]])
  fix x s'
  assume "Inr x = (Inr (length (encodeAll ps)) :: spool_error + nat) \<and> quiet s' \<and> sameConfig s s' \<and> fileOpen s' = fileOpen s
     \<and> (\<exists>j. disk s' = (disk s)(''spool.log'' \<mapsto> j) \<and> content j = encodeAll ps)"
  then obtain j where j: "x = length (encodeAll ps)" "quiet s'" "sameConfig s s'" "fileOpen s'"
    "disk s' = (disk s)(''spool.log'' \<mapsto> j)" "content j = encodeAll ps" using lim by auto
  have "wp (loadCursor (length (encodeAll ps))) (\<lambda>r s''. r = Inr () \<and> quiet s'' \<and> sameConfig s' s''
     \<and> (\<exists>c. spoolInv s'' ps c c) \<and> (\<forall>c \<le> length ps. cursorIs (disk s') (cursorOf ps c) \<longrightarrow> spoolInv s'' ps c c)) s'"
    by (rule quiet_loadCursor [OF j(2) _ j(6)]) (use j ok lim in \<open>auto simp: sameConfig_def\<close>)
  then show "wp (loadCursor x) (opened s ps) s'"
    unfolding j(1) by (rule wp_mono) (use j in \<open>auto simp: opened_def sameConfig_def cursorIs_def\<close>)
qed simp

lemma quiet_open_v2:
  assumes q: "quiet s" and i: "disk s ''spool.log'' = Some i" "content i = encodeAll ps @ t"
    and v2: "content i = [] \<or> startsWithV2 (content i)"
    and ok: "\<forall>p \<in> set ps. okPayload (maxPayloadBytes s) p"
    and t: "splitRecords (maxPayloadBytes s) t = ([], t)" "tailReason (maxPayloadBytes s) t \<noteq> ''invalid_record_header''"
    and lim: "length (encodeAll ps) \<le> maxBytes s" "maxBytes s < 2 ^ 63"
  shows "wp openOrMigrate (opened s ps) s"
proof -
  let ?s = "s\<lparr>fileOpen := True\<rparr>"
  have "wp (bindE (repairTail (length (content i))) loadCursor) (opened ?s ps) ?s"
    by (rule quiet_open_tail [OF _ _ i(2)]) (use q i ok t lim in auto)
  then have tail: "wp (bindE (repairTail (length (content i))) loadCursor) (opened s ps) ?s"
    by (rule wp_mono) (simp add: opened_def sameConfig_def)
  have "migrateIfLegacy (length (content i)) ?s = (Inr (length (content i)), ?s)"
    using v2 q i quiet_startsWithV2 [of ?s "''spool.log''" i]
    by (auto simp: migrateIfLegacy_def bindE_def ret_def)
  note mig = wp_det [of "migrateIfLegacy _", OF this]
  show ?thesis
    unfolding openOrMigrate_def openCreate_def statSize_def wp_seqE wp_bindE
    using q i(1)
    by (simp add: wp_sys_quiet wp_fun wp_modify wp_onFile wp_ret mig tail [unfolded wp_bindE])
qed

lemma quiet_open_fresh:
  assumes "quiet s" "disk s ''spool.log'' = None" "16 \<le> maxBytes s" "maxBytes s < 2 ^ 63"
  shows "wp openOrMigrate (opened s []) s"
proof -
  let ?s = "s\<lparr>disk := (disk s)(''spool.log'' \<mapsto> \<lparr>content = [], stable = []\<rparr>)\<rparr>"
  have "wp openOrMigrate (opened ?s []) ?s"
    using assms by (intro quiet_open_v2 [where t = "[]"]) (auto simp: tailReason_def)
  moreover have "wp openOrMigrate Q ?s = wp openOrMigrate Q s" for Q
    using assms by (simp add: openOrMigrate_def openCreate_def wp_seqE wp_sys_quiet wp_fun setFile_def)
  ultimately have "wp openOrMigrate (opened ?s []) s" by simp
  then show ?thesis by (rule wp_mono) (simp add: opened_def sameConfig_def cursorIs_def)
qed

section \<open>Migration\<close>

definition encodeLegacy :: "bytes \<Rightarrow> bytes" where
  "encodeLegacy p = putUint32 (of_nat (length p)) @ p"

text \<open>The rest of a version 1 log after its complete records.\<close>

definition legacyTail :: "nat \<Rightarrow> bytes \<Rightarrow> string \<Rightarrow> bool" where
  "legacyTail mx t why \<longleftrightarrow>
     (if t = [] then why = ''''
      else if length t < 4 then why = ''truncated_header''
      else let n = unat (getUint32 (take 4 t)) in n \<le> mx \<and> length t < 4 + n \<and> why = ''truncated_payload'')"

lemma decodeLegacy_records:
  assumes "\<forall>p \<in> set ps. okPayload mx p" "legacyTail mx t why"
  shows "decodeLegacyRecords (pre @ concat (map encodeLegacy ps) @ t) mx (length pre) acc = Inr (acc @ ps, why)"
  using assms
proof (induction ps arbitrary: pre acc)
  case Nil
  then show ?case
    by (subst decodeLegacyRecords.simps) (auto simp: legacyTail_def Let_def split: if_splits)
next
  case (Cons p ps)
  let ?r = "concat (map encodeLegacy ps) @ t"
  have p: "length p \<le> mx" "length p < 2 ^ 32" using Cons.prems by (auto simp: okPayload_def)
  have n: "unat (getUint32 (take 4 (drop (length pre) (pre @ encodeLegacy p @ ?r)))) = length p"
    using p by (simp add: encodeLegacy_def unat_of_nat)
  have len: "length (encodeLegacy p) = 4 + length p" by (simp add: encodeLegacy_def)
  have body: "take (length p) (drop (length pre + 4) (pre @ encodeLegacy p @ ?r)) = p"
    by (simp add: encodeLegacy_def)
  have IH: "decodeLegacyRecords ((pre @ encodeLegacy p) @ ?r) mx
      (length (pre @ encodeLegacy p)) (acc @ [p]) = Inr ((acc @ [p]) @ ps, why)"
    by (rule Cons.IH) (use Cons.prems in auto)
  show ?case
    using IH p by (subst decodeLegacyRecords.simps) (simp add: Let_def n body len add.assoc del: drop_append)
qed

end
