(* ===== verification/SpoolMigrate.thy ===== *)
theory SpoolMigrate
  imports SpoolOpen
begin

text \<open>
  Crash safety of the migration from version 1.  \<open>migrating\<close> lists the directories that
  occur while the unread payloads \<open>ps\<close> are moved from a version 1 log to a version 2 log.  Every
  schedule of failures during \<open>migrateV1\<close> ends in such a directory, and opening one of them
  yields a spool whose backlog is \<open>ps\<close>.
\<close>

definition legacyCursor :: "(string \<rightharpoonup> inode) \<Rightarrow> nat \<Rightarrow> nat" where
  "legacyCursor d n = (case d ''spool.offset'' of None \<Rightarrow> 0
     | Some i \<Rightarrow> (case parseInt (trimSpace (stringOf (content i))) of None \<Rightarrow> 0
          | Some v \<Rightarrow> if v < 0 \<or> v > int n then 0 else nat v))"

text \<open>A version 1 log: the records \<open>rs\<close> before the cursor, the unread records \<open>ps\<close>, and at most one
  incomplete record.\<close>

definition v1Unread :: "nat \<Rightarrow> (string \<rightharpoonup> inode) \<Rightarrow> inode \<Rightarrow> bytes list \<Rightarrow> bytes list \<Rightarrow> bool" where
  "v1Unread mx d i rs ps \<longleftrightarrow> content i \<noteq> [] \<and> \<not> startsWithV2 (content i)
     \<and> (\<forall>p \<in> set rs \<union> set ps. okPayload mx p)
     \<and> (\<exists>t why. content i = concat (map encodeLegacy rs) @ concat (map encodeLegacy ps) @ t \<and> legacyTail mx t why)
     \<and> legacyCursor d (length (content i)) = length (concat (map encodeLegacy rs))"

definition v1Holds :: "nat \<Rightarrow> (string \<rightharpoonup> inode) \<Rightarrow> bytes list \<Rightarrow> bytes list \<Rightarrow> bool" where
  "v1Holds mx d rs ps \<longleftrightarrow> (\<exists>i. d ''spool.log'' = Some i \<and> v1Unread mx d i rs ps)"

definition backedUp :: "(string \<rightharpoonup> inode) \<Rightarrow> bytes list \<Rightarrow> bool" where
  "backedUp d ps \<longleftrightarrow> d ''spool.log'' = None \<and> (\<exists>b. d ''spool.log.v1.backup'' = Some b)
     \<and> (\<exists>j. d ''spool.log.v2.migrating'' = Some j \<and> content j = encodeAll ps)"

definition swapped :: "(string \<rightharpoonup> inode) \<Rightarrow> bytes list \<Rightarrow> bool" where
  "swapped d ps \<longleftrightarrow> (\<exists>j. d ''spool.log'' = Some j \<and> content j = encodeAll ps)
     \<and> (d ''spool.migrating'' \<noteq> None \<or> cursorIs d 0)"

definition migrating :: "nat \<Rightarrow> (string \<rightharpoonup> inode) \<Rightarrow> inode option \<Rightarrow> bytes list \<Rightarrow> bytes list \<Rightarrow> bytes list \<Rightarrow> bool" where
  "migrating mx d old rs ps qs \<longleftrightarrow> v1Holds mx d rs ps \<and> d ''spool.log'' = old \<or> backedUp d qs \<or> swapped d qs"

lemma v1Holds_frame:
  assumes "v1Holds mx d rs ps" "agree D d' d" "''spool.log'' \<notin> D" "''spool.offset'' \<notin> D"
  shows "v1Holds mx d' rs ps"
  using assms agreeD [OF assms(2)] by (auto simp: v1Holds_def v1Unread_def legacyCursor_def)

section \<open>Every schedule of failures\<close>

lemma touches_trans:
  assumes "touches D s s'" "touches E s' s''" "D \<subseteq> E"
  shows "touches E s s''"
proof -
  obtain d f k where s': "s' = upd s d f k" "agree D d (disk s)" using assms(1) by (rule touchesE)
  obtain d' f' k' where "s'' = upd s' d' f' k'" "agree E d' (disk s')" using assms(2) by (rule touchesE)
  with s' assms(3) show ?thesis by (auto simp: touches_def agree_def)
qed

lemma wp_writeFullI:
  assumes "disk s nm = Some j" "b \<noteq> []"
    "\<And>fs. Q (Inr ()) (s\<lparr>faults := fs, disk := (disk s)(nm \<mapsto> j\<lparr>content := content j @ b\<rparr>)\<rparr>)"
    "\<And>n fs. Q (Inl ErrIO) (s\<lparr>faults := fs, disk := (disk s)(nm \<mapsto> j\<lparr>content := content j @ take n b\<rparr>)\<rparr>)"
  shows "wp (writeFull nm b) Q s"
  using assms by (simp add: writeFull_def) (rule wp_sysI; simp add: wp_fun appendFile_def setFile_def)

lemma wp_ignoreRemoveI:
  assumes "\<And>f. Q (Inr ()) (s\<lparr>faults := f\<rparr>)" "\<And>f. Q (Inr ()) (s\<lparr>faults := f, disk := (disk s)(nm := None)\<rparr>)"
  shows "wp (ignoreE (removeFile nm)) Q s"
  unfolding wp_ignoreE removeFile_def
  by (rule wp_sysI) (auto simp: wp_onFile wp_fun assms split: option.splits)

lemma writeAll_touches:
  assumes "disk s ''spool.log.v2.migrating'' = Some j"
  shows "wp (steps (map (\<lambda>p. writeFull migrationTempFileName (encodeRecord p)) ps))
    (\<lambda>r s'. touches {''spool.log.v2.migrating''} s s' \<and> (\<exists>j'. disk s' ''spool.log.v2.migrating'' = Some j'
       \<and> (r = Inr () \<longrightarrow> content j' = content j @ encodeAll ps))) s"
  using assms
proof (induction ps arbitrary: s j)
  case Nil
  then show ?case by (simp add: wp_simps touches_def)
next
  case (Cons p ps)
  let ?ok = "\<lambda>fs. s\<lparr>faults := fs, disk := (disk s)(''spool.log.v2.migrating'' \<mapsto> j\<lparr>content := content j @ encodeRecord p\<rparr>)\<rparr>"
  have "wp (steps (map (\<lambda>p. writeFull migrationTempFileName (encodeRecord p)) ps))
    (\<lambda>r s'. touches {''spool.log.v2.migrating''} s s' \<and> (\<exists>j'. disk s' ''spool.log.v2.migrating'' = Some j'
       \<and> (r = Inr () \<longrightarrow> content j' = content j @ encodeAll (p # ps)))) (?ok fs)" for fs
    by (rule wp_mono [OF Cons.IH [of "?ok fs"]]) (auto simp: touches_def agree_def)
  with Cons.prems show ?case
    unfolding list.map steps_Cons wp_seqE
    by (intro wp_writeFullI [OF Cons.prems]) (simp_all add: touches_def agree_def)
qed

abbreviation "prepFiles \<equiv> {''spool.log.v2.migrating'', ''spool.migrating'', ''spool.migrating.tmp'', ''spool.log.v1.backup''}"

abbreviation (input) migratePrepare :: "bytes list \<Rightarrow> unit spool_act list" where
  "migratePrepare ps \<equiv> [ignoreE (removeFile migrationTempFileName), openExcl migrationTempFileName]
       @ map (\<lambda>p. writeFull migrationTempFileName (encodeRecord p)) ps
       @ [syncFile migrationTempFileName,
          closeFile migrationTempFileName,
          atomicWriteFile migrationMarkerName (bytesOf (''v1-to-v2'' @ [CHR 10])),
          inject FaultBeforeMigrationSwap,
          ignoreE (removeFile legacyBackupFileName)]"

abbreviation (input) migrateFinish :: "unit spool_act list" where
  "migrateFinish \<equiv> [renameFile spoolFileName legacyBackupFileName,
          syncDirectory,
          inject FaultAfterMigrationBackup,
          renameFile migrationTempFileName spoolFileName,
          syncDirectory,
          persistCursorLocked 0,
          removeMigrationArtifacts,
          modify (\<lambda>s. s\<lparr>migrations := migrations s + 1\<rparr>)]"

definition prepared :: "(string \<rightharpoonup> inode) \<Rightarrow> bytes list \<Rightarrow> bool" where
  "prepared d ps \<longleftrightarrow> (\<exists>j. d ''spool.log.v2.migrating'' = Some j \<and> content j = encodeAll ps)
     \<and> d ''spool.migrating'' \<noteq> None"

lemma prepare_tail:
  assumes "disk s ''spool.log.v2.migrating'' = Some j" "content j = encodeAll ps"
  shows "wp (steps [syncFile migrationTempFileName,
          closeFile migrationTempFileName,
          atomicWriteFile migrationMarkerName (bytesOf (''v1-to-v2'' @ [CHR 10])),
          inject FaultBeforeMigrationSwap,
          ignoreE (removeFile legacyBackupFileName)])
     (\<lambda>r s'. touches prepFiles s s' \<and> (r = Inr () \<longrightarrow> prepared (disk s') ps)) s"
  unfolding atomicWriteFile_def Let_def using assms
  by (intro wp_sysI wp_injectI conjI allI impI
      | simp add: wp_simps io_exec touches_def agree_def prepared_def split: option.splits)+

lemma migrate_prepare:
  "wp (steps (migratePrepare ps)) (\<lambda>r s'. touches prepFiles s s' \<and> (r = Inr () \<longrightarrow> prepared (disk s') ps)) s"
proof -
  let ?P = "\<lambda>s r s'. touches prepFiles s s' \<and> (r = Inr () \<longrightarrow> prepared (disk s') ps)"
  let ?wr = "map (\<lambda>p. writeFull migrationTempFileName (encodeRecord p)) ps"
  let ?rest = "[syncFile migrationTempFileName,
          closeFile migrationTempFileName,
          atomicWriteFile migrationMarkerName (bytesOf (''v1-to-v2'' @ [CHR 10])),
          inject FaultBeforeMigrationSwap,
          ignoreE (removeFile legacyBackupFileName)]"
  have body: "wp (steps (?wr @ ?rest)) (?P s) s"
    if j: "disk s ''spool.log.v2.migrating'' = Some j" "content j = []" for s j
    unfolding wp_steps_append
  proof (rule wp_seqE_I [OF writeAll_touches [OF j(1)]], goal_cases)
    case (1 e s')
    then show ?case by (auto simp: touches_def agree_def)
  next
    case (2 x s')
    then obtain j' where "touches {''spool.log.v2.migrating''} s s'"
      "disk s' ''spool.log.v2.migrating'' = Some j'" "content j' = encodeAll ps"
      using j by auto
    then show ?case
      by (intro wp_mono [OF prepare_tail [of s' j' ps]]) (auto elim: touches_trans)
  qed
  have excl: "wp (seqE (openExcl migrationTempFileName) (steps (?wr @ ?rest))) (?P s) t"
    if t: "touches {''spool.log.v2.migrating''} s t" for t
    unfolding openExcl_def wp_seqE
  proof (rule wp_sysI, goal_cases)
    case (1 f)
    let ?t = "setFile migrationTempFileName \<lparr>content = [], stable = []\<rparr> (t\<lparr>faults := f\<rparr>)"
    have "touches {''spool.log.v2.migrating''} s ?t" "touches {''spool.log.v2.migrating''} s (t\<lparr>faults := f\<rparr>)"
      using t by (elim touchesE; auto simp: setFile_def touches_def agree_def)+
    then show ?case
      using wp_mono [OF body [of ?t "\<lparr>content = [], stable = []\<rparr>"], of "?P s"]
      by (auto simp: wp_def setFile_def touches_def agree_def split: option.splits prod.splits)
  next
    case (2 n f)
    then show ?case using t by (elim touchesE) (auto simp: touches_def agree_def)
  qed
  have "wp (seqE (ignoreE (removeFile migrationTempFileName)) (seqE (openExcl migrationTempFileName) (steps (?wr @ ?rest)))) (?P s) s"
    unfolding wp_seqE [of "ignoreE _"]
    by (rule wp_ignoreRemoveI; simp only: sum.case; rule excl; simp add: touches_def agree_def)
  then show ?thesis by (simp add: steps_Cons)
qed

lemma wp_removeTolerantI:
  assumes "\<And>f. Q (Inr ()) (s\<lparr>faults := f, disk := (disk s)(nm := None)\<rparr>)" "\<And>f. Q (Inl ErrIO) (s\<lparr>faults := f\<rparr>)"
  shows "wp (removeTolerant nm) Q s"
proof -
  have "Q (Inr ()) (s\<lparr>faults := f\<rparr>)" if "disk s nm = None" for f
    using assms(1) [of f] that by (simp add: fun_upd_idem)
  with assms show ?thesis
    unfolding removeTolerant_def removeFile_def wp_catchE
    by (intro wp_sysI) (auto simp: wp_simps split: option.splits)
qed

definition migrated :: "nat \<Rightarrow> bytes list \<Rightarrow> bytes list \<Rightarrow> bytes list \<Rightarrow> spool \<Rightarrow> spool_error + unit \<Rightarrow> spool \<Rightarrow> bool" where
  "migrated mx rs ps qs s r s' \<longleftrightarrow> migrating mx (disk s') (disk s ''spool.log'') rs ps qs \<and> sameConfig s s' \<and> fileOpen s' = fileOpen s
     \<and> (r = Inr () \<longrightarrow> swapped (disk s') qs \<and> noMigration (disk s') \<and> cursorIs (disk s') 0)"

definition finished :: "bytes list \<Rightarrow> spool \<Rightarrow> spool_error + unit \<Rightarrow> spool \<Rightarrow> bool" where
  "finished qs s r s' \<longleftrightarrow> swapped (disk s') qs \<and> sameConfig s s' \<and> fileOpen s' = fileOpen s
     \<and> (r = Inr () \<longrightarrow> noMigration (disk s') \<and> cursorIs (disk s') 0)"

lemma migrate_artifacts:
  assumes j: "disk s ''spool.log'' = Some j" "content j = encodeAll qs"
    and c: "disk s ''spool.offset'' = Some (synced (cursorBytes 0))"
  shows "wp (seqE removeMigrationArtifacts (modify (\<lambda>s. s\<lparr>migrations := migrations s + 1\<rparr>))) (finished qs s) s"
proof -
  have "cursorIs d 0" if "d ''spool.offset'' = disk s ''spool.offset''" for d
    using that c by (intro cursorIs_written) simp_all
  then have done': "swapped d qs" if "d ''spool.log'' = Some j" "d ''spool.offset'' = disk s ''spool.offset''" for d
    using that j by (auto simp: swapped_def)
  have cur: "cursorIs d 0" if "d ''spool.offset'' = disk s ''spool.offset''" for d
    using that c by (intro cursorIs_written) simp_all
  show ?thesis
    unfolding removeMigrationArtifacts_def
    by (intro wp_sysI wp_removeTolerantI conjI allI impI
        | simp add: wp_simps finished_def done' cur noMigration_def sameConfig_def j)+
qed

lemma migrate_finish:
  assumes v1: "v1Holds mx (disk s) rs ps" and prep: "prepared (disk s) qs"
  shows "wp (steps migrateFinish) (migrated mx rs ps qs s) s"
proof -
  obtain i j m where i: "disk s ''spool.log'' = Some i" "disk s ''spool.log.v2.migrating'' = Some j"
      "content j = encodeAll qs" "disk s ''spool.migrating'' = Some m"
    using v1 prep by (auto simp: v1Holds_def prepared_def)
  have A: "migrated mx rs ps qs s (Inl e) (s\<lparr>faults := f\<rparr>)" for e f
    using v1 by (simp add: migrated_def migrating_def sameConfig_def)
  have last: "wp (seqE removeMigrationArtifacts (modify (\<lambda>s. s\<lparr>migrations := migrations s + 1\<rparr>))) (migrated mx rs ps qs s) t"
    if "disk t ''spool.log'' = Some j" "disk t ''spool.offset'' = Some (synced (cursorBytes 0))"
      "sameConfig s t" "fileOpen t = fileOpen s" for t
    by (rule wp_mono [OF migrate_artifacts [OF that(1) i(3) that(2)]])
       (use that in \<open>auto simp: finished_def migrated_def migrating_def sameConfig_def\<close>)
  show ?thesis
    by (intro wp_sysI wp_injectI wp_persistCursorI last [unfolded wp_seqE] A conjI allI impI
        | simp add: wp_simps(1,2) wp_seqE wp_onFile wp_fun steps.simps renameFile_def syncDirectory_def i agree_def
            sameConfig_def
        | simp add: migrated_def migrating_def backedUp_def swapped_def sameConfig_def i)+
qed

lemma wp_migrateSwap:
  assumes v1: "v1Holds mx (disk s) rs ps"
  shows "wp (migrateSwap qs) (migrated mx rs ps qs s) s"
proof -
  have "wp (steps (migratePrepare qs @ migrateFinish)) (migrated mx rs ps qs s) s"
    unfolding wp_steps_append
  proof (rule wp_seqE_I [OF migrate_prepare], goal_cases)
    case (1 e s')
    then have "touches prepFiles s s'" by simp
    then obtain d f k where s': "s' = upd s d f k" "agree prepFiles d (disk s)" by (rule touchesE)
    have "v1Holds mx d rs ps" by (rule v1Holds_frame [OF v1 s'(2)]) simp_all
    moreover have "d ''spool.log'' = disk s ''spool.log''" using agreeD [OF s'(2), of "''spool.log''"] by simp
    ultimately show ?case by (simp add: s' migrated_def migrating_def sameConfig_def)
  next
    case (2 x s')
    then have "touches prepFiles s s'" and p: "prepared (disk s') qs" by simp_all
    then obtain d f k where s': "s' = upd s d f k" "agree prepFiles d (disk s)" by (elim touchesE)
    have "v1Holds mx (disk s') rs ps" using v1Holds_frame [OF v1 s'(2)] by (simp add: s')
    moreover have "d ''spool.log'' = disk s ''spool.log''" using agreeD [OF s'(2), of "''spool.log''"] by simp
    ultimately have logs: "v1Holds mx (disk s') rs ps" "d ''spool.log'' = disk s ''spool.log''" by simp_all
    from wp_mono [OF migrate_finish [OF logs(1) p], of "migrated mx rs ps qs s"] show ?case
      by (simp add: s' logs(2) migrated_def sameConfig_def)
  qed
  then show ?thesis by (simp add: migrateSwap_def)
qed

lemma wp_readOffsetI:
  assumes "\<And>f. Q (Inr (0, False)) (s\<lparr>faults := f\<rparr>)"
    and "\<And>f i v. disk s ''spool.offset'' = Some i \<Longrightarrow> parseInt (trimSpace (stringOf (content i))) = Some v \<Longrightarrow>
       Q (Inr (v, True)) (s\<lparr>faults := f\<rparr>)"
  shows "wp readOffset Q s"
proof -
  have "readOffset s = (r, s') \<Longrightarrow> Q r s'" for r s'
    using assms assms(1) [of "faults s"] assms(2) [where f = "faults s"]
    by (auto simp: readOffset_def readFile_def sys_def onFile_def ret_def split: list.splits outcome.splits option.splits)
  then show ?thesis by (rule wpI)
qed

text \<open>Whatever the schedule: the records written to the new log are the unread ones, or, when the
  cursor file could not be read, all records of the old log.\<close>

definition migratedSome :: "nat \<Rightarrow> bytes list \<Rightarrow> bytes list \<Rightarrow> spool \<Rightarrow> spool_error + unit \<Rightarrow> spool \<Rightarrow> bool" where
  "migratedSome mx rs ps s r s' \<longleftrightarrow> migrated mx rs ps ps s r s' \<or> migrated mx rs ps (rs @ ps) s r s'"

lemma legacy_unread:
  assumes v1: "v1Unread mx d i rs ps" and n: "n = 0 \<or> n = length (concat (map encodeLegacy rs))"
  obtains qs why where "qs = ps \<or> qs = rs @ ps" "n \<noteq> 0 \<Longrightarrow> qs = ps"
    "decodeLegacyRecords (drop n (content i)) mx 0 [] = Inr (qs, why)"
proof -
  from v1 obtain t why where t: "content i = concat (map encodeLegacy rs) @ concat (map encodeLegacy ps) @ t"
    "legacyTail mx t why" and ok: "\<forall>p \<in> set ps. okPayload mx p" "\<forall>p \<in> set (rs @ ps). okPayload mx p"
    by (auto simp: v1Unread_def)
  have "\<exists>qs. (qs = ps \<or> qs = rs @ ps) \<and> (n \<noteq> 0 \<longrightarrow> qs = ps) \<and> decodeLegacyRecords (drop n (content i)) mx 0 [] = Inr (qs, why)"
    using n decodeLegacy_records [OF ok(1) t(2), of "[]" "[]"] decodeLegacy_records [OF ok(2) t(2), of "[]" "[]"]
    by (cases "n = 0") (simp_all add: t(1))
  with that show ?thesis by blast
qed

lemma wp_migrateV1:
  assumes v1: "v1Holds (maxPayloadBytes s) (disk s) rs ps"
  shows "wp migrateV1 (migratedSome (maxPayloadBytes s) rs ps s) s"
proof -
  let ?mx = "maxPayloadBytes s"
  obtain i where i: "disk s ''spool.log'' = Some i" "v1Unread ?mx (disk s) i rs ps"
    using v1 by (auto simp: v1Holds_def)
  have fail: "migratedSome ?mx rs ps s (Inl e) (s\<lparr>faults := f\<rparr>)" for e f
    using v1 by (simp add: migratedSome_def migrated_def migrating_def sameConfig_def)
  have swap: "wp (migrateSwap qs) (migratedSome ?mx rs ps s) t"
    if "qs = ps \<or> qs = rs @ ps" "disk t = disk s" "sameConfig s t" "fileOpen t = fileOpen s" for qs t
    using wp_mono [OF wp_migrateSwap [of ?mx t rs ps qs], of "migratedSome ?mx rs ps s"] that v1
    by (auto simp: migratedSome_def migrated_def sameConfig_def)
  have decode: "wp (case decodeLegacyRecords (drop n (content i)) ?mx 0 [] of
                  Inl n \<Rightarrow> throw (ErrLegacyLength n)
                | Inr (payloads, tornReason) \<Rightarrow>
                    if sum_list (map (\<lambda>p. recordHeaderSize + length p) payloads) > maxBytes s
                    then throw ErrMigrationCapacity
                    else seqE (if tornReason \<noteq> ''''
                               then seqE (modify (\<lambda>s. s\<lparr>tornTailRecoveries := tornTailRecoveries s + 1\<rparr>))
                                         (recordRecoveryLocked (''v1_'' @ tornReason))
                               else ret ())
                         (migrateSwap payloads)) (migratedSome ?mx rs ps s) (s\<lparr>faults := f\<rparr>)"
    if n0: "n = 0 \<or> n = length (concat (map encodeLegacy rs))" for n f
  proof -
    obtain qs why where qs: "qs = ps \<or> qs = rs @ ps"
      and dec: "decodeLegacyRecords (drop n (content i)) ?mx 0 [] = Inr (qs, why)"
      by (rule legacy_unread [OF i(2) n0])
    have sw: "wp (migrateSwap qs) (migratedSome ?mx rs ps s) t"
      if "disk t = disk s" "sameConfig s t" "fileOpen t = fileOpen s" for t
      by (rule swap [OF qs that])
    show ?thesis
      by (simp add: dec wp_simps recordRecoveryLocked_def fail sw sameConfig_def)
  qed
  have rest: "wp (if length (content i) - n > maxBytes s then throw ErrMigrationCapacity
           else bindE (if length (content i) - n > 0 then readAtTolerant spoolFileName n (length (content i) - n) else ret []) (\<lambda>unread.
             seqE (closeFile spoolFileName)
               (case decodeLegacyRecords unread ?mx 0 [] of
                  Inl n \<Rightarrow> throw (ErrLegacyLength n)
                | Inr (payloads, tornReason) \<Rightarrow>
                    if sum_list (map (\<lambda>p. recordHeaderSize + length p) payloads) > maxBytes s
                    then throw ErrMigrationCapacity
                    else seqE (if tornReason \<noteq> ''''
                               then seqE (modify (\<lambda>s. s\<lparr>tornTailRecoveries := tornTailRecoveries s + 1\<rparr>))
                                         (recordRecoveryLocked (''v1_'' @ tornReason))
                               else ret ())
                         (migrateSwap payloads)))) (migratedSome ?mx rs ps s) (s\<lparr>faults := f\<rparr>)"
    if n: "n = 0 \<or> n = length (concat (map encodeLegacy rs))" "n \<le> length (content i)" for n f
  proof -
    have close: "wp (seqE (closeFile spoolFileName) k) (migratedSome ?mx rs ps s) (s\<lparr>faults := f\<rparr>)"
      if "\<And>f. wp k (migratedSome ?mx rs ps s) (s\<lparr>faults := f\<rparr>)" for k :: "unit spool_act" and f
      unfolding closeFile_def wp_seqE using that by (intro wp_sysI) (simp_all add: wp_ret fail)
    have read: "wp (if length (content i) - n > 0 then readAtTolerant spoolFileName n (length (content i) - n) else ret [])
        Q (s\<lparr>faults := f\<rparr>)"
      if "\<And>f. Q (Inr (drop n (content i))) (s\<lparr>faults := f\<rparr>)" "\<And>f. Q (Inl ErrIO) (s\<lparr>faults := f\<rparr>)" for Q f
      using n(2) that i(1) unfolding readAtTolerant_def
      by (cases "n = length (content i)") (auto simp: wp_ret wp_catchE wp_throw intro!: wp_readAtI [of _ _ i])
    show ?thesis
    proof (cases "length (content i) - n > maxBytes s")
      case False
      show ?thesis
        by (simp only: False if_False wp_bindE)
           (rule read, simp only: sum.case, rule close, rule decode [OF n(1)], simp add: fail)
    qed (simp add: wp_throw fail)
  qed
  have cursor: "0 \<le> v \<Longrightarrow> v \<le> int (length (content i)) \<Longrightarrow>
      nat v = length (concat (map encodeLegacy rs)) \<and> nat v \<le> length (content i)"
    if "disk s ''spool.offset'' = Some o'" "parseInt (trimSpace (stringOf (content o'))) = Some v" for o' v
    using i(2) that by (auto simp: v1Unread_def legacyCursor_def)
  have start: "wp (seqE (openExisting spoolFileName) (bindE (statSize spoolFileName) k)) (migratedSome ?mx rs ps s) s"
    if "\<And>f. wp (k (length (content i))) (migratedSome ?mx rs ps s) (s\<lparr>faults := f\<rparr>)" for k :: "nat \<Rightarrow> unit spool_act"
    unfolding openExisting_def statSize_def wp_seqE wp_bindE
    by (intro wp_sysI) (simp_all add: wp_onFile wp_ret i(1) fail, intro wp_sysI, simp_all add: wp_onFile wp_ret i(1) fail that)
  have mb: "maxBytes (s\<lparr>faults := f\<rparr>) = maxBytes s" "maxPayloadBytes (s\<lparr>faults := f\<rparr>) = ?mx"
    "s\<lparr>faults := f, faults := g\<rparr> = s\<lparr>faults := g\<rparr>" for f g
    by simp_all
  show ?thesis
    unfolding migrateV1_def
  proof (rule start, unfold wp_bindE, rule wp_readOffsetI, goal_cases)
    case (1 f f')
    show ?case by (simp only: sum.case prod.case wp_getS Let_def mb, rule rest) simp_all
  next
    case (2 f f' o' v)
    show ?case
      by (simp only: sum.case prod.case wp_getS Let_def mb, rule rest) (use 2 cursor [of o' v] in auto)
  qed
qed

end
