(* ===== verification/SpoolCorrupt.thy ===== *)
theory SpoolCorrupt
  imports SpoolConsume
begin

text \<open>
  Reading a log with arbitrary contents: \<open>Next\<close> hands out only payloads whose header is valid
  and whose checksum matches, and every reported corruption makes the backlog smaller, so a
  consumer that skips corrupt segments terminates.
\<close>

definition backlogLen :: "spool \<Rightarrow> nat" where
  "backlogLen s = (case disk s ''spool.log'' of None \<Rightarrow> 0 | Some i \<Rightarrow> length (content i) - offset s)"

section \<open>Frames of the recovery helpers\<close>

lemma quarantine_touches:
  "wp (quarantineLocked raw) (\<lambda>r s'. touches {''spool.quarantine.log''} s s' \<and> r \<noteq> Inl ErrCorruptSegment) s"
  unfolding quarantineLocked_def
  by (intro wp_sysI conjI allI impI
      | simp add: wp_simps io_exec touches_def agree_def split: option.splits)+

lemma wp_quarantineI:
  assumes "\<And>d f k. agree {''spool.quarantine.log''} d (disk s) \<Longrightarrow> Q (Inr ()) (upd s d f k)"
    "\<And>e d f k. agree {''spool.quarantine.log''} d (disk s) \<Longrightarrow> e \<noteq> ErrCorruptSegment \<Longrightarrow> Q (Inl e) (upd s d f k)"
  shows "wp (quarantineLocked raw) Q s"
proof (rule wp_touches [OF quarantine_touches])
  fix r :: "spool_error + unit" and d f k
  assume "agree {''spool.quarantine.log''} d (disk s)" "r \<noteq> Inl ErrCorruptSegment"
  with assms show "Q r (upd s d f k)" by (cases r) auto
qed

text \<open>What a corruption report means: the segment is gone, and everything else is as before.\<close>

definition shrinks :: "spool \<Rightarrow> spool_error + 'a \<Rightarrow> spool \<Rightarrow> bool" where
  "shrinks s r s' \<longleftrightarrow> sameConfig s s' \<and> fileOpen s' = fileOpen s \<and>
     (\<forall>x. r \<noteq> Inr x) \<and> backlogLen s' \<le> backlogLen s \<and> (r = Inl ErrCorruptSegment \<longrightarrow> backlogLen s' < backlogLen s)"

lemma wp_tornTail_shrinks:
  assumes "disk s ''spool.log'' = Some i" "offset s < length (content i)"
  shows "wp (recoverTornTailLocked reason) (shrinks s) (s\<lparr>faults := f\<rparr>)"
  unfolding recoverTornTailLocked_def recordRecoveryLocked_def
  using assms
  by (intro wp_sysI conjI allI impI
      | simp add: wp_simps io_exec shrinks_def backlogLen_def sameConfig_def)+

lemma wp_readUnread_any:
  assumes "disk s ''spool.log'' = Some i"
    "\<And>g. Q (Inr (drop (offset s) (content i))) (s\<lparr>faults := g\<rparr>)" "\<And>g. Q (Inl ErrIO) (s\<lparr>faults := g\<rparr>)"
  shows "wp (readUnreadLocked (length (content i))) Q (s\<lparr>faults := f\<rparr>)"
  using assms unfolding readUnreadLocked_def readAt_def
  by (auto simp: wp_simps intro!: wp_sysI)

lemma wp_structural_shrinks:
  assumes i: "disk s ''spool.log'' = Some i" "offset s < length (content i)"
  shows "wp (recoverStructuralCorruptionLocked reason (length (content i))) (shrinks s) (s\<lparr>faults := f\<rparr>)"
proof -
  let ?rest = "seqE (truncateFile spoolFileName (offset s))
           (seqE (syncFile spoolFileName)
             (seqE (recordRecoveryLocked reason) (throw ErrCorruptSegment)))"
  have rest: "wp ?rest (shrinks s) (s\<lparr>disk := d, faults := g, fsyncFailures := k, quarantinedRecords := a, discardedRecords := b\<rparr>)"
    if "d ''spool.log'' = Some i" for d g k a b
    using that i unfolding recordRecoveryLocked_def
    by (intro wp_sysI conjI allI impI
        | simp add: wp_simps io_exec shrinks_def backlogLen_def sameConfig_def)+
  have rest': "wp ?rest (shrinks s) (s\<lparr>faults := g\<rparr>)" for g
  proof -
    have "s\<lparr>faults := g\<rparr> = s\<lparr>disk := disk s, faults := g, fsyncFailures := fsyncFailures s,
        quarantinedRecords := quarantinedRecords s, discardedRecords := discardedRecords s\<rparr>" by simp
    then show ?thesis by (simp only:) (rule rest, rule i(1))
  qed
  have fail: "shrinks s (Inl e) (upd s d g k)" if "d ''spool.log'' = Some i" "e \<noteq> ErrCorruptSegment" for e d g k
    using that i by (simp add: shrinks_def backlogLen_def sameConfig_def)
  have fail': "shrinks s (Inl ErrIO) (s\<lparr>faults := g\<rparr>)" for g
    using i by (simp add: shrinks_def backlogLen_def sameConfig_def)
  have q: "wp (if raw = [] then ret ()
             else seqE (quarantineLocked raw) (modify (\<lambda>s. s\<lparr>
               quarantinedRecords := quarantinedRecords s + 1,
               discardedRecords := discardedRecords s + 1\<rparr>)))
       (\<lambda>r s'. case r of Inl e \<Rightarrow> shrinks s (Inl e) s' | Inr _ \<Rightarrow> wp ?rest (shrinks s) s') (s\<lparr>faults := g\<rparr>)" for raw g
  proof (cases "raw = []")
    case False
    have "d ''spool.log'' = Some i" if "agree {''spool.quarantine.log''} d (disk s)" for d
      using agreeD [OF that, of "''spool.log''"] i by simp
    with False show ?thesis
      by (simp only: if_False wp_seqE [of "quarantineLocked raw"])
         (rule wp_quarantineI; simp add: wp_modify; blast intro: rest fail)
  qed (simp add: wp_ret rest' del: One_nat_def)
  show ?thesis
    unfolding recoverStructuralCorruptionLocked_def wp_bindE
    by (rule wp_readUnread_any [OF i(1)])
       (use q [of "drop (offset s) (content i)"] fail' i(2) in \<open>simp_all add: wp_getS wp_seqE [of "seqE _ _"]\<close>)
qed

section \<open>Next on arbitrary contents\<close>

definition nextChecked :: "spool \<Rightarrow> inode \<Rightarrow> spool_error + (bytes option \<times> nat) \<Rightarrow> spool \<Rightarrow> bool" where
  "nextChecked s i r s' \<longleftrightarrow> sameConfig s s' \<and> fileOpen s' = fileOpen s \<and>
     (case r of
        Inr (None, n) \<Rightarrow> s' = s\<lparr>faults := faults s'\<rparr> \<and> n = offset s \<and> length (content i) \<le> offset s
      | Inr (Some p, n) \<Rightarrow> s' = s\<lparr>faults := faults s'\<rparr> \<and> n = offset s + 16 + length p \<and> n \<le> length (content i)
          \<and> (let h = take 16 (drop (offset s) (content i)) in
               p = take (length p) (drop (offset s + 16) (content i))
             \<and> decodeHeader h (maxPayloadBytes s) = (length p, True)
             \<and> recordChecksum h p = getUint32 (take 4 (drop 12 h)))
      | Inl e \<Rightarrow> backlogLen s' \<le> backlogLen s \<and> (e = ErrCorruptSegment \<longrightarrow> backlogLen s' < backlogLen s))"

lemma nextChecked_err: "shrinks s (Inl e :: spool_error + 'a) s' \<Longrightarrow> nextChecked s i (Inl e) s'"
  by (simp add: nextChecked_def shrinks_def)

lemma wp_shrinks_nextChecked:
  assumes "wp m (shrinks s) t" "\<And>e s'. shrinks s (Inl e :: spool_error + 'a) s' \<Longrightarrow> Q (Inl e) s'"
  shows "wp (m :: 'a spool_act) Q t"
proof (rule wp_mono [OF assms(1)])
  fix r s' assume "shrinks s (r :: spool_error + 'a) s'"
  with assms(2) show "Q r s'" by (cases r) (auto simp: shrinks_def)
qed

lemma wp_header_any:
  assumes i: "disk s ''spool.log'' = Some i" "offset s < length (content i)"
    and ok: "\<And>g h n. h = take 16 (drop (offset s) (content i)) \<Longrightarrow> offset s + 16 + n \<le> length (content i) \<Longrightarrow>
       decodeHeader h (maxPayloadBytes s) = (n, True) \<Longrightarrow> Q (Inr (h, n, offset s + 16 + n)) (s\<lparr>faults := g\<rparr>)"
    and err: "\<And>e s'. shrinks s (Inl e :: spool_error + unit) s' \<Longrightarrow> Q (Inl e) s'"
  shows "wp (readHeaderLocked (offset s) (length (content i))) Q (s\<lparr>faults := f\<rparr>)"
proof -
  have err': "Q (Inl e) s'" if "shrinks s (Inl e :: spool_error + 'c) s'" for e s'
    using that by (intro err) (simp add: shrinks_def)
  have tt: "wp (recoverTornTailLocked r :: 'd spool_act) P (s\<lparr>faults := g\<rparr>)"
    if "\<And>e s'. shrinks s (Inl e :: spool_error + 'd) s' \<Longrightarrow> P (Inl e) s'" for P g r
    using wp_tornTail_shrinks [OF i] that by (rule wp_shrinks_nextChecked)
  have st: "wp (recoverStructuralCorruptionLocked r (length (content i)) :: 'd spool_act) P (s\<lparr>faults := g\<rparr>)"
    if "\<And>e s'. shrinks s (Inl e :: spool_error + 'd) s' \<Longrightarrow> P (Inl e) s'" for P g r
    using wp_structural_shrinks [OF i] that by (rule wp_shrinks_nextChecked)
  have io: "Q (Inl ErrIO) (s\<lparr>faults := g\<rparr>)" for g
    using i by (intro err) (simp add: shrinks_def backlogLen_def sameConfig_def)
  obtain n valid where dh: "decodeHeader (take 16 (drop (offset s) (content i))) (maxPayloadBytes s) = (n, valid)"
    by fastforce
  have parsed: "wp (getS (\<lambda>t. case decodeHeader (take 16 (drop (offset s) (content i))) (maxPayloadBytes t) of (n, ok) \<Rightarrow>
             if \<not> ok then recoverStructuralCorruptionLocked ''invalid_record_header'' (length (content i))
             else let nextOffset = offset s + recordHeaderSize + n in
               if nextOffset > length (content i) then recoverTornTailLocked ''truncated_payload''
               else ret (take 16 (drop (offset s) (content i)), n, nextOffset))) Q (s\<lparr>faults := g\<rparr>)" for g
    using dh ok [OF refl, of n]  i
    by (simp add: wp_getS Let_def) (auto simp: wp_ret intro!: st tt err')
  show ?thesis
  proof (cases "length (content i) - offset s < 16")
    case True
    then show ?thesis by (simp add: readHeaderLocked_def) (auto intro!: tt err')
  next
    case False
    then show ?thesis
      unfolding readHeaderLocked_def
      by (simp add: wp_bindE wp_catchE)
         (rule wp_readAtI [of _ _ i], use parsed in \<open>simp_all add: i wp_throw io\<close>)
  qed
qed

text \<open>A record whose checksum fails is quarantined and skipped, durably, before it is reported.\<close>

lemma wp_skip_bad:
  assumes i: "disk s ''spool.log'' = Some i" and n: "offset s < n" "n \<le> length (content i)"
  shows "wp (seqE (steps [modify (\<lambda>s. s\<lparr>checksumFailures := checksumFailures s + 1\<rparr>),
                          recordRecoveryLocked ''checksum_mismatch'',
                          quarantineLocked raw,
                          persistCursorLocked n,
                          modify (\<lambda>s. s\<lparr>offset := n,
                                 quarantinedRecords := quarantinedRecords s + 1,
                                 discardedRecords := discardedRecords s + 1\<rparr>)])
                  (throw ErrCorruptSegment :: 'a spool_act)) (shrinks s) (s\<lparr>faults := f\<rparr>)"
proof -
  have q: "d ''spool.log'' = Some i" if "agree {''spool.quarantine.log''} d (disk s)" for d
    using agreeD [OF that, of "''spool.log''"] i by simp
  have p: "d' ''spool.log'' = Some i"
    if "agree {''spool.quarantine.log''} d (disk s)" "agree {''spool.offset'', ''spool.offset.tmp''} d' d" for d d'
    using agreeD [OF that(2), of "''spool.log''"] q [OF that(1)] by simp
  have lt: "length (content i) - n < length (content i) - offset s" using n by linarith
  show ?thesis
    using i lt
    by (simp add: wp_simps recordRecoveryLocked_def)
       (rule wp_quarantineI; simp add: wp_seqE q shrinks_def backlogLen_def sameConfig_def;
        rule wp_persistCursorI; simp add: wp_simps shrinks_def backlogLen_def sameConfig_def q p)
qed

lemma wp_payload_any:
  assumes i: "disk s ''spool.log'' = Some i" "offset s < length (content i)"
    and n: "offset s + 16 + n \<le> length (content i)"
    and ok: "\<And>g. Q (Inr (take n (drop (offset s + 16) (content i)))) (s\<lparr>faults := g\<rparr>)"
    and err: "\<And>e s'. shrinks s (Inl e :: spool_error + unit) s' \<Longrightarrow> Q (Inl e) s'"
  shows "wp (if n = 0 then ret []
          else catchE (readAt ''spool.log'' (offset s + 16) n) (\<lambda>e.
                  if e = ErrEOF then recoverTornTailLocked ''truncated_payload'' else throw e)) Q (s\<lparr>faults := f\<rparr>)"
proof -
  have "Q (Inl ErrIO) (s\<lparr>faults := g\<rparr>)" for g
    using i by (intro err) (simp add: shrinks_def backlogLen_def sameConfig_def)
  with ok [of f] show ?thesis
    by (cases "n = 0") (auto simp: wp_ret wp_catchE wp_throw i n ok intro!: wp_readAtI [of _ _ i])
qed

lemma wp_Next_any:
  assumes "fileOpen s" and i: "disk s ''spool.log'' = Some i"
  shows "wp Next (nextChecked s i) s"
proof -
  have io: "nextChecked s i (Inl ErrIO) (s\<lparr>faults := g\<rparr>)" for g
    using i by (simp add: nextChecked_def backlogLen_def sameConfig_def)
  have bad: "wp (seqE (steps [modify (\<lambda>s. s\<lparr>checksumFailures := checksumFailures s + 1\<rparr>),
                          recordRecoveryLocked ''checksum_mismatch'',
                          quarantineLocked raw,
                          persistCursorLocked n,
                          modify (\<lambda>s. s\<lparr>offset := n,
                                 quarantinedRecords := quarantinedRecords s + 1,
                                 discardedRecords := discardedRecords s + 1\<rparr>)])
                  (throw ErrCorruptSegment)) (nextChecked s i) (s\<lparr>faults := f\<rparr>)"
    if "offset s < n" "n \<le> length (content i)" for raw n f
    using wp_skip_bad [OF i that] by (rule wp_shrinks_nextChecked) (rule nextChecked_err)
  show ?thesis
  proof (cases "length (content i) \<le> offset s")
    case True
    then show ?thesis
      unfolding Next_def wp_getS using assms
      by (simp add: wp_bindE) (rule wp_statSizeI [OF i], simp_all add: wp_ret nextChecked_def sameConfig_def backlogLen_def)
  next
    case False
    then have lt: "offset s < length (content i)" by simp
    show ?thesis
      unfolding Next_def wp_getS using assms lt
      apply (simp add: wp_bindE del: length_0_conv)
      apply (rule wp_statSizeI [OF i])
       apply (simp add: wp_bindE io del: length_0_conv)
       apply (rule wp_header_any [OF i lt])
        apply (simp only: wp_bindE prod.case sum.case)
        apply (rule wp_payload_any [OF i lt])
          apply assumption
         apply (simp add: bad wp_ret del: drop_drop)
         apply (simp add: nextChecked_def sameConfig_def Let_def)
        apply (auto simp: io intro: nextChecked_err)
      done
  qed
qed

end
