(* ===== verification/SpoolReopen.thy ===== *)
theory SpoolReopen
  imports SpoolMigrate SpoolCorrupt
begin

text \<open>
  Opening without further failures: the migration of a version 1 directory succeeds with exactly
  the unread payloads, and every directory that an interrupted migration can leave behind is
  completed or rolled back to the same payloads.
\<close>

section \<open>Migration without failures\<close>

lemma succeedsD: "succeeds r s \<Longrightarrow> quiet s"
  by (simp add: succeeds_def)

lemma quiet_writeAll:
  assumes "quiet s" "disk s ''spool.log.v2.migrating'' = Some j"
  shows "wp (steps (map (\<lambda>p. writeFull migrationTempFileName (encodeRecord p)) ps)) succeeds s"
  using assms
proof (induction ps arbitrary: s j)
  case Nil
  then show ?case by (simp add: wp_simps succeeds_def)
next
  case (Cons p ps)
  have "wp (writeFull migrationTempFileName (encodeRecord p)) Q s =
      Q (Inr ()) (s\<lparr>disk := (disk s)(''spool.log.v2.migrating'' \<mapsto> j\<lparr>content := content j @ encodeRecord p\<rparr>)\<rparr>)" for Q
    using Cons.prems by (simp add: writeFull_def wp_sys_quiet wp_fun appendFile_def setFile_def)
  with Cons show ?case by (simp add: steps_Cons wp_seqE)
qed

lemma quiet_prepare_tail:
  assumes "quiet s" "disk s ''spool.log.v2.migrating'' = Some j"
  shows "wp (steps [syncFile migrationTempFileName,
          closeFile migrationTempFileName,
          atomicWriteFile migrationMarkerName (bytesOf (''v1-to-v2'' @ [CHR 10])),
          inject FaultBeforeMigrationSwap,
          ignoreE (removeFile legacyBackupFileName)]) succeeds s"
  using assms
  by (simp add: wp_simps quiet_exec io_exec atomicWriteFile_def Let_def split: option.splits)

lemma quiet_prepare:
  assumes q: "quiet s"
  shows "wp (steps (migratePrepare ps)) succeeds s"
proof -
  let ?wr = "map (\<lambda>p. writeFull migrationTempFileName (encodeRecord p)) ps"
  let ?rest = "[syncFile migrationTempFileName,
          closeFile migrationTempFileName,
          atomicWriteFile migrationMarkerName (bytesOf (''v1-to-v2'' @ [CHR 10])),
          inject FaultBeforeMigrationSwap,
          ignoreE (removeFile legacyBackupFileName)]"
  have body: "wp (steps (?wr @ ?rest)) succeeds t"
    if t: "quiet t" "disk t ''spool.log.v2.migrating'' = Some j" for t j
    unfolding wp_steps_append
  proof -
    have "wp (steps ?wr) (\<lambda>r s'. succeeds r s' \<and> (\<exists>j'. disk s' ''spool.log.v2.migrating'' = Some j')) t"
      unfolding wp_conj by (rule conjI [OF quiet_writeAll [OF t]], rule wp_mono [OF writeAll_touches [OF t(2)]]) blast
    then show "wp (seqE (steps ?wr) (steps ?rest)) succeeds t"
      by (rule wp_seqE_I) (simp, elim conjE exE, erule quiet_prepare_tail [OF succeedsD])
  qed
  have excl: "wp (seqE (openExcl migrationTempFileName) (steps (?wr @ ?rest))) succeeds t"
    if "quiet t" "disk t ''spool.log.v2.migrating'' = None" for t
  proof -
    have "openExcl migrationTempFileName t = (Inr (), setFile migrationTempFileName \<lparr>content = [], stable = []\<rparr> t)"
      using that by (simp add: openExcl_def quiet_def)
    with that show ?thesis
      by (simp only: wp_seqE wp_det [of "openExcl _"] sum.case) (rule body, simp_all add: setFile_def)
  qed
  have "ignoreE (removeFile migrationTempFileName) s = (Inr (), s\<lparr>disk := (disk s)(''spool.log.v2.migrating'' := None)\<rparr>)"
    using q by (cases "disk s ''spool.log.v2.migrating''")
      (simp_all add: ignoreE_def removeFile_def quiet_def onFile_def fun_upd_idem)
  then have "wp (seqE (ignoreE (removeFile migrationTempFileName)) (seqE (openExcl migrationTempFileName) (steps (?wr @ ?rest)))) succeeds s"
    by (simp only: wp_seqE [of "ignoreE _"] wp_det [of "ignoreE _"] sum.case) (rule excl, use q in simp_all)
  then show ?thesis by (simp add: steps_Cons)
qed

lemma quiet_removeTolerant:
  "quiet s \<Longrightarrow> removeTolerant nm s = (Inr (), s\<lparr>disk := (disk s)(nm := None)\<rparr>)"
  by (cases "disk s nm") (simp_all add: removeTolerant_def catchE_def removeFile_def quiet_def onFile_def ret_def fun_upd_idem)

lemma quiet_artifacts:
  assumes "quiet s"
  shows "wp (seqE removeMigrationArtifacts (modify (\<lambda>s. s\<lparr>migrations := migrations s + 1\<rparr>))) succeeds s"
  using assms
  by (simp add: removeMigrationArtifacts_def wp_simps quiet_exec wp_det [of "removeTolerant _", OF quiet_removeTolerant])

lemma quiet_finish:
  assumes "quiet s" "disk s ''spool.log'' = Some i" "disk s ''spool.log.v2.migrating'' = Some j"
  shows "wp (steps migrateFinish) succeeds s"
  using assms
  by (simp add: wp_simps(1,2) wp_seqE wp_onFile wp_fun steps.simps renameFile_def syncDirectory_def
        wp_sys_quiet wp_inject_quiet)
     (rule quiet_persistI, simp, simp, rule quiet_artifacts, simp)

lemma quiet_migrateSwap:
  assumes q: "quiet s" and i: "disk s ''spool.log'' = Some i"
  shows "wp (migrateSwap qs) succeeds s"
proof -
  have "wp (steps (migratePrepare qs)) (\<lambda>r s'. succeeds r s' \<and> (touches prepFiles s s' \<and> (r = Inr () \<longrightarrow> prepared (disk s') qs))) s"
    unfolding wp_conj using quiet_prepare [OF q, of qs] migrate_prepare [of qs s] by (simp add: wp_conj)
  then have "wp (seqE (steps (migratePrepare qs)) (steps migrateFinish)) succeeds s"
  proof (rule wp_seqE_I, goal_cases)
    case (1 e s')
    then show ?case by simp
  next
    case (2 x s')
    then have "quiet s'" "prepared (disk s') qs" "disk s' ''spool.log'' = Some i"
      using i by (auto simp: succeeds_def touches_def agree_def)
    then show ?case unfolding prepared_def by (auto intro: quiet_finish simp del: steps.simps)
  qed
  then show ?thesis by (simp add: migrateSwap_def wp_steps_append [symmetric])
qed

lemma sum_encodeAll: "sum_list (map (\<lambda>p. 16 + length p) ps) = length (encodeAll ps)"
  by (induction ps) simp_all

lemma quiet_migrateV1:
  assumes q: "quiet s" and v1: "v1Holds (maxPayloadBytes s) (disk s) rs ps"
    and lim: "\<And>i. disk s ''spool.log'' = Some i \<Longrightarrow> length (content i) \<le> maxBytes s" "length (encodeAll ps) \<le> maxBytes s"
  shows "wp migrateV1 (\<lambda>r s'. succeeds r s' \<and> migrated (maxPayloadBytes s) rs ps ps s r s') s"
proof -
  let ?mx = "maxPayloadBytes s"
  let ?P = "\<lambda>r s'. succeeds r s' \<and> migrated ?mx rs ps ps s r s'"
  obtain i where i: "disk s ''spool.log'' = Some i" and u: "v1Unread ?mx (disk s) i rs ps"
    using v1 by (auto simp: v1Holds_def)
  obtain t why where t: "content i = concat (map encodeLegacy rs) @ concat (map encodeLegacy ps) @ t"
    "legacyTail ?mx t why" and ok: "\<forall>p \<in> set ps. okPayload ?mx p"
    and cur: "legacyCursor (disk s) (length (content i)) = length (concat (map encodeLegacy rs))"
    using u by (auto simp: v1Unread_def)
  let ?n = "length (concat (map encodeLegacy rs))"
  have dec: "decodeLegacyRecords (drop ?n (content i)) ?mx 0 [] = Inr (ps, why)"
    using decodeLegacy_records [OF ok t(2), of "[]" "[]"] by (simp add: t(1))
  obtain off good where ro: "readOffset s = (Inr (off, good), s)" using quiet_readOffset [OF q] by (metis surj_pair)
  have n: "(if \<not> good \<or> off < 0 \<or> off > int (length (content i)) then 0 else nat off) = ?n"
    unfolding cur [symmetric] using ro quiet_readOffset [OF q]
    by (auto simp: legacyCursor_def split: option.splits)
  have rd: "(if length (content i) - ?n > 0 then readAtTolerant spoolFileName ?n (length (content i) - ?n) else ret []) s
      = (Inr (drop ?n (content i)), s)"
    using q i t(1) by (auto simp: readAtTolerant_def catchE_def readAt_def quiet_def onFile_def ret_def)
  have swap: "wp (migrateSwap ps) ?P u" if "quiet u" "disk u = disk s" "sameConfig s u" "fileOpen u = fileOpen s" for u
  proof -
    have "wp (migrateSwap ps) (\<lambda>r s'. succeeds r s' \<and> migrated ?mx rs ps ps u r s') u"
      unfolding wp_conj using quiet_migrateSwap [OF that(1), of i] wp_migrateSwap [of ?mx u rs ps ps] that i v1 by simp
    then show ?thesis by (rule wp_mono) (use that in \<open>auto simp: migrated_def sameConfig_def\<close>)
  qed
  have "\<not> length (content i) - ?n > maxBytes s" "\<not> length (encodeAll ps) > maxBytes s"
    using lim i by fastforce+
  then show ?thesis
    unfolding migrateV1_def openExisting_def statSize_def closeFile_def wp_seqE wp_bindE
    using q i
    by (simp only: wp_sys_quiet wp_onFile option.case wp_ret sum.case wp_det [of readOffset, OF ro] prod.case wp_getS
         Let_def n if_False wp_det [of "if _ then _ else _", OF rd] wp_bindE wp_seqE dec sum_encodeAll)
       (auto simp: wp_simps recordRecoveryLocked_def sameConfig_def intro!: swap)
qed

section \<open>Opening a directory in any stage of a migration\<close>

definition ready :: "bytes list \<Rightarrow> spool \<Rightarrow> spool_error + unit \<Rightarrow> spool \<Rightarrow> bool" where
  "ready ps s r s' \<longleftrightarrow> r = Inr () \<and> quiet s' \<and> sameConfig s s' \<and> spoolInv s' ps 0 0"

lemma quiet_open_v1:
  assumes q: "quiet s" and v1: "v1Holds (maxPayloadBytes s) (disk s) rs ps"
    and lim: "\<And>i. disk s ''spool.log'' = Some i \<Longrightarrow> length (content i) \<le> maxBytes s" "length (encodeAll ps) \<le> maxBytes s"
      "maxBytes s < 2 ^ 63"
  shows "wp openOrMigrate (ready ps s) s"
proof -
  obtain i where i: "disk s ''spool.log'' = Some i" and u: "v1Unread (maxPayloadBytes s) (disk s) i rs ps"
    using v1 by (auto simp: v1Holds_def)
  have ok: "\<forall>p \<in> set ps. okPayload (maxPayloadBytes s) p" and ne: "0 < length (content i)"
    and no: "\<not> startsWithV2 (content i)" using u by (auto simp: v1Unread_def)
  let ?s = "s\<lparr>fileOpen := False\<rparr>"
  have mig: "wp migrateV1 (\<lambda>r s'. succeeds r s' \<and> migrated (maxPayloadBytes ?s) rs ps ps ?s r s') ?s"
    by (rule quiet_migrateV1) (use q v1 lim in auto)
  have tail: "wp (bindE (repairTail (length (content j))) loadCursor) (ready ps s) (t\<lparr>fileOpen := True\<rparr>)"
    if t: "quiet t" "sameConfig s t" "disk t ''spool.log'' = Some j" "content j = encodeAll ps" "cursorIs (disk t) 0" for t j
  proof -
    have "wp (bindE (repairTail (length (content j))) loadCursor) (opened (t\<lparr>fileOpen := True\<rparr>) ps) (t\<lparr>fileOpen := True\<rparr>)"
      by (rule quiet_open_tail [where t = "[]"]) (use t ok lim in \<open>auto simp: sameConfig_def tailReason_def\<close>)
    then show ?thesis by (rule wp_mono) (use t in \<open>auto simp: opened_def ready_def sameConfig_def\<close>)
  qed
  have rest: "wp (seqE migrateV1 (seqE (openCreate spoolFileName)
            (seqE (modify (\<lambda>s. s\<lparr>fileOpen := True\<rparr>)) (statSize spoolFileName))))
        (\<lambda>r s'. case r of Inl e \<Rightarrow> ready ps s (Inl e) s' | Inr x \<Rightarrow> wp (bindE (repairTail x) loadCursor) (ready ps s) s') ?s"
  proof (rule wp_seqE_I [OF mig], goal_cases)
    case (1 e s')
    then show ?case by (simp add: succeeds_def)
  next
    case (2 x t)
    then have t: "quiet t" "sameConfig s t" "swapped (disk t) ps" "cursorIs (disk t) 0"
      by (auto simp: succeeds_def migrated_def sameConfig_def)
    then obtain j where j: "disk t ''spool.log'' = Some j" "content j = encodeAll ps" by (auto simp: swapped_def)
    with tail [OF t(1,2) j t(4)] t(1) show ?case
      by (simp add: wp_seqE openCreate_def statSize_def wp_sys_quiet wp_fun wp_onFile wp_ret wp_modify)
  qed
  note v2 = wp_det [of "fileStartsWithV2 _", OF quiet_startsWithV2 [of "s\<lparr>fileOpen := True\<rparr>" "''spool.log''" i]]
  have oc: "openCreate spoolFileName s = (Inr (), s)" "statSize spoolFileName (s\<lparr>fileOpen := True\<rparr>) = (Inr (length (content i)), s\<lparr>fileOpen := True\<rparr>)"
    "closeFile spoolFileName (s\<lparr>fileOpen := True\<rparr>) = (Inr (), s\<lparr>fileOpen := True\<rparr>)"
    using q i by (simp_all add: openCreate_def statSize_def closeFile_def quiet_def onFile_def ret_def)
  have "wp (migrateIfLegacy (length (content i)))
      (\<lambda>r s'. case r of Inl e \<Rightarrow> ready ps s (Inl e) s' | Inr x \<Rightarrow> wp (bindE (repairTail x) loadCursor) (ready ps s) s')
      (s\<lparr>fileOpen := True\<rparr>)"
    using q i ne no rest unfolding migrateIfLegacy_def
    by (simp add: wp_bindE [of "fileStartsWithV2 _"] v2 wp_seqE [of "closeFile _"] wp_seqE [of "modify _"]
        wp_det [of "closeFile _", OF oc(3)] wp_modify)
  then show ?thesis
    unfolding openOrMigrate_def wp_seqE [of "openCreate _"] wp_seqE [of "modify _"] wp_bindE [of "statSize _"]
      wp_bindE [of "migrateIfLegacy _"]
    by (simp add: wp_det [of "openCreate _", OF oc(1)] wp_modify wp_det [of "statSize _", OF oc(2)])
qed

text \<open>What recovery leaves: the untouched version 1 log, or the version 2 log with the cursor at 0
  (the cursor of an empty log does not matter).\<close>

definition recovered :: "inode option \<Rightarrow> bytes list \<Rightarrow> bytes list \<Rightarrow> bytes list \<Rightarrow> spool \<Rightarrow> spool_error + unit \<Rightarrow> spool \<Rightarrow> bool" where
  "recovered old rs ps qs s r s' \<longleftrightarrow> r = Inr () \<and> quiet s' \<and> sameConfig s s'
     \<and> (v1Holds (maxPayloadBytes s) (disk s') rs ps \<and> disk s' ''spool.log'' = old
        \<or> (\<exists>j. disk s' ''spool.log'' = Some j \<and> content j = encodeAll qs) \<and> (qs = [] \<or> cursorIs (disk s') 0))"

lemma startsWithV2_encodeAll [simp]: "startsWithV2 (encodeAll qs) \<longleftrightarrow> qs \<noteq> []"
proof (cases qs)
  case (Cons q qs')
  with startsWithV2_record [of "length (encodeRecord q)" q "encodeAll qs'"] show ?thesis by simp
qed (simp add: startsWithV2_def)

lemma recover_persisted:
  assumes q: "quiet s" and j: "disk s ''spool.log'' = Some j" "content j = encodeAll qs"
  shows "wp (seqE (persistCursorLocked 0) (seqE removeMigrationArtifacts (modify (\<lambda>s. s\<lparr>migrations := migrations s + 1\<rparr>))))
    (recovered old rs ps qs s) s"
  unfolding wp_seqE [of "persistCursorLocked _"]
proof (rule quiet_persistI [OF q], simp only: sum.case, goal_cases)
  case (1 d k)
  let ?t = "s\<lparr>disk := d, fsyncFailures := k\<rparr>"
  have d: "d ''spool.log'' = Some j" using agreeD [OF 1(1), of "''spool.log''"] j by simp
  have "wp (seqE removeMigrationArtifacts (modify (\<lambda>s. s\<lparr>migrations := migrations s + 1\<rparr>)))
     (\<lambda>r s'. succeeds r s' \<and> finished qs ?t r s') ?t"
    unfolding wp_conj using quiet_artifacts [of ?t] migrate_artifacts [of ?t j qs] d j 1 q by simp
  then show ?case
    by (rule wp_mono) (auto simp: succeeds_def finished_def recovered_def sameConfig_def swapped_def)
qed

lemma quiet_ignoreRemove:
  "quiet s \<Longrightarrow> ignoreE (removeFile nm) s = (Inr (), s\<lparr>disk := (disk s)(nm := None)\<rparr>)"
  by (cases "disk s nm") (simp_all add: ignoreE_def removeFile_def quiet_def onFile_def fun_upd_idem)

lemma recover_rollback:
  assumes q: "quiet s" and log: "disk s ''spool.log'' = Some j"
    and ok: "v1Holds (maxPayloadBytes s) (disk s) rs ps \<and> disk s ''spool.log'' = old \<or> content j = encodeAll qs \<and> (qs = [] \<or> cursorIs (disk s) 0)"
  shows "wp (steps [ignoreE (removeFile migrationTempFileName), ignoreE (removeFile migrationMarkerName),
                  if b then ignoreE (removeFile legacyBackupFileName) else ret (), syncDirectory])
    (recovered old rs ps qs s) s"
proof -
  let ?r = "\<lambda>s. s\<lparr>disk := (disk s)(''spool.log.v2.migrating'' := None, ''spool.migrating'' := None)\<rparr>"
  have v1: "v1Holds mx d rs ps" if "v1Holds mx (disk s) rs ps" "d ''spool.log'' = disk s ''spool.log''"
    "d ''spool.offset'' = disk s ''spool.offset''" for d mx
    using that by (auto simp: v1Holds_def v1Unread_def legacyCursor_def)
  have c: "cursorIs d 0" if "cursorIs (disk s) 0" "d ''spool.offset'' = disk s ''spool.offset''" for d
    using that by (simp add: cursorIs_def)
  have fin: "recovered old rs ps qs s (Inr ()) (s\<lparr>disk := d\<rparr>)"
    if "d ''spool.log'' = disk s ''spool.log''" "d ''spool.offset'' = disk s ''spool.offset''" for d
    using ok q log v1 [of _ d] c [of d] that by (auto simp: recovered_def sameConfig_def)
  show ?thesis
    using q by (simp add: steps.simps wp_seqE wp_det [of "ignoreE _", OF quiet_ignoreRemove] syncDirectory_def
        wp_sys_quiet wp_ret fin)
qed

lemma quiet_recover:
  assumes q: "quiet s" and mig: "migrating (maxPayloadBytes s) (disk s) old rs ps qs"
  shows "wp recoverInterruptedMigration (recovered old rs ps qs s) s"
proof -
  let ?B = "disk s ''spool.log.v1.backup'' \<noteq> None" and ?T = "disk s ''spool.log.v2.migrating'' \<noteq> None"
    and ?M = "disk s ''spool.migrating'' \<noteq> None" and ?L = "disk s ''spool.log'' \<noteq> None"
  note ex = wp_det [of "fileExists _", OF quiet_fileExists [OF q]]
  consider (v1) "v1Holds (maxPayloadBytes s) (disk s) rs ps" "disk s ''spool.log'' = old"
    | (bk) "backedUp (disk s) qs" | (sw) "swapped (disk s) qs"
    using mig by (auto simp: migrating_def)
  then show ?thesis
  proof cases
    case v1
    then obtain i where i: "disk s ''spool.log'' = Some i" "\<not> startsWithV2 (content i)"
      by (auto simp: v1Holds_def v1Unread_def)
    note v2 = wp_det [of "fileStartsWithV2 _", OF quiet_startsWithV2 [OF q i(1)]]
    have oe: "openExisting spoolFileName s = (Inr (), s)"
      using q i(1) by (simp add: openExisting_def quiet_def onFile_def ret_def)
    have same: "recovered old rs ps qs s (Inr ()) s" using v1 q by (simp add: recovered_def sameConfig_def)
    have roll: "wp (steps [ignoreE (removeFile migrationTempFileName), ignoreE (removeFile migrationMarkerName),
                  if b then ignoreE (removeFile legacyBackupFileName) else ret (), syncDirectory])
      (recovered old rs ps qs s) s" for b
      by (rule recover_rollback [OF q i(1)]) (use v1 in simp)
    show ?thesis
      unfolding recoverInterruptedMigration_def wp_bindE
      using i q same roll [of True] roll [of False]
      by (simp add: ex wp_ret wp_seqE [of "openExisting _"] wp_det [of "openExisting _", OF oe] wp_bindE v2)
  next
    case bk
    then obtain b j where j: "disk s ''spool.log'' = None" "disk s ''spool.log.v1.backup'' = Some b"
      "disk s ''spool.log.v2.migrating'' = Some j" "content j = encodeAll qs"
      by (auto simp: backedUp_def)
    let ?t = "s\<lparr>disk := (disk s)(''spool.log.v2.migrating'' := None, ''spool.log'' \<mapsto> j)\<rparr>"
    have "wp (seqE (persistCursorLocked 0) (seqE removeMigrationArtifacts (modify (\<lambda>s. s\<lparr>migrations := migrations s + 1\<rparr>))))
      (recovered old rs ps qs s) ?t"
      by (rule wp_mono [OF recover_persisted [of ?t j qs old rs ps]])
         (use q j in \<open>auto simp: recovered_def sameConfig_def v1Holds_def v1Unread_def\<close>)
    then show ?thesis
      unfolding recoverInterruptedMigration_def wp_bindE
      using q j
      by (simp add: ex steps.simps wp_seqE [of "renameFile _ _"] wp_seqE [of "seqE (sys _ _) _"] renameFile_def
         syncDirectory_def wp_seqE [of "sys _ _"] wp_sys_quiet wp_onFile wp_fun wp_ret)
  next
    case sw
    then obtain j where j: "disk s ''spool.log'' = Some j" "content j = encodeAll qs"
      and c: "?M \<or> cursorIs (disk s) 0" by (auto simp: swapped_def)
    note v2 = wp_det [of "fileStartsWithV2 _", OF quiet_startsWithV2 [OF q j(1)]]
    have oe: "openExisting spoolFileName s = (Inr (), s)"
      using q j(1) by (simp add: openExisting_def quiet_def onFile_def ret_def)
    have same: "cursorIs (disk s) 0 \<Longrightarrow> recovered old rs ps qs s (Inr ()) s"
      using j q by (auto simp: recovered_def sameConfig_def)
    have roll: "wp (steps [ignoreE (removeFile migrationTempFileName), ignoreE (removeFile migrationMarkerName),
                  if b then ignoreE (removeFile legacyBackupFileName) else ret (), syncDirectory])
      (recovered old rs ps qs s) s" if "qs = [] \<or> cursorIs (disk s) 0" for b
      by (rule recover_rollback [OF q j(1)]) (use that j in simp)
    have per: "wp (steps [persistCursorLocked 0, removeMigrationArtifacts, modify (\<lambda>s. s\<lparr>migrations := migrations s + 1\<rparr>)])
      (recovered old rs ps qs s) s"
      using recover_persisted [OF q j] by (simp add: steps.simps)
    show ?thesis
      unfolding recoverInterruptedMigration_def wp_bindE
      using j q c same roll [of True] roll [of False] per
      by (auto simp: ex wp_ret wp_seqE [of "openExisting _"] wp_det [of "openExisting _", OF oe] wp_bindE v2)
  qed
qed


lemma quiet_open_migrating:
  assumes q: "quiet s" and mig: "migrating (maxPayloadBytes s) (disk s) old rs ps qs"
    and ok: "\<forall>p \<in> set qs. okPayload (maxPayloadBytes s) p"
    and lim: "\<And>i. old = Some i \<Longrightarrow> length (content i) \<le> maxBytes s"
      "length (encodeAll ps) \<le> maxBytes s" "length (encodeAll qs) \<le> maxBytes s" "maxBytes s < 2 ^ 63"
  shows "wp (seqE recoverInterruptedMigration openOrMigrate) (\<lambda>r s'. ready ps s r s' \<or> ready qs s r s') s"
proof (rule wp_seqE_I [OF quiet_recover [OF q mig]], goal_cases)
  case (1 e s')
  then show ?case by (simp add: recovered_def)
next
  case (2 x t)
  then have t: "quiet t" "sameConfig s t" by (auto simp: recovered_def)
  consider (v1) "v1Holds (maxPayloadBytes s) (disk t) rs ps" "disk t ''spool.log'' = old"
    | (v2) j where "disk t ''spool.log'' = Some j" "content j = encodeAll qs" "qs = [] \<or> cursorIs (disk t) 0"
    using 2 by (auto simp: recovered_def)
  then show ?case
  proof cases
    case v1
    have "wp openOrMigrate (ready ps t) t"
      by (rule quiet_open_v1) (use t v1 lim in \<open>auto simp: sameConfig_def\<close>)
    then show ?thesis by (rule wp_mono) (use t in \<open>auto simp: ready_def sameConfig_def\<close>)
  next
    case (v2 j)
    have "wp openOrMigrate (opened t qs) t"
      by (rule quiet_open_v2 [where t = "[]"])
         (use t v2 lim ok in \<open>auto simp: sameConfig_def tailReason_def\<close>)
    then show ?thesis
      by (rule wp_mono) (use t v2 in \<open>auto simp: opened_def ready_def sameConfig_def spoolInv_def\<close>)
  qed
qed


section \<open>Opening after an interrupted append\<close>

lemma inject_frame: "wp (inject point) (\<lambda>r s'. disk s' = disk s) s"
  by (simp add: wp_def inject_def split: option.splits)

lemma readUnread_frame: "wp (readUnreadLocked n) (\<lambda>r s'. disk s' = disk s) s"
  unfolding readUnreadLocked_def readAt_def
  by (intro wp_sysI conjI impI | simp add: wp_simps split: option.splits)+

abbreviation "enqueueFiles \<equiv> insert ''spool.log'' rewriteFiles"

lemma compact_frame: "wp (compactLocked req) (\<lambda>r s'. agree enqueueFiles (disk s') (disk s)) s"
proof -
  have rw: "wp (rewriteLocked b) (\<lambda>r s'. agree enqueueFiles (disk s') (disk s)) t" if "disk t = disk s" for t b
    by (rule wp_mono [OF wp_rewriteLocked]) (simp add: rewriteResult_def that)
  have rest: "wp (getS (\<lambda>s. case trimV2ToFit x (int (maxBytes s) - int req) (maxPayloadBytes s) of
           (kept, evicted, discarded, reason) \<Rightarrow>
             steps [if reason \<noteq> '''' then recordRecoveryLocked reason else ret (),
                    modify (\<lambda>s. s\<lparr>evictedRecords := evictedRecords s + of_nat evicted,
                                  discardedRecords := discardedRecords s + of_nat discarded\<rparr>),
                    rewriteLocked kept])) (\<lambda>r s'. agree enqueueFiles (disk s') (disk s)) t" if "disk t = disk s" for x t
    using that by (simp add: wp_simps recordRecoveryLocked_def rw split: prod.splits)
  have trim: "wp (bindE (readUnreadLocked n) k) (\<lambda>r s'. agree enqueueFiles (disk s') (disk s)) t"
    if "disk t = disk s" "\<And>x u. disk u = disk s \<Longrightarrow> wp (k x) (\<lambda>r s'. agree enqueueFiles (disk s') (disk s)) u"
    for n t and k :: "bytes \<Rightarrow> unit spool_act"
    by (rule wp_bindE_I [OF readUnread_frame]) (simp_all add: that)
  show ?thesis
    unfolding compactLocked_def statSize_def wp_bindE [of "sys _ _"]
    by (rule wp_sysI) (auto simp: wp_simps(1) wp_getS wp_onFile intro!: trim rest split: option.splits)
qed

lemma append_frame:
  assumes "agree enqueueFiles (disk s) d"
  shows "wp (seqE (inject FaultBeforeRecordWrite)
         (bindE (statSize spoolFileName) (\<lambda>start.
           steps [onErr (writeFull spoolFileName (encodeRecord p)) (rollbackAppendLocked start),
                  inject FaultAfterRecordWrite,
                  inject FaultBeforeDataSync,
                  onErr (syncFile spoolFileName) (rollbackAppendLocked start),
                  inject FaultAfterDataSync]))) (\<lambda>r s'. agree enqueueFiles (disk s') d) s"
  using assms
  by (intro wp_injectI wp_sysI conjI allI impI
      | simp add: wp_simps io_exec rollbackAppendLocked_def agree_def split: option.splits)+

lemma Enqueue_frame: "wp (Enqueue p) (\<lambda>r s'. agree enqueueFiles (disk s') (disk s)) s"
proof -
  have "wp (seqE (compactLocked (length (encodeRecord p))) (seqE (inject FaultBeforeRecordWrite)
         (bindE (statSize spoolFileName) (\<lambda>start.
           steps [onErr (writeFull spoolFileName (encodeRecord p)) (rollbackAppendLocked start),
                  inject FaultAfterRecordWrite,
                  inject FaultBeforeDataSync,
                  onErr (syncFile spoolFileName) (rollbackAppendLocked start),
                  inject FaultAfterDataSync])))) (\<lambda>r s'. agree enqueueFiles (disk s') (disk s)) s"
    by (rule wp_seqE_I [OF compact_frame]) (assumption, rule append_frame)
  then show ?thesis unfolding Enqueue_def wp_getS by (simp add: wp_throw)
qed

text \<open>A log that ends in any prefix of a record.\<close>

lemma quiet_open_torn:
  assumes q: "quiet s" and dh: "diskHolds (disk s) ps (take j (encodeRecord p)) c"
    and ok: "\<forall>x \<in> set (ps @ [p]). okPayload (maxPayloadBytes s) x"
    and lim: "length (encodeAll (ps @ [p])) \<le> maxBytes s" "maxBytes s < 2 ^ 63"
  shows "wp openOrMigrate (\<lambda>r s'. r = Inr () \<and> quiet s' \<and> sameConfig s s'
     \<and> (spoolInv s' ps c c \<and> j < length (encodeRecord p) \<or> spoolInv s' (ps @ [p]) c c)) s"
proof -
  obtain i where i: "disk s ''spool.log'' = Some i" "content i = encodeAll ps @ take j (encodeRecord p)"
    and c: "c \<le> length ps" "cursorIs (disk s) (cursorOf ps c)"
    using dh by (auto simp: diskHolds_def)
  show ?thesis
  proof (cases "j < length (encodeRecord p)")
    case False
    then have ci: "content i = encodeAll (ps @ [p]) @ []" using i by simp
    then have "startsWithV2 (content i)" by (simp only: startsWithV2_encodeAll append_Nil2) simp
    then have "wp openOrMigrate (opened s (ps @ [p])) s"
      by (intro quiet_open_v2 [OF q i(1) ci]) (use ok lim in \<open>auto simp: tailReason_def\<close>)
    then show ?thesis
      by (rule wp_mono) (use c in \<open>auto simp: opened_def\<close>)
  next
    case torn: True
    note sp = splitRecords_torn_record [OF _ torn, of "maxPayloadBytes s"]
    show ?thesis
    proof (cases "content i = [] \<or> startsWithV2 (content i)")
      case True
      have "wp openOrMigrate (opened s ps) s"
        by (rule quiet_open_v2 [OF q i True]) (use ok lim sp in auto)
      then show ?thesis by (rule wp_mono) (use c torn in \<open>auto simp: opened_def\<close>)
    next
      case False
      have ps: "ps = []"
      proof (rule ccontr)
        assume "ps \<noteq> []"
        then obtain x xs where "ps = x # xs" by (cases ps) auto
        with False i startsWithV2_record [of "length (encodeRecord x)" x] show False by auto
      qed
      have "j < 4" "content i = take j (encodeRecord p)"
        using False i ps startsWithV2_record [of j p "[]"] by (cases "j < 4"; auto)+
      then have "v1Holds (maxPayloadBytes s) (disk s) [] []"
        using False i c ps by (auto simp: v1Holds_def v1Unread_def legacyTail_def legacyCursor_def cursorIs_def)
      then have "wp openOrMigrate (ready [] s) s"
        by (rule quiet_open_v1 [OF q]) (use i lim torn ps in auto)
      then show ?thesis by (rule wp_mono) (use c ps torn in \<open>auto simp: ready_def\<close>)
    qed
  qed
qed

end
