(* ===== verification/SpoolProps.thy ===== *)
theory SpoolProps
  imports SpoolReopen
begin

text \<open>
  The properties of the spool: durability and order of \<open>Enqueue\<close>, \<open>Next\<close> and \<open>Commit\<close>, the size
  bound and eviction policy, integrity of what is handed out, and crash safety of appending,
  of migrating and of opening.
\<close>

section \<open>Shared facts\<close>

lemma spoolInv_bound: "spoolInv s ps c q \<Longrightarrow> length (encodeAll ps) \<le> maxBytes s"
  by (simp add: spoolInv_def)

lemma enqueueResult_ok:
  assumes "enqueueResult s ps c q p (Inr u) s'"
  shows "if enqueueFits s ps p then spoolInv s' (ps @ [p]) c q
         else spoolInv s' (drop (c + evictions s ps c (length (encodeRecord p))) ps @ [p]) 0 0"
  using assms by (auto simp: enqueueResult_def Let_def split: if_splits)

lemma evictions_le: "c \<le> length ps \<Longrightarrow> evictions s ps c req \<le> length ps - c"
  using evictCount_le [of "int (maxBytes s) - int req" "map recordOf (drop c ps)"]
  by (simp add: evictions_def)

lemma evictions_least:
  assumes "c \<le> length ps" "j < evictions s ps c req"
  shows "maxBytes s < length (encodeAll (drop (c + j) ps)) + req"
proof (cases "maxBytes s \<le> req")
  case True
  with assms have "drop (c + j) ps \<noteq> []" by (simp add: evictions_def)
  with True show ?thesis by (cases "drop (c + j) ps") auto
next
  case False
  with assms(2) have "int (maxBytes s) - int req < int (totalLength (drop j (map recordOf (drop c ps))))"
    by (intro evictCount_least) (simp add: evictions_def)
  then show ?thesis by (simp add: length_encodeAll drop_map add.commute)
qed

lemma quiet_New:
  assumes "trimSpace dir \<noteq> ''''" "0 < maxB" "quiet (newSpool w maxB maxP None)"
    and run: "wp (seqE recoverInterruptedMigration openOrMigrate) P (newSpool w maxB maxP None)"
    and ok: "\<And>r s'. P r s' \<Longrightarrow> r = Inr ()"
  shows "\<exists>s'. NewWithOptions w dir maxB maxP None = (Inr (), s') \<and> P (Inr ()) s'"
proof -
  let ?s = "newSpool w maxB maxP None"
  obtain r s' where rs: "seqE recoverInterruptedMigration openOrMigrate ?s = (r, s')" by fastforce
  with run have P: "P r s'" by (rule wpD)
  with ok rs have r: "seqE recoverInterruptedMigration openOrMigrate ?s = (Inr (), s')" by metis
  have "steps [sys (ret ()) (\<lambda>_ s. s), recoverInterruptedMigration,
        onErr openOrMigrate (modify (\<lambda>s. s\<lparr>fileOpen := False\<rparr>))] ?s = (Inr (), s')"
    using assms(3) r
    by (auto simp: steps.simps seqE_def bindE_def onErr_def quiet_def ret_def split: prod.splits sum.splits)
  with assms(1,2) P ok show ?thesis by (auto simp: NewWithOptions_def Let_def)
qed

lemma newSpool_simps [simp]:
  "disk (newSpool w maxB maxP j) = disk w" "faults (newSpool w maxB maxP j) = faults w"
  "maxBytes (newSpool w maxB maxP j) = nat maxB" "maxPayloadBytes (newSpool w maxB maxP j) = payloadLimit maxB maxP"
  "faultInjector (newSpool w maxB maxP j) = j"
  by (simp_all add: newSpool_def world.defs spool.defs)

lemma quiet_newSpool [simp]: "quiet (newSpool \<lparr>disk = d, faults = []\<rparr> maxB maxP None)"
  by (simp add: quiet_def)

text \<open>A concrete open spool for the examples: one record read, one unread.\<close>

definition exampleSpool :: "bytes list \<Rightarrow> nat \<Rightarrow> nat \<Rightarrow> spool" where
  "exampleSpool ps c mx =
     (newSpool \<lparr>disk = [''spool.log'' \<mapsto> synced (encodeAll ps), ''spool.offset'' \<mapsto> synced (cursorBytes (cursorOf ps c))],
       faults = []\<rparr> (int mx) 0 None)\<lparr>fileOpen := True, offset := cursorOf ps c\<rparr>"

lemma exampleSpool_inv:
  assumes "c \<le> length ps" "\<forall>p \<in> set ps. length p \<le> mx - 16" "length (encodeAll ps) \<le> mx" "mx < 2 ^ 24" "16 \<le> mx"
  shows "spoolInv (exampleSpool ps c mx) ps c c" "quiet (exampleSpool ps c mx)"
    "maxPayloadBytes (exampleSpool ps c mx) = mx - 16" "maxBytes (exampleSpool ps c mx) = mx"
    "disk (exampleSpool ps c mx) = [''spool.log'' \<mapsto> synced (encodeAll ps), ''spool.offset'' \<mapsto> synced (cursorBytes (cursorOf ps c))]"
proof -
  have mp: "payloadLimit (int mx) 0 = mx - 16" using assms(4,5) by (auto simp: payloadLimit_def Let_def)
  have "cursorOf ps c < 2 ^ 63" using cursorOf_le [of ps c] assms(3,4) by simp
  then have cur: "cursorIs [''spool.log'' \<mapsto> synced (encodeAll ps), ''spool.offset'' \<mapsto> synced (cursorBytes (cursorOf ps c))] (cursorOf ps c)"
    by (intro cursorIs_written) simp_all
  have "\<forall>p \<in> set ps. okPayload (mx - 16) p" using assms(2,4) by (fastforce simp: okPayload_def)
  with assms cur show "spoolInv (exampleSpool ps c mx) ps c c"
    by (simp add: exampleSpool_def spoolInv_def diskHolds_def mp)
  show "quiet (exampleSpool ps c mx)" "maxPayloadBytes (exampleSpool ps c mx) = mx - 16"
    "maxBytes (exampleSpool ps c mx) = mx" using mp by (simp_all add: exampleSpool_def quiet_def)
  show "disk (exampleSpool ps c mx) = [''spool.log'' \<mapsto> synced (encodeAll ps), ''spool.offset'' \<mapsto> synced (cursorBytes (cursorOf ps c))]"
    by (simp add: exampleSpool_def)
qed

section \<open>Appending\<close>

text \<open>C1. Durability and order of \<open>Enqueue\<close>, for every schedule of I/O errors and every fault
  injector: when it returns without error, the payload is the last record of the log, the whole
  log is on stable storage and within the size limit, the records that were unread before are
  still there in the same order except that compaction may have evicted the oldest ones, and
  without I/O errors it does return without error.\<close>

theorem Enqueue_durable:
  assumes "spoolInv s ps c q" "okPayload (maxPayloadBytes s) p" "length (encodeRecord p) \<le> maxBytes s"
    and run: "Enqueue p s = (r, s')"
  shows "(r = Inr () \<longrightarrow>
      (\<exists>ps' c' q'. spoolInv s' ps' c' q' \<and> length (encodeAll ps') \<le> maxBytes s
         \<and> drop c' ps' = drop (c + (if enqueueFits s ps p then 0 else evictions s ps c (length (encodeRecord p)))) ps @ [p])
      \<and> (\<exists>i. disk s' ''spool.log'' = Some i \<and> stable i = content i))
    \<and> (quiet s \<longrightarrow> r = Inr () \<and> quiet s')"
proof -
  have res: "enqueueResult s ps c q p r s'" using wp_Enqueue [OF assms(1-3)] run by (rule wpD)
  have cle: "c \<le> length ps" using assms(1) by (simp add: spoolInv_def)
  have "quiet s \<longrightarrow> r = Inr () \<and> quiet s'"
    using wpD [OF quiet_Enqueue [OF _ assms(1-3)] run] by (auto simp: succeeds_def)
  moreover have "\<exists>ps' c' q'. spoolInv s' ps' c' q' \<and> length (encodeAll ps') \<le> maxBytes s
         \<and> drop c' ps' = drop (c + (if enqueueFits s ps p then 0 else evictions s ps c (length (encodeRecord p)))) ps @ [p]"
    if r: "r = Inr ()"
  proof -
    have mb: "maxBytes s' = maxBytes s" using res by (simp add: enqueueResult_def sameConfig_def)
    show ?thesis
    proof (cases "enqueueFits s ps p")
      case True
      then have "spoolInv s' (ps @ [p]) c q" using enqueueResult_ok [of s ps c q p "()" s'] res r by simp
      with True cle mb spoolInv_bound [OF this] show ?thesis by (intro exI [of _ "ps @ [p]"] exI [of _ c] exI [of _ q]) simp
    next
      case False
      let ?ps = "drop (c + evictions s ps c (length (encodeRecord p))) ps @ [p]"
      have "spoolInv s' ?ps 0 0" using enqueueResult_ok [of s ps c q p "()" s'] res r False by simp
      with False mb spoolInv_bound [OF this] show ?thesis by (intro exI [of _ ?ps] exI [of _ 0]) simp
    qed
  qed
  moreover have "r = Inr () \<longrightarrow> (\<exists>i. disk s' ''spool.log'' = Some i \<and> stable i = content i)"
    using res by (auto simp: enqueueResult_def Let_def)
  ultimately show ?thesis by blast
qed

theorem Enqueue_durable_witness:
  "\<exists>r s'. Enqueue [7] (exampleSpool [[1], [2]] 1 51) = (r, s') \<and> r = Inr () \<and> quiet s'
     \<and> (\<exists>ps' c' q'. spoolInv s' ps' c' q' \<and> drop c' ps' = [[2], [7]])"
proof -
  let ?s = "exampleSpool [[1], [2]] 1 51"
  have ex: "spoolInv ?s [[1], [2]] 1 1" "quiet ?s" "maxPayloadBytes ?s = 35" "maxBytes ?s = 51"
    using exampleSpool_inv [of 1 "[[1], [2]]" 51] by simp_all
  obtain r s' where run: "Enqueue [7] ?s = (r, s')" by fastforce
  have "enqueueFits ?s [[1], [2]] [7]" by (simp add: enqueueFits_def ex del: One_nat_def)
  with Enqueue_durable [OF ex(1) _ _ run] ex have "r = Inr () \<and> quiet s' \<and> (\<exists>ps' c' q'. spoolInv s' ps' c' q'
      \<and> drop c' ps' = drop 1 [[1], [2]] @ [[7]])"
    by (auto simp: okPayload_def simp del: One_nat_def)
  with run show ?thesis by simp
qed

text \<open>Eviction is the last resort and minimal: a record that fits evicts nothing; otherwise
  exactly the oldest unread records are dropped, the new record fits afterwards, and dropping
  one record less would exceed the limit.  The counter of evicted records grows by the number
  of records dropped.\<close>

theorem Enqueue_evicts_least:
  assumes "spoolInv s ps c q" "okPayload (maxPayloadBytes s) p" "length (encodeRecord p) \<le> maxBytes s"
    and run: "Enqueue p s = (Inr (), s')"
  shows "\<exists>k \<le> length ps - c. evictedRecords s' = evictedRecords s + of_nat k
    \<and> (enqueueFits s ps p \<longrightarrow> k = 0)
    \<and> length (encodeAll (drop (c + k) ps)) + length (encodeRecord p) \<le> maxBytes s
    \<and> (\<forall>j < k. maxBytes s < length (encodeAll (drop (c + j) ps)) + length (encodeRecord p))
    \<and> (\<exists>ps' c' q'. spoolInv s' ps' c' q' \<and> drop c' ps' = drop (c + k) ps @ [p])"
proof -
  let ?req = "length (encodeRecord p)"
  let ?k = "if enqueueFits s ps p then 0 else evictions s ps c ?req"
  have res: "enqueueResult s ps c q p (Inr ()) s'" using wp_Enqueue [OF assms(1-3)] run by (rule wpD)
  have cle: "c \<le> length ps" using assms(1) by (simp add: spoolInv_def)
  have "evictedRecords s' = evictedRecords s + of_nat ?k" using res by (auto simp: enqueueResult_def Let_def)
  moreover have "?k \<le> length ps - c" using evictions_le [OF cle] by simp
  moreover have "length (encodeAll (drop (c + ?k) ps)) + ?req \<le> maxBytes s"
    using evictions_fit [OF assms(3) cle] length_encodeAll_drop [of c ps] by (auto simp: enqueueFits_def)
  moreover have "\<forall>j < ?k. maxBytes s < length (encodeAll (drop (c + j) ps)) + ?req"
    using evictions_least [OF cle, of _ s ?req] by auto
  moreover have "\<exists>ps' c' q'. spoolInv s' ps' c' q' \<and> drop c' ps' = drop (c + ?k) ps @ [p]"
    using enqueueResult_ok [OF res] cle
    by (cases "enqueueFits s ps p") (force intro: exI [of _ c], force intro: exI [of _ "0::nat"])
  ultimately show ?thesis by (intro exI [of _ ?k]) simp
qed

theorem Enqueue_evicts_least_witness:
  "\<exists>s'. Enqueue [7] (exampleSpool [[1], [2]] 0 34) = (Inr (), s') \<and> (\<exists>k \<le> 2. k = 1 \<and> evictedRecords s' = of_nat k)"
proof -
  let ?s = "exampleSpool [[1], [2]] 0 34"
  have ex: "spoolInv ?s [[1], [2]] 0 0" "quiet ?s" "maxPayloadBytes ?s = 18" "maxBytes ?s = 34"
    using exampleSpool_inv [of 0 "[[1], [2]]" 34] by simp_all
  have p: "okPayload (maxPayloadBytes ?s) [7]" "length (encodeRecord [7]) \<le> maxBytes ?s" by (simp_all add: ex okPayload_def)
  obtain r s' where run: "Enqueue [7] ?s = (r, s')" by fastforce
  with wpD [OF quiet_Enqueue [OF ex(2,1) p]] have run': "Enqueue [7] ?s = (Inr (), s')" by (simp add: succeeds_def)
  from Enqueue_evicts_least [OF ex(1) p run'] obtain k where
    k: "k \<le> length [[1], [2::byte]] - 0" "evictedRecords s' = evictedRecords ?s + of_nat k"
      "length (encodeAll (drop (0 + k) [[1], [2]])) + length (encodeRecord [7]) \<le> maxBytes ?s"
      "\<forall>j < k. maxBytes ?s < length (encodeAll (drop (0 + j) [[1], [2]])) + length (encodeRecord [7])"
    by blast
  have "k \<noteq> 0" using k(3) by (intro notI) (simp add: ex)
  moreover have "k \<noteq> 2" using k(4) [rule_format, of 1] by (auto simp: ex)
  ultimately have "k = 1" using k(1) by simp
  moreover have "evictedRecords ?s = 0" by (simp add: exampleSpool_def newSpool_def world.defs spool.defs)
  ultimately show ?thesis using run' k(2) by auto
qed

text \<open>What \<open>Enqueue\<close> can leave in the directory: the records \<open>qs\<close>, a prefix of the new record, and
  the cursor \<open>q'\<close>.\<close>

definition enqueuedDisk :: "spool \<Rightarrow> bytes list \<Rightarrow> nat \<Rightarrow> nat \<Rightarrow> bytes \<Rightarrow> bytes list \<Rightarrow> nat \<Rightarrow> nat \<Rightarrow> bool" where
  "enqueuedDisk s ps c q p qs q' j \<longleftrightarrow>
     enqueueFits s ps p \<and> qs = ps \<and> q' = q
     \<or> \<not> enqueueFits s ps p \<and> qs = ps \<and> (q' = q \<or> q' = 0) \<and> j = 0
     \<or> \<not> enqueueFits s ps p \<and> qs = drop (c + evictions s ps c (length (encodeRecord p))) ps \<and> q' = 0"

lemma enqueueResult_disk:
  assumes inv: "spoolInv s ps c q" and res: "enqueueResult s ps c q p r s1"
  shows "\<exists>qs q' j. diskHolds (disk s1) qs (take j (encodeRecord p)) q' \<and> enqueuedDisk s ps c q p qs q' j
     \<and> (r = Inr () \<longrightarrow> length (encodeRecord p) \<le> j)"
proof (cases r)
  case (Inl e)
  with res show ?thesis by (auto simp: enqueueResult_def Let_def enqueuedDisk_def)
next
  case (Inr u)
  have snoc: "diskHolds d (qs @ [p]) [] q' \<Longrightarrow> q' \<le> length qs \<Longrightarrow> diskHolds d qs (take (length (encodeRecord p)) (encodeRecord p)) q'"
    for d qs q' by (auto simp: diskHolds_def)
  show ?thesis
  proof (cases "enqueueFits s ps p")
    case True
    then have "spoolInv s1 (ps @ [p]) c q" using enqueueResult_ok [of s ps c q p u s1] res Inr by simp
    then have "diskHolds (disk s1) ps (take (length (encodeRecord p)) (encodeRecord p)) q"
      using inv by (intro snoc) (auto simp: spoolInv_def diskHolds_def)
    with True Inr show ?thesis unfolding enqueuedDisk_def by blast
  next
    case False
    then have "spoolInv s1 (drop (c + evictions s ps c (length (encodeRecord p))) ps @ [p]) 0 0"
      using enqueueResult_ok [of s ps c q p u s1] res Inr by simp
    then have "diskHolds (disk s1) (drop (c + evictions s ps c (length (encodeRecord p))) ps)
        (take (length (encodeRecord p)) (encodeRecord p)) 0"
      by (intro snoc) (auto simp: spoolInv_def)
    with False Inr show ?thesis unfolding enqueuedDisk_def by blast
  qed
qed

lemma drop_split: "n \<le> m \<Longrightarrow> \<exists>pre. drop n xs = pre @ drop m xs"
  by (metis append_take_drop_id drop_drop le_add_diff_inverse2)

lemma enqueuedDisk_backlog:
  assumes "enqueuedDisk s ps c q p qs q' j"
  shows "\<exists>pre. drop q' qs = pre @ drop (max c q + (if enqueueFits s ps p then 0
     else evictions s ps c (length (encodeRecord p)))) ps"
  using assms unfolding enqueuedDisk_def
  by (auto intro!: drop_split simp: max_def)

lemma quiet_open_whole:
  assumes q: "quiet s" and d: "diskHolds (disk s) ps [] c"
    and ok: "\<forall>x \<in> set ps. okPayload (maxPayloadBytes s) x"
    and lim: "length (encodeAll ps) \<le> maxBytes s" "maxBytes s < 2 ^ 63"
  shows "wp openOrMigrate (opened s ps) s"
proof -
  obtain i where i: "disk s ''spool.log'' = Some i" "content i = encodeAll ps @ []"
    using d by (auto simp: diskHolds_def)
  show ?thesis
    by (rule quiet_open_v2 [OF q i]) (use i ok lim in \<open>auto simp: tailReason_def\<close>)
qed

text \<open>C2. Crash safety of \<open>Enqueue\<close>: stop it at any system call (or let any of them fail), then open
  the directory again.  Opening succeeds; every record that was unread, neither acknowledged on
  disk nor evicted to make room, is still in the backlog and in order, followed by nothing or by
  the new payload, and by the new payload if \<open>Enqueue\<close> had returned without error.\<close>

theorem Enqueue_crash_safe:
  assumes inv: "spoolInv s ps c q" and p: "okPayload (maxPayloadBytes s) p" "length (encodeRecord p) \<le> maxBytes s"
    and clean: "noMigration (disk s)" and dir: "trimSpace dir \<noteq> ''''"
    and cfg: "maxPayloadBytes s = payloadLimit (int (maxBytes s)) maxP"
    and run: "Enqueue p s = (r, s1)"
  shows "\<exists>s2 ps' c' pre rest. NewWithOptions \<lparr>disk = disk s1, faults = []\<rparr> dir (int (maxBytes s)) maxP None = (Inr (), s2)
     \<and> spoolInv s2 ps' c' c'
     \<and> drop c' ps' = pre @ drop (max c q + (if enqueueFits s ps p then 0 else evictions s ps c (length (encodeRecord p)))) ps @ rest
     \<and> (rest = [] \<or> rest = [p]) \<and> (r = Inr () \<longrightarrow> rest = [p])"
proof -
  let ?w = "\<lparr>disk = disk s1, faults = []\<rparr>"
  let ?n = "newSpool ?w (int (maxBytes s)) maxP None"
  let ?k = "evictions s ps c (length (encodeRecord p))"
  have mb: "maxBytes s < 2 ^ 63" "0 < maxBytes s" using inv p(2) by (auto simp: spoolInv_def)
  have clean1: "noMigration (disk ?n)"
    using clean agreeD [OF wpD [OF Enqueue_frame run]] by (simp add: noMigration_def)
  have reopen: "\<exists>s2. NewWithOptions ?w dir (int (maxBytes s)) maxP None = (Inr (), s2) \<and> P s2"
    if "wp openOrMigrate (\<lambda>r s'. r = Inr () \<and> P s') ?n" for P
    using quiet_New [of dir "int (maxBytes s)" ?w maxP "\<lambda>r s'. r = Inr () \<and> P s'"] that dir mb
    by (simp add: wp_seqE wp_det [of recoverInterruptedMigration, OF quiet_recover_none [OF _ clean1]])
  obtain qs j q' where d: "diskHolds (disk s1) qs (take j (encodeRecord p)) q'"
    and qs: "enqueuedDisk s ps c q p qs q' j" "r = Inr () \<longrightarrow> length (encodeRecord p) \<le> j"
    using enqueueResult_disk [OF inv wpD [OF wp_Enqueue [OF inv p] run]] by blast
  have qs': "q' \<le> length qs" using d by (simp add: diskHolds_def)
  have ok: "\<forall>x \<in> set (qs @ [p]). okPayload (maxPayloadBytes ?n) x"
    using inv p(1) qs(1) by (auto simp: cfg enqueuedDisk_def spoolInv_def dest: in_set_dropD)
  let ?Q = "\<lambda>s'. spoolInv s' qs q' q' \<and> r \<noteq> Inr () \<or> spoolInv s' (qs @ [p]) q' q'"
  have "wp openOrMigrate (\<lambda>r s'. r = Inr () \<and> ?Q s') ?n"
  proof (cases "length (encodeAll (qs @ [p])) \<le> maxBytes s")
    case True
    have "wp openOrMigrate (\<lambda>r s'. r = Inr () \<and> quiet s' \<and> sameConfig ?n s'
      \<and> (spoolInv s' qs q' q' \<and> j < length (encodeRecord p) \<or> spoolInv s' (qs @ [p]) q' q')) ?n"
      by (rule quiet_open_torn) (use d ok True mb in auto)
    then show ?thesis by (rule wp_mono) (use qs(2) in auto)
  next
    case False
    then have j: "j = 0" "qs = ps"
      using qs(1) evictions_fit [OF p(2), of c ps] inv
      by (auto simp: enqueuedDisk_def enqueueFits_def spoolInv_def)
    have "wp openOrMigrate (opened ?n qs) ?n"
      by (rule quiet_open_whole) (use d ok j inv mb in \<open>auto simp: spoolInv_def\<close>)
    moreover have "r \<noteq> Inr ()" using qs(2) j by auto
    moreover have "cursorIs (disk s1) (cursorOf qs q')" using d by (simp add: diskHolds_def)
    ultimately show ?thesis using qs' by (auto simp: opened_def elim!: wp_mono)
  qed
  from reopen [OF this] obtain s2 where
    s2: "NewWithOptions ?w dir (int (maxBytes s)) maxP None = (Inr (), s2)" "?Q s2" by blast
  obtain pre where pre: "drop q' qs = pre @ drop (max c q + (if enqueueFits s ps p then 0 else ?k)) ps"
    using enqueuedDisk_backlog [OF qs(1)] by blast
  show ?thesis
  proof (cases "spoolInv s2 (qs @ [p]) q' q'")
    case True
    with s2(1) pre qs' show ?thesis
      by (intro exI [of _ s2] exI [of _ "qs @ [p]"] exI [of _ q'] exI [of _ pre] exI [of _ "[p]"]) simp
  next
    case False
    with s2 pre show ?thesis
      by (intro exI [of _ s2] exI [of _ qs] exI [of _ q'] exI [of _ pre] exI [of _ "[]"]) simp
  qed
qed

theorem Enqueue_crash_safe_witness:
  "\<exists>s2 ps' c' pre rest.
     NewWithOptions \<lparr>disk = disk (snd (Enqueue [7] ((exampleSpool [[1], [2]] 1 64)\<lparr>faults := [Succeed, Succeed, FailAfter 20, FailAfter 0]\<rparr>))), faults = []\<rparr>
       ''/var/spool'' 64 0 None = (Inr (), s2) \<and> spoolInv s2 ps' c' c' \<and> drop c' ps' = pre @ [[2]] @ rest"
proof -
  let ?s = "(exampleSpool [[1], [2]] 1 64)\<lparr>faults := [Succeed, Succeed, FailAfter 20, FailAfter 0]\<rparr>"
  have ex: "spoolInv ?s [[1], [2]] 1 1" "maxPayloadBytes ?s = 48" "maxBytes ?s = 64" "noMigration (disk ?s)"
    using exampleSpool_inv [of 1 "[[1], [2]]" 64] by (simp_all add: noMigration_def)
  have lim: "48 = payloadLimit 64 0" by (simp add: payloadLimit_def)
  obtain r s1 where run: "Enqueue [7] ?s = (r, s1)" by fastforce
  have fits: "enqueueFits ?s [[1], [2]] [7]" by (simp add: enqueueFits_def ex del: One_nat_def)
  have dir: "trimSpace ''/var/spool'' \<noteq> ''''" by (simp add: trimSpace_def isSpace_def)
  have p: "okPayload (maxPayloadBytes ?s) [7]" "length (encodeRecord [7]) \<le> maxBytes ?s"
    unfolding ex by (simp_all add: okPayload_def)
  have cfg: "maxPayloadBytes ?s = payloadLimit (int (maxBytes ?s)) 0" using ex(2,3) lim by simp
  from Enqueue_crash_safe [OF ex(1) p ex(4) dir cfg run] obtain s2 ps' c' pre rest where
    "NewWithOptions \<lparr>disk = disk s1, faults = []\<rparr> ''/var/spool'' (int (maxBytes ?s)) 0 None = (Inr (), s2)"
    "spoolInv s2 ps' c' c'" "drop c' ps' = pre @ drop (max 1 1 + 0) [[1], [2]] @ rest"
    unfolding if_P [OF fits] by blast
  then show ?thesis
    by (intro exI [of _ s2] exI [of _ ps'] exI [of _ c'] exI [of _ pre] exI [of _ rest]) (simp add: run ex(3) del: One_nat_def, simp)
qed

text \<open>\<open>Enqueue\<close> refuses what it must refuse and then changes nothing: a payload over the limit, a
  record that could never fit, and any payload after \<open>Close\<close>.\<close>

theorem Enqueue_refuses:
  "(length p > maxPayloadBytes s \<or> length (encodeRecord p) > maxBytes s \<longrightarrow> Enqueue p s = (Inl ErrPayloadTooLarge, s))
   \<and> (length p \<le> maxPayloadBytes s \<and> length (encodeRecord p) \<le> maxBytes s \<and> \<not> fileOpen s \<longrightarrow> Enqueue p s = (Inl ErrClosed, s))
   \<and> (Close s = (Inr (), s1) \<and> length p \<le> maxPayloadBytes s1 \<and> length (encodeRecord p) \<le> maxBytes s1
        \<longrightarrow> Enqueue p s1 = (Inl ErrClosed, s1))"
proof -
  have cl: "wp Close (\<lambda>r s'. r = Inr () \<longrightarrow> \<not> fileOpen s') s"
    unfolding Close_def
    by (intro wp_sysI conjI impI allI | simp add: wp_simps io_exec split: option.splits)+
  then have "\<not> fileOpen s1" if "Close s = (Inr (), s1)" using wpD [OF cl that] by simp
  then show ?thesis by (auto simp: Enqueue_def getS_def throw_def)
qed

theorem Enqueue_refuses_witness:
  "Enqueue (replicate 36 0) (exampleSpool [] 0 51) = (Inl ErrPayloadTooLarge, exampleSpool [] 0 51)"
  using Enqueue_refuses [where p = "replicate 36 0" and s = "exampleSpool [] 0 51"] exampleSpool_inv [of 0 "[]" 51] by simp

section \<open>Reading and committing\<close>

text \<open>\<open>Next\<close> on a well-formed spool returns the oldest unread payload and the cursor behind it, or
  nothing when everything is read, and changes neither the files nor the cursor, whatever system
  calls fail; the only other outcome is a reported I/O error, and without I/O errors there is none.\<close>

theorem Next_oldest:
  assumes "spoolInv s ps c q" "Next s = (r, s')"
  shows "s' = s\<lparr>faults := faults s'\<rparr>
    \<and> (r = Inl ErrIO \<or> r = Inr (if c < length ps then (Some (ps ! c), cursorOf ps (Suc c)) else (None, offset s)))
    \<and> (quiet s \<longrightarrow> r \<noteq> Inl ErrIO)"
  using wpD [OF wp_Next [OF assms(1)] assms(2)] quiet_Next [OF _ assms(1)] assms(2)
  by (auto simp: nextResult_def)

theorem Next_oldest_witness:
  "Next (exampleSpool [[1], [2, 3]] 1 64) = (Inr (Some [2, 3], 35), exampleSpool [[1], [2, 3]] 1 64)"
proof -
  let ?s = "exampleSpool [[1], [2, 3]] 1 64"
  have ex: "spoolInv ?s [[1], [2, 3]] 1 1" "quiet ?s" using exampleSpool_inv [of 1 "[[1], [2, 3]]" 64] by simp_all
  obtain r s' where run: "Next ?s = (r, s')" by fastforce
  have "s' = ?s" using run quiet_Next [OF ex(2,1)] by simp
  moreover have "r = Inr (Some [2, 3], 35)" using Next_oldest [OF ex(1) run] ex(2) by (auto simp: cursorOf_def)
  ultimately show ?thesis using run by simp
qed

text \<open>\<open>Commit\<close> of the cursor behind a later record, for every schedule of failures: on success the
  cursor on disk and in memory is exactly there and no record is touched; on failure the cursor in
  memory is unchanged and the one on disk is the old or the new one.  Without I/O errors it
  succeeds.\<close>

theorem Commit_advances:
  assumes inv: "spoolInv s ps c q" and k: "c < k" "k \<le> length ps"
    and run: "Commit (int (cursorOf ps k)) s = (r, s')"
  shows "(if r = Inr () then spoolInv s' ps k k else spoolInv s' ps c q \<or> spoolInv s' ps c k)
    \<and> (quiet s \<longrightarrow> r = Inr () \<and> quiet s')"
proof -
  have "commitResult s ps c q k r s'" using wpD [OF wp_Commit [OF inv k] run] .
  then have "if r = Inr () then spoolInv s' ps k k else spoolInv s' ps c q \<or> spoolInv s' ps c k"
    by (cases r) (auto simp: commitResult_def)
  moreover have "quiet s \<longrightarrow> r = Inr () \<and> quiet s'"
    using wpD [OF quiet_Commit [OF _ inv k] run] by (auto simp: succeeds_def)
  ultimately show ?thesis by blast
qed

theorem Commit_advances_witness:
  "\<exists>s'. Commit 35 (exampleSpool [[1], [2, 3]] 1 64) = (Inr (), s') \<and> spoolInv s' [[1], [2, 3]] 2 2"
proof -
  let ?s = "exampleSpool [[1], [2, 3]] 1 64"
  have ex: "spoolInv ?s [[1], [2, 3]] 1 1" "quiet ?s" using exampleSpool_inv [of 1 "[[1], [2, 3]]" 64] by simp_all
  have cu: "int (cursorOf [[1], [2, 3]] 2) = 35" by (simp add: cursorOf_def)
  obtain r s' where run: "Commit (int (cursorOf [[1], [2, 3]] 2)) ?s = (r, s')" by fastforce
  have "(1::nat) < 2" "2 \<le> length [[1], [2, 3::byte]]" by simp_all
  from Commit_advances [OF ex(1) this run] ex(2) have "r = Inr ()" "spoolInv s' [[1], [2, 3]] 2 2" by simp_all
  with run cu show ?thesis by (simp only:) blast
qed

text \<open>\<open>Commit\<close> validates its argument: a cursor that is not behind a whole record is refused with the
  spool unchanged, and an older cursor is accepted without effect.\<close>

theorem Commit_validates:
  assumes "spoolInv s ps c q"
  shows "(n \<le> int (offset s) \<longrightarrow> Commit n s = (Inr (), s))
    \<and> (int (offset s) < n \<and> (\<forall>k \<le> length ps. n \<noteq> int (cursorOf ps k)) \<longrightarrow>
        (\<exists>s' e. Commit n s = (Inl e, s') \<and> s' = s\<lparr>faults := faults s'\<rparr> \<and> (e = ErrIO \<or> e = ErrInvalidCursor n)))"
proof -
  obtain r s' where run: "Commit n s = (r, s')" by fastforce
  have "fileOpen s" using assms by (simp add: spoolInv_def)
  with Commit_stale [of s n] wpD [OF wp_Commit_reject [OF assms] run] run show ?thesis by auto
qed

theorem Commit_validates_witness:
  "\<exists>s' e. Commit 20 (exampleSpool [[1], [2, 3]] 1 64) = (Inl e, s') \<and> (e = ErrIO \<or> e = ErrInvalidCursor 20)"
proof -
  let ?s = "exampleSpool [[1], [2, 3]] 1 64"
  have ex: "spoolInv ?s [[1], [2, 3]] 1 1" using exampleSpool_inv [of 1 "[[1], [2, 3]]" 64] by simp
  have off: "int (offset ?s) < 20" by (simp add: exampleSpool_def cursorOf_def)
  have "20 \<noteq> int (cursorOf [[1], [2, 3]] k)" for k
    by (cases k; cases "k - 1") (auto simp: cursorOf_def take_Cons' split: if_splits)
  with Commit_validates [OF ex, of 20] off show ?thesis by blast
qed

section \<open>Integrity\<close>

text \<open>C4. Whatever bytes the log holds and whatever fails, a payload returned by \<open>Next\<close> is exactly the
  bytes of the record at the cursor, framed by a valid header within the payload limit, and its
  CRC-32C over header and payload matches the stored one.  A reported corruption has durably
  removed at least one byte of backlog, so skipping corrupt segments terminates.\<close>

theorem Next_verified:
  assumes "fileOpen s" "disk s ''spool.log'' = Some i" "Next s = (r, s')"
  shows "case r of
       Inr (Some p, n) \<Rightarrow> n = offset s + 16 + length p \<and> n \<le> length (content i)
         \<and> p = take (length p) (drop (offset s + 16) (content i))
         \<and> decodeHeader (take 16 (drop (offset s) (content i))) (maxPayloadBytes s) = (length p, True)
         \<and> recordChecksum (take 16 (drop (offset s) (content i))) p
             = getUint32 (take 4 (drop 12 (take 16 (drop (offset s) (content i)))))
         \<and> offset s' = offset s \<and> disk s' = disk s
     | Inr (None, n) \<Rightarrow> length (content i) \<le> offset s
     | Inl e \<Rightarrow> backlogLen s' \<le> backlogLen s \<and> (e = ErrCorruptSegment \<longrightarrow> backlogLen s' < backlogLen s)"
proof -
  have nc: "nextChecked s i r s'" using wp_Next_any [OF assms(1,2)] assms(3) by (rule wpD)
  have keep: "offset s' = offset s \<and> disk s' = disk s" if h: "s' = s\<lparr>faults := faults s'\<rparr>"
    using arg_cong [OF h, of offset] arg_cong [OF h, of disk] by simp
  show ?thesis
  proof (cases r)
    case (Inl e)
    with nc show ?thesis by (simp add: nextChecked_def)
  next
    case (Inr x)
    obtain po n where x: "x = (po, n)" by fastforce
    show ?thesis
      using nc keep unfolding nextChecked_def Let_def Inr x sum.case prod.case
      by (cases po) (simp_all only: option.case, blast+)
  qed
qed

theorem Next_verified_witness:
  "decodeHeader (take 16 (drop 17 (encodeAll [[1], [2, 3]]))) 48 = (2, True)"
proof -
  let ?s = "exampleSpool [[1], [2, 3]] 1 64"
  have ex: "spoolInv ?s [[1], [2, 3]] 1 1" "quiet ?s" "maxPayloadBytes ?s = 48"
    "disk ?s ''spool.log'' = Some (synced (encodeAll [[1], [2, 3]]))"
    using exampleSpool_inv [of 1 "[[1], [2, 3]]" 64] by simp_all
  have off: "offset ?s = 17" "fileOpen ?s" by (simp_all add: exampleSpool_def cursorOf_def)
  have run: "Next ?s = (Inr (Some [2, 3], 35), ?s)" using quiet_Next [OF ex(2,1)] by (simp add: cursorOf_def)
  from Next_verified [OF off(2) ex(4) run] show ?thesis
    unfolding off(1) ex(3) content_synced by simp
qed

text \<open>C6. Any change confined to a single byte of a stored payload is detected: the checksum that \<open>Next\<close>
  computes no longer matches the one that \<open>encodeRecord\<close> stored.\<close>

theorem single_byte_detected:
  assumes "k < length p" "b \<noteq> p ! k"
  shows "recordChecksum (take 16 (encodeRecord p)) (p[k := b])
    \<noteq> getUint32 (take 4 (drop 12 (take 16 (encodeRecord p))))"
proof -
  have "p = take k p @ p ! k # drop (Suc k) p" using assms(1) by (rule id_take_nth_drop)
  moreover have "p[k := b] = take k p @ b # drop (Suc k) p" using assms(1) by (rule upd_conv_take_nth_drop)
  ultimately have "crcUpdate c (p[k := b]) \<noteq> crcUpdate c p" for c
    using crcUpdate_single_byte [OF assms(2), of c "take k p" "drop (Suc k) p"] by simp
  moreover have "getUint32 (take 4 (drop 12 (take 16 (encodeRecord p)))) = recordChecksum (take 16 (encodeRecord p)) p"
    using encodeRecord_checksum [of p "[]"] by simp
  ultimately show ?thesis by (simp add: recordChecksum_def)
qed

theorem single_byte_detected_witness:
  "recordChecksum (take 16 (encodeRecord [1, 2, 3])) [1, 9, 3]
    \<noteq> getUint32 (take 4 (drop 12 (take 16 (encodeRecord [1, 2, 3]))))"
  using single_byte_detected [of 1 "[1, 2, 3]" 9] by simp

section \<open>Opening\<close>




text \<open>C5. Opening an empty directory succeeds with an empty backlog, opening a directory that holds a
  well-formed log restores exactly its records and its persisted cursor, and a payload within the
  configured limits is one that \<open>Enqueue\<close> accepts.\<close>

theorem New_restores:
  assumes dir: "trimSpace dir \<noteq> ''''" and mx: "16 \<le> maxB" "maxB < 2 ^ 63" and clean: "noMigration d"
    and d: "d ''spool.log'' = None \<and> ps = [] \<and> c = 0 \<or> diskHolds d ps [] c"
    and ok: "\<forall>p \<in> set ps. okPayload (payloadLimit maxB maxP) p" "int (length (encodeAll ps)) \<le> maxB"
  shows "\<exists>s. NewWithOptions \<lparr>disk = d, faults = []\<rparr> dir maxB maxP None = (Inr (), s) \<and> spoolInv s ps c c
     \<and> maxPayloadBytes s + 16 \<le> maxBytes s"
proof -
  let ?w = "\<lparr>disk = d, faults = []\<rparr>"
  let ?n = "newSpool ?w maxB maxP None"
  have "wp openOrMigrate (opened ?n ps) ?n"
    using d
  proof
    assume *: "d ''spool.log'' = None \<and> ps = [] \<and> c = 0"
    have "wp openOrMigrate (opened ?n []) ?n" by (rule quiet_open_fresh) (use * mx in auto)
    with * show ?thesis by simp
  next
    assume *: "diskHolds d ps [] c"
    show ?thesis by (rule quiet_open_whole) (use * mx ok in auto)
  qed
  then have "wp openOrMigrate (\<lambda>r s'. r = Inr () \<and> spoolInv s' ps c c \<and> sameConfig ?n s') ?n"
    by (rule wp_mono) (use d in \<open>auto simp: opened_def diskHolds_def spoolInv_def\<close>)
  then have "wp (seqE recoverInterruptedMigration openOrMigrate)
      (\<lambda>r s'. r = Inr () \<and> spoolInv s' ps c c \<and> sameConfig ?n s') ?n"
    using clean by (simp add: wp_seqE wp_det [of recoverInterruptedMigration, OF quiet_recover_none])
  from quiet_New [OF dir _ quiet_newSpool this] mx show ?thesis
    by (auto simp: sameConfig_def payloadLimit_def Let_def)
qed

theorem New_restores_witness:
  "\<exists>s. NewWithOptions \<lparr>disk = Map.empty, faults = []\<rparr> ''/var/spool'' 64 0 None = (Inr (), s) \<and> spoolInv s [] 0 0
     \<and> maxPayloadBytes s + 16 \<le> maxBytes s"
  by (rule New_restores) (simp_all add: trimSpace_def isSpace_def noMigration_def)

end
