(* ===== verification/Transport.thy ===== *)
theory Transport
  imports Telemetry
begin

text \<open>
  The collector's transport client (\<^verbatim>\<open>collector/transport/client.go\<close>): configuration, endpoint
  rotation, delivery to one endpoint, failover and mirroring, and the classification of errors
  that decides whether a spooled payload is retried or dropped.

  What lies behind gRPC, protocol buffers and TLS is a parameter: the record \<open>Net\<close> of operations
  on an arbitrary network state.  Locks are not modelled: each method is one step.
\<close>

section \<open>Permanent payload errors\<close>

function IsPermanentPayloadError :: "(goerr \<Rightarrow> Code) \<Rightarrow> goerr \<Rightarrow> bool" where
  "IsPermanentPayloadError statusCode err =
     (errorsIsInvalidBatch err
      \<or> (case errorsAs err of None \<Rightarrow> False
         | Some (kind, ep, n, inner) \<Rightarrow>
             (case kind of
                ErrorKindDecode \<Rightarrow> True
              | ErrorKindReceive \<Rightarrow> statusCode inner \<in> {InvalidArgument, FailedPrecondition, OutOfRange}
              | ErrorKindSend \<Rightarrow> statusCode inner \<in> {InvalidArgument, FailedPrecondition, OutOfRange}
              | ErrorKindStream \<Rightarrow> statusCode inner \<in> {InvalidArgument, FailedPrecondition, OutOfRange}
              | _ \<Rightarrow> False)
             \<or> IsPermanentPayloadError statusCode inner)
      \<or> (case err of Joined es \<Rightarrow> list_ex (IsPermanentPayloadError statusCode) es | _ \<Rightarrow> False)
      \<or> (case errorsUnwrap err of None \<Rightarrow> False | Some inner \<Rightarrow> IsPermanentPayloadError statusCode inner))"
  by pat_completeness auto
termination
  by (relation "measure (\<lambda>(f, e). size e)")
     (auto dest: errorsAs_size errorsUnwrap_size simp: less_Suc_eq_le size_list_estimation')

declare IsPermanentPayloadError.simps [simp del]

text \<open>What the classification means, without the order of the search.\<close>

fun permanentNode :: "(goerr \<Rightarrow> Code) \<Rightarrow> goerr \<Rightarrow> bool" where
  "permanentNode f ErrInvalidBatch = True"
| "permanentNode f (TransportError k ep n e) =
     (k = ErrorKindDecode \<or> k \<in> {ErrorKindReceive, ErrorKindSend, ErrorKindStream}
        \<and> f e \<in> {InvalidArgument, FailedPrecondition, OutOfRange})"
| "permanentNode f _ = False"

lemma IsPermanent_nodes: "IsPermanentPayloadError f err \<longleftrightarrow> (\<exists>e \<in> set (nodes err). permanentNode f e)"
proof (induction f err rule: IsPermanentPayloadError.induct)
  case (1 f err)
  let ?kinds = "\<lambda>k e. (case k of
                ErrorKindDecode \<Rightarrow> True
              | ErrorKindReceive \<Rightarrow> f e \<in> {InvalidArgument, FailedPrecondition, OutOfRange}
              | ErrorKindSend \<Rightarrow> f e \<in> {InvalidArgument, FailedPrecondition, OutOfRange}
              | ErrorKindStream \<Rightarrow> f e \<in> {InvalidArgument, FailedPrecondition, OutOfRange}
              | _ \<Rightarrow> False)"
  have kinds: "?kinds k e \<longleftrightarrow> permanentNode f (TransportError k ep n e)" for k e ep n
    by (cases k) auto
  note IH_as = "1.IH"(1) and IH_join = "1.IH"(2) and IH_un = "1.IH"(3)
  let ?R = "\<exists>e \<in> set (nodes err). permanentNode f e"
  have inv: "errorsIsInvalidBatch err \<Longrightarrow> ?R"
    unfolding errorsIs_nodes by (rule bexI [of _ ErrInvalidBatch]) simp_all
  have un: "set (nodes x) \<subseteq> set (nodes err)" if "errorsUnwrap err = Some x" for x
    using that by (cases err) auto
  have as_: "?R" if a: "errorsAs err = Some (k, ep, n, inner)"
      "permanentNode f (TransportError k ep n inner) \<or> IsPermanentPayloadError f inner" for k ep n inner
  proof -
    have node: "TransportError k ep n inner \<in> set (nodes err)" using errorsAs_node(1) [OF a(1)] .
    then have "set (nodes inner) \<subseteq> set (nodes err)" using nodes_trans by fastforce
    with a(2) node IH_as [OF a(1) refl refl refl] show ?thesis by blast
  qed
  show ?case
  proof
    assume "IsPermanentPayloadError f err"
    then show ?R
      unfolding IsPermanentPayloadError.simps [of f err] kinds [of _ _ undefined undefined]
      by (elim disjE)
         (use inv as_ IH_join IH_un in \<open>auto split: option.splits goerr.splits prod.splits simp: list_ex_iff dest: un [THEN subsetD]\<close>)
  next
    assume ?R
    then show "IsPermanentPayloadError f err"
      by (subst IsPermanentPayloadError.simps, cases err)
         (use IH_join IH_un in \<open>auto simp: list_ex_iff\<close>)
  qed
qed

section \<open>Configuration and state\<close>

record TLSConfig =
  TLSEnabled :: bool
  CAFile :: string
  CertFile :: string
  KeyFile :: string
  ServerName :: string
  InsecureSkipVerify :: bool
  ReloadInterval :: int

record AuthConfig =
  AuthEnabled :: bool
  BearerToken :: string

record Config =
  Endpoints :: "string list"
  Mirror :: bool
  Compress :: bool
  DialTimeout :: int
  RPCTimeout :: int
  AllowPlaintext :: bool
  TLS :: TLSConfig
  Auth :: AuthConfig

record clientStats =
  lastSendMs :: int
  lastAckMs :: int
  lastErrs :: "64 word"
  lastRetries :: "64 word"
  lastEndpoint :: string
  lastCompressed :: bool
  lastErrorKind :: string

text \<open>The \<^verbatim>\<open>tls.Config\<close> that credentials are made of.\<close>

record tlsClientConfig =
  MinVersion :: nat
  TServerName :: string
  TInsecureSkipVerify :: bool
  RootCAs :: "bytes option"
  Certificates :: "bytes list"

text \<open>The client: its configuration, the rotation index (a counter of sends, which does not reach
  the 63 bits of Go's \<^verbatim>\<open>int\<close>), its counters, the cached credentials with the time they were loaded,
  and the endpoints with a cached connection.\<close>

record Client =
  cfg :: Config
  nextIdx :: nat
  stats :: clientStats
  cachedCreds :: "(tlsClientConfig \<times> int) option"
  conns :: "string list"

definition defaultDialTimeout :: int where "defaultDialTimeout = 10 * 10 ^ 9"
definition defaultRPCTimeout :: int where "defaultRPCTimeout = 10 * 10 ^ 9"
definition defaultTLSReloadFreq :: int where "defaultTLSReloadFreq = 30 * 10 ^ 9"

fun normalizeEndpointsLoop :: "string list \<Rightarrow> string list \<Rightarrow> string list" where
  "normalizeEndpointsLoop out [] = out"
| "normalizeEndpointsLoop out (e # es) =
     (let endpoint = trimSpace e in
      if endpoint = '''' then normalizeEndpointsLoop out es
      else if endpoint \<in> set out then normalizeEndpointsLoop out es
      else normalizeEndpointsLoop (out @ [endpoint]) es)"

definition normalizeEndpoints :: "string list \<Rightarrow> string list" where
  "normalizeEndpoints es = normalizeEndpointsLoop [] es"

definition normalizeConfig :: "Config \<Rightarrow> Config" where
  "normalizeConfig c = c\<lparr>
     Endpoints := normalizeEndpoints (Endpoints c),
     DialTimeout := (if DialTimeout c \<le> 0 then defaultDialTimeout else DialTimeout c),
     RPCTimeout := (if RPCTimeout c \<le> 0 then defaultRPCTimeout else RPCTimeout c),
     TLS := (TLS c)\<lparr>ReloadInterval :=
       (if ReloadInterval (TLS c) \<le> 0 then defaultTLSReloadFreq else ReloadInterval (TLS c))\<rparr>,
     AllowPlaintext := (if TLSEnabled (TLS c) then False else AllowPlaintext c),
     Auth := (Auth c)\<lparr>BearerToken := trimSpace (BearerToken (Auth c))\<rparr>\<rparr>"

text \<open>The checks that \<^verbatim>\<open>New\<close> and \<^verbatim>\<open>ApplyConfig\<close> make on a normalized configuration.\<close>

definition checkConfig :: "Config \<Rightarrow> goerr option" where
  "checkConfig c =
     (if Endpoints c = [] then Some (TransportError ErrorKindConfig '''' 0 ErrNoEndpoints)
      else if \<not> TLSEnabled (TLS c) \<and> \<not> AllowPlaintext c
      then Some (TransportError ErrorKindConfig '''' 0 (Plain ''transport plaintext is disabled but tls is not enabled''))
      else if AuthEnabled (Auth c) \<and> trimSpace (BearerToken (Auth c)) = ''''
      then Some (TransportError ErrorKindConfig '''' 0 (Plain ''transport auth is enabled but bearer token is empty''))
      else None)"

definition emptyStats :: clientStats where
  "emptyStats = \<lparr>lastSendMs = 0, lastAckMs = 0, lastErrs = 0, lastRetries = 0, lastEndpoint = '''',
     lastCompressed = False, lastErrorKind = ''''\<rparr>"

definition New :: "Config \<Rightarrow> goerr + Client" where
  "New c = (let c = normalizeConfig c in
     case checkConfig c of Some e \<Rightarrow> Inl e
     | None \<Rightarrow> Inr \<lparr>cfg = c, nextIdx = 0, stats = emptyStats, cachedCreds = None, conns = []\<rparr>)"

definition closeConnections :: "Client \<Rightarrow> Client" where
  "closeConnections cl = cl\<lparr>conns := []\<rparr>"

definition closeClient :: "Client \<Rightarrow> Client" where
  "closeClient cl = closeConnections cl"

definition ApplyConfig :: "Config \<Rightarrow> (Client, goerr, unit) act" where
  "ApplyConfig c = (let c = normalizeConfig c in
     case checkConfig c of Some e \<Rightarrow> throw e
     | None \<Rightarrow> modify (\<lambda>cl. closeConnections (cl\<lparr>cfg := c, nextIdx := 0, cachedCreds := None\<rparr>)))"

text \<open>The endpoint order of the next send: the configured order when mirroring, otherwise rotated so
  that successive sends start at successive endpoints.\<close>

definition snapshotConfigAndOrder :: "Client \<Rightarrow> (Config \<times> string list) \<times> Client" where
  "snapshotConfigAndOrder cl =
     (let endpoints = Endpoints (cfg cl) in
      if endpoints = [] then ((cfg cl, []), cl)
      else if Mirror (cfg cl) \<or> length endpoints = 1 then ((cfg cl, endpoints), cl)
      else let start = nextIdx cl mod length endpoints in
        ((cfg cl, map (\<lambda>i. endpoints ! ((start + i) mod length endpoints)) [0..<length endpoints]),
         cl\<lparr>nextIdx := nextIdx cl + 1\<rparr>))"

text \<open>\<^verbatim>\<open>Duration.Milliseconds\<close> divides towards zero.\<close>

definition milliseconds :: "int \<Rightarrow> int" where
  "milliseconds ns = (if ns < 0 then - (- ns div 10 ^ 6) else ns div 10 ^ 6)"

definition updateStats :: "string \<Rightarrow> int \<Rightarrow> int \<Rightarrow> bool \<Rightarrow> Client \<Rightarrow> Client" where
  "updateStats endpoint sendNs ackNs compressed cl = cl\<lparr>stats := (stats cl)\<lparr>
     lastEndpoint := endpoint, lastSendMs := milliseconds sendNs, lastAckMs := milliseconds ackNs,
     lastCompressed := compressed\<rparr>\<rparr>"

fun kindName :: "ErrorKind \<Rightarrow> string" where
  "kindName ErrorKindConfig = ''config''"
| "kindName ErrorKindDial = ''dial''"
| "kindName ErrorKindStream = ''stream''"
| "kindName ErrorKindDecode = ''decode''"
| "kindName ErrorKindSend = ''send''"
| "kindName ErrorKindReceive = ''receive''"
| "kindName ErrorKindRetryExhaust = ''retry_exhausted''"
| "kindName ErrorKindTLS = ''tls''"

definition bumpErr :: "goerr \<Rightarrow> Client \<Rightarrow> Client" where
  "bumpErr err cl = cl\<lparr>stats := (stats cl)\<lparr>lastErrs := lastErrs (stats cl) + 1,
     lastErrorKind := (case errorsAs err of Some (k, ep, n, e) \<Rightarrow> kindName k | None \<Rightarrow> ''unknown'')\<rparr>\<rparr>"

definition bumpRetry :: "64 word \<Rightarrow> Client \<Rightarrow> Client" where
  "bumpRetry n cl = cl\<lparr>stats := (stats cl)\<lparr>lastRetries := lastRetries (stats cl) + n\<rparr>\<rparr>"

section \<open>Delivery\<close>

text \<open>The operations of gRPC, TLS and protocol buffers that delivery uses, on a network state;
  \<open>elapse\<close> is whatever happens outside of the client between two of its looks at the clock or the
  context.\<close>

record 'w Net =
  clock :: "'w \<Rightarrow> int"
  readFile :: "string \<Rightarrow> 'w \<Rightarrow> (goerr + bytes) \<times> 'w"
  certsFromPEM :: "bytes \<Rightarrow> bytes option"
  loadX509KeyPair :: "string \<Rightarrow> string \<Rightarrow> 'w \<Rightarrow> (goerr + bytes) \<times> 'w"
  dialContext :: "string \<Rightarrow> int \<Rightarrow> tlsClientConfig option \<Rightarrow> 'w \<Rightarrow> (goerr + unit) \<times> 'w"
  openPush :: "string \<Rightarrow> int \<Rightarrow> string option \<Rightarrow> bool \<Rightarrow> 'w \<Rightarrow> (goerr + unit) \<times> 'w"
  streamSend :: "string \<Rightarrow> TelemetryBatch \<Rightarrow> 'w \<Rightarrow> (goerr + unit) \<times> 'w"
  streamRecv :: "string \<Rightarrow> 'w \<Rightarrow> (goerr + Ack option) \<times> 'w"
  closeSend :: "string \<Rightarrow> 'w \<Rightarrow> (goerr + unit) \<times> 'w"
  unmarshalBatch :: "bytes \<Rightarrow> goerr + TelemetryBatch"
  contextErr :: "'w \<Rightarrow> goerr option"
  elapse :: "'w \<Rightarrow> 'w"

record 'w cstate =
  client :: Client
  net :: 'w

definition onNet :: "('w \<Rightarrow> (goerr + 'a) \<times> 'w) \<Rightarrow> ('w cstate, goerr, 'a) act" where
  "onNet f = (\<lambda>s. case f (net s) of (r, w) \<Rightarrow> (r, s\<lparr>net := w\<rparr>))"

definition wrapErr :: "ErrorKind \<Rightarrow> string \<Rightarrow> nat \<Rightarrow> ('s, goerr, 'a) act \<Rightarrow> ('s, goerr, 'a) act" where
  "wrapErr k ep n m = (\<lambda>s. case m s of (Inl e, s') \<Rightarrow> (Inl (TransportError k ep n e), s') | (Inr x, s') \<Rightarrow> (Inr x, s'))"

definition validateBatch :: "TelemetryBatch \<Rightarrow> goerr option" where
  "validateBatch batch =
     (if trimSpace (BatchId batch) = '''' then Some (Wrapped ''batch_id is required'' ErrInvalidBatch)
      else if (case Collector batch of None \<Rightarrow> True | Some c \<Rightarrow> trimSpace (CollectorId c) = '''')
      then Some (Wrapped ''collector.collector_id is required'' ErrInvalidBatch)
      else None)"

definition decodeBatchPayload :: "(bytes \<Rightarrow> goerr + TelemetryBatch) \<Rightarrow> bytes \<Rightarrow> goerr + TelemetryBatch" where
  "decodeBatchPayload unmarshal payload = (case unmarshal payload of
       Inl e \<Rightarrow> Inl e
     | Inr batch \<Rightarrow> (case validateBatch batch of Some e \<Rightarrow> Inl e | None \<Rightarrow> Inr batch))"

definition validateAck :: "string \<Rightarrow> Ack option \<Rightarrow> goerr option" where
  "validateAck batchID ack =
     (case ack of None \<Rightarrow> Some ErrEmptyAckBatchID
      | Some a \<Rightarrow>
          if trimSpace (AckBatchId a) = '''' then Some ErrEmptyAckBatchID
          else let expected = trimSpace batchID in
            if expected \<noteq> '''' \<and> \<not> equalFold (trimSpace (AckBatchId a)) expected
            then Some (Wrapped ''expected another batch'' ErrUnexpectedAckBatchID)
            else None)"

definition wrapMsg :: "string \<Rightarrow> ('s, goerr, 'a) act \<Rightarrow> ('s, goerr, 'a) act" where
  "wrapMsg msg m = (\<lambda>s. case m s of (Inl e, s') \<Rightarrow> (Inl (Wrapped msg e), s') | (Inr x, s') \<Rightarrow> (Inr x, s'))"

text \<open>\<^verbatim>\<open>tls.VersionTLS12\<close> is 771.\<close>

definition loadTLSCredentials :: "'w Net \<Rightarrow> TLSConfig \<Rightarrow> ('w cstate, goerr, tlsClientConfig) act" where
  "loadTLSCredentials N c =
     bindE (if CAFile c \<noteq> '''' then
              bindE (wrapMsg (''read tls ca file '' @ CAFile c) (onNet (readFile N (CAFile c)))) (\<lambda>caPEM.
                case certsFromPEM N caPEM of
                  None \<Rightarrow> throw (Plain (''parse tls ca file '' @ CAFile c @ '': invalid PEM''))
                | Some pool \<Rightarrow> ret (Some pool))
            else ret None) (\<lambda>roots.
       bindE (if CertFile c \<noteq> '''' \<or> KeyFile c \<noteq> '''' then
                bindE (wrapMsg ''load tls client cert/key'' (onNet (loadX509KeyPair N (CertFile c) (KeyFile c))))
                  (\<lambda>cert. ret [cert])
              else ret []) (\<lambda>certs.
         ret \<lparr>MinVersion = 771, TServerName = ServerName c, TInsecureSkipVerify = InsecureSkipVerify c,
              RootCAs = roots, Certificates = certs\<rparr>))"

definition currentTransportCredentials :: "'w Net \<Rightarrow> TLSConfig \<Rightarrow> ('w cstate, goerr, tlsClientConfig option) act" where
  "currentTransportCredentials N c = getS (\<lambda>s.
     if \<not> TLSEnabled c then ret None
     else let reloadEvery = (if ReloadInterval c \<le> 0 then defaultTLSReloadFreq else ReloadInterval c);
              reload = bindE (loadTLSCredentials N c) (\<lambda>creds.
                seqE (modify (\<lambda>s. s\<lparr>client := (client s)\<lparr>cachedCreds := Some (creds, clock N (net s))\<rparr>\<rparr>))
                  (ret (Some creds)))
          in case cachedCreds (client s) of
               Some (creds, t) \<Rightarrow> if clock N (net s) - t < reloadEvery then ret (Some creds) else reload
             | None \<Rightarrow> reload)"

definition dial :: "'w Net \<Rightarrow> string \<Rightarrow> ('w cstate, goerr, unit) act" where
  "dial N endpoint = getS (\<lambda>s.
     if endpoint \<in> set (conns (client s)) then ret ()
     else bindE (wrapErr ErrorKindTLS endpoint 0 (currentTransportCredentials N (TLS (cfg (client s))))) (\<lambda>creds.
       seqE (onNet (dialContext N endpoint (DialTimeout (cfg (client s))) creds))
         (modify (\<lambda>s. s\<lparr>client := (client s)\<lparr>conns := conns (client s) @ [endpoint]\<rparr>\<rparr>))))"

definition sendToEndpoint :: "'w Net \<Rightarrow> nat \<Rightarrow> string \<Rightarrow> bytes \<Rightarrow> ('w cstate, goerr, Ack) act" where
  "sendToEndpoint N attempt endpoint payload = getS (\<lambda>s0.
     let c = cfg (client s0);
         bearer = (if AuthEnabled (Auth c) then Some (''Bearer '' @ trimSpace (BearerToken (Auth c))) else None)
     in seqE (wrapErr ErrorKindDial endpoint attempt (dial N endpoint))
       (seqE (wrapErr ErrorKindStream endpoint attempt (onNet (openPush N endpoint (RPCTimeout c) bearer (Compress c))))
         (case decodeBatchPayload (unmarshalBatch N) payload of
            Inl e \<Rightarrow> throw (TransportError ErrorKindDecode endpoint attempt e)
          | Inr batch \<Rightarrow> getS (\<lambda>s1.
              seqE (wrapErr ErrorKindSend endpoint attempt (onNet (streamSend N endpoint batch)))
                (getS (\<lambda>s2. bindE (wrapErr ErrorKindReceive endpoint attempt (onNet (streamRecv N endpoint))) (\<lambda>ack.
                  case validateAck (BatchId batch) ack of
                    Some e \<Rightarrow> throw (TransportError ErrorKindReceive endpoint attempt e)
                  | None \<Rightarrow> getS (\<lambda>s3.
                      seqE (ignoreE (onNet (closeSend N endpoint)))
                        (seqE (modify (\<lambda>s. s\<lparr>client := updateStats endpoint (clock N (net s2) - clock N (net s1))
                                 (clock N (net s3) - clock N (net s2)) (Compress c) (client s)\<rparr>))
                          (ret (the ack)))))))))))"

type_synonym 'w sender = "nat \<Rightarrow> string \<Rightarrow> bytes \<Rightarrow> ('w cstate, goerr, Ack) act"

fun sendMirrorLoop :: "'w sender \<Rightarrow> bytes \<Rightarrow> nat \<Rightarrow> Ack option \<Rightarrow> goerr list \<Rightarrow> string list
    \<Rightarrow> 'w cstate \<Rightarrow> (Ack option \<times> goerr list) \<times> 'w cstate" where
  "sendMirrorLoop send1 payload attempt lastAck errs [] s = ((lastAck, errs), s)"
| "sendMirrorLoop send1 payload attempt lastAck errs (endpoint # es) s =
     (case send1 (attempt + 1) endpoint payload s of
        (Inl e, s') \<Rightarrow> sendMirrorLoop send1 payload (attempt + 1) lastAck (errs @ [e]) es
                        (s'\<lparr>client := bumpErr e (client s')\<rparr>)
      | (Inr ack, s') \<Rightarrow> sendMirrorLoop send1 payload (attempt + 1) (Some ack) errs es s')"

definition sendMirror :: "'w sender \<Rightarrow> string list \<Rightarrow> bytes \<Rightarrow> ('w cstate, goerr, Ack) act" where
  "sendMirror send1 endpoints payload = (\<lambda>s.
     case sendMirrorLoop send1 payload 0 None [] endpoints s of
       ((None, errs), s') \<Rightarrow> (Inl (TransportError ErrorKindRetryExhaust '''' 0
           (Wrapped ''mirror send failed'' (Joined errs))), s')
     | ((Some ack, errs), s') \<Rightarrow> (Inr ack, s'))"

fun failoverLoop :: "'w sender \<Rightarrow> bytes \<Rightarrow> nat \<Rightarrow> goerr list \<Rightarrow> string list \<Rightarrow> 'w cstate
    \<Rightarrow> (goerr list + Ack) \<times> 'w cstate" where
  "failoverLoop send1 payload attempt errs [] s = (Inl errs, s)"
| "failoverLoop send1 payload attempt errs (endpoint # es) s =
     (let s = (if attempt > 0 then s\<lparr>client := bumpRetry 1 (client s)\<rparr> else s) in
      case send1 (attempt + 1) endpoint payload s of
        (Inr ack, s') \<Rightarrow> (Inr ack, s')
      | (Inl e, s') \<Rightarrow> failoverLoop send1 payload (attempt + 1) (errs @ [e]) es
                        (s'\<lparr>client := bumpErr e (client s')\<rparr>))"

definition sendWithFailover :: "'w sender \<Rightarrow> string list \<Rightarrow> bytes \<Rightarrow> ('w cstate, goerr, Ack) act" where
  "sendWithFailover send1 endpoints payload = (\<lambda>s.
     case failoverLoop send1 payload 0 [] endpoints s of
       (Inr ack, s') \<Rightarrow> (Inr ack, s')
     | (Inl errs, s') \<Rightarrow> (Inl (TransportError ErrorKindRetryExhaust '''' 0
           (Wrapped ''all endpoints failed'' (Joined errs))), s'))"

definition Send :: "'w Net \<Rightarrow> 'w sender \<Rightarrow> bytes \<Rightarrow> ('w cstate, goerr, Ack) act" where
  "Send N send1 payload = (\<lambda>s.
     case contextErr N (net s) of
       Some e \<Rightarrow> (Inl (Wrapped ''send context canceled'' e), s)
     | None \<Rightarrow>
         (case snapshotConfigAndOrder (client s) of ((c, order), cl) \<Rightarrow>
            let s' = s\<lparr>client := cl\<rparr> in
            if order = [] then (Inl (TransportError ErrorKindConfig '''' 0 ErrNoEndpoints), s')
            else if Mirror c then sendMirror send1 order payload s'
            else sendWithFailover send1 order payload s'))"

section \<open>Observers\<close>

definition LastSendMs :: "Client \<Rightarrow> int" where "LastSendMs cl = lastSendMs (stats cl)"
definition LastAckMs :: "Client \<Rightarrow> int" where "LastAckMs cl = lastAckMs (stats cl)"
definition LastErrs :: "Client \<Rightarrow> 64 word" where "LastErrs cl = lastErrs (stats cl)"
definition LastRetries :: "Client \<Rightarrow> 64 word" where "LastRetries cl = lastRetries (stats cl)"
definition LastEndpoint :: "Client \<Rightarrow> string" where "LastEndpoint cl = lastEndpoint (stats cl)"
definition LastCompressed :: "Client \<Rightarrow> bool" where "LastCompressed cl = lastCompressed (stats cl)"
definition LastErrorKind :: "Client \<Rightarrow> string" where "LastErrorKind cl = lastErrorKind (stats cl)"

section \<open>Endpoint lists\<close>

definition cleanEndpoints :: "string list \<Rightarrow> bool" where
  "cleanEndpoints es \<longleftrightarrow> distinct es \<and> (\<forall>e \<in> set es. e \<noteq> '''' \<and> trimSpace e = e)"

lemma cleanEndpoints_snoc:
  "cleanEndpoints out \<Longrightarrow> trimSpace e \<noteq> '''' \<Longrightarrow> trimSpace e \<notin> set out \<Longrightarrow> cleanEndpoints (out @ [trimSpace e])"
  by (auto simp: cleanEndpoints_def)

lemma normalizeEndpointsLoop_clean:
  "cleanEndpoints out \<Longrightarrow> cleanEndpoints (normalizeEndpointsLoop out es)"
proof (induction es arbitrary: out)
  case (Cons e es)
  then show ?case by (simp add: Let_def cleanEndpoints_snoc)
qed simp

lemma normalizeEndpointsLoop_set:
  "set (normalizeEndpointsLoop out es) = set out \<union> (trimSpace ` set es - {''''})"
proof (induction es arbitrary: out)
  case (Cons e es)
  then show ?case by (auto simp: Let_def)
qed simp

lemma normalizeEndpointsLoop_id:
  assumes "distinct (out @ es)" "\<forall>e \<in> set es. e \<noteq> '''' \<and> trimSpace e = e"
  shows "normalizeEndpointsLoop out es = out @ es"
  using assms by (induction out es rule: normalizeEndpointsLoop.induct) (auto simp: Let_def)

lemma rotation_rotate:
  assumes "xs \<noteq> []"
  shows "map (\<lambda>i. xs ! ((k mod length xs + i) mod length xs)) [0..<length xs] = rotate k xs"
  using assms by (intro nth_equalityI) (simp_all add: nth_rotate mod_add_left_eq)

text \<open>The interface between the delivery policy and the delivery to one endpoint.\<close>

locale endpoint_sender =
  fixes send1 :: "'w sender" and acked :: "bytes \<Rightarrow> Ack \<Rightarrow> bool"
  assumes ack_matches: "send1 n ep p s = (Inr ack, s') \<Longrightarrow> acked p ack"
    and keeps_config: "send1 n ep p s = (r, s') \<Longrightarrow> cfg (client s') = cfg (client s) \<and> nextIdx (client s') = nextIdx (client s)"
begin

lemma mirror_loop_ack:
  assumes "sendMirrorLoop send1 p k la errs es s = ((Some ack, errs'), s')" "\<forall>a. la = Some a \<longrightarrow> acked p a"
  shows "acked p ack"
  using assms
proof (induction es arbitrary: k la errs s)
  case (Cons e es)
  then show ?case
    by (auto split: prod.splits sum.splits dest: ack_matches)
qed simp

lemma failover_loop_ack:
  assumes "failoverLoop send1 p k errs es s = (Inr ack, s')"
  shows "acked p ack"
  using assms
proof (induction es arbitrary: k errs s)
  case (Cons e es)
  then show ?case
    by (auto simp: Let_def split: prod.splits sum.splits if_splits dest: ack_matches)
qed simp

lemma Send_ack: "Send N send1 p s = (Inr ack, s') \<Longrightarrow> acked p ack"
  by (auto simp: Send_def sendMirror_def sendWithFailover_def Let_def split: option.splits prod.splits if_splits sum.splits
      dest!: mirror_loop_ack failover_loop_ack)

lemma mirror_loop_config:
  "sendMirrorLoop send1 p k la errs es s = (r, s') \<Longrightarrow> cfg (client s') = cfg (client s)"
proof (induction es arbitrary: k la errs s)
  case (Cons e es)
  obtain x s1 where x: "send1 (k + 1) e p s = (x, s1)" by fastforce
  with keeps_config have "cfg (client s1) = cfg (client s)" by blast
  with x Cons show ?case by (cases x) (auto simp: bumpErr_def dest!: Cons.IH)
qed simp

lemma failover_loop_config:
  "failoverLoop send1 p k errs es s = (r, s') \<Longrightarrow> cfg (client s') = cfg (client s)"
proof (induction es arbitrary: k errs s)
  case (Cons e es)
  let ?s = "if k > 0 then s\<lparr>client := bumpRetry 1 (client s)\<rparr> else s"
  obtain x s1 where x: "send1 (k + 1) e p ?s = (x, s1)" by fastforce
  with keeps_config have "cfg (client s1) = cfg (client ?s)" by blast
  then have "cfg (client s1) = cfg (client s)" by (simp add: bumpRetry_def split: if_splits)
  moreover from Cons.prems x have "(case x of Inr ack \<Rightarrow> (Inr ack, s1)
      | Inl err \<Rightarrow> failoverLoop send1 p (k + 1) (errs @ [err]) es (s1\<lparr>client := bumpErr err (client s1)\<rparr>)) = (r, s')"
    by (auto simp: Let_def split: sum.splits)
  ultimately show ?case by (cases x) (auto simp: bumpErr_def dest!: Cons.IH)
qed simp

lemma Send_config: "Send N send1 p s = (r, s') \<Longrightarrow> cfg (client s') = cfg (client s)"
proof -
  assume send: "Send N send1 p s = (r, s')"
  obtain c order cl where o: "snapshotConfigAndOrder (client s) = ((c, order), cl)" by (metis surj_pair)
  then have "cfg cl = cfg (client s)" by (auto simp: snapshotConfigAndOrder_def Let_def split: if_splits)
  with o send show ?thesis
    by (auto simp: Send_def sendMirror_def sendWithFailover_def Let_def
        split: option.splits prod.splits if_splits sum.splits dest!: mirror_loop_config failover_loop_config)
qed

text \<open>Failover stops at the first endpoint that acknowledges, and fails only after every endpoint
  has failed once.\<close>

lemma failover_loop_errs:
  assumes "failoverLoop send1 p k errs es s = (Inl errs', s')"
  shows "length errs' = length errs + length es"
  using assms
proof (induction es arbitrary: k errs s)
  case (Cons e es)
  then show ?case by (auto simp: Let_def split: prod.splits sum.splits if_splits)
qed simp

lemma Send_failed:
  assumes "Send N send1 p s = (Inl e, s')" "contextErr N (net s) = None" "Endpoints (cfg (client s)) \<noteq> []"
    "\<not> Mirror (cfg (client s))"
  shows "\<exists>errs. e = TransportError ErrorKindRetryExhaust '''' 0 (Wrapped ''all endpoints failed'' (Joined errs))
    \<and> length errs = length (Endpoints (cfg (client s)))"
proof -
  obtain c order cl where o: "snapshotConfigAndOrder (client s) = ((c, order), cl)" by (metis surj_pair)
  then have "order \<noteq> []" "\<not> Mirror c" "length order = length (Endpoints (cfg (client s)))"
    using assms(3,4) by (auto simp: snapshotConfigAndOrder_def Let_def split: if_splits)
  with o assms(1,2) show ?thesis
    by (auto simp: Send_def sendWithFailover_def Let_def split: prod.splits sum.splits dest!: failover_loop_errs)
qed

end

section \<open>Delivery to one endpoint\<close>

text \<open>What an acknowledgement of a payload is: it names the batch that the payload decodes to.\<close>

definition ackFor :: "'w Net \<Rightarrow> bytes \<Rightarrow> Ack \<Rightarrow> bool" where
  "ackFor N p ack \<longleftrightarrow> (\<exists>batch. decodeBatchPayload (unmarshalBatch N) p = Inr batch
     \<and> trimSpace (AckBatchId ack) \<noteq> '''' \<and> equalFold (trimSpace (AckBatchId ack)) (trimSpace (BatchId batch)))"

lemma decodeBatchPayload_valid:
  "decodeBatchPayload u p = Inr batch \<Longrightarrow> u p = Inr batch \<and> trimSpace (BatchId batch) \<noteq> ''''
     \<and> (\<exists>c. Collector batch = Some c \<and> trimSpace (CollectorId c) \<noteq> '''')"
  by (auto simp: decodeBatchPayload_def validateBatch_def split: sum.splits option.splits if_splits)

lemma validateAck_None:
  "validateAck b ack = None \<longleftrightarrow> (\<exists>a. ack = Some a \<and> trimSpace (AckBatchId a) \<noteq> ''''
     \<and> (trimSpace b = '''' \<or> equalFold (trimSpace (AckBatchId a)) (trimSpace b)))"
  by (auto simp: validateAck_def Let_def split: option.splits)

text \<open>Delivery changes the counters, the cached credentials and the connections, never the
  configuration or the rotation index.\<close>

abbreviation sameRoute :: "'w cstate \<Rightarrow> 'w cstate \<Rightarrow> bool" where
  "sameRoute s s' \<equiv> cfg (client s') = cfg (client s) \<and> nextIdx (client s') = nextIdx (client s)"

lemma wp_onNetI: "(\<And>r w. Q r (s\<lparr>net := w\<rparr>)) \<Longrightarrow> wp (onNet f) Q s"
  by (auto simp: wp_def onNet_def split: prod.splits)

lemma wp_wrapErr [wp_simps]:
  "wp (wrapErr k ep n m) Q s =
     wp m (\<lambda>r s'. case r of Inl e \<Rightarrow> Q (Inl (TransportError k ep n e)) s' | Inr x \<Rightarrow> Q (Inr x) s') s"
  by (auto simp: wp_def wrapErr_def split: prod.splits sum.splits)

lemma wp_wrapMsg [wp_simps]:
  "wp (wrapMsg msg m) Q s = wp m (\<lambda>r s'. case r of Inl e \<Rightarrow> Q (Inl (Wrapped msg e)) s' | Inr x \<Rightarrow> Q (Inr x) s') s"
  by (auto simp: wp_def wrapMsg_def split: prod.splits sum.splits)

lemma wp_loadTLS: "wp (loadTLSCredentials N c) (\<lambda>r s'. client s' = client s
    \<and> (\<forall>t. r = Inr t \<longrightarrow> MinVersion t = 771 \<and> (RootCAs t = None \<longleftrightarrow> CAFile c = '''')
          \<and> (Certificates t = [] \<longleftrightarrow> CertFile c = '''' \<and> KeyFile c = ''''))) s"
  unfolding loadTLSCredentials_def
  by (intro conjI impI allI wp_onNetI | simp add: wp_simps split: sum.splits option.splits)+

lemma wp_currentCreds:
  "wp (currentTransportCredentials N c) (\<lambda>r s'. sameRoute s s' \<and> (\<forall>x. r = Inr x \<longrightarrow> (x = None \<longleftrightarrow> \<not> TLSEnabled c))) s"
proof -
  have reload: "wp (bindE (loadTLSCredentials N c) (\<lambda>creds.
      seqE (modify (\<lambda>s. s\<lparr>client := (client s)\<lparr>cachedCreds := Some (creds, clock N (net s))\<rparr>\<rparr>)) (ret (Some creds))))
      (\<lambda>r s'. sameRoute s s' \<and> (\<forall>x. r = Inr x \<longrightarrow> (x = None \<longleftrightarrow> \<not> TLSEnabled c))) s" if "TLSEnabled c"
    unfolding wp_bindE
    by (rule wp_mono [OF wp_loadTLS]) (auto simp: wp_simps that split: sum.splits)
  then show ?thesis
    unfolding currentTransportCredentials_def
    by (auto simp: wp_getS wp_if wp_ret Let_def split: option.splits)
qed

lemma wp_dial: "wp (dial N ep) (\<lambda>r s'. sameRoute s s') s"
  unfolding dial_def wp_getS wp_if wp_bindE wp_wrapErr wp_ret
  by (auto intro!: wp_mono [OF wp_currentCreds] wp_onNetI simp: wp_simps split: sum.splits)

lemma wp_sendToEndpoint:
  "wp (sendToEndpoint N n ep p) (\<lambda>r s'. sameRoute s s' \<and> (\<forall>ack. r = Inr ack \<longrightarrow> ackFor N p ack)) s"
proof -
  have rest: "sameRoute s s' \<Longrightarrow> wp (case decodeBatchPayload (unmarshalBatch N) p of
            Inl e \<Rightarrow> throw (TransportError ErrorKindDecode ep n e)
          | Inr batch \<Rightarrow> getS (\<lambda>s1.
              seqE (wrapErr ErrorKindSend ep n (onNet (streamSend N ep batch)))
                (getS (\<lambda>s2. bindE (wrapErr ErrorKindReceive ep n (onNet (streamRecv N ep))) (\<lambda>ack.
                  case validateAck (BatchId batch) ack of
                    Some e \<Rightarrow> throw (TransportError ErrorKindReceive ep n e)
                  | None \<Rightarrow> getS (\<lambda>s3.
                      seqE (ignoreE (onNet (closeSend N ep)))
                        (seqE (modify (\<lambda>s. s\<lparr>client := updateStats ep (clock N (net s2) - clock N (net s1))
                                 (clock N (net s3) - clock N (net s2)) z (client s)\<rparr>))
                          (ret (the ack)))))))))
     (\<lambda>r s'. sameRoute s s' \<and> (\<forall>ack. r = Inr ack \<longrightarrow> ackFor N p ack)) s'" for s' z
    using decodeBatchPayload_valid [of "unmarshalBatch N" p]
    by (auto intro!: wp_onNetI simp: wp_simps validateAck_None updateStats_def ackFor_def split: sum.splits option.splits)
  show ?thesis
    unfolding sendToEndpoint_def Let_def wp_getS
    by (intro wp_seq_inv [where P = "sameRoute s"] rest)
       (auto simp: wp_wrapErr intro!: wp_onNetI wp_mono [OF wp_dial] split: sum.splits)
qed

interpretation tr: endpoint_sender "sendToEndpoint N" "ackFor N" for N
  by unfold_locales (use wp_sendToEndpoint wpD in fastforce)+

end
