(* ===== verification/Drain.thy ===== *)
theory Drain
  imports SpoolProps Transport
begin

text \<open>
  Flushing the spool (\<^verbatim>\<open>DrainWithOptions\<close> of \<^verbatim>\<open>collector/transport/client.go\<close>) and the send half of a
  collection cycle (\<^verbatim>\<open>collectAndSend\<close> of \<^verbatim>\<open>collector/collector.go\<close>), which appends a payload and flushes.

  The loop is written over the two operations of the spool that it calls; the locale
  \<open>durable_queue\<close> states what they promise, the locale \<open>metered_queue\<close> why the loop ends, and both are
  interpreted on \<open>Next\<close> and \<open>Commit\<close>.  The context, the clock and the send callback are operations
  on an arbitrary state \<open>'t\<close>.
\<close>

section \<open>The loop\<close>

record DrainOptions =
  MaxRecords :: int
  MaxDuration :: int

record 't DrainEnv =
  ctxErr :: "'t \<Rightarrow> goerr option \<times> 't"
  timeNow :: "'t \<Rightarrow> int \<times> 't"
  sendPayload :: "bytes \<Rightarrow> 't \<Rightarrow> (goerr + string) \<times> 't"
  statusOf :: "goerr \<Rightarrow> Code"

datatype 'e drain_error =
    DrainAborted goerr | ReadFailed 'e | CommitDroppedFailed 'e | SendFailed goerr | CommitFailed 'e

text \<open>How one iteration of the loop ends: with \<^verbatim>\<open>continue\<close> (or at the end of the body) and the new
  count of drained records, or with \<^verbatim>\<open>return\<close>.\<close>

datatype 'e drain_next = Again int | Return "'e drain_error option"

definition drainStep :: "('q, 'e, bytes option \<times> nat) act \<Rightarrow> (int \<Rightarrow> ('q, 'e, unit) act) \<Rightarrow> ('e \<Rightarrow> bool)
    \<Rightarrow> 't DrainEnv \<Rightarrow> DrainOptions \<Rightarrow> int \<Rightarrow> int \<Rightarrow> 'q \<Rightarrow> 't \<Rightarrow> 'e drain_next \<times> 'q \<times> 't" where
  "drainStep nxt commit corrupt E opts start drained q t =
     (case ctxErr E t of
        (Some e, t) \<Rightarrow> (Return (Some (DrainAborted e)), q, t)
      | (None, t) \<Rightarrow>
          if MaxRecords opts > 0 \<and> drained \<ge> MaxRecords opts then (Return None, q, t)
          else case (if MaxDuration opts > 0
                     then (case timeNow E t of (now, t) \<Rightarrow> (now - start \<ge> MaxDuration opts, t))
                     else (False, t)) of (expired, t) \<Rightarrow>
            if expired then (Return None, q, t)
            else case nxt q of
              (Inl e, q) \<Rightarrow> if corrupt e then (Again drained, q, t) else (Return (Some (ReadFailed e)), q, t)
            | (Inr (None, _), q) \<Rightarrow> (Return None, q, t)
            | (Inr (Some payload, nextOffset), q) \<Rightarrow>
                (case sendPayload E payload t of
                   (Inl err, t) \<Rightarrow>
                     if IsPermanentPayloadError (statusOf E) err then
                       (case commit (int nextOffset) q of
                          (Inl e, q) \<Rightarrow> (Return (Some (CommitDroppedFailed e)), q, t)
                        | (Inr _, q) \<Rightarrow> (Again drained, q, t))
                     else (Return (Some (SendFailed err)), q, t)
                 | (Inr _, t) \<Rightarrow>
                     (case commit (int nextOffset) q of
                        (Inl e, q) \<Rightarrow> (Return (Some (CommitFailed e)), q, t)
                      | (Inr _, q) \<Rightarrow> (Again (drained + 1), q, t))))"

text \<open>The loop with fuel: \<open>None\<close> means that it has not returned yet.\<close>

fun drainLoop :: "('q, 'e, bytes option \<times> nat) act \<Rightarrow> (int \<Rightarrow> ('q, 'e, unit) act) \<Rightarrow> ('e \<Rightarrow> bool)
    \<Rightarrow> 't DrainEnv \<Rightarrow> DrainOptions \<Rightarrow> int \<Rightarrow> nat \<Rightarrow> int \<Rightarrow> 'q \<Rightarrow> 't
    \<Rightarrow> ('e drain_error option \<times> 'q \<times> 't) option" where
  "drainLoop nxt commit corrupt E opts start 0 drained q t = None"
| "drainLoop nxt commit corrupt E opts start (Suc fuel) drained q t =
     (case drainStep nxt commit corrupt E opts start drained q t of
        (Return r, q, t) \<Rightarrow> Some (r, q, t)
      | (Again drained, q, t) \<Rightarrow> drainLoop nxt commit corrupt E opts start fuel drained q t)"

definition isCorruptSegment :: "spool_error \<Rightarrow> bool" where
  "isCorruptSegment e \<longleftrightarrow> e = ErrCorruptSegment"

definition DrainWithOptions :: "nat \<Rightarrow> 't DrainEnv \<Rightarrow> DrainOptions \<Rightarrow> spool \<Rightarrow> 't
    \<Rightarrow> (spool_error drain_error option \<times> spool \<times> 't) option" where
  "DrainWithOptions fuel E opts q t = (case timeNow E t of (start, t) \<Rightarrow>
     drainLoop Next Commit isCorruptSegment E opts start fuel 0 q t)"

definition DrainAll :: "nat \<Rightarrow> 't DrainEnv \<Rightarrow> spool \<Rightarrow> 't \<Rightarrow> (spool_error drain_error option \<times> spool \<times> 't) option" where
  "DrainAll fuel E q t = DrainWithOptions fuel E \<lparr>MaxRecords = 0, MaxDuration = 0\<rparr> q t"

text \<open>The send callback of \<^verbatim>\<open>collectAndSend\<close>: deliver to a controller and return the acknowledged
  batch id; and the environment that the client gives to the loop.\<close>

definition sendCallback :: "'w Net \<Rightarrow> bytes \<Rightarrow> 'w cstate \<Rightarrow> (goerr + string) \<times> 'w cstate" where
  "sendCallback N payload s = (case Send N (sendToEndpoint N) payload s of
       (Inl e, s') \<Rightarrow> (Inl e, s')
     | (Inr ack, s') \<Rightarrow>
         if trimSpace (AckBatchId ack) = '''' then (Inl (Plain ''empty ack batch id from controller''), s')
         else (Inr (AckBatchId ack), s'))"

definition clientEnv :: "'w Net \<Rightarrow> (goerr \<Rightarrow> Code) \<Rightarrow> 'w cstate DrainEnv" where
  "clientEnv N code = \<lparr>
     ctxErr = (\<lambda>s. let s = s\<lparr>net := elapse N (net s)\<rparr> in (contextErr N (net s), s)),
     timeNow = (\<lambda>s. let s = s\<lparr>net := elapse N (net s)\<rparr> in (clock N (net s), s)),
     sendPayload = sendCallback N, statusOf = code\<rparr>"

text \<open>One collection cycle after the probes have run: \<open>collected\<close> is what \<^verbatim>\<open>collectBatch\<close> returned (the
  batch and the drain limits of the protection mode) and \<open>marshal\<close> is \<^verbatim>\<open>proto.Marshal\<close>.\<close>

datatype cycle_error = CollectFailed goerr | MarshalFailed goerr | EnqueueFailed spool_error
  | DrainFailed "spool_error drain_error"

definition collectAndSend :: "nat \<Rightarrow> 'w Net \<Rightarrow> (goerr \<Rightarrow> Code) \<Rightarrow> (TelemetryBatch \<Rightarrow> goerr + bytes)
    \<Rightarrow> goerr + TelemetryBatch \<times> DrainOptions \<Rightarrow> spool \<Rightarrow> 'w cstate
    \<Rightarrow> (cycle_error option \<times> spool \<times> 'w cstate) option" where
  "collectAndSend fuel N code marshal collected q t = (case collected of
       Inl e \<Rightarrow> Some (Some (CollectFailed e), q, t)
     | Inr (batch, opts) \<Rightarrow> (case marshal batch of
         Inl e \<Rightarrow> Some (Some (MarshalFailed e), q, t)
       | Inr payload \<Rightarrow> (case Enqueue payload q of
           (Inl e, q) \<Rightarrow> Some (Some (EnqueueFailed e), q, t)
         | (Inr _, q) \<Rightarrow> (case DrainWithOptions fuel (clientEnv N code) opts q t of
             None \<Rightarrow> None
           | Some (Some e, q, t) \<Rightarrow> Some (Some (DrainFailed e), q, t)
           | Some (None, q, t) \<Rightarrow> Some (None, q, t)))))"

section \<open>What the callback has seen\<close>

datatype send_event = Acked bytes | Rejected bytes goerr | Undelivered bytes goerr

fun eventPayload :: "send_event \<Rightarrow> bytes" where
  "eventPayload (Acked p) = p"
| "eventPayload (Rejected p e) = p"
| "eventPayload (Undelivered p e) = p"

fun settled :: "send_event \<Rightarrow> bool" where
  "settled (Undelivered p e) = False"
| "settled _ = True"

text \<open>\<open>history E evs t t'\<close>: the environment went from \<open>t\<close> to \<open>t'\<close> by looking at the context and
  the clock and by the calls of the send callback that \<open>evs\<close> lists, with their outcomes.\<close>

inductive history :: "'t DrainEnv \<Rightarrow> send_event list \<Rightarrow> 't \<Rightarrow> 't \<Rightarrow> bool" for E where
  hist_nil: "history E [] t t"
| hist_ctx: "history E evs t t1 \<Longrightarrow> ctxErr E t1 = (r, t2) \<Longrightarrow> history E evs t t2"
| hist_time: "history E evs t t1 \<Longrightarrow> timeNow E t1 = (n, t2) \<Longrightarrow> history E evs t t2"
| hist_ack: "history E evs t t1 \<Longrightarrow> sendPayload E p t1 = (Inr a, t2) \<Longrightarrow> history E (evs @ [Acked p]) t t2"
| hist_reject: "history E evs t t1 \<Longrightarrow> sendPayload E p t1 = (Inl e, t2) \<Longrightarrow> IsPermanentPayloadError (statusOf E) e
     \<Longrightarrow> history E (evs @ [Rejected p e]) t t2"
| hist_fail: "history E evs t t1 \<Longrightarrow> sendPayload E p t1 = (Inl e, t2) \<Longrightarrow> \<not> IsPermanentPayloadError (statusOf E) e
     \<Longrightarrow> history E (evs @ [Undelivered p e]) t t2"

lemma history_trans: "history E evs' t1 t2 \<Longrightarrow> history E evs t t1 \<Longrightarrow> history E (evs @ evs') t t2"
proof (induction rule: history.induct)
  case (hist_ack evs' t' t1 p a t2)
  then show ?case using history.hist_ack [of E "evs @ evs'" t t1 p a t2] by simp
next
  case (hist_reject evs' t' t1 p e t2)
  then show ?case using history.hist_reject [of E "evs @ evs'" t t1 p e t2] by simp
next
  case (hist_fail evs' t' t1 p e t2)
  then show ?case using history.hist_fail [of E "evs @ evs'" t t1 p e t2] by simp
qed (auto intro: history.intros)

text \<open>What a flush does to a backlog \<open>ps\<close>: the sends are for its payloads in order, every payload
  that left the queue was settled, and at most the last send is for a payload that stayed.\<close>

definition flushed :: "bytes list \<Rightarrow> send_event list \<Rightarrow> nat \<Rightarrow> bool" where
  "flushed ps evs k \<longleftrightarrow> k \<le> length ps \<and> map eventPayload evs = take (length evs) ps
     \<and> length evs \<le> length ps \<and> k \<le> length evs \<and> length evs \<le> Suc k \<and> list_all settled (take k evs)"

lemma flushed_0 [simp]: "flushed ps [] 0"
  by (simp add: flushed_def)

lemma flushed_Cons:
  assumes "flushed ps evs k" "settled ev"
  shows "flushed (eventPayload ev # ps) (ev # evs) (Suc k)"
  using assms by (simp add: flushed_def)

lemma flushed_stay: "flushed (eventPayload ev # ps) [ev] 0"
  by (simp add: flushed_def)

lemma history_failed:
  "history E evs t t' \<Longrightarrow> Undelivered p e \<in> set evs
     \<Longrightarrow> \<exists>a b. sendPayload E p a = (Inl e, b) \<and> \<not> IsPermanentPayloadError (statusOf E) e"
  by (induction rule: history.induct) auto

lemma history_acked:
  "history E evs t t' \<Longrightarrow> Acked p \<in> set evs \<Longrightarrow> \<exists>a b id. sendPayload E p a = (Inr id, b)"
  by (induction rule: history.induct) auto

lemma history_rejected:
  "history E evs t t' \<Longrightarrow> Rejected p e \<in> set evs
     \<Longrightarrow> \<exists>a b. sendPayload E p a = (Inl e, b) \<and> IsPermanentPayloadError (statusOf E) e"
  by (induction rule: history.induct) auto

text \<open>The paths through one iteration.\<close>

definition limited :: "DrainOptions \<Rightarrow> bool" where
  "limited opts \<longleftrightarrow> MaxRecords opts > 0 \<or> MaxDuration opts > 0"

lemma drainStep_cases:
  obtains (Stop) e t' where "history E [] t t'" "drainStep nxt commit corrupt E opts start n q t = (Return (Some (DrainAborted e)), q, t')"
      "\<exists>t1 t2. ctxErr E t1 = (Some e, t2)"
    | (Limit) t' where "history E [] t t'" "drainStep nxt commit corrupt E opts start n q t = (Return None, q, t')" "limited opts"
    | (Read) e q1 t' where "history E [] t t'" "nxt q = (Inl e, q1)"
        "drainStep nxt commit corrupt E opts start n q t = (if corrupt e then Again n else Return (Some (ReadFailed e)), q1, t')"
    | (Empty) off q1 t' where "history E [] t t'" "nxt q = (Inr (None, off), q1)"
        "drainStep nxt commit corrupt E opts start n q t = (Return None, q1, t')"
    | (Fail) p off q1 e t' where "history E [Undelivered p e] t t'" "nxt q = (Inr (Some p, off), q1)"
        "drainStep nxt commit corrupt E opts start n q t = (Return (Some (SendFailed e)), q1, t')"
    | (Settle) p off q1 ev r q2 t' where "history E [ev] t t'" "nxt q = (Inr (Some p, off), q1)"
        "settled ev" "eventPayload ev = p" "commit (int off) q1 = (r, q2)"
        "drainStep nxt commit corrupt E opts start n q t =
           (case r of Inr _ \<Rightarrow> Again (case ev of Acked _ \<Rightarrow> n + 1 | _ \<Rightarrow> n)
            | Inl e \<Rightarrow> Return (Some (case ev of Acked _ \<Rightarrow> CommitFailed e | _ \<Rightarrow> CommitDroppedFailed e)), q2, t')"
proof -
  obtain c t1 where c: "ctxErr E t = (c, t1)" by fastforce
  from hist_ctx [OF hist_nil this] have h1: "history E [] t t1" .
  obtain x t2 where x: "(if MaxDuration opts > 0 then (case timeNow E t1 of (now, t) \<Rightarrow> (now - start \<ge> MaxDuration opts, t))
     else (False, t1)) = (x, t2)" by fastforce
  then have h2: "history E [] t t2" using h1 by (auto split: if_splits prod.splits intro: hist_time)
  obtain r q1 where nx: "nxt q = (r, q1)" by fastforce
  consider (1) e where "c = Some e" | (2) "c = None" "MaxRecords opts > 0 \<and> n \<ge> MaxRecords opts"
    | (3) "c = None" "\<not> (MaxRecords opts > 0 \<and> n \<ge> MaxRecords opts)" "x"
    | (4) "c = None" "\<not> (MaxRecords opts > 0 \<and> n \<ge> MaxRecords opts)" "\<not> x" by (cases c) auto
  then show thesis
  proof cases
    case 1 then show ?thesis using c h1 by (intro Stop) (auto simp: drainStep_def)
  next
    case 2 then show ?thesis using c h1 by (intro Limit) (auto simp: drainStep_def limited_def)
  next
    case 3 then show ?thesis using c x h2 by (intro Limit) (auto simp: drainStep_def limited_def split: if_splits)
  next
    case 4
    show ?thesis
    proof (cases r)
      case (Inl e) then show ?thesis using 4 c x h2 nx by (intro Read) (auto simp: drainStep_def)
    next
      case (Inr a)
      obtain po off where a: "a = (po, off)" by fastforce
      show ?thesis
      proof (cases po)
        case None then show ?thesis using 4 c x h2 nx Inr a by (intro Empty) (auto simp: drainStep_def)
      next
        case (Some p)
        obtain sr t3 where s: "sendPayload E p t2 = (sr, t3)" by fastforce
        obtain cr q2 where cm: "commit (int off) q1 = (cr, q2)" by fastforce
        note st = 4 c x nx Inr a Some s cm
        show ?thesis
        proof (cases sr)
          case (Inl e)
          show ?thesis
          proof (cases "IsPermanentPayloadError (statusOf E) e")
            case True
            then show ?thesis using st Inl hist_reject [OF h2, of p e t3]
              by (intro Settle [of "Rejected p e"]) (auto simp: drainStep_def split: sum.splits)
          next
            case False
            then show ?thesis using st Inl hist_fail [OF h2, of p e t3] by (intro Fail) (auto simp: drainStep_def)
          qed
        next
          case (Inr b)
          then show ?thesis using st hist_ack [OF h2, of p b t3]
            by (intro Settle [of "Acked p"]) (auto simp: drainStep_def split: sum.splits)
        qed
      qed
    qed
  qed
qed

section \<open>Interfaces of the queue\<close>

locale durable_queue =
  fixes nxt :: "('q, 'e, bytes option \<times> nat) act" and commit :: "int \<Rightarrow> ('q, 'e, unit) act"
    and corrupt :: "'e \<Rightarrow> bool" and holds :: "'q \<Rightarrow> bytes list \<Rightarrow> bool"
  assumes nxt_error: "holds q ps \<Longrightarrow> nxt q = (Inl e, q') \<Longrightarrow> \<not> corrupt e \<and> holds q' ps"
    and nxt_empty: "holds q ps \<Longrightarrow> nxt q = (Inr (None, off), q') \<Longrightarrow> ps = [] \<and> holds q' ps"
    and nxt_payload: "holds q ps \<Longrightarrow> nxt q = (Inr (Some p, off), q') \<Longrightarrow> \<exists>ps'. ps = p # ps' \<and> holds q' ps"
    and commit_payload: "holds q (p # ps) \<Longrightarrow> nxt q = (Inr (Some p, off), q') \<Longrightarrow> commit (int off) q' = (r, q'')
      \<Longrightarrow> holds q'' (if r = Inr () then ps else p # ps)"
begin

abbreviation "step \<equiv> drainStep nxt commit corrupt"
abbreviation "loop \<equiv> drainLoop nxt commit corrupt"

text \<open>One iteration goes on only with an acknowledged or permanently rejected payload committed, and
  a returning one leaves the backlog as it was.\<close>

lemma step_Again:
  assumes "holds q ps" "step E opts start n q t = (Again n', q', t')"
  shows "\<exists>ev ps'. ps = eventPayload ev # ps' \<and> settled ev \<and> holds q' ps' \<and> history E [ev] t t'
    \<and> n' = (case ev of Acked _ \<Rightarrow> n + 1 | _ \<Rightarrow> n)"
proof (rule drainStep_cases [of E t nxt commit corrupt opts start n q])
  fix e q1 t1 assume "nxt q = (Inl e, q1)"
    "step E opts start n q t = (if corrupt e then Again n else Return (Some (ReadFailed e)), q1, t1)"
  then show ?thesis using assms nxt_error by fastforce
next
  fix p off q1 ev r q2 t1
  assume *: "history E [ev] t t1" "nxt q = (Inr (Some p, off), q1)" "settled ev" "eventPayload ev = p"
    "commit (int off) q1 = (r, q2)"
    "step E opts start n q t = (case r of Inr _ \<Rightarrow> Again (case ev of Acked _ \<Rightarrow> n + 1 | _ \<Rightarrow> n)
            | Inl e \<Rightarrow> Return (Some (case ev of Acked _ \<Rightarrow> CommitFailed e | _ \<Rightarrow> CommitDroppedFailed e)), q2, t1)"
  obtain ps' where ps: "ps = p # ps'" using nxt_payload [OF assms(1) *(2)] by blast
  have "r = Inr ()" using assms(2) *(6) by (cases r) auto
  then show ?thesis using commit_payload [OF assms(1) [unfolded ps] *(2,5)] ps * assms(2) by auto
qed (use assms in auto)

lemma step_Return:
  assumes "holds q ps" "step E opts start n q t = (Return r, q', t')"
  shows "\<exists>evs. flushed ps evs 0 \<and> holds q' ps \<and> history E evs t t' \<and> (r = None \<longrightarrow> limited opts \<or> ps = [])
    \<and> (evs \<noteq> [] \<longrightarrow> r \<noteq> None)"
proof (rule drainStep_cases [of E t nxt commit corrupt opts start n q])
  fix e q1 t1 assume *: "history E [] t t1" "nxt q = (Inl e, q1)"
    "step E opts start n q t = (if corrupt e then Again n else Return (Some (ReadFailed e)), q1, t1)"
  with assms(2) nxt_error [OF assms(1) *(2)] show ?thesis by (intro exI [of _ "[]"]) auto
next
  fix off q1 t1 assume "history E [] t t1" "nxt q = (Inr (None, off), q1)" "step E opts start n q t = (Return None, q1, t1)"
  then show ?thesis using assms nxt_empty [OF assms(1)] by (intro exI [of _ "[]"]) auto
next
  fix p off q1 e t1
  assume *: "history E [Undelivered p e] t t1" "nxt q = (Inr (Some p, off), q1)"
    "step E opts start n q t = (Return (Some (SendFailed e)), q1, t1)"
  with assms(2) nxt_payload [OF assms(1) *(2)] show ?thesis
    by (intro exI [of _ "[Undelivered p e]"]) (auto simp: flushed_def)
next
  fix p off q1 ev cr q2 t1
  assume *: "history E [ev] t t1" "nxt q = (Inr (Some p, off), q1)" "settled ev" "eventPayload ev = p"
    "commit (int off) q1 = (cr, q2)"
    "step E opts start n q t = (case cr of Inr _ \<Rightarrow> Again (case ev of Acked _ \<Rightarrow> n + 1 | _ \<Rightarrow> n)
            | Inl e \<Rightarrow> Return (Some (case ev of Acked _ \<Rightarrow> CommitFailed e | _ \<Rightarrow> CommitDroppedFailed e)), q2, t1)"
  obtain ps' where ps: "ps = p # ps'" using nxt_payload [OF assms(1) *(2)] by blast
  have "cr \<noteq> Inr ()" using assms(2) *(6) by auto
  then show ?thesis using commit_payload [OF assms(1) [unfolded ps] *(2,5)] ps * assms(2)
    by (intro exI [of _ "[ev]"]) (auto simp: flushed_def split: sum.splits)
qed (use assms in \<open>auto intro: exI [of _ "[]"]\<close>)

text \<open>The flush as a whole.\<close>

lemma loop_flushed:
  assumes "holds q ps" "loop E opts start fuel n q t = Some (r, q', t')"
  shows "\<exists>evs k. flushed ps evs k \<and> holds q' (drop k ps) \<and> history E evs t t'
    \<and> (r = None \<longrightarrow> length evs = k \<and> (limited opts \<or> k = length ps))"
  using assms
proof (induction fuel arbitrary: q t n ps)
  case (Suc fuel)
  obtain x q1 t1 where st: "step E opts start n q t = (x, q1, t1)" by (metis surj_pair)
  show ?case
  proof (cases x)
    case (Again n')
    from step_Again [OF Suc.prems(1) st [unfolded Again]] obtain ev ps' where
      ev: "ps = eventPayload ev # ps'" "settled ev" "holds q1 ps'" "history E [ev] t t1" by blast
    from Suc.IH [OF ev(3), of n' t1] Suc.prems(2) st Again obtain evs k where
      k: "flushed ps' evs k" "holds q' (drop k ps')" "history E evs t1 t'"
        "r = None \<longrightarrow> length evs = k \<and> (limited opts \<or> k = length ps')" by auto
    with ev history_trans [OF k(3) ev(4)] flushed_Cons [OF k(1) ev(2)] show ?thesis
      by (intro exI [of _ "ev # evs"] exI [of _ "Suc k"]) auto
  next
    case (Return r')
    with Suc.prems(2) st have "r' = r" "q1 = q'" "t1 = t'" by simp_all
    with step_Return [OF Suc.prems(1) st [unfolded Return]] obtain evs where
      "flushed ps evs 0" "holds q' ps" "history E evs t t'" "r = None \<longrightarrow> limited opts \<or> ps = []" "evs \<noteq> [] \<longrightarrow> r \<noteq> None"
      by blast
    then show ?thesis by (intro exI [of _ evs] exI [of _ 0]) auto
  qed
qed simp

end

text \<open>A queue on a disk without errors.\<close>

definition alive :: "'t DrainEnv \<Rightarrow> bool" where
  "alive E \<longleftrightarrow> (\<forall>t. fst (ctxErr E t) = None)"

definition sendsSettle :: "'t DrainEnv \<Rightarrow> bytes list \<Rightarrow> bool" where
  "sendsSettle E ps \<longleftrightarrow> (\<forall>p \<in> set ps. \<forall>t e t'. sendPayload E p t = (Inl e, t') \<longrightarrow> IsPermanentPayloadError (statusOf E) e)"

locale reliable_queue = durable_queue +
  fixes sound :: "'a \<Rightarrow> bool"
  assumes nxt_sound: "sound q \<Longrightarrow> holds q ps \<Longrightarrow> nxt q = (r, q') \<Longrightarrow> sound q' \<and> (\<exists>x. r = Inr x)"
    and commit_sound: "sound q \<Longrightarrow> holds q (p # ps) \<Longrightarrow> nxt q = (Inr (Some p, off), q') \<Longrightarrow> commit (int off) q' = (cr, q'')
      \<Longrightarrow> sound q'' \<and> cr = Inr ()"
begin

text \<open>If the context stays alive and no send fails for a reason that may pass, nothing stops the
  loop before the queue is empty.\<close>

lemma step_sound:
  assumes "sound q" "holds q ps" "\<not> limited opts" and ctx: "alive E" and send: "sendsSettle E ps"
    and st: "step E opts start n q t = (x, q', t')"
  shows "sound q' \<and> (\<forall>r. x = Return r \<longrightarrow> r = None)"
proof (rule drainStep_cases [of E t nxt commit corrupt opts start n q])
  fix e t1 assume "\<exists>t1 t2. ctxErr E t1 = (Some e, t2)"
  then show ?thesis using ctx by (metis alive_def fst_conv option.distinct(1))
next
  fix e q1 t1 assume "nxt q = (Inl e, q1)"
  then show ?thesis using nxt_sound [OF assms(1,2)] by blast
next
  fix off q1 t1 assume "nxt q = (Inr (None, off), q1)" "step E opts start n q t = (Return None, q1, t1)"
  then show ?thesis using nxt_sound [OF assms(1,2)] st by auto
next
  fix p off q1 e t1
  assume *: "history E [Undelivered p e] t t1" "nxt q = (Inr (Some p, off), q1)"
  obtain a b where "sendPayload E p a = (Inl e, b)" "\<not> IsPermanentPayloadError (statusOf E) e"
    using history_failed [OF *(1)] by auto
  moreover have "p \<in> set ps" using nxt_payload [OF assms(2) *(2)] by auto
  ultimately show ?thesis using send unfolding sendsSettle_def by blast
next
  fix p off q1 ev r q2 t1
  assume *: "nxt q = (Inr (Some p, off), q1)" "commit (int off) q1 = (r, q2)"
    "step E opts start n q t = (case r of Inr _ \<Rightarrow> Again (case ev of Acked _ \<Rightarrow> n + 1 | _ \<Rightarrow> n)
            | Inl e \<Rightarrow> Return (Some (case ev of Acked _ \<Rightarrow> CommitFailed e | _ \<Rightarrow> CommitDroppedFailed e)), q2, t1)"
  obtain ps' where ps: "ps = p # ps'" using nxt_payload [OF assms(2) *(1)] by blast
  with commit_sound [OF assms(1) _ *(1,2)] assms(2) have "sound q2" "r = Inr ()" by auto
  with *(3) st show ?thesis by auto
qed (use assms in auto)

lemma loop_sound:
  assumes "sound q" "holds q ps" "\<not> limited opts" "alive E" "sendsSettle E ps"
    "loop E opts start fuel n q t = Some (r, q', t')"
  shows "r = None"
  using assms
proof (induction fuel arbitrary: q t n ps)
  case (Suc fuel)
  obtain x q1 t1 where st: "step E opts start n q t = (x, q1, t1)" by (metis surj_pair)
  note snd = step_sound [OF Suc.prems(1-5) st]
  show ?case
  proof (cases x)
    case (Again n')
    from step_Again [OF Suc.prems(2) st [unfolded Again]] obtain ev ps' where
      ev: "ps = eventPayload ev # ps'" "holds q1 ps'" by blast
    show ?thesis
      by (rule Suc.IH [OF _ ev(2) Suc.prems(3,4)]) (use snd ev Suc.prems(5,6) st Again in \<open>auto simp: sendsSettle_def\<close>)
  qed (use snd Suc.prems(6) st in auto)
qed simp

end

text \<open>Why a flush ends: everything that makes it go around again shortens the backlog.\<close>

locale metered_queue =
  fixes nxt :: "('q, 'e, bytes option \<times> nat) act" and commit :: "int \<Rightarrow> ('q, 'e, unit) act"
    and corrupt :: "'e \<Rightarrow> bool" and len :: "'q \<Rightarrow> nat"
  assumes nxt_shrinks: "nxt q = (Inl e, q') \<Longrightarrow> corrupt e \<Longrightarrow> len q' < len q"
    and commit_shrinks: "nxt q = (Inr (Some p, off), q') \<Longrightarrow> commit (int off) q' = (Inr (), q'') \<Longrightarrow> len q'' < len q"
begin

lemma step_shrinks:
  assumes "drainStep nxt commit corrupt E opts start n q t = (Again n', q', t')"
  shows "len q' < len q"
proof (rule drainStep_cases [of E t nxt commit corrupt opts start n q])
  fix e q1 t1 assume "nxt q = (Inl e, q1)"
    "drainStep nxt commit corrupt E opts start n q t = (if corrupt e then Again n else Return (Some (ReadFailed e)), q1, t1)"
  with assms show ?thesis using nxt_shrinks by (auto split: if_splits)
next
  fix p off q1 ev r q2 t1
  assume "nxt q = (Inr (Some p, off), q1)" "commit (int off) q1 = (r, q2)"
    "drainStep nxt commit corrupt E opts start n q t = (case r of Inr _ \<Rightarrow> Again (case ev of Acked _ \<Rightarrow> n + 1 | _ \<Rightarrow> n)
            | Inl e \<Rightarrow> Return (Some (case ev of Acked _ \<Rightarrow> CommitFailed e | _ \<Rightarrow> CommitDroppedFailed e)), q2, t1)"
  with assms show ?thesis using commit_shrinks by (cases r) auto
qed (use assms in auto)

lemma loop_returns: "len q < fuel \<Longrightarrow> drainLoop nxt commit corrupt E opts start fuel n q t \<noteq> None"
proof (induction fuel arbitrary: q t n)
  case (Suc fuel)
  then show ?case
    by (auto split: prod.splits drain_next.splits dest!: step_shrinks)
qed simp

end

section \<open>The spool implements the queue\<close>

definition backlog :: "spool \<Rightarrow> bytes list \<Rightarrow> bool" where
  "backlog s ps \<longleftrightarrow> (\<exists>all c q. spoolInv s all c q \<and> drop c all = ps)"

lemma backlogI: "spoolInv s all c q \<Longrightarrow> backlog s (drop c all)"
  by (auto simp: backlog_def)

lemma spoolInv_same_faults: "s' = s\<lparr>faults := f\<rparr> \<Longrightarrow> spoolInv s' all c q = spoolInv s all c q"
  by simp

lemma backlog_same_faults: "s' = s\<lparr>faults := f\<rparr> \<Longrightarrow> backlog s ps \<Longrightarrow> backlog s' ps"
  by (simp add: backlog_def)

interpretation sq: durable_queue Next Commit isCorruptSegment backlog
proof
  fix s s' :: spool and ps e
  assume "backlog s ps" "Next s = (Inl e, s')"
  then obtain all c q where inv: "spoolInv s all c q" "drop c all = ps" by (auto simp: backlog_def)
  from wpD [OF wp_Next [OF inv(1)] \<open>Next s = _\<close>] have "e = ErrIO" "s' = s\<lparr>faults := faults s'\<rparr>"
    by (auto simp: nextResult_def)
  with \<open>backlog s ps\<close> show "\<not> isCorruptSegment e \<and> backlog s' ps"
    by (auto simp: isCorruptSegment_def intro: backlog_same_faults)
next
  fix s s' :: spool and ps off
  assume "backlog s ps" "Next s = (Inr (None, off), s')"
  then obtain all c q where inv: "spoolInv s all c q" "drop c all = ps" by (auto simp: backlog_def)
  from wpD [OF wp_Next [OF inv(1)] \<open>Next s = _\<close>] have "\<not> c < length all" "s' = s\<lparr>faults := faults s'\<rparr>"
    by (auto simp: nextResult_def split: if_splits)
  with \<open>backlog s ps\<close> inv show "ps = [] \<and> backlog s' ps"
    by (auto intro: backlog_same_faults)
next
  fix s s' :: spool and ps p off
  assume "backlog s ps" "Next s = (Inr (Some p, off), s')"
  then obtain all c q where inv: "spoolInv s all c q" "drop c all = ps" by (auto simp: backlog_def)
  from wpD [OF wp_Next [OF inv(1)] \<open>Next s = _\<close>] have "c < length all" "p = all ! c" "s' = s\<lparr>faults := faults s'\<rparr>"
    by (auto simp: nextResult_def split: if_splits)
  with \<open>backlog s ps\<close> inv have "ps = p # drop (Suc c) all" "backlog s' ps"
    by (auto simp: Cons_nth_drop_Suc intro: backlog_same_faults)
  then show "\<exists>ps'. ps = p # ps' \<and> backlog s' ps" by blast
next
  fix s s' s'' :: spool and ps p off r
  assume "backlog s (p # ps)" and run: "Next s = (Inr (Some p, off), s')" "Commit (int off) s' = (r, s'')"
  then obtain all c q where inv: "spoolInv s all c q" "drop c all = p # ps" by (auto simp: backlog_def)
  from wpD [OF wp_Next [OF inv(1)] run(1)] have n: "c < length all" "off = cursorOf all (Suc c)" "s' = s\<lparr>faults := faults s'\<rparr>"
    by (auto simp: nextResult_def split: if_splits)
  have inv': "spoolInv s' all c q" using inv(1) n(3) spoolInv_same_faults by blast
  have "commitResult s' all c q (Suc c) r s''"
    using wpD [OF wp_Commit [OF inv', of "Suc c"]] run(2) n by simp
  then have "(r = Inr () \<longrightarrow> spoolInv s'' all (Suc c) (Suc c)) \<and> (r \<noteq> Inr () \<longrightarrow> (\<exists>q. spoolInv s'' all c q))"
    by (auto simp: commitResult_def split: sum.splits)
  moreover have "drop (Suc c) all = ps" using inv(2) by (metis drop_Suc list.sel(3) tl_drop)
  ultimately show "backlog s'' (if r = Inr () then ps else p # ps)"
    using inv(2) by (auto simp: backlog_def)
qed

interpretation sr: reliable_queue Next Commit isCorruptSegment backlog quiet
proof
  fix s s' :: spool and ps r
  assume "quiet s" "backlog s ps" "Next s = (r, s')"
  then show "quiet s' \<and> (\<exists>x. r = Inr x)" using quiet_Next by (auto simp: backlog_def)
next
  fix s s' s'' :: spool and p ps off r
  assume *: "quiet s" "backlog s (p # ps)" "Next s = (Inr (Some p, off), s')" "Commit (int off) s' = (r, s'')"
  then obtain all c q where inv: "spoolInv s all c q" by (auto simp: backlog_def)
  from quiet_Next [OF *(1) inv] *(3) have n: "c < length all" "off = cursorOf all (Suc c)" "s' = s"
    by (auto split: if_splits)
  with wpD [OF quiet_Commit [OF *(1) inv, of "Suc c"]] *(4) show "quiet s'' \<and> r = Inr ()"
    by (auto simp: succeeds_def)
qed

text \<open>For the termination of a flush nothing is assumed about the files.\<close>

lemma Next_no_log:
  assumes "disk s ''spool.log'' = None \<or> \<not> fileOpen s"
  shows "wp Next (\<lambda>r s'. \<exists>e. r = Inl e \<and> e \<noteq> ErrCorruptSegment) s"
  unfolding Next_def wp_getS using assms
  by (auto simp: wp_simps statSize_def intro!: wp_sysI)

lemma Next_log:
  assumes "Next s = (r, s')" "\<And>e. r = Inl e \<Longrightarrow> e = ErrCorruptSegment"
  obtains i where "disk s ''spool.log'' = Some i" "fileOpen s"
  using wpD [OF Next_no_log assms(1)] assms(2) by (cases "disk s ''spool.log''") auto

lemma wp_boundary_faults:
  assumes "disk s ''spool.log'' = Some i" "\<And>b g. Q (Inr b) (s\<lparr>faults := g\<rparr>)"
  shows "wp (recordBoundaryLocked t (length (content i))) Q (s\<lparr>faults := f\<rparr>)"
  unfolding recordBoundaryLocked_def
  using boundaryLoop_shape [OF assms(1), of t 0 f] assms(2)
  by (auto simp: wp_def split: prod.splits)

lemma wp_Commit_shrinks:
  assumes "fileOpen s" "disk s ''spool.log'' = Some i" "offset s < n" "n \<le> length (content i)"
  shows "wp (Commit (int n)) (\<lambda>r s'. r = Inr () \<longrightarrow> backlogLen s' < backlogLen s) s"
  unfolding Commit_def wp_getS using assms
  apply (simp add: wp_bindE)
  apply (rule wp_statSizeI [OF assms(2)])
   apply (simp_all add: wp_bindE)
  apply (rule wp_boundary_faults [OF assms(2)])
  apply (auto simp: wp_simps intro!: wp_persistCursorI simp: backlogLen_def agree_def)
  done

interpretation sm: metered_queue Next Commit isCorruptSegment backlogLen
proof
  fix s s' :: spool and e
  assume run: "Next s = (Inl e, s')" "isCorruptSegment e"
  then obtain i where i: "disk s ''spool.log'' = Some i" "fileOpen s"
    using Next_log [OF run(1)] by (auto simp: isCorruptSegment_def)
  from wpD [OF wp_Next_any [OF i(2,1)] run(1)] run(2) show "backlogLen s' < backlogLen s"
    by (simp add: nextChecked_def isCorruptSegment_def)
next
  fix s s' s'' :: spool and p off
  assume run: "Next s = (Inr (Some p, off), s')" "Commit (int off) s' = (Inr (), s'')"
  then obtain i where i: "disk s ''spool.log'' = Some i" "fileOpen s"
    using Next_log [OF run(1)] by auto
  from wpD [OF wp_Next_any [OF i(2,1)] run(1)]
  obtain f where n: "s' = s\<lparr>faults := f\<rparr>" "offset s < off" "off \<le> length (content i)"
    by (auto simp: nextChecked_def)
  with i have "fileOpen s'" "disk s' ''spool.log'' = Some i" "offset s' < off" by simp_all
  from wpD [OF wp_Commit_shrinks [OF this n(3)] run(2)] n(1) i show "backlogLen s'' < backlogLen s"
    by (simp add: backlogLen_def)
qed

end
