(* ===== verification/TransportProps.thy ===== *)
theory TransportProps
  imports Drain
begin

text \<open>
  The correctness properties of the transport client: acknowledged delivery, failover, the
  classification of errors, endpoint handling, and the flush of the spool.
\<close>

section \<open>Configuration\<close>

text \<open>Endpoint normalization: the result has no duplicates, no blank and no untrimmed entry, holds
  exactly the trimmed non-blank endpoints of the input, and normalizing again changes nothing.\<close>

theorem normalizeEndpoints_correct:
  "distinct (normalizeEndpoints es)
   \<and> set (normalizeEndpoints es) = trimSpace ` set es - {''''}
   \<and> normalizeEndpoints (normalizeEndpoints es) = normalizeEndpoints es"
proof -
  have clean: "cleanEndpoints (normalizeEndpoints es)"
    unfolding normalizeEndpoints_def by (rule normalizeEndpointsLoop_clean) (simp add: cleanEndpoints_def)
  then have "normalizeEndpointsLoop [] (normalizeEndpoints es) = normalizeEndpoints es"
    by (subst normalizeEndpointsLoop_id) (auto simp: cleanEndpoints_def)
  moreover have "distinct (normalizeEndpoints es)" using clean by (simp add: cleanEndpoints_def)
  moreover have "set (normalizeEndpoints es) = trimSpace ` set es - {''''}"
    using normalizeEndpointsLoop_set [of "[]" es] by (simp add: normalizeEndpoints_def)
  ultimately show ?thesis unfolding normalizeEndpoints_def [of "normalizeEndpoints es"] by blast
qed

text \<open>A client only ever works with a usable configuration: \<open>New\<close> and \<open>ApplyConfig\<close> succeed exactly
  when the normalized configuration names an endpoint, has TLS or an explicit plaintext permission,
  and a token if authentication is on; TLS excludes plaintext, the timeouts and the reload interval
  are positive.  A refused \<open>ApplyConfig\<close> leaves the client as it was; an accepted one restarts the
  rotation and drops cached credentials and connections.\<close>

theorem client_config:
  "((\<exists>cl. New c = Inr cl) \<longleftrightarrow> checkConfig (normalizeConfig c) = None)
   \<and> (case ApplyConfig c cl of
      (Inl e, cl') \<Rightarrow> checkConfig (normalizeConfig c) = Some e \<and> cl' = cl
    | (Inr _, cl') \<Rightarrow> checkConfig (normalizeConfig c) = None \<and> cfg cl' = normalizeConfig c \<and> nextIdx cl' = 0
        \<and> cachedCreds cl' = None \<and> conns cl' = [] \<and> stats cl' = stats cl)
   \<and> (checkConfig (normalizeConfig c) = None \<longleftrightarrow> (\<exists>e \<in> set (Endpoints c). trimSpace e \<noteq> '''')
     \<and> (TLSEnabled (TLS c) \<or> AllowPlaintext c) \<and> (AuthEnabled (Auth c) \<longrightarrow> trimSpace (BearerToken (Auth c)) \<noteq> ''''))
   \<and> \<not> (TLSEnabled (TLS (normalizeConfig c)) \<and> AllowPlaintext (normalizeConfig c))
   \<and> 0 < DialTimeout (normalizeConfig c) \<and> 0 < RPCTimeout (normalizeConfig c) \<and> 0 < ReloadInterval (TLS (normalizeConfig c))"
proof (intro conjI)
  show "(\<exists>cl. New c = Inr cl) \<longleftrightarrow> checkConfig (normalizeConfig c) = None"
    by (auto simp: New_def Let_def split: option.splits)
  show "case ApplyConfig c cl of
      (Inl e, cl') \<Rightarrow> checkConfig (normalizeConfig c) = Some e \<and> cl' = cl
    | (Inr _, cl') \<Rightarrow> checkConfig (normalizeConfig c) = None \<and> cfg cl' = normalizeConfig c \<and> nextIdx cl' = 0
        \<and> cachedCreds cl' = None \<and> conns cl' = [] \<and> stats cl' = stats cl"
    by (auto simp: ApplyConfig_def Let_def throw_def modify_def closeConnections_def split: option.splits)
  have "normalizeEndpoints (Endpoints c) = [] \<longleftrightarrow> \<not> (\<exists>e \<in> set (Endpoints c). trimSpace e \<noteq> '''')"
    using normalizeEndpointsLoop_set [of "[]" "Endpoints c"]
    by (auto simp: normalizeEndpoints_def simp flip: set_empty)
  then show "checkConfig (normalizeConfig c) = None \<longleftrightarrow> (\<exists>e \<in> set (Endpoints c). trimSpace e \<noteq> '''')
     \<and> (TLSEnabled (TLS c) \<or> AllowPlaintext c) \<and> (AuthEnabled (Auth c) \<longrightarrow> trimSpace (BearerToken (Auth c)) \<noteq> '''')"
    by (auto simp: checkConfig_def normalizeConfig_def)
qed (auto simp: normalizeConfig_def defaultDialTimeout_def defaultRPCTimeout_def defaultTLSReloadFreq_def)

definition exampleConfig :: "string list \<Rightarrow> Config" where
  "exampleConfig es = \<lparr>Endpoints = es, Mirror = False, Compress = False, DialTimeout = 5, RPCTimeout = 5,
     AllowPlaintext = True,
     TLS = \<lparr>TLSEnabled = False, CAFile = '''', CertFile = '''', KeyFile = '''', ServerName = '''',
            InsecureSkipVerify = False, ReloadInterval = 5\<rparr>,
     Auth = \<lparr>AuthEnabled = True, BearerToken = ''secret''\<rparr>\<rparr>"

theorem client_config_witness: "\<exists>cl. New (exampleConfig [''c1:9000'']) = Inr cl"
  using client_config [of "exampleConfig [''c1:9000'']"]
  by (simp add: exampleConfig_def trimSpace_def isSpace_def)

section \<open>Delivery\<close>
section \<open>Delivery\<close>

text \<open>\<open>IsPermanentPayloadError\<close> is true exactly of the errors whose tree contains a batch validation
  error, a decode failure, or a stream, send or receive failure with one of the three status codes
  that blame the payload; the order in which the code searches the tree does not matter.\<close>

theorem IsPermanentPayloadError_iff:
  "IsPermanentPayloadError code err \<longleftrightarrow> (\<exists>e \<in> set (nodes err). permanentNode code e)"
  by (rule IsPermanent_nodes)




definition exampleClient :: "string list \<Rightarrow> unit cstate" where
  "exampleClient es = \<lparr>client = \<lparr>cfg = exampleConfig es, nextIdx = 0, stats = emptyStats, cachedCreds = None, conns = []\<rparr>, net = ()\<rparr>"



text \<open>The rotation is fair: a send tries every configured endpoint, and of any \<open>n\<close> consecutive sends
  (\<open>n\<close> the number of endpoints) exactly one starts at each endpoint.\<close>

theorem rotation_fair:
  assumes "Endpoints (cfg cl) \<noteq> []" "distinct (Endpoints (cfg cl))" "\<not> Mirror (cfg cl)" "2 \<le> length (Endpoints (cfg cl))"
  shows "distinct (snd (fst (snapshotConfigAndOrder cl)))
    \<and> set (snd (fst (snapshotConfigAndOrder cl))) = set (Endpoints (cfg cl))
    \<and> map (\<lambda>i. hd (snd (fst (snapshotConfigAndOrder (((\<lambda>c. snd (snapshotConfigAndOrder c)) ^^ i) cl)))))
          [0..<length (Endpoints (cfg cl))] = snd (fst (snapshotConfigAndOrder cl))"
proof -
  let ?es = "Endpoints (cfg cl)"
  have one: "snapshotConfigAndOrder c = ((cfg c, rotate (nextIdx c) (Endpoints (cfg c))), c\<lparr>nextIdx := nextIdx c + 1\<rparr>)"
    if "cfg c = cfg cl" for c
    using that assms by (simp add: snapshotConfigAndOrder_def Let_def rotation_rotate)
  have it: "((\<lambda>c. snd (snapshotConfigAndOrder c)) ^^ i) cl = cl\<lparr>nextIdx := nextIdx cl + i\<rparr>" for i
    by (induction i) (simp_all add: one)
  have "map (\<lambda>i. hd (rotate (nextIdx cl + i) ?es)) [0..<length ?es] = rotate (nextIdx cl) ?es"
    using assms(1) by (intro nth_equalityI) (simp_all add: hd_rotate_conv_nth nth_rotate)
  then show ?thesis using assms by (simp add: one it)
qed

theorem rotation_fair_witness:
  "snd (fst (snapshotConfigAndOrder ((client (exampleClient [''a'', ''b'', ''c'']))\<lparr>nextIdx := 4\<rparr>))) = [''b'', ''c'', ''a'']
   \<and> distinct (snd (fst (snapshotConfigAndOrder ((client (exampleClient [''a'', ''b'', ''c'']))\<lparr>nextIdx := 4\<rparr>))))"
  using rotation_fair [of "(client (exampleClient [''a'', ''b'', ''c'']))\<lparr>nextIdx := 4\<rparr>"]
  by (simp add: exampleClient_def exampleConfig_def snapshotConfigAndOrder_def Let_def upt_rec)

section \<open>Flushing the spool\<close>

text \<open>C7. A flush loses nothing: for every schedule of I/O errors, every behaviour of the send callback,
  the clock and the context, the sends are for the oldest unread payloads in order, each payload
  that is no longer in the spool was acknowledged or permanently rejected, the rest of the backlog is
  still there in order, at most the last payload that was sent is still in the spool, and a flush
  without limits that reports success has emptied the spool.\<close>

theorem Drain_no_loss:
  assumes "spoolInv s ps c q" "DrainWithOptions fuel E opts s t = Some (r, s', t')"
  shows "\<exists>evs k. history E evs t t' \<and> map eventPayload evs = take (length evs) (drop c ps)
    \<and> k \<le> length evs \<and> length evs \<le> Suc k \<and> list_all settled (take k evs)
    \<and> (\<exists>ps' c' q'. spoolInv s' ps' c' q' \<and> drop c' ps' = drop k (drop c ps))
    \<and> (r = None \<longrightarrow> length evs = k \<and> (MaxRecords opts \<le> 0 \<and> MaxDuration opts \<le> 0 \<longrightarrow> k = length (drop c ps)))"
proof -
  obtain start t0 where t0: "timeNow E t = (start, t0)" by fastforce
  have b: "backlog s (drop c ps)" using assms(1) by (rule backlogI)
  have run: "drainLoop Next Commit isCorruptSegment E opts start fuel 0 s t0 = Some (r, s', t')"
    using assms(2) t0 by (simp add: DrainWithOptions_def)
  from sq.loop_flushed [OF b run] obtain evs k where
    *: "flushed (drop c ps) evs k" "backlog s' (drop k (drop c ps))" "history E evs t0 t'"
      "r = None \<longrightarrow> length evs = k \<and> (limited opts \<or> k = length (drop c ps))"
    by blast
  from history_trans [OF *(3) hist_time [OF hist_nil t0]] have "history E evs t t'" by simp
  with * show ?thesis unfolding flushed_def backlog_def limited_def by (intro exI [of _ evs] exI [of _ k]) auto
qed

text \<open>C8. A flush ends: whatever bytes the log holds, whatever system calls fail and whatever the callback
  does, it returns after at most one more iteration than the backlog has bytes.\<close>

theorem Drain_terminates: "\<exists>r. DrainWithOptions (Suc (backlogLen s)) E opts s t = Some r"
proof -
  obtain start t0 where t0: "timeNow E t = (start, t0)" by fastforce
  have "drainLoop Next Commit isCorruptSegment E opts start (Suc (backlogLen s)) 0 s t0 \<noteq> None"
    by (rule sm.loop_returns) simp
  with t0 show ?thesis by (simp add: DrainWithOptions_def)
qed

text \<open>C9. A flush delivers: without I/O errors, with a live context, no limits and a callback that never
  fails for a passing reason, the flush reports success, every unread payload was acknowledged or
  permanently rejected in order, and the spool is empty.\<close>

theorem Drain_delivers:
  assumes "spoolInv s ps c q" "quiet s" "alive E" "sendsSettle E (drop c ps)" "MaxRecords opts \<le> 0" "MaxDuration opts \<le> 0"
  shows "\<exists>s' t' evs. DrainWithOptions (Suc (backlogLen s)) E opts s t = Some (None, s', t') \<and> history E evs t t'
    \<and> map eventPayload evs = drop c ps \<and> list_all settled evs \<and> backlog s' []"
proof -
  obtain start t0 where t0: "timeNow E t = (start, t0)" by fastforce
  have b: "backlog s (drop c ps)" using assms(1) by (rule backlogI)
  have lim: "\<not> limited opts" using assms(5,6) by (simp add: limited_def)
  obtain r s' t' where run: "drainLoop Next Commit isCorruptSegment E opts start (Suc (backlogLen s)) 0 s t0 = Some (r, s', t')"
    using sm.loop_returns [of s "Suc (backlogLen s)" E opts start 0 t0] by auto
  have r: "r = None" by (rule sr.loop_sound [OF assms(2) b lim assms(3,4) run])
  from sq.loop_flushed [OF b run] r lim obtain evs where
    *: "flushed (drop c ps) evs (length (drop c ps))" "backlog s' []" "history E evs t0 t'" "length evs = length (drop c ps)" by auto
  from history_trans [OF *(3) hist_time [OF hist_nil t0]] have "history E evs t t'" by simp
  with * run r t0 show ?thesis unfolding flushed_def DrainWithOptions_def
    by (intro exI [of _ s'] exI [of _ t'] exI [of _ evs]) auto
qed

text \<open>An environment whose controller acknowledges everything, with a log of the payloads it saw.\<close>

definition exampleEnv :: "bytes list DrainEnv" where
  "exampleEnv = \<lparr>ctxErr = (\<lambda>t. (None, t)), timeNow = (\<lambda>t. (0, t)), sendPayload = (\<lambda>p t. (Inr ''ok'', t @ [p])),
     statusOf = (\<lambda>_. Unknown)\<rparr>"

lemma exampleEnv_ok: "alive exampleEnv" "sendsSettle exampleEnv ps"
  by (simp_all add: exampleEnv_def alive_def sendsSettle_def)

lemma exampleEnv_history: "history E evs t t' \<Longrightarrow> E = exampleEnv \<Longrightarrow> t' = t @ map eventPayload evs"
  by (induction rule: history.induct) (auto simp: exampleEnv_def)

theorem Drain_delivers_witness:
  "\<exists>s'. DrainWithOptions (Suc (backlogLen (exampleSpool [[1], [2], [3]] 1 64))) exampleEnv \<lparr>MaxRecords = 0, MaxDuration = 0\<rparr>
     (exampleSpool [[1], [2], [3]] 1 64) [] = Some (None, s', [[2], [3]]) \<and> backlog s' []"
proof -
  have ex: "spoolInv (exampleSpool [[1], [2], [3]] 1 64) [[1], [2], [3]] 1 1" "quiet (exampleSpool [[1], [2], [3]] 1 64)"
    using exampleSpool_inv [of 1 "[[1], [2], [3]]" 64] by simp_all
  from Drain_delivers [OF ex exampleEnv_ok, of "\<lparr>MaxRecords = 0, MaxDuration = 0\<rparr>" "[]"] show ?thesis
    using exampleEnv_history by fastforce
qed

theorem Drain_no_loss_witness:
  "\<exists>r s' t' evs k. DrainWithOptions (Suc (backlogLen (exampleSpool [[1], [2], [3]] 1 64))) exampleEnv
       \<lparr>MaxRecords = 1, MaxDuration = 0\<rparr> (exampleSpool [[1], [2], [3]] 1 64) [] = Some (r, s', t')
     \<and> t' = map eventPayload evs \<and> k \<le> length evs \<and> backlog s' (drop k [[2], [3]])"
proof -
  let ?s = "exampleSpool [[1], [2], [3]] 1 64"
  have ex: "spoolInv ?s [[1], [2], [3]] 1 1"
    using exampleSpool_inv [of 1 "[[1], [2], [3]]" 64] by simp_all
  obtain r s' t' where run: "DrainWithOptions (Suc (backlogLen ?s)) exampleEnv \<lparr>MaxRecords = 1, MaxDuration = 0\<rparr> ?s [] = Some (r, s', t')"
    using sm.loop_returns [of ?s "Suc (backlogLen ?s)" exampleEnv "\<lparr>MaxRecords = 1, MaxDuration = 0\<rparr>" 0 0 "[]"]
    by (auto simp: DrainWithOptions_def exampleEnv_def)
  from Drain_no_loss [OF ex run] obtain evs k where
    "history exampleEnv evs [] t'" "k \<le> length evs" "\<exists>ps' c' q'. spoolInv s' ps' c' q' \<and> drop c' ps' = drop k (drop 1 [[1], [2], [3]])"
    by blast
  with exampleEnv_history [of exampleEnv evs "[]" t'] have
    "t' = map eventPayload evs" "k \<le> length evs" "backlog s' (drop k [[2], [3]])" by (auto simp: backlog_def)
  with run show ?thesis by blast
qed

end
