(* ===== verification/Inbox.thy ===== *)
theory Inbox
  imports Telemetry "HOL-Library.AList" "HOL-Library.List_Lexorder" "HOL-Library.Char_ord" "HOL-Library.Sublist"
begin

text \<open>
  The raw ingest journal (\<^verbatim>\<open>controller/ingest/inbox.go\<close>): the durable ownership record of an accepted
  batch, its deduplication identity, the interface \<^verbatim>\<open>Inbox\<close> and its in-memory implementation.

  Times are nanoseconds since Go's zero time, which is 0 (\<^verbatim>\<open>IsZero\<close>).  A Go map is an association list
  with distinct keys; where the code iterates over a map, the iteration order is an argument.
  Protocol buffer encoding and SHA-256 are arguments too.  Every method holds the inbox's mutex, so it
  is one step.
\<close>

section \<open>Receipts\<close>

datatype ReceiptState = ReceiptCommitted | ReceiptApplying | ReceiptApplied

record Receipt =
  SchemaVersion :: "8 word"
  Identity :: string
  IdentityKind :: string
  CollectorID :: string
  RProducerEpoch :: string
  RProducerSequence :: "64 word"
  BatchID :: string
  AcceptedAt :: int
  Payload :: bytes
  State :: ReceiptState
  Revision :: "64 word"
  ApplyOwner :: string
  LeaseExpiresAt :: int
  AppliedAt :: int
  Attempts :: "64 word"
  RLastError :: string

datatype inbox_error =
    ErrReceiptNotFound | ErrLeaseLost | ErrInboxFull | ErrIdentityConflict
  | ErrInvalidReceipt | ErrReceiptPayload | ErrBackend goerr

record InboxConfig =
  Backend :: string
  Path :: string
  PostgresDSN :: string
  Retention :: int
  GCInterval :: int
  CMaxRecords :: int
  CMaxBytes :: int
  Lease :: int
  SingleWriter :: bool

definition second :: int where "second = 10 ^ 9"

definition maxInboxPayloadBytes :: nat where "maxInboxPayloadBytes = 4 * 1024 * 1024"

definition DefaultInboxConfig :: InboxConfig where
  "DefaultInboxConfig = \<lparr>Backend = ''bbolt'', Path = ''./data/controller/ingest/inbox.db'', PostgresDSN = '''',
     Retention = 24 * 3600 * second, GCInterval = 5 * 60 * second, CMaxRecords = 100000,
     CMaxBytes = 256 * 1024 * 1024, Lease = 30 * second, SingleWriter = False\<rparr>"

definition normalized :: "InboxConfig \<Rightarrow> InboxConfig" where
  "normalized c =
     (let d = DefaultInboxConfig; b = toLower (trimSpace (Backend c)) in
      c\<lparr>Backend := (if b = '''' then Backend d else b),
        Path := (if trimSpace (Path c) = '''' then Path d else Path c),
        Retention := (if Retention c \<le> 0 then Retention d else Retention c),
        GCInterval := (if GCInterval c \<le> 0 then GCInterval d else GCInterval c),
        CMaxRecords := (if CMaxRecords c \<le> 0 then CMaxRecords d else CMaxRecords c),
        CMaxBytes := (if CMaxBytes c \<le> 0 then CMaxBytes d else CMaxBytes c),
        Lease := (if Lease c \<le> 0 then Lease d else Lease c)\<rparr>)"

section \<open>Identity of a batch\<close>

definition bePutUint32 :: "32 word \<Rightarrow> bytes" where
  "bePutUint32 w = rev (putUint32 w)"

definition bePutUint64 :: "64 word \<Rightarrow> bytes" where
  "bePutUint64 w = rev (putUint64 w)"

definition hexChar :: "nat \<Rightarrow> char" where
  "hexChar n = (if n < 10 then char_of (48 + n) else char_of (87 + n))"

definition hexEncode :: "bytes \<Rightarrow> string" where
  "hexEncode bs = concat (map (\<lambda>b. [hexChar (unat b div 16), hexChar (unat b mod 16)]) bs)"

text \<open>The bytes that \<^verbatim>\<open>writeIdentityField\<close> adds to the hash.\<close>

definition writeIdentityField :: "string \<Rightarrow> bytes" where
  "writeIdentityField v = bePutUint32 (of_nat (length v)) @ bytesOf v"

definition collectorOf :: "TelemetryBatch \<Rightarrow> string" where
  "collectorOf b = (case Collector b of None \<Rightarrow> '''' | Some c \<Rightarrow> trimSpace (CollectorId c))"

definition hasProducer :: "TelemetryBatch \<Rightarrow> bool" where
  "hasProducer b \<longleftrightarrow> trimSpace (ProducerEpoch b) \<noteq> '''' \<and> ProducerSequence b > 0"

text \<open>The input of the hash.\<close>

definition identityInput :: "TelemetryBatch \<Rightarrow> bytes" where
  "identityInput b = writeIdentityField (collectorOf b) @
     (if hasProducer b then writeIdentityField (trimSpace (ProducerEpoch b)) @ bePutUint64 (ProducerSequence b)
      else writeIdentityField (trimSpace (BatchId b)))"

definition batchDedupeIdentity :: "(bytes \<Rightarrow> bytes) \<Rightarrow> TelemetryBatch \<Rightarrow> string \<times> string" where
  "batchDedupeIdentity sha256 b =
     (if hasProducer b then (''producer:'' @ hexEncode (sha256 (identityInput b)), ''producer'')
      else (''batch:'' @ hexEncode (sha256 (identityInput b)), ''batch''))"

definition truncateMicros :: "int \<Rightarrow> int" where
  "truncateMicros t = t - t mod 1000"

definition receiptFromBatch :: "(bytes \<Rightarrow> bytes) \<Rightarrow> (TelemetryBatch \<Rightarrow> goerr + bytes) \<Rightarrow> TelemetryBatch \<Rightarrow> int
    \<Rightarrow> goerr + Receipt" where
  "receiptFromBatch sha256 marshal b acceptedAt =
     (case Collector b of None \<Rightarrow> Inl (Plain ''batch and collector are required'')
      | Some c \<Rightarrow> (case marshal b of
          Inl e \<Rightarrow> Inl (Wrapped ''marshal ingest receipt'' e)
        | Inr payload \<Rightarrow> (case batchDedupeIdentity sha256 b of (ident, kind) \<Rightarrow>
            Inr \<lparr>SchemaVersion = 1, Identity = ident, IdentityKind = kind,
              CollectorID = trimSpace (CollectorId c), RProducerEpoch = trimSpace (ProducerEpoch b),
              RProducerSequence = ProducerSequence b, BatchID = trimSpace (BatchId b),
              AcceptedAt = truncateMicros acceptedAt, Payload = payload, State = ReceiptCommitted, Revision = 1,
              ApplyOwner = '''', LeaseExpiresAt = 0, AppliedAt = 0, Attempts = 0, RLastError = ''''\<rparr>)))"

definition decodeReceiptBatch :: "(bytes \<Rightarrow> goerr + TelemetryBatch) \<Rightarrow> Receipt \<Rightarrow> goerr + TelemetryBatch" where
  "decodeReceiptBatch unmarshal r = (case unmarshal (Payload r) of
     Inl e \<Rightarrow> Inl (Wrapped (''decode durable ingest receipt '' @ Identity r) e) | Inr b \<Rightarrow> Inr b)"

definition validateReceipt :: "Receipt \<Rightarrow> inbox_error option" where
  "validateReceipt r =
     (if SchemaVersion r \<noteq> 1 \<or> Identity r = '''' \<or> length (Identity r) > 80 \<or> State r \<noteq> ReceiptCommitted
         \<or> Revision r \<noteq> 1 \<or> Attempts r \<noteq> 0 \<or> AcceptedAt r = 0 then Some ErrInvalidReceipt
      else if length (Payload r) = 0 \<or> length (Payload r) > maxInboxPayloadBytes then Some ErrReceiptPayload
      else None)"

section \<open>Transitions of a receipt\<close>

definition claimable :: "int \<Rightarrow> Receipt \<Rightarrow> bool" where
  "claimable now r \<longleftrightarrow> \<not> (State r = ReceiptApplied \<or> State r = ReceiptApplying \<and> LeaseExpiresAt r > now)"

definition claimReceipt :: "string \<Rightarrow> int \<Rightarrow> int \<Rightarrow> Receipt \<Rightarrow> Receipt" where
  "claimReceipt owner now lease r = r\<lparr>State := ReceiptApplying, ApplyOwner := owner, LeaseExpiresAt := now + lease,
     Attempts := Attempts r + 1, Revision := Revision r + 1\<rparr>"

definition heldBy :: "string \<Rightarrow> Receipt \<Rightarrow> bool" where
  "heldBy owner r \<longleftrightarrow> State r = ReceiptApplying \<and> ApplyOwner r = owner"

definition appliedReceipt :: "int \<Rightarrow> Receipt \<Rightarrow> Receipt" where
  "appliedReceipt t r = r\<lparr>State := ReceiptApplied, AppliedAt := t, ApplyOwner := '''', LeaseExpiresAt := 0,
     RLastError := ''''\<rparr>"

definition failedReceipt :: "string option \<Rightarrow> Receipt \<Rightarrow> Receipt" where
  "failedReceipt failure r = r\<lparr>State := ReceiptCommitted, ApplyOwner := '''', LeaseExpiresAt := 0,
     RLastError := (case failure of None \<Rightarrow> RLastError r | Some m \<Rightarrow> m)\<rparr>"

definition bumpRevision :: "Receipt \<Rightarrow> Receipt" where
  "bumpRevision r = r\<lparr>Revision := Revision r + 1\<rparr>"

definition prunable :: "int \<Rightarrow> Receipt \<Rightarrow> bool" where
  "prunable cutoff r \<longleftrightarrow> State r = ReceiptApplied \<and> AppliedAt r \<noteq> 0 \<and> AppliedAt r < cutoff"

section \<open>The in-memory inbox\<close>

type_synonym receiptMap = "(string \<times> Receipt) list"

record memoryInbox =
  mcfg :: InboxConfig
  receipts :: receiptMap
  duplicates :: "64 word"
  replayed :: "64 word"
  pruned :: "64 word"
  lastGC :: int
  mlastError :: string
  payloadBytes :: int

definition newMemoryInbox :: "InboxConfig \<Rightarrow> memoryInbox" where
  "newMemoryInbox c = \<lparr>mcfg = normalized c, receipts = [], duplicates = 0, replayed = 0, pruned = 0,
     lastGC = 0, mlastError = '''', payloadBytes = 0\<rparr>"

definition memCommit :: "Receipt \<Rightarrow> (memoryInbox, inbox_error, Receipt \<times> bool) act" where
  "memCommit r = getS (\<lambda>m.
     case validateReceipt r of Some e \<Rightarrow> throw e
     | None \<Rightarrow>
        (case map_of (receipts m) (Identity r) of
           Some existing \<Rightarrow>
             if Payload existing \<noteq> Payload r then throw ErrIdentityConflict
             else seqE (modify (\<lambda>m. m\<lparr>duplicates := duplicates m + 1\<rparr>)) (ret (existing, False))
         | None \<Rightarrow>
             if int (length (receipts m)) \<ge> CMaxRecords (mcfg m) \<or> payloadBytes m + int (length (Payload r)) > CMaxBytes (mcfg m)
             then throw ErrInboxFull
             else seqE (modify (\<lambda>m. m\<lparr>receipts := AList.update (Identity r) r (receipts m),
                                      payloadBytes := payloadBytes m + int (length (Payload r))\<rparr>))
                    (ret (r, True))))"

definition memGet :: "string \<Rightarrow> (memoryInbox, inbox_error, Receipt) act" where
  "memGet k = getS (\<lambda>m. case map_of (receipts m) k of None \<Rightarrow> throw ErrReceiptNotFound | Some r \<Rightarrow> ret r)"

definition memClaim :: "string \<Rightarrow> string \<Rightarrow> int \<Rightarrow> int \<Rightarrow> (memoryInbox, inbox_error, Receipt \<times> bool) act" where
  "memClaim k owner now lease = getS (\<lambda>m.
     case map_of (receipts m) k of
       None \<Rightarrow> throw ErrReceiptNotFound
     | Some r \<Rightarrow>
         if \<not> claimable now r then ret (r, False)
         else let r' = claimReceipt owner now lease r in
           seqE (modify (\<lambda>m. m\<lparr>receipts := AList.update k r' (receipts m)\<rparr>)) (ret (r', True)))"

text \<open>The three operations of the holder of a claim differ in what they do to the receipt.\<close>

definition memHeld :: "string \<Rightarrow> string \<Rightarrow> (Receipt \<Rightarrow> Receipt) \<Rightarrow> (memoryInbox, inbox_error, unit) act" where
  "memHeld k owner f = getS (\<lambda>m.
     case map_of (receipts m) k of
       None \<Rightarrow> throw ErrReceiptNotFound
     | Some r \<Rightarrow>
         if State r \<noteq> ReceiptApplying \<or> ApplyOwner r \<noteq> owner then throw ErrLeaseLost
         else modify (\<lambda>m. m\<lparr>receipts := AList.update k (f r) (receipts m)\<rparr>))"

definition memRenew :: "string \<Rightarrow> string \<Rightarrow> int \<Rightarrow> int \<Rightarrow> (memoryInbox, inbox_error, unit) act" where
  "memRenew k owner now lease = memHeld k owner (\<lambda>r. r\<lparr>LeaseExpiresAt := now + lease\<rparr>)"

definition memMarkApplied :: "string \<Rightarrow> string \<Rightarrow> int \<Rightarrow> (memoryInbox, inbox_error, unit) act" where
  "memMarkApplied k owner appliedAt = memHeld k owner (\<lambda>r. bumpRevision (appliedReceipt appliedAt r))"

definition memMarkFailed :: "string \<Rightarrow> string \<Rightarrow> string option \<Rightarrow> (memoryInbox, inbox_error, unit) act" where
  "memMarkFailed k owner failure = memHeld k owner (\<lambda>r. bumpRevision (failedReceipt failure r))"

text \<open>\<open>order\<close> is the order in which Go happens to iterate over the map.\<close>

fun pendingLoop :: "int \<Rightarrow> nat \<Rightarrow> Receipt list \<Rightarrow> Receipt list \<Rightarrow> Receipt list" where
  "pendingLoop now limit result [] = result"
| "pendingLoop now limit result (r # rs) =
     (if claimable now r then
        (if length (result @ [r]) \<ge> limit then result @ [r] else pendingLoop now limit (result @ [r]) rs)
      else pendingLoop now limit result rs)"

definition pendingLimit :: "int \<Rightarrow> nat" where
  "pendingLimit limit = (if limit \<le> 0 then 256 else nat limit)"

definition memPending :: "string list \<Rightarrow> int \<Rightarrow> int \<Rightarrow> (memoryInbox, inbox_error, Receipt list) act" where
  "memPending order now limit = getS (\<lambda>m.
     let result = pendingLoop now (pendingLimit limit) [] (List.map_filter (map_of (receipts m)) order) in
     seqE (modify (\<lambda>m. m\<lparr>replayed := replayed m + of_nat (length result)\<rparr>)) (ret result))"

fun pruneLoop :: "int \<Rightarrow> string list \<Rightarrow> receiptMap \<times> int \<times> nat \<Rightarrow> receiptMap \<times> int \<times> nat" where
  "pruneLoop cutoff [] s = s"
| "pruneLoop cutoff (k # ks) (rs, bytes, removed) =
     (case map_of rs k of
        Some r \<Rightarrow> if prunable cutoff r
                  then pruneLoop cutoff ks (AList.delete k rs, bytes - int (length (Payload r)), removed + 1)
                  else pruneLoop cutoff ks (rs, bytes, removed)
      | None \<Rightarrow> pruneLoop cutoff ks (rs, bytes, removed))"

definition memPrune :: "string list \<Rightarrow> int \<Rightarrow> int \<Rightarrow> int \<Rightarrow> (memoryInbox, inbox_error, nat) act" where
  "memPrune order now cutoff maxRecords = getS (\<lambda>m.
     case pruneLoop cutoff order (receipts m, payloadBytes m, 0) of (rs, bytes, removed) \<Rightarrow>
       seqE (modify (\<lambda>m. m\<lparr>receipts := rs, payloadBytes := bytes, pruned := pruned m + of_nat removed, lastGC := now\<rparr>))
         (ret removed))"

text \<open>Receipts are listed in the order of \<^verbatim>\<open>receiptOrder\<close>: a timestamp of fixed width and the identity.
  The rendering of the timestamp is an argument.\<close>

definition receiptOrder :: "(int \<Rightarrow> string) \<Rightarrow> Receipt \<Rightarrow> string" where
  "receiptOrder fmt r = fmt (AcceptedAt r) @ '':'' @ Identity r"

definition retainedLimit :: "int \<Rightarrow> nat" where
  "retainedLimit limit = (if limit \<le> 0 \<or> limit > 256 then 256 else nat limit)"

definition memRetained :: "(int \<Rightarrow> string) \<Rightarrow> string list \<Rightarrow> string \<Rightarrow> int \<Rightarrow> (memoryInbox, inbox_error, Receipt list) act" where
  "memRetained fmt order after limit = gets (\<lambda>m.
     let rs = List.map_filter (map_of (receipts m)) order;
         late = filter (\<lambda>r. receiptOrder fmt r > after) rs;
         keys = map (receiptOrder fmt) late;
         byKey = foldl (\<lambda>al r. AList.update (receiptOrder fmt r) r al) [] late
     in List.map_filter (map_of byKey) (take (retainedLimit limit) (sort keys)))"

record InboxStats =
  Enabled :: bool
  StatsBackend :: string
  Shared :: bool
  StatsPath :: string
  Records :: int
  PendingCount :: int
  AppliedCount :: int
  Duplicates :: "64 word"
  Replayed :: "64 word"
  Pruned :: "64 word"
  LastGCAt :: int
  StatsLastError :: string
  RetentionText :: string
  StatsMaxRecords :: int
  StatsPayloadBytes :: int
  StatsMaxBytes :: int
  LeaseDuration :: string

definition memStats :: "(int \<Rightarrow> string) \<Rightarrow> memoryInbox \<Rightarrow> InboxStats" where
  "memStats durationString m = \<lparr>Enabled = True, StatsBackend = ''memory'', Shared = False, StatsPath = '''',
     Records = int (length (receipts m)),
     PendingCount = int (length (filter (\<lambda>(k, r). State r \<noteq> ReceiptApplied) (receipts m))),
     AppliedCount = int (length (filter (\<lambda>(k, r). State r = ReceiptApplied) (receipts m))),
     Duplicates = duplicates m, Replayed = replayed m, Pruned = pruned m, LastGCAt = lastGC m,
     StatsLastError = mlastError m, RetentionText = durationString (Retention (mcfg m)),
     StatsMaxRecords = CMaxRecords (mcfg m), StatsPayloadBytes = payloadBytes m,
     StatsMaxBytes = CMaxBytes (mcfg m), LeaseDuration = durationString (Lease (mcfg m))\<rparr>"

section \<open>The interface\<close>

text \<open>The Go interface \<^verbatim>\<open>Inbox\<close> as a record of its operations on a state \<open>'i\<close>.\<close>

record 'i Inbox =
  ICommit :: "Receipt \<Rightarrow> ('i, inbox_error, Receipt \<times> bool) act"
  IGet :: "string \<Rightarrow> ('i, inbox_error, Receipt) act"
  IClaim :: "string \<Rightarrow> string \<Rightarrow> int \<Rightarrow> int \<Rightarrow> ('i, inbox_error, Receipt \<times> bool) act"
  IRenew :: "string \<Rightarrow> string \<Rightarrow> int \<Rightarrow> int \<Rightarrow> ('i, inbox_error, unit) act"
  IMarkApplied :: "string \<Rightarrow> string \<Rightarrow> int \<Rightarrow> ('i, inbox_error, unit) act"
  IMarkFailed :: "string \<Rightarrow> string \<Rightarrow> string option \<Rightarrow> ('i, inbox_error, unit) act"
  IPending :: "int \<Rightarrow> int \<Rightarrow> ('i, inbox_error, Receipt list) act"
  IRetained :: "string \<Rightarrow> int \<Rightarrow> ('i, inbox_error, Receipt list) act"
  IPrune :: "int \<Rightarrow> int \<Rightarrow> int \<Rightarrow> ('i, inbox_error, nat) act"

text \<open>The in-memory inbox behind the interface; iteration takes the keys in the order of the
  association list.\<close>

definition memoryInboxOps :: "(int \<Rightarrow> string) \<Rightarrow> (memoryInbox \<Rightarrow> string list) \<Rightarrow> memoryInbox Inbox" where
  "memoryInboxOps fmt order = \<lparr>ICommit = memCommit, IGet = memGet, IClaim = memClaim, IRenew = memRenew,
     IMarkApplied = memMarkApplied, IMarkFailed = memMarkFailed,
     IPending = (\<lambda>now limit. getS (\<lambda>m. memPending (order m) now limit)),
     IRetained = (\<lambda>after limit. getS (\<lambda>m. memRetained fmt (order m) after limit)),
     IPrune = (\<lambda>now cutoff maxRecords. getS (\<lambda>m. memPrune (order m) now cutoff maxRecords))\<rparr>"

text \<open>Two receipts that differ at most in lease and revision.\<close>

definition sameClaim :: "Receipt \<Rightarrow> Receipt \<Rightarrow> bool" where
  "sameClaim r r' \<longleftrightarrow> r' = r\<lparr>LeaseExpiresAt := LeaseExpiresAt r', Revision := Revision r'\<rparr>"

definition sameButRevision :: "Receipt \<Rightarrow> Receipt \<Rightarrow> bool" where
  "sameButRevision r r' \<longleftrightarrow> r' = r\<lparr>Revision := Revision r'\<rparr>"

text \<open>The fields that identify the batch never change.\<close>

definition sameContents :: "Receipt \<Rightarrow> Receipt \<Rightarrow> bool" where
  "sameContents r r' \<longleftrightarrow> r' = r\<lparr>State := State r', Revision := Revision r', ApplyOwner := ApplyOwner r',
     LeaseExpiresAt := LeaseExpiresAt r', AppliedAt := AppliedAt r', Attempts := Attempts r', RLastError := RLastError r'\<rparr>"

text \<open>How one receipt may change while the inbox is used without pruning: it never disappears, keeps
  its contents, and once applied it stays as it is.\<close>

fun advances :: "Receipt option \<Rightarrow> Receipt option \<Rightarrow> bool" where
  "advances None b = True"
| "advances (Some r) None = False"
| "advances (Some r) (Some r') = (sameContents r r' \<and> (State r = ReceiptApplied \<longrightarrow> r' = r))"

text \<open>The steps that callers may interleave, each by one owner at one time; several controllers may
  share the inbox.\<close>

inductive inboxStep :: "'i Inbox \<Rightarrow> string \<Rightarrow> int \<Rightarrow> 'i \<Rightarrow> 'i \<Rightarrow> bool" for I where
  step_commit: "ICommit I r i = (x, i') \<Longrightarrow> inboxStep I owner now i i'"
| step_claim: "IClaim I k owner now lease i = (x, i') \<Longrightarrow> inboxStep I owner now i i'"
| step_renew: "IRenew I k owner now lease i = (u, i') \<Longrightarrow> inboxStep I owner now i i'"
| step_applied: "IMarkApplied I k owner t i = (u, i') \<Longrightarrow> inboxStep I owner now i i'"
| step_failed: "IMarkFailed I k owner msg i = (u, i') \<Longrightarrow> inboxStep I owner now i i'"
| step_pending: "IPending I now limit i = (rs, i') \<Longrightarrow> inboxStep I owner now i i'"

inductive inboxRun :: "'i Inbox \<Rightarrow> (string \<Rightarrow> int \<Rightarrow> bool) \<Rightarrow> 'i \<Rightarrow> 'i \<Rightarrow> bool" for I allowed where
  run_refl: "inboxRun I allowed i i"
| run_step: "inboxRun I allowed i i1 \<Longrightarrow> allowed owner now \<Longrightarrow> inboxStep I owner now i1 i2 \<Longrightarrow> inboxRun I allowed i i2"

lemma sameContents_refl [simp]: "sameContents r r"
  by (simp add: sameContents_def)

lemma sameContents_trans: "sameContents r r1 \<Longrightarrow> sameContents r1 r2 \<Longrightarrow> sameContents r r2"
  by (cases r; cases r1; cases r2) (simp add: sameContents_def)

lemma sameContents_fields:
  "sameContents r r' \<Longrightarrow> Identity r' = Identity r \<and> Payload r' = Payload r \<and> CollectorID r' = CollectorID r \<and> AcceptedAt r' = AcceptedAt r"
  by (cases r; cases r') (simp add: sameContents_def)

lemma advances_refl [simp]: "advances a a"
  by (cases a) simp_all

lemma advances_trans: "advances a b \<Longrightarrow> advances b c \<Longrightarrow> advances a c"
  by (cases a; cases b; cases c) (auto intro: sameContents_trans)

lemma sameContents_transitions:
  "sameContents r (claimReceipt owner now lease r)" "sameClaim r r' \<Longrightarrow> sameContents r r'"
  "sameButRevision (appliedReceipt t r) r' \<Longrightarrow> sameContents r r'"
  "sameButRevision (failedReceipt f r) r' \<Longrightarrow> sameContents r r'"
  by (cases r; cases r'; simp add: sameContents_def claimReceipt_def sameClaim_def sameButRevision_def appliedReceipt_def failedReceipt_def)+

lemma not_claimable_applied: "State r = ReceiptApplied \<Longrightarrow> \<not> claimable now r" "State r = ReceiptApplied \<Longrightarrow> \<not> heldBy owner r"
  by (simp_all add: claimable_def heldBy_def)

text \<open>The contract of an inbox, in terms of the receipts it holds.\<close>

locale inbox =
  fixes I :: "'i Inbox" and view :: "'i \<Rightarrow> string \<Rightarrow> Receipt option" and good :: "'i \<Rightarrow> bool"
  assumes commit_ok: "good i \<Longrightarrow> ICommit I r i = (Inr (st, created), i') \<Longrightarrow>
      good i' \<and> Payload st = Payload r \<and> view i' = (view i)(Identity r \<mapsto> st)
      \<and> (if created then view i (Identity r) = None \<and> st = r else view i (Identity r) = Some st)"
    and keyed: "good i \<Longrightarrow> view i k = Some r \<Longrightarrow> Identity r = k"
    and commit_err: "good i \<Longrightarrow> ICommit I r i = (Inl e, i') \<Longrightarrow> good i' \<and> view i' = view i"
    and commit_valid: "good i \<Longrightarrow> ICommit I r i = (Inr (st, created), i') \<Longrightarrow> validateReceipt r = None"
    and claim_ok: "good i \<Longrightarrow> IClaim I k owner now lease i = (Inr (r, claimed), i') \<Longrightarrow> good i' \<and>
      (\<exists>r0. view i k = Some r0 \<and> (if claimed then claimable now r0 \<and> r = claimReceipt owner now lease r0 \<and> view i' = (view i)(k \<mapsto> r)
         else \<not> claimable now r0 \<and> r = r0 \<and> view i' = view i))"
    and claim_err: "good i \<Longrightarrow> IClaim I k owner now lease i = (Inl e, i') \<Longrightarrow> good i' \<and> view i' = view i"
    and renew_ok: "good i \<Longrightarrow> IRenew I k owner now lease i = (Inr u, i') \<Longrightarrow> good i' \<and>
      (\<exists>r r'. view i k = Some r \<and> heldBy owner r \<and> sameClaim r r' \<and> LeaseExpiresAt r' = now + lease \<and> view i' = (view i)(k \<mapsto> r'))"
    and renew_err: "good i \<Longrightarrow> IRenew I k owner now lease i = (Inl e, i') \<Longrightarrow> good i' \<and> view i' = view i"
    and applied_ok: "good i \<Longrightarrow> IMarkApplied I k owner t i = (Inr u, i') \<Longrightarrow> good i' \<and>
      (\<exists>r r'. view i k = Some r \<and> heldBy owner r \<and> sameButRevision (appliedReceipt t r) r' \<and> view i' = (view i)(k \<mapsto> r'))"
    and applied_err: "good i \<Longrightarrow> IMarkApplied I k owner t i = (Inl e, i') \<Longrightarrow> good i' \<and> view i' = view i"
    and failed_ok: "good i \<Longrightarrow> IMarkFailed I k owner msg i = (Inr u, i') \<Longrightarrow> good i' \<and>
      (\<exists>r r'. view i k = Some r \<and> heldBy owner r \<and> sameButRevision (failedReceipt msg r) r' \<and> view i' = (view i)(k \<mapsto> r'))"
    and failed_err: "good i \<Longrightarrow> IMarkFailed I k owner msg i = (Inl e, i') \<Longrightarrow> good i' \<and> view i' = view i"
    and prune_ok: "good i \<Longrightarrow> IPrune I now cutoff mx i = (rn, i') \<Longrightarrow> good i' \<and>
      (\<forall>k. view i' k = view i k \<or> view i' k = None \<and> (\<exists>r. view i k = Some r \<and> prunable cutoff r))"
    and pending_view: "good i \<Longrightarrow> IPending I now limit i = (rp, i') \<Longrightarrow> good i' \<and> view i' = view i
      \<and> (\<forall>rs. rp = Inr rs \<longrightarrow> distinct (map Identity rs) \<and> (\<forall>r \<in> set rs. view i (Identity r) = Some r \<and> claimable now r)
          \<and> (rs = [] \<longrightarrow> (\<forall>k r. view i k = Some r \<longrightarrow> \<not> claimable now r)))"
begin

lemma claim_step:
  assumes "good i" "IClaim I k owner now lease i = (x, i')"
  shows "good i' \<and> (view i' = view i \<or> (\<exists>r. view i k = Some r \<and> claimable now r \<and> view i' = (view i)(k \<mapsto> claimReceipt owner now lease r)))"
proof (cases x)
  case (Inr a)
  then show ?thesis using claim_ok [OF assms(1), of k owner now lease "fst a" "snd a" i'] assms(2) by (auto split: if_splits)
qed (use claim_err assms in blast)

lemma held_step:
  assumes "good i" "IRenew I k owner now lease i = (u, i') \<or> IMarkApplied I k owner t i = (u, i') \<or> IMarkFailed I k owner msg i = (u, i')"
  shows "good i' \<and> (view i' = view i \<or> (\<exists>r r'. view i k = Some r \<and> heldBy owner r \<and> sameContents r r' \<and> view i' = (view i)(k \<mapsto> r')))"
proof (cases u)
  case (Inr a)
  from assms(2) show ?thesis unfolding Inr
  proof (elim disjE)
    assume "IRenew I k owner now lease i = (Inr a, i')"
    from renew_ok [OF assms(1) this] sameContents_transitions(2) show ?thesis by blast
  next
    assume "IMarkApplied I k owner t i = (Inr a, i')"
    from applied_ok [OF assms(1) this] sameContents_transitions(3) show ?thesis by blast
  next
    assume "IMarkFailed I k owner msg i = (Inr a, i')"
    from failed_ok [OF assms(1) this] sameContents_transitions(4) show ?thesis by blast
  qed
next
  case (Inl e)
  with assms renew_err [OF assms(1)] applied_err [OF assms(1)] failed_err [OF assms(1)] show ?thesis by blast
qed

lemma commit_step:
  assumes "good i" "ICommit I r i = (x, i')"
  shows "good i' \<and> (view i' = view i \<or> (view i (Identity r) = None \<and> view i' = (view i)(Identity r \<mapsto> r)))"
proof (cases x)
  case (Inr a)
  then show ?thesis using commit_ok [OF assms(1), of r "fst a" "snd a" i'] assms(2) by (auto simp: fun_upd_idem split: if_splits)
qed (use commit_err assms in blast)

lemma step_advances:
  assumes "inboxStep I owner now i i'" "good i"
  shows "good i' \<and> (\<forall>k. advances (view i k) (view i' k))"
  using assms
proof cases
  case (step_commit r x)
  then show ?thesis using commit_step [OF assms(2)] by (metis advances.simps(1) advances_refl fun_upd_apply)
next
  case (step_claim k lease x)
  then show ?thesis using claim_step [OF assms(2), of k owner now lease x i'] not_claimable_applied sameContents_transitions(1)
    by (auto simp: not_claimable_applied)
next
  case (step_renew k lease u)
  then show ?thesis using held_step [OF assms(2), of k owner now lease u i'] not_claimable_applied by (auto simp: not_claimable_applied)
next
  case (step_applied k t u)
  then show ?thesis using held_step [OF assms(2), of k owner now 0 u i' t] not_claimable_applied by (auto simp: not_claimable_applied)
next
  case (step_failed k msg u)
  then show ?thesis using held_step [OF assms(2), of k owner now 0 u i' 0 msg] not_claimable_applied by (auto simp: not_claimable_applied)
next
  case (step_pending limit rs)
  then show ?thesis using pending_view [OF assms(2)] by (metis advances_refl)
qed

lemma run_advances: "inboxRun I allowed i i' \<Longrightarrow> good i \<Longrightarrow> good i' \<and> (\<forall>k. advances (view i k) (view i' k))"
proof (induction rule: inboxRun.induct)
  case (run_step i i1 owner now i2)
  then show ?case using step_advances advances_trans by blast
qed simp

text \<open>While a lease runs, nobody else can touch the receipt.\<close>

lemma step_exclusive:
  assumes "inboxStep I owner now i i'" "good i" "view i k = Some r" "heldBy holder r" "owner \<noteq> holder" "now < LeaseExpiresAt r"
  shows "good i' \<and> view i' k = Some r"
  using assms(1)
proof cases
  case (step_commit r' x)
  then show ?thesis using commit_step [OF assms(2)] assms(3) by (metis fun_upd_apply option.distinct(1))
next
  case (step_claim k' lease x)
  have "\<not> claimable now r" using assms(4,6) by (simp add: claimable_def heldBy_def)
  then show ?thesis using step_claim claim_step [OF assms(2), of k' owner now lease x i'] assms(3) by (cases "k' = k") auto
next
  case (step_renew k' lease u)
  then show ?thesis using held_step [OF assms(2), of k' owner now lease u i'] assms(3-5) by (cases "k' = k") (auto simp: heldBy_def)
next
  case (step_applied k' t u)
  then show ?thesis using held_step [OF assms(2), of k' owner now 0 u i' t] assms(3-5) by (cases "k' = k") (auto simp: heldBy_def)
next
  case (step_failed k' msg u)
  then show ?thesis using held_step [OF assms(2), of k' owner now 0 u i' 0 msg] assms(3-5) by (cases "k' = k") (auto simp: heldBy_def)
next
  case (step_pending limit rs)
  then show ?thesis using pending_view [OF assms(2)] assms(3) by metis
qed

lemma run_exclusive:
  assumes "inboxRun I (\<lambda>owner now. owner \<noteq> holder \<and> now < LeaseExpiresAt r) i i'" "good i" "view i k = Some r" "heldBy holder r"
  shows "good i' \<and> view i' k = Some r"
  using assms(1) assms(2-) by (induction rule: inboxRun.induct) (auto dest: step_exclusive)

text \<open>A holder whose claim was taken over cannot write any more.\<close>

lemma stale_holder_fenced:
  assumes "good i" "view i k = Some r" "heldBy holder r" "owner \<noteq> holder"
    "IRenew I k owner now lease i = (u, i') \<or> IMarkApplied I k owner t i = (u, i') \<or> IMarkFailed I k owner msg i = (u, i')"
  shows "(\<exists>e. u = Inl e) \<and> view i' = view i"
proof (cases u)
  case (Inl e)
  with assms(5) renew_err [OF assms(1)] applied_err [OF assms(1)] failed_err [OF assms(1)] show ?thesis by blast
next
  case (Inr a)
  then have "heldBy owner r"
    using assms(2,5) renew_ok [OF assms(1), of k owner now lease a i'] applied_ok [OF assms(1), of k owner t a i']
      failed_ok [OF assms(1), of k owner msg a i'] by auto
  with assms(3,4) show ?thesis by (simp add: heldBy_def)
qed

end

section \<open>Association lists as maps\<close>

declare map_of_eq_Some_iff [simp del] Some_eq_map_of_iff [simp del]

abbreviation keys :: "receiptMap \<Rightarrow> string list" where
  "keys rs \<equiv> map fst rs"

definition totalBytes :: "receiptMap \<Rightarrow> int" where
  "totalBytes rs = (\<Sum>(k, r) \<leftarrow> rs. int (length (Payload r)))"

lemma totalBytes_simps [simp]:
  "totalBytes [] = 0" "totalBytes ((k, r) # rs) = int (length (Payload r)) + totalBytes rs"
  by (simp_all add: totalBytes_def)

lemma totalBytes_update_new: "map_of rs k = None \<Longrightarrow> totalBytes (AList.update k r rs) = totalBytes rs + int (length (Payload r))"
  by (induction rs) (auto split: if_splits)

lemma totalBytes_update_old:
  "map_of rs k = Some r \<Longrightarrow> length (Payload r') = length (Payload r) \<Longrightarrow> totalBytes (AList.update k r' rs) = totalBytes rs"
  by (induction rs) (auto split: if_splits)

lemma totalBytes_delete:
  "distinct (keys rs) \<Longrightarrow> map_of rs k = Some r \<Longrightarrow> totalBytes (AList.delete k rs) = totalBytes rs - int (length (Payload r))"
proof (induction rs)
  case (Cons a rs)
  obtain k' r' where a: "a = (k', r')" by fastforce
  show ?case
  proof (cases "k' = k")
    case True
    with Cons.prems a have "k \<notin> set (keys rs)" by auto
    then have "AList.delete k rs = rs" by (simp add: AList.delete_id)
    with True a Cons.prems show ?thesis by simp
  qed (use a Cons in auto)
qed simp

lemma length_update_new: "map_of rs k = None \<Longrightarrow> length (AList.update k r rs) = Suc (length rs)"
  by (induction rs) (auto split: if_splits)

lemma length_update_old: "map_of rs k = Some r \<Longrightarrow> length (AList.update k r' rs) = length rs"
  by (induction rs) (auto split: if_splits)

lemma length_delete_le: "length (AList.delete k rs) \<le> length rs"
  by (simp add: AList.delete_eq)

section \<open>The in-memory inbox keeps its contract\<close>

definition receiptOK :: "string \<Rightarrow> Receipt \<Rightarrow> bool" where
  "receiptOK k r \<longleftrightarrow> Identity r = k \<and> k \<noteq> '''' \<and> length k \<le> 80 \<and> SchemaVersion r = 1 \<and> AcceptedAt r \<noteq> 0
     \<and> 0 < length (Payload r) \<and> length (Payload r) \<le> maxInboxPayloadBytes"

definition memInv :: "memoryInbox \<Rightarrow> bool" where
  "memInv m \<longleftrightarrow> distinct (keys (receipts m)) \<and> (\<forall>k r. map_of (receipts m) k = Some r \<longrightarrow> receiptOK k r)
     \<and> payloadBytes m = totalBytes (receipts m) \<and> payloadBytes m \<le> CMaxBytes (mcfg m)
     \<and> int (length (receipts m)) \<le> CMaxRecords (mcfg m)"

definition memView :: "memoryInbox \<Rightarrow> string \<Rightarrow> Receipt option" where
  "memView m = map_of (receipts m)"

lemma receiptOK_transitions [simp]:
  "receiptOK k (claimReceipt owner now lease r) = receiptOK k r"
  "receiptOK k (bumpRevision r) = receiptOK k r"
  "receiptOK k (appliedReceipt t r) = receiptOK k r"
  "receiptOK k (failedReceipt f r) = receiptOK k r"
  "receiptOK k (r\<lparr>LeaseExpiresAt := t\<rparr>) = receiptOK k r"
  by (simp_all add: receiptOK_def claimReceipt_def bumpRevision_def appliedReceipt_def failedReceipt_def)

lemma payload_transitions [simp]:
  "Payload (claimReceipt owner now lease r) = Payload r" "Payload (bumpRevision r) = Payload r"
  "Payload (appliedReceipt t r) = Payload r" "Payload (failedReceipt f r) = Payload r"
  by (simp_all add: claimReceipt_def bumpRevision_def appliedReceipt_def failedReceipt_def)

lemma validateReceipt_None:
  "validateReceipt r = None \<longleftrightarrow> receiptOK (Identity r) r \<and> State r = ReceiptCommitted \<and> Revision r = 1 \<and> Attempts r = 0"
  by (auto simp: validateReceipt_def receiptOK_def)

lemma memInv_update:
  assumes "memInv m" "map_of (receipts m) k = Some r" "receiptOK k r'" "length (Payload r') = length (Payload r)"
  shows "memInv (m\<lparr>receipts := AList.update k r' (receipts m)\<rparr>)"
  using assms by (auto simp: memInv_def distinct_update update_conv' totalBytes_update_old length_update_old)

text \<open>Results of the operations.\<close>

lemma memCommit_cases:
  "memCommit r m = (case validateReceipt r of Some e \<Rightarrow> (Inl e, m) | None \<Rightarrow>
     (case memView m (Identity r) of
        Some old \<Rightarrow> if Payload old \<noteq> Payload r then (Inl ErrIdentityConflict, m)
          else (Inr (old, False), m\<lparr>duplicates := duplicates m + 1\<rparr>)
      | None \<Rightarrow> if int (length (receipts m)) \<ge> CMaxRecords (mcfg m) \<or> payloadBytes m + int (length (Payload r)) > CMaxBytes (mcfg m)
          then (Inl ErrInboxFull, m)
          else (Inr (r, True), m\<lparr>receipts := AList.update (Identity r) r (receipts m),
                payloadBytes := payloadBytes m + int (length (Payload r))\<rparr>)))"
  by (auto simp: memCommit_def memView_def getS_def throw_def seqE_def bindE_def modify_def ret_def split: option.splits)

lemma memClaim_cases:
  "memClaim k owner now lease m = (case memView m k of None \<Rightarrow> (Inl ErrReceiptNotFound, m)
     | Some r \<Rightarrow> if claimable now r
         then (Inr (claimReceipt owner now lease r, True), m\<lparr>receipts := AList.update k (claimReceipt owner now lease r) (receipts m)\<rparr>)
         else (Inr (r, False), m))"
  by (auto simp: memClaim_def memView_def getS_def throw_def seqE_def bindE_def modify_def ret_def Let_def split: option.splits)

lemma memHeld_cases:
  "memHeld k owner f m = (case memView m k of None \<Rightarrow> (Inl ErrReceiptNotFound, m)
     | Some r \<Rightarrow> if heldBy owner r then (Inr (), m\<lparr>receipts := AList.update k (f r) (receipts m)\<rparr>) else (Inl ErrLeaseLost, m))"
  by (auto simp: memHeld_def memView_def heldBy_def getS_def throw_def modify_def split: option.splits)

lemma memInv_Commit: "memInv m \<Longrightarrow> memInv (snd (memCommit r m))"
  unfolding memCommit_cases
  by (auto simp: memInv_def memView_def validateReceipt_None distinct_update update_conv' totalBytes_update_new length_update_new
      split: option.splits)

lemma memInv_receipt: "memInv m \<Longrightarrow> memView m k = Some r \<Longrightarrow> receiptOK k r"
  by (simp add: memInv_def memView_def)

lemma memInv_Claim: "memInv m \<Longrightarrow> memInv (snd (memClaim k owner now lease m))"
  using memInv_receipt [of m k] memInv_update [of m k]
  by (cases "memView m k") (auto simp: memClaim_cases memView_def)

lemma memInv_Held:
  assumes "memInv m" "\<And>r. receiptOK k r \<Longrightarrow> receiptOK k (f r)" "\<And>r. length (Payload (f r)) = length (Payload r)"
  shows "memInv (snd (memHeld k owner f m))"
proof (cases "memView m k")
  case (Some r)
  with memInv_receipt [OF assms(1)] have "receiptOK k r" by simp
  with Some memInv_update [OF assms(1), of k r "f r"] assms show ?thesis by (simp add: memHeld_cases memView_def)
qed (use assms(1) in \<open>simp add: memHeld_cases\<close>)

text \<open>Pruning removes exactly the prunable receipts among the keys it visits.\<close>

lemma pruneLoop_props:
  assumes "distinct (keys rs)" "distinct order"
  shows "case pruneLoop cutoff order (rs, totalBytes rs, n) of (rs', bytes, n') \<Rightarrow>
     distinct (keys rs') \<and> bytes = totalBytes rs' \<and> bytes \<le> totalBytes rs \<and> length rs' \<le> length rs
     \<and> map_of rs' = (\<lambda>k. case map_of rs k of Some r \<Rightarrow> if k \<in> set order \<and> prunable cutoff r then None else Some r | None \<Rightarrow> None)
     \<and> n' = n + length (filter (\<lambda>k. case map_of rs k of Some r \<Rightarrow> prunable cutoff r | None \<Rightarrow> False) order)"
  using assms
proof (induction order arbitrary: rs n)
  case Nil
  then show ?case by (auto split: option.splits)
next
  case (Cons k ks)
  show ?case
  proof (cases "\<exists>r. map_of rs k = Some r \<and> prunable cutoff r")
    case True
    then obtain r where r: "map_of rs k = Some r" "prunable cutoff r" by blast
    let ?rs = "AList.delete k rs"
    have d: "distinct (keys ?rs)" using Cons.prems(1) by (rule distinct_delete)
    have tb: "totalBytes ?rs = totalBytes rs - int (length (Payload r))" by (rule totalBytes_delete [OF Cons.prems(1) r(1)])
    have le: "length ?rs \<le> length rs" by (rule length_delete_le)
    have same: "filter (\<lambda>x. case map_of ?rs x of Some r \<Rightarrow> prunable cutoff r | None \<Rightarrow> False) ks
        = filter (\<lambda>x. case map_of rs x of Some r \<Rightarrow> prunable cutoff r | None \<Rightarrow> False) ks"
      using Cons.prems(2) by (intro filter_cong) (auto simp: delete_conv')
    from Cons.IH [OF d, of "n + 1"] Cons.prems(2) r show ?thesis
      unfolding tb same using le
      by (auto simp: delete_conv' fun_eq_iff split: prod.splits option.splits if_splits)
  next
    case False
    then have "pruneLoop cutoff (k # ks) (rs, totalBytes rs, n) = pruneLoop cutoff ks (rs, totalBytes rs, n)"
      by (auto split: option.splits)
    with Cons.IH [OF Cons.prems(1), of n] Cons.prems(2) False show ?thesis
      by (auto simp: fun_eq_iff split: prod.splits option.splits)
  qed
qed

text \<open>The loop of \<open>Pending\<close> takes the first claimable receipts in iteration order.\<close>

lemma pendingLoop_take:
  "length result < limit \<Longrightarrow> pendingLoop now limit result rs = result @ take (limit - length result) (filter (claimable now) rs)"
proof (induction rs arbitrary: result)
  case (Cons r rs)
  show ?case
  proof (cases "claimable now r \<and> Suc (length result) < limit")
    case True
    then have "limit - length result = Suc (limit - Suc (length result))" by linarith
    with True Cons show ?thesis by (simp add: not_le)
  qed (use Cons in \<open>auto simp: not_le not_less_eq le_Suc_eq\<close>)
qed simp

lemma pendingLimit_pos: "0 < pendingLimit n"
  by (simp add: pendingLimit_def)

lemma set_map_filter: "set (List.map_filter f xs) = {y. \<exists>x \<in> set xs. f x = Some y}"
  by (auto simp: List.map_filter_def image_iff) (metis option.sel option.distinct(1))+

lemma memPending_cases:
  "memPending order now limit m =
     (Inr (take (pendingLimit limit) (filter (claimable now) (List.map_filter (memView m) order))),
      m\<lparr>replayed := replayed m + of_nat (length (take (pendingLimit limit) (filter (claimable now) (List.map_filter (memView m) order))))\<rparr>)"
  by (simp add: memPending_def getS_def seqE_def bindE_def modify_def ret_def Let_def memView_def
      pendingLoop_take [of "[]", simplified, OF pendingLimit_pos])

lemma identities_map_filter:
  assumes "memInv m"
  shows "map Identity (List.map_filter (memView m) order) = filter (\<lambda>k. memView m k \<noteq> None) order"
  using memInv_receipt [OF assms] by (induction order) (auto simp: List.map_filter_simps receiptOK_def split: option.splits)

lemma memPending_sound:
  assumes inv: "memInv m" and order: "distinct order" "set order = set (keys (receipts m))"
    and run: "memPending order now limit m = (Inr rs, m')"
  shows "distinct (map Identity rs) \<and> (\<forall>r \<in> set rs. memView m (Identity r) = Some r \<and> claimable now r)
     \<and> (rs = [] \<longrightarrow> (\<forall>k r. memView m k = Some r \<longrightarrow> \<not> claimable now r))"
proof -
  let ?all = "List.map_filter (memView m) order"
  have rs: "rs = take (pendingLimit limit) (filter (claimable now) ?all)" using run by (simp add: memPending_cases)
  have "distinct (map Identity ?all)" using order(1) identities_map_filter [OF inv, of order] by simp
  then have d: "distinct (map Identity rs)" unfolding rs by (auto simp: distinct_map_filter take_map [symmetric] intro: distinct_take)
  have all: "set ?all = {r. \<exists>k. memView m k = Some r}"
  proof -
    have "k \<in> set order" if "memView m k = Some r" for k r
      using that order(2) by (metis memView_def map_of_SomeD image_eqI fst_conv set_map)
    then show ?thesis by (auto simp: set_map_filter)
  qed
  have id: "memView m (Identity r) = Some r" if "r \<in> set ?all" for r
    using that all memInv_receipt [OF inv] by (auto simp: receiptOK_def)
  have "rs = [] \<longrightarrow> (\<forall>r \<in> set ?all. \<not> claimable now r)"
    unfolding rs using pendingLimit_pos [of limit] by (auto simp: filter_empty_conv)
  moreover have "\<forall>r \<in> set rs. memView m (Identity r) = Some r \<and> claimable now r"
    unfolding rs using id by (auto dest!: in_set_takeD)
  ultimately show ?thesis using d all by auto
qed

lemma memPrune_cases:
  assumes "memInv m" "distinct order" "memPrune order now cutoff mx m = (r, m')"
  shows "memInv m' \<and> mcfg m' = mcfg m \<and> (\<exists>n. r = Inr n)
    \<and> memView m' = (\<lambda>k. case memView m k of Some r \<Rightarrow> if k \<in> set order \<and> prunable cutoff r then None else Some r | None \<Rightarrow> None)"
proof -
  obtain rs bytes n where p: "pruneLoop cutoff order (receipts m, payloadBytes m, 0) = (rs, bytes, n)" by (metis surj_pair)
  have pb: "payloadBytes m = totalBytes (receipts m)" and d: "distinct (keys (receipts m))" using assms(1) by (auto simp: memInv_def)
  from pruneLoop_props [OF d assms(2), of cutoff 0] p pb
  have *: "distinct (keys rs)" "bytes = totalBytes rs" "bytes \<le> totalBytes (receipts m)" "length rs \<le> length (receipts m)"
    "map_of rs = (\<lambda>k. case map_of (receipts m) k of Some r \<Rightarrow> if k \<in> set order \<and> prunable cutoff r then None else Some r | None \<Rightarrow> None)"
    by auto
  have m': "m' = m\<lparr>receipts := rs, payloadBytes := bytes, pruned := pruned m + of_nat n, lastGC := now\<rparr>" "r = Inr n"
    using assms(3) p by (auto simp: memPrune_def getS_def seqE_def bindE_def modify_def ret_def)
  have "memInv m'" using assms(1) * unfolding m'(1) memInv_def by (auto split: option.splits if_splits)
  then show ?thesis using *(5) m' by (simp add: memView_def)
qed

section \<open>Interpretation\<close>

text \<open>An iteration order of the Go map: every key once.\<close>

locale map_order =
  fixes fmt :: "int \<Rightarrow> string" and order :: "memoryInbox \<Rightarrow> string list"
  assumes order: "distinct (order m)" "distinct (keys (receipts m)) \<Longrightarrow> set (order m) = set (keys (receipts m))"

lemma memInv_distinct: "memInv m \<Longrightarrow> distinct (keys (receipts m))"
  by (simp add: memInv_def)

lemma memView_update: "memView (m\<lparr>receipts := AList.update k r (receipts m)\<rparr>) = (memView m)(k \<mapsto> r)"
  by (simp add: memView_def update_conv')

lemma memHeld_ok:
  assumes "memInv m" "memHeld k owner f m = (Inr u, m')" "\<And>r. receiptOK k r \<Longrightarrow> receiptOK k (f r)"
    "\<And>r. length (Payload (f r)) = length (Payload r)"
  shows "memInv m' \<and> (\<exists>r. memView m k = Some r \<and> heldBy owner r \<and> memView m' = (memView m)(k \<mapsto> f r))"
  using assms(2) memInv_Held [OF assms(1,3,4), of owner]
  by (auto simp: memHeld_cases memView_update split: option.splits if_splits)

lemma memHeld_rel:
  assumes "memInv m" "memHeld k owner f m = (Inr u, m')" "\<And>r. receiptOK k r \<Longrightarrow> receiptOK k (f r)"
    "\<And>r. length (Payload (f r)) = length (Payload r)" "\<And>r. P r (f r)"
  shows "memInv m' \<and> (\<exists>r r'. memView m k = Some r \<and> heldBy owner r \<and> P r r' \<and> memView m' = (memView m)(k \<mapsto> r'))"
  using memHeld_ok [OF assms(1-4)] assms(5) by blast

lemma sameButRevision_bump: "sameButRevision r (bumpRevision r)"
  by (simp add: sameButRevision_def bumpRevision_def)

lemma memHeld_err: "memHeld k owner f m = (Inl e, m') \<Longrightarrow> m' = m"
  by (auto simp: memHeld_cases split: option.splits if_splits)

sublocale map_order \<subseteq> mem: inbox "memoryInboxOps fmt order" memView memInv
proof
  note ops = memoryInboxOps_def
  fix m m' r st created
  assume m: "memInv m" and run: "ICommit (memoryInboxOps fmt order) r m = (Inr (st, created), m')"
  then have "memInv m'" using memInv_Commit [OF m, of r] by (simp add: ops)
  then show "memInv m' \<and> Payload st = Payload r \<and> memView m' = (memView m)(Identity r \<mapsto> st)
      \<and> (if created then memView m (Identity r) = None \<and> st = r else memView m (Identity r) = Some st)"
    using run by (auto simp: ops memCommit_cases memView_def update_conv' fun_upd_idem split: option.splits if_splits)
  show "validateReceipt r = None"
    using run by (auto simp: ops memCommit_cases split: option.splits)
next
  fix m k r assume "memInv m" "memView m k = Some r"
  then show "Identity r = k" using memInv_receipt by (auto simp: receiptOK_def)
next
  fix m m' r e assume "memInv m" "ICommit (memoryInboxOps fmt order) r m = (Inl e, m')"
  then show "memInv m' \<and> memView m' = memView m"
    by (auto simp: memoryInboxOps_def memCommit_cases split: option.splits if_splits)
next
  fix m m' k owner now lease r claimed
  assume m: "memInv m" and run: "IClaim (memoryInboxOps fmt order) k owner now lease m = (Inr (r, claimed), m')"
  then have "memInv m'" using memInv_Claim [OF m, of k owner now lease] by (simp add: memoryInboxOps_def)
  then show "memInv m' \<and> (\<exists>r0. memView m k = Some r0 \<and> (if claimed then claimable now r0 \<and> r = claimReceipt owner now lease r0
        \<and> memView m' = (memView m)(k \<mapsto> r) else \<not> claimable now r0 \<and> r = r0 \<and> memView m' = memView m))"
    using run by (auto simp: memoryInboxOps_def memClaim_cases memView_update split: option.splits if_splits)
next
  fix m m' k owner now lease e
  assume "memInv m" "IClaim (memoryInboxOps fmt order) k owner now lease m = (Inl e, m')"
  then show "memInv m' \<and> memView m' = memView m"
    by (auto simp: memoryInboxOps_def memClaim_cases split: option.splits if_splits)
next
  fix m m' k owner now lease u
  assume "memInv m" "IRenew (memoryInboxOps fmt order) k owner now lease m = (Inr u, m')"
  from memHeld_rel [OF this(1), where P = "\<lambda>r r'. sameClaim r r' \<and> LeaseExpiresAt r' = now + lease"] this(2)
  show "memInv m' \<and> (\<exists>r r'. memView m k = Some r \<and> heldBy owner r \<and> sameClaim r r' \<and> LeaseExpiresAt r' = now + lease
      \<and> memView m' = (memView m)(k \<mapsto> r'))"
    by (simp add: memoryInboxOps_def memRenew_def sameClaim_def)
next
  fix m m' k owner t u
  assume "memInv m" "IMarkApplied (memoryInboxOps fmt order) k owner t m = (Inr u, m')"
  from memHeld_rel [OF this(1), where P = "\<lambda>r r'. sameButRevision (appliedReceipt t r) r'"] this(2)
  show "memInv m' \<and> (\<exists>r r'. memView m k = Some r \<and> heldBy owner r \<and> sameButRevision (appliedReceipt t r) r'
      \<and> memView m' = (memView m)(k \<mapsto> r'))"
    by (simp add: memoryInboxOps_def memMarkApplied_def sameButRevision_bump)
next
  fix m m' k owner msg u
  assume "memInv m" "IMarkFailed (memoryInboxOps fmt order) k owner msg m = (Inr u, m')"
  from memHeld_rel [OF this(1), where P = "\<lambda>r r'. sameButRevision (failedReceipt msg r) r'"] this(2)
  show "memInv m' \<and> (\<exists>r r'. memView m k = Some r \<and> heldBy owner r \<and> sameButRevision (failedReceipt msg r) r'
      \<and> memView m' = (memView m)(k \<mapsto> r'))"
    by (simp add: memoryInboxOps_def memMarkFailed_def sameButRevision_bump)
next
  fix m m' now cutoff mx r
  assume m: "memInv m" and run: "IPrune (memoryInboxOps fmt order) now cutoff mx m = (r, m')"
  have "memPrune (order m) now cutoff mx m = (r, m')" using run by (simp add: memoryInboxOps_def getS_def)
  from memPrune_cases [OF m order(1) this]
  show "memInv m' \<and> (\<forall>k. memView m' k = memView m k \<or> memView m' k = None \<and> (\<exists>r. memView m k = Some r \<and> prunable cutoff r))"
    by (auto split: option.splits)
next
  fix m m' now limit rp
  assume m: "memInv m" and run: "IPending (memoryInboxOps fmt order) now limit m = (rp, m')"
  have p: "memPending (order m) now limit m = (rp, m')" using run by (simp add: memoryInboxOps_def getS_def)
  then have "memInv m'" "memView m' = memView m" using m by (auto simp: memPending_cases memInv_def memView_def)
  with memPending_sound [OF m order(1) order(2) [OF memInv_distinct [OF m]]] p
  show "memInv m' \<and> memView m' = memView m
      \<and> (\<forall>rs. rp = Inr rs \<longrightarrow> distinct (map Identity rs) \<and> (\<forall>r \<in> set rs. memView m (Identity r) = Some r \<and> claimable now r)
          \<and> (rs = [] \<longrightarrow> (\<forall>k r. memView m k = Some r \<longrightarrow> \<not> claimable now r)))"
    by blast
qed (auto simp: memoryInboxOps_def memRenew_def memMarkApplied_def memMarkFailed_def dest: memHeld_err)

context map_order begin

lemma mem_inbox: "inbox (memoryInboxOps fmt order) memView memInv"
  by (rule mem.inbox_axioms)

end

interpretation listed: map_order fmt "\<lambda>m. remdups (keys (receipts m))" for fmt
  by unfold_locales simp_all

section \<open>The identity determines the batch\<close>

lemma bytesOf_inj [simp]: "bytesOf a = bytesOf b \<longleftrightarrow> a = b"
  by (metis stringOf_bytesOf)

lemma putUint32_inj [simp]: "putUint32 a = putUint32 b \<longleftrightarrow> a = b"
  by (metis get_put_Uint32)

lemma putUint64_inj [simp]: "putUint64 a = putUint64 b \<longleftrightarrow> a = b"
proof
  assume eq: "putUint64 a = putUint64 b"
  show "a = b"
  proof (rule bit_word_eqI)
    fix n assume n: "n < LENGTH(64)"
    let ?i = "n div 8"
    have i: "?i < 8" using n by simp
    from arg_cong [OF eq, of "\<lambda>bs. bs ! ?i"] i
    have "(ucast (drop_bit (8 * ?i) a) :: byte) = ucast (drop_bit (8 * ?i) b)"
      by (simp add: putUint64_def)
    then have "bit (ucast (drop_bit (8 * ?i) a) :: byte) (n mod 8) = bit (ucast (drop_bit (8 * ?i) b) :: byte) (n mod 8)"
      by simp
    then show "bit a n = bit b n" by (simp add: bit_simps)
  qed
qed simp

lemma writeIdentityField_split:
  assumes "writeIdentityField a @ x = writeIdentityField b @ y" "length a < 2 ^ 32" "length b < 2 ^ 32"
  shows "a = b \<and> x = y"
proof -
  have "bePutUint32 (of_nat (length a)) = bePutUint32 (of_nat (length b))"
    using arg_cong [OF assms(1), of "take 4"] by (simp add: writeIdentityField_def bePutUint32_def)
  then have "(of_nat (length a) :: 32 word) = of_nat (length b)" by (simp add: bePutUint32_def)
  then have "unat (of_nat (length a) :: 32 word) = unat (of_nat (length b) :: 32 word)" by simp
  then have "length a = length b" using assms(2,3) by (simp add: unat_of_nat)
  with assms(1) show ?thesis by (auto simp: writeIdentityField_def bePutUint32_def)
qed

lemma hexChar_inj: "a < 16 \<Longrightarrow> b < 16 \<Longrightarrow> hexChar a = hexChar b \<longleftrightarrow> a = b"
  by (auto simp: hexChar_def char_of_eq_iff take_bit_eq_mod split: if_splits)

lemma hexEncode_inj [simp]: "hexEncode a = hexEncode b \<longleftrightarrow> a = b"
proof
  show "hexEncode a = hexEncode b \<Longrightarrow> a = b"
  proof (induction a arbitrary: b)
    case Nil
    then show ?case by (cases b) (simp_all add: hexEncode_def)
  next
    case (Cons x a)
    then obtain y b' where b: "b = y # b'" by (cases b) (simp_all add: hexEncode_def)
    have lt: "unat z div 16 < 16" "unat z mod 16 < 16" for z :: byte
      using unsigned_less [of z, where ?'a = nat] by (simp_all add: less_mult_imp_div_less)
    from Cons.prems b lt have "unat x div 16 = unat y div 16" "unat x mod 16 = unat y mod 16" "hexEncode a = hexEncode b'"
      by (simp_all add: hexEncode_def hexChar_inj)
    then have "unat x = unat y" "a = b'" using Cons.IH by (metis div_mult_mod_eq, simp)
    with b show ?case by (simp add: word_unat_eq_iff)
  qed
qed simp

lemma length_hexEncode [simp]: "length (hexEncode bs) = 2 * length bs"
  by (induction bs) (simp_all add: hexEncode_def)

end
