(* ===== verification/IngestServer.thy ===== *)
theory IngestServer
  imports Inbox IngestPolicy
begin

text \<open>
  The ingest server (\<^verbatim>\<open>controller/ingest/server.go\<close>): the \<^verbatim>\<open>Push\<close> stream, the application of a receipt
  under a lease, recovery after a restart, and retention.

  The server works on an inbox and a hot store behind interfaces; both are records of operations.
  Clock, write guard, fault injection, random owner tokens, waiting and the outgoing stream are
  operations on an environment state \<open>'w\<close>.  Whenever the server looks at the environment, other
  controllers that share the inbox may have acted: \<open>others\<close> is their effect.  The goroutine that
  renews the lease is the list of its ticks, which take effect before \<^verbatim>\<open>finishLease\<close> returns; it touches
  nothing but the claimed receipt.  Logging is left out.
\<close>

section \<open>State\<close>

datatype IngestFaultPoint =
    FaultBeforeInboxCommit | FaultAfterInboxCommit | FaultBeforeMaterialize | FaultAfterMaterialize
  | FaultAfterApplied | FaultBeforeACK | FaultAfterACK

datatype server_error =
    GuardError string | IngestFault IngestFaultPoint string | ClaimFailed inbox_error | DecodeFailed goerr
  | NoHotStore | ProcessorPanic string | LeaseRenewalFailed inbox_error | CheckpointFailed inbox_error
  | OwnerFailed goerr | ContextDone goerr | ListFailed inbox_error | ReplayFailed string server_error

text \<open>Every error whose text the counters keep.\<close>

datatype ingest_error = Invalid invalid | Denied authorizationError | GoError goerr | InboxError inbox_error | ServerError server_error

record Stats =
  BatchesTotal :: "64 word"
  DuplicatesTotal :: "64 word"
  RejectedTotal :: "64 word"
  WriteGuardRejectionsTotal :: "64 word"
  AuthnRejectedTotal :: "64 word"
  AuthzRejectedTotal :: "64 word"
  AllowlistRejectedTotal :: "64 word"
  IdentityMismatchTotal :: "64 word"
  MetricsTotal :: "64 word"
  ProcessesTotal :: "64 word"
  LogsTotal :: "64 word"
  LastBatchAt :: int
  LastRejectAt :: int
  LastCollector :: string
  LastBatchID :: string
  LastAuthSubject :: string
  LastPeerSubject :: string
  LastError :: string

text \<open>A processor is optional replay safety and an effect on the store that may panic.\<close>

record 's Processor =
  ReplaySafe :: "bool option"
  ProcessBatch :: "string \<Rightarrow> TelemetryBatch \<Rightarrow> int \<Rightarrow> 's \<Rightarrow> string option \<times> 's"

record 's Store =
  LastIngestAt :: "'s \<Rightarrow> string \<Rightarrow> int option"
  UpsertCollector :: "CollectorInfo \<Rightarrow> int \<Rightarrow> 's \<Rightarrow> 's"
  StoreBatchMeta :: "string \<Rightarrow> TelemetryBatch \<Rightarrow> int \<Rightarrow> 's \<Rightarrow> 's"
  StoreMetrics :: "string \<Rightarrow> Metric option list \<Rightarrow> int \<Rightarrow> 's \<Rightarrow> 's"
  StoreProcesses :: "string \<Rightarrow> ProcessSample option list \<Rightarrow> int \<Rightarrow> 's \<Rightarrow> 's"
  StoreLogs :: "string \<Rightarrow> LogFingerprint option list \<Rightarrow> int \<Rightarrow> 's \<Rightarrow> 's"
  StoreHistoricalBatch :: "(string \<Rightarrow> TelemetryBatch \<Rightarrow> int \<Rightarrow> 's \<Rightarrow> 's) option"

record ('w, 'i, 's) Env =
  timeOf :: "'w \<Rightarrow> int \<times> 'w"
  writeGuard :: "'w \<Rightarrow> string option \<times> 'w"
  faultInjector :: "IngestFaultPoint \<Rightarrow> 'w \<Rightarrow> string option \<times> 'w"
  inboxOwner :: "'w \<Rightarrow> (goerr + string) \<times> 'w"
  waitTimer :: "int \<Rightarrow> 'w \<Rightarrow> goerr option \<times> 'w"
  leaseTicks :: "'w \<Rightarrow> int list \<times> 'w"
  sendAck :: "Ack \<Rightarrow> 'w \<Rightarrow> goerr option \<times> 'w"
  others :: "'w \<Rightarrow> 'i \<Rightarrow> 'i"
  inboxOps :: "'i Inbox"
  storeOps :: "'s Store option"
  processors :: "'s Processor option list"
  hashOf :: "bytes \<Rightarrow> bytes"
  marshalOf :: "TelemetryBatch \<Rightarrow> goerr + bytes"
  unmarshalOf :: "bytes \<Rightarrow> goerr + TelemetryBatch"
  sizeOf :: "TelemetryBatch \<Rightarrow> nat"
  orderFormat :: "int \<Rightarrow> string"
  errText :: "ingest_error \<Rightarrow> string"

record ('w, 'i, 's) Server =
  world :: 'w
  sinbox :: 'i
  sstore :: 's
  inboxLease :: int
  inboxRetention :: int
  inboxMaxRecords :: int
  inboxGCInterval :: int
  lastInboxGC :: int
  accessPolicy :: AccessPolicy
  sstats :: Stats
  acks :: "Ack list"

type_synonym ('w, 'i, 's, 'a) server_act = "(('w, 'i, 's) Server, server_error, 'a) act"

definition emptyStatsS :: Stats where
  "emptyStatsS = \<lparr>BatchesTotal = 0, DuplicatesTotal = 0, RejectedTotal = 0, WriteGuardRejectionsTotal = 0, AuthnRejectedTotal = 0,
     AuthzRejectedTotal = 0, AllowlistRejectedTotal = 0, IdentityMismatchTotal = 0, MetricsTotal = 0, ProcessesTotal = 0,
     LogsTotal = 0, LastBatchAt = 0, LastRejectAt = 0, LastCollector = '''', LastBatchID = '''', LastAuthSubject = '''',
     LastPeerSubject = '''', LastError = ''''\<rparr>"

definition NewServerWithInbox :: "'w \<Rightarrow> 'i \<Rightarrow> 's \<Rightarrow> ('w, 'i, 's) Server" where
  "NewServerWithInbox w i st = (let c = DefaultInboxConfig in
     \<lparr>world = w, sinbox = i, sstore = st, inboxLease = Lease c, inboxRetention = Retention c, inboxMaxRecords = CMaxRecords c,
      inboxGCInterval = GCInterval c, lastInboxGC = 0,
      accessPolicy = \<lparr>AllowedCollectorIDs = [], AllowedClusterNames = [], AllowedPeerSubjects = []\<rparr>,
      sstats = emptyStatsS, acks = []\<rparr>)"

definition SetInboxPolicy :: "InboxConfig \<Rightarrow> ('w, 'i, 's) Server \<Rightarrow> ('w, 'i, 's) Server" where
  "SetInboxPolicy c s = (let c = normalized c in
     s\<lparr>inboxLease := Lease c, inboxRetention := Retention c, inboxMaxRecords := CMaxRecords c, inboxGCInterval := GCInterval c\<rparr>)"

definition SetAccessPolicy :: "AccessPolicy \<Rightarrow> ('w, 'i, 's) Server \<Rightarrow> ('w, 'i, 's) Server" where
  "SetAccessPolicy p s = s\<lparr>accessPolicy := \<lparr>AllowedCollectorIDs = normalizeStringList (AllowedCollectorIDs p),
     AllowedClusterNames = normalizeStringList (AllowedClusterNames p),
     AllowedPeerSubjects = normalizeStringList (AllowedPeerSubjects p)\<rparr>\<rparr>"

section \<open>Environment and inbox\<close>

definition envOp :: "('w, 'i, 's) Env \<Rightarrow> ('w \<Rightarrow> 'a \<times> 'w) \<Rightarrow> ('w, 'i, 's, 'a) server_act" where
  "envOp E f = (\<lambda>s. case f (world s) of (x, w) \<Rightarrow> (Inr x, s\<lparr>world := w, sinbox := others E w (sinbox s)\<rparr>))"

definition inboxOp :: "(inbox_error \<Rightarrow> server_error) \<Rightarrow> ('i, inbox_error, 'a) act \<Rightarrow> ('w, 'i, 's, 'a) server_act" where
  "inboxOp wrap f = (\<lambda>s. case f (sinbox s) of (Inl e, i) \<Rightarrow> (Inl (wrap e), s\<lparr>sinbox := i\<rparr>) | (Inr x, i) \<Rightarrow> (Inr x, s\<lparr>sinbox := i\<rparr>))"

definition guardWrite :: "('w, 'i, 's) Env \<Rightarrow> ('w, 'i, 's, unit) server_act" where
  "guardWrite E = bindE (envOp E (writeGuard E)) (\<lambda>r. case r of None \<Rightarrow> ret () | Some m \<Rightarrow> throw (GuardError m))"

definition injectFault :: "('w, 'i, 's) Env \<Rightarrow> IngestFaultPoint \<Rightarrow> ('w, 'i, 's, unit) server_act" where
  "injectFault E p = bindE (envOp E (faultInjector E p)) (\<lambda>r. case r of None \<Rightarrow> ret () | Some m \<Rightarrow> throw (IngestFault p m))"

section \<open>Materialization\<close>

text \<open>The part of \<^verbatim>\<open>materializeHotState\<close> that updates the latest view.\<close>

definition applyLatest :: "'s Store \<Rightarrow> string \<Rightarrow> TelemetryBatch \<Rightarrow> int \<Rightarrow> 's \<Rightarrow> 's" where
  "applyLatest S cid b receivedAt s =
     (let s = (case Collector b of None \<Rightarrow> s | Some c \<Rightarrow> UpsertCollector S c receivedAt s);
          s = StoreBatchMeta S cid b receivedAt s;
          s = (if Metrics b \<noteq> [] then StoreMetrics S cid (Metrics b) receivedAt s else s);
          s = (if Processes b \<noteq> [] \<or> auxPayloadRefreshed (Metrics b) ''process_fallback''
               then StoreProcesses S cid (Processes b) receivedAt s else s)
      in if Logs b \<noteq> [] \<or> auxPayloadRefreshed (Metrics b) ''logs'' then StoreLogs S cid (Logs b) receivedAt s else s)"

definition materializeHotState :: "'s Store option \<Rightarrow> string \<Rightarrow> TelemetryBatch \<Rightarrow> int \<Rightarrow> ('s, server_error, unit) act" where
  "materializeHotState st cid b receivedAt = (case st of None \<Rightarrow> throw NoHotStore
     | Some S \<Rightarrow> modify (\<lambda>s. case LastIngestAt S s cid of
           None \<Rightarrow> applyLatest S cid b receivedAt s
         | Some t \<Rightarrow> if t > receivedAt
             then (case StoreHistoricalBatch S of None \<Rightarrow> s | Some h \<Rightarrow> h cid b receivedAt s)
             else applyLatest S cid b receivedAt s))"

definition processBatchSafely :: "'s Processor \<Rightarrow> string \<Rightarrow> TelemetryBatch \<Rightarrow> int \<Rightarrow> ('s, server_error, unit) act" where
  "processBatchSafely p cid b receivedAt = (\<lambda>s. case ProcessBatch p cid b receivedAt s of
     (None, s') \<Rightarrow> (Inr (), s') | (Some m, s') \<Rightarrow> (Inl (ProcessorPanic m), s'))"

fun runProcessors :: "'s Processor option list \<Rightarrow> string \<Rightarrow> TelemetryBatch \<Rightarrow> int \<Rightarrow> ('s, server_error, unit) act" where
  "runProcessors [] cid b t = ret ()"
| "runProcessors (None # ps) cid b t = runProcessors ps cid b t"
| "runProcessors (Some p # ps) cid b t = seqE (processBatchSafely p cid b t) (runProcessors ps cid b t)"

definition materializeBatch :: "'s Store option \<Rightarrow> 's Processor option list \<Rightarrow> string \<Rightarrow> TelemetryBatch \<Rightarrow> int \<Rightarrow> ('s, server_error, unit) act" where
  "materializeBatch st ps cid b receivedAt = seqE (materializeHotState st cid b receivedAt) (runProcessors ps cid b receivedAt)"

definition storeOp :: "('s, server_error, 'a) act \<Rightarrow> ('w, 'i, 's, 'a) server_act" where
  "storeOp f = (\<lambda>s. case f (sstore s) of (r, st) \<Rightarrow> (r, s\<lparr>sstore := st\<rparr>))"

section \<open>Applying a receipt\<close>

fun renewLoop :: "'i Inbox \<Rightarrow> string \<Rightarrow> string \<Rightarrow> int \<Rightarrow> int list \<Rightarrow> ('i, inbox_error, unit) act" where
  "renewLoop I k owner lease [] = ret ()"
| "renewLoop I k owner lease (t # ts) = seqE (IRenew I k owner t lease) (renewLoop I k owner lease ts)"

text \<open>The lease goroutine up to the point where \<^verbatim>\<open>finishLease\<close> has joined it; its first failed renewal is the
  result.\<close>

definition renewReceiptLease :: "('w, 'i, 's) Env \<Rightarrow> string \<Rightarrow> string \<Rightarrow> ('w, 'i, 's, unit) server_act" where
  "renewReceiptLease E k owner = getS (\<lambda>s. bindE (envOp E (leaseTicks E)) (\<lambda>ts.
     inboxOp LeaseRenewalFailed (renewLoop (inboxOps E) k owner (inboxLease s) ts)))"

text \<open>Decode and materialize; a failure releases the receipt.\<close>

definition applyClaimed :: "('w, 'i, 's) Env \<Rightarrow> string \<Rightarrow> string \<Rightarrow> Receipt \<Rightarrow> ('w, 'i, 's, unit) server_act" where
  "applyClaimed E k owner claimedReceipt =
     catchE (case decodeReceiptBatch (unmarshalOf E) claimedReceipt of
               Inl e \<Rightarrow> throw (DecodeFailed e)
             | Inr b \<Rightarrow> storeOp (materializeBatch (storeOps E) (processors E) (CollectorID claimedReceipt) b (AcceptedAt claimedReceipt)))
       (\<lambda>e. seqE (ignoreE (inboxOp CheckpointFailed (IMarkFailed (inboxOps E) k owner (Some (errText E (ServerError e)))))) (throw e))"

text \<open>The body of the branch \<^verbatim>\<open>if claimed\<close>.\<close>

definition applyUnderLease :: "('w, 'i, 's) Env \<Rightarrow> string \<Rightarrow> string \<Rightarrow> Receipt \<Rightarrow> ('w, 'i, 's, unit) server_act" where
  "applyUnderLease E owner k r =
     seqE (onErr (seqE (injectFault E FaultBeforeMaterialize) (seqE (applyClaimed E k owner r) (injectFault E FaultAfterMaterialize)))
            (renewReceiptLease E k owner))
       (seqE (renewReceiptLease E k owner)
         (seqE (bindE (envOp E (timeOf E)) (\<lambda>t. inboxOp CheckpointFailed (IMarkApplied (inboxOps E) k owner t)))
           (injectFault E FaultAfterApplied)))"

definition waitForLease :: "('w, 'i, 's) Env \<Rightarrow> Receipt \<Rightarrow> ('w, 'i, 's, unit) server_act" where
  "waitForLease E r = bindE (envOp E (timeOf E)) (\<lambda>t.
     let remaining = LeaseExpiresAt r - t; five = 5 * 10 ^ 6;
         wait = (if remaining > 0 \<and> remaining < five then remaining else five) in
     bindE (envOp E (waitTimer E wait)) (\<lambda>x. case x of Some e \<Rightarrow> throw (ContextDone e) | None \<Rightarrow> ret ()))"

text \<open>One turn of the loop in \<^verbatim>\<open>applyReceipt\<close>: \<open>True\<close> when it returned, \<open>False\<close> when it waited for another
  controller's lease.\<close>

definition applyAttempt :: "('w, 'i, 's) Env \<Rightarrow> string \<Rightarrow> string \<Rightarrow> ('w, 'i, 's, bool) server_act" where
  "applyAttempt E owner k = seqE (guardWrite E) (bindE (envOp E (timeOf E)) (\<lambda>now. getS (\<lambda>s.
     bindE (inboxOp ClaimFailed (IClaim (inboxOps E) k owner now (inboxLease s))) (\<lambda>(r, claimed).
       if claimed then seqE (applyUnderLease E owner k r) (ret True)
       else if State r = ReceiptApplied then ret True
       else seqE (waitForLease E r) (ret False)))))"

fun applyLoop :: "nat \<Rightarrow> ('w, 'i, 's) Env \<Rightarrow> string \<Rightarrow> string \<Rightarrow> ('w, 'i, 's) Server
    \<Rightarrow> ((server_error + unit) \<times> ('w, 'i, 's) Server) option" where
  "applyLoop 0 E owner k s = None"
| "applyLoop (Suc fuel) E owner k s = (case applyAttempt E owner k s of
     (Inl e, s) \<Rightarrow> Some (Inl e, s)
   | (Inr True, s) \<Rightarrow> Some (Inr (), s)
   | (Inr False, s) \<Rightarrow> applyLoop fuel E owner k s)"

text \<open>The fuel bounds the number of waits; \<open>None\<close> means that it is still waiting.\<close>

definition applyReceipt :: "nat \<Rightarrow> ('w, 'i, 's) Env \<Rightarrow> string \<Rightarrow> ('w, 'i, 's) Server
    \<Rightarrow> ((server_error + unit) \<times> ('w, 'i, 's) Server) option" where
  "applyReceipt fuel E k s = (case envOp E (inboxOwner E) s of
     (Inr (Inr owner), s) \<Rightarrow> applyLoop fuel E owner k s
   | (Inr (Inl e), s) \<Rightarrow> Some (Inl (OwnerFailed e), s)
   | (Inl e, s) \<Rightarrow> Some (Inl e, s))"

section \<open>Recovery and retention\<close>

fun replayAll :: "nat \<Rightarrow> ('w, 'i, 's) Env \<Rightarrow> Receipt list \<Rightarrow> ('w, 'i, 's) Server
    \<Rightarrow> ((server_error + unit) \<times> ('w, 'i, 's) Server) option" where
  "replayAll fuel E [] s = Some (Inr (), s)"
| "replayAll fuel E (r # rs) s = (case applyReceipt fuel E (Identity r) s of
     None \<Rightarrow> None
   | Some (Inl e, s) \<Rightarrow> Some (Inl (ReplayFailed (Identity r) e), s)
   | Some (Inr _, s) \<Rightarrow> replayAll fuel E rs s)"

fun ReplayPending :: "nat \<Rightarrow> nat \<Rightarrow> ('w, 'i, 's) Env \<Rightarrow> ('w, 'i, 's) Server
    \<Rightarrow> ((server_error + unit) \<times> ('w, 'i, 's) Server) option" where
  "ReplayPending 0 fuel E s = None"
| "ReplayPending (Suc rounds) fuel E s =
     (case bindE (envOp E (timeOf E)) (\<lambda>now. inboxOp ListFailed (IPending (inboxOps E) now 256)) s of
        (Inl e, s) \<Rightarrow> Some (Inl e, s)
      | (Inr [], s) \<Rightarrow> Some (Inr (), s)
      | (Inr rs, s) \<Rightarrow> (case replayAll fuel E rs s of
           None \<Rightarrow> None
         | Some (Inl e, s) \<Rightarrow> Some (Inl e, s)
         | Some (Inr _, s) \<Rightarrow> ReplayPending rounds fuel E s))"

text \<open>Only processors that declare replay safety see applied receipts again.\<close>

definition replayProcessors :: "'s Processor option list \<Rightarrow> 's Processor option list" where
  "replayProcessors ps = filter (\<lambda>po. case po of None \<Rightarrow> False | Some p \<Rightarrow> ReplaySafe p = Some True) ps"

definition restoreReceipt :: "('w, 'i, 's) Env \<Rightarrow> Receipt \<Rightarrow> ('s, server_error, unit) act" where
  "restoreReceipt E r = (if State r = ReceiptApplied then
       (case decodeReceiptBatch (unmarshalOf E) r of
          Inl e \<Rightarrow> throw (DecodeFailed e)
        | Inr b \<Rightarrow> materializeBatch (storeOps E) (replayProcessors (processors E)) (CollectorID r) b (AcceptedAt r))
     else ret ())"

fun restoreAll :: "('w, 'i, 's) Env \<Rightarrow> string \<Rightarrow> Receipt list \<Rightarrow> ('s, server_error, string) act" where
  "restoreAll E after [] = ret after"
| "restoreAll E after (r # rs) = seqE (restoreReceipt E r) (restoreAll E (receiptOrder (orderFormat E) r) rs)"

fun restoreLoop :: "nat \<Rightarrow> ('w, 'i, 's) Env \<Rightarrow> string \<Rightarrow> ('w, 'i, 's) Server
    \<Rightarrow> ((server_error + unit) \<times> ('w, 'i, 's) Server) option" where
  "restoreLoop 0 E after s = None"
| "restoreLoop (Suc fuel) E after s = (case inboxOp ListFailed (IRetained (inboxOps E) after 256) s of
     (Inl e, s) \<Rightarrow> Some (Inl e, s)
   | (Inr [], s) \<Rightarrow> Some (Inr (), s)
   | (Inr rs, s) \<Rightarrow> (case storeOp (restoreAll E after rs) s of
        (Inl e, s) \<Rightarrow> Some (Inl e, s)
      | (Inr after, s) \<Rightarrow> restoreLoop fuel E after s))"

definition RestoreHotState :: "nat \<Rightarrow> ('w, 'i, 's) Env \<Rightarrow> ('w, 'i, 's) Server
    \<Rightarrow> ((server_error + unit) \<times> ('w, 'i, 's) Server) option" where
  "RestoreHotState fuel E s = restoreLoop fuel E [] s"

definition pruneDue :: "int \<Rightarrow> ('w, 'i, 's) Server \<Rightarrow> bool" where
  "pruneDue now s \<longleftrightarrow> \<not> (lastInboxGC s \<noteq> 0 \<and> now - lastInboxGC s < inboxGCInterval s)"

definition maybePruneInbox :: "('w, 'i, 's) Env \<Rightarrow> int \<Rightarrow> ('w, 'i, 's, unit) server_act" where
  "maybePruneInbox E now = getS (\<lambda>s. if \<not> pruneDue now s then ret ()
     else seqE (modify (\<lambda>s. s\<lparr>lastInboxGC := now\<rparr>)) (bindE (envOp E (timeOf E)) (\<lambda>t.
       seqE (inboxOp ListFailed (IPrune (inboxOps E) t (now - inboxRetention s) (inboxMaxRecords s))) (ret ()))))"

definition PruneInbox :: "('w, 'i, 's) Env \<Rightarrow> ('w, 'i, 's, unit) server_act" where
  "PruneInbox E = bindE (envOp E (timeOf E)) (maybePruneInbox E)"

section \<open>Counters\<close>

definition updStats :: "(Stats \<Rightarrow> Stats) \<Rightarrow> ('w, 'i, 's) Server \<Rightarrow> ('w, 'i, 's) Server" where
  "updStats f s = s\<lparr>sstats := f (sstats s)\<rparr>"

definition recordAccepted :: "TelemetryBatch \<Rightarrow> string \<Rightarrow> int \<Rightarrow> Stats \<Rightarrow> Stats" where
  "recordAccepted b cid receivedAt st = st\<lparr>BatchesTotal := BatchesTotal st + 1,
     MetricsTotal := MetricsTotal st + of_nat (length (Metrics b)),
     ProcessesTotal := ProcessesTotal st + of_nat (length (Processes b)),
     LogsTotal := LogsTotal st + of_nat (length (Logs b)),
     LastBatchAt := receivedAt, LastCollector := trimSpace cid, LastBatchID := trimSpace (BatchId b)\<rparr>"

definition recordDuplicate :: "string \<Rightarrow> string \<Rightarrow> int \<Rightarrow> Stats \<Rightarrow> Stats" where
  "recordDuplicate cid batchID receivedAt st = st\<lparr>DuplicatesTotal := DuplicatesTotal st + 1,
     LastBatchAt := receivedAt, LastCollector := trimSpace cid, LastBatchID := trimSpace batchID\<rparr>"

definition recordRejected :: "string \<Rightarrow> int \<Rightarrow> Stats \<Rightarrow> Stats" where
  "recordRejected msg now st = st\<lparr>RejectedTotal := RejectedTotal st + 1, LastRejectAt := now, LastError := msg\<rparr>"

definition recordWriteGuardRejected :: "string \<Rightarrow> int \<Rightarrow> Stats \<Rightarrow> Stats" where
  "recordWriteGuardRejected msg now st = st\<lparr>RejectedTotal := RejectedTotal st + 1,
     WriteGuardRejectionsTotal := WriteGuardRejectionsTotal st + 1, LastRejectAt := now, LastError := msg\<rparr>"

definition recordAuthnRejected :: "string \<Rightarrow> int \<Rightarrow> Stats \<Rightarrow> Stats" where
  "recordAuthnRejected msg now st = st\<lparr>RejectedTotal := RejectedTotal st + 1,
     AuthnRejectedTotal := AuthnRejectedTotal st + 1, LastRejectAt := now, LastError := trimSpace msg\<rparr>"

definition recordAuthzRejected :: "IdentityRec option \<Rightarrow> string list \<Rightarrow> authorizationError \<Rightarrow> string \<Rightarrow> int \<Rightarrow> Stats \<Rightarrow> Stats" where
  "recordAuthzRejected actor peers err msg now st =
     (let st = st\<lparr>RejectedTotal := RejectedTotal st + 1, AuthzRejectedTotal := AuthzRejectedTotal st + 1, LastRejectAt := now,
                LastAuthSubject := authenticatedSubject actor\<rparr>;
          st = (case peers of [] \<Rightarrow> st | p # _ \<Rightarrow> st\<lparr>LastPeerSubject := p\<rparr>);
          st = st\<lparr>LastError := trimSpace msg\<rparr>
      in case classifyAuthorizationError err of
           authorizationErrorAllowlist \<Rightarrow> st\<lparr>AllowlistRejectedTotal := AllowlistRejectedTotal st + 1\<rparr>
         | authorizationErrorIdentityMismatch \<Rightarrow> st\<lparr>IdentityMismatchTotal := IdentityMismatchTotal st + 1\<rparr>)"

definition recordAuthenticatedSubject :: "IdentityRec option \<Rightarrow> Stats \<Rightarrow> Stats" where
  "recordAuthenticatedSubject actor st =
     (if authenticatedSubject actor = '''' then st else st\<lparr>LastAuthSubject := authenticatedSubject actor\<rparr>)"

definition recordPeerSubject :: "string list \<Rightarrow> Stats \<Rightarrow> Stats" where
  "recordPeerSubject subjects st = (case subjects of [] \<Rightarrow> st | p # _ \<Rightarrow> st\<lparr>LastPeerSubject := p\<rparr>)"

section \<open>The stream\<close>

datatype push_error = Status Code | StreamErr goerr | AuthFailed

text \<open>Handlers may run out of fuel while waiting for a lease.\<close>

type_synonym ('w, 'i, 's, 'a) push_act = "('w, 'i, 's) Server \<Rightarrow> ((push_error + 'a) \<times> ('w, 'i, 's) Server) option"

definition bindP :: "('w, 'i, 's, 'a) push_act \<Rightarrow> ('a \<Rightarrow> ('w, 'i, 's, 'b) push_act) \<Rightarrow> ('w, 'i, 's, 'b) push_act" where
  "bindP m f = (\<lambda>s. case m s of None \<Rightarrow> None | Some (Inl e, s') \<Rightarrow> Some (Inl e, s') | Some (Inr x, s') \<Rightarrow> f x s')"

text \<open>Record a rejection, with the clock read by the recorder, and return a status.\<close>

definition rejectP :: "('w, 'i, 's) Env \<Rightarrow> Code \<Rightarrow> (int \<Rightarrow> Stats \<Rightarrow> Stats) option \<Rightarrow> ('w, 'i, 's, 'a) push_act" where
  "rejectP E code rec = (\<lambda>s. case rec of None \<Rightarrow> Some (Inl (Status code), s)
     | Some f \<Rightarrow> (case envOp E (timeOf E) s of
         (Inr t, s') \<Rightarrow> Some (Inl (Status code), updStats (f t) s')
       | (Inl _, s') \<Rightarrow> Some (Inl (Status code), s')))"

definition tryP :: "('w, 'i, 's) Env \<Rightarrow> Code \<Rightarrow> (server_error \<Rightarrow> int \<Rightarrow> Stats \<Rightarrow> Stats) option \<Rightarrow> ('w, 'i, 's, 'a) server_act \<Rightarrow> ('w, 'i, 's, 'a) push_act" where
  "tryP E code rec m = (\<lambda>s. case m s of (Inl e, s') \<Rightarrow> rejectP E code (map_option (\<lambda>f. f e) rec) s' | (Inr x, s') \<Rightarrow> Some (Inr x, s'))"

definition commitP :: "('w, 'i, 's) Env \<Rightarrow> Receipt \<Rightarrow> ('w, 'i, 's, Receipt \<times> bool) push_act" where
  "commitP E r = (\<lambda>s. case ICommit (inboxOps E) r (sinbox s) of
     (Inl e, i) \<Rightarrow> rejectP E (if e = ErrIdentityConflict then AlreadyExists else Unavailable) (Some (recordRejected (errText E (InboxError e)))) (s\<lparr>sinbox := i\<rparr>)
   | (Inr x, i) \<Rightarrow> Some (Inr x, s\<lparr>sinbox := i\<rparr>))"

definition applyP :: "nat \<Rightarrow> ('w, 'i, 's) Env \<Rightarrow> string \<Rightarrow> ('w, 'i, 's, unit) push_act" where
  "applyP fuel E k = (\<lambda>s. case applyReceipt fuel E k s of
     None \<Rightarrow> None
   | Some (Inl e, s') \<Rightarrow> rejectP E Unavailable (Some (recordRejected (errText E (ServerError e)))) s'
   | Some (Inr _, s') \<Rightarrow> Some (Inr (), s'))"

definition ackP :: "('w, 'i, 's) Env \<Rightarrow> Ack \<Rightarrow> ('w, 'i, 's, unit) push_act" where
  "ackP E ack = (\<lambda>s. case envOp E (sendAck E ack) s of
     (Inr None, s') \<Rightarrow> Some (Inr (), s'\<lparr>acks := acks s' @ [ack]\<rparr>)
   | (Inr (Some e), s') \<Rightarrow> Some (Inl (StreamErr e), s')
   | (Inl _, s') \<Rightarrow> Some (Inl AuthFailed, s'))"

text \<open>The end of the turn: retention, the acknowledgement, the counters.\<close>

definition acknowledgeBatch :: "('w, 'i, 's) Env \<Rightarrow> TelemetryBatch \<Rightarrow> int \<Rightarrow> bool \<Rightarrow> ('w, 'i, 's, unit) push_act" where
  "acknowledgeBatch E b receivedAt created =
     bindP (\<lambda>s. Some (Inr (), snd (maybePruneInbox E receivedAt s))) (\<lambda>_.
     bindP (tryP E Unavailable None (injectFault E FaultBeforeACK)) (\<lambda>_.
     bindP (ackP E \<lparr>AckBatchId = BatchId b\<rparr>) (\<lambda>_.
     bindP (tryP E Unavailable None (injectFault E FaultAfterACK)) (\<lambda>_ s.
       Some (Inr (), updStats (if created then recordAccepted b (collectorOf b) receivedAt
                               else recordDuplicate (collectorOf b) (BatchId b) receivedAt) s)))))"

definition handleReceipt :: "nat \<Rightarrow> ('w, 'i, 's) Env \<Rightarrow> TelemetryBatch \<Rightarrow> int \<Rightarrow> Receipt \<Rightarrow> ('w, 'i, 's, unit) push_act" where
  "handleReceipt fuel E b receivedAt receipt =
     bindP (commitP E receipt) (\<lambda>(stored, created).
     bindP (tryP E Unavailable None (injectFault E FaultAfterInboxCommit)) (\<lambda>_.
     bindP (applyP fuel E (Identity stored)) (\<lambda>_. acknowledgeBatch E b receivedAt created)))"

text \<open>A nil batch never passes validation; its branch below the check is unreachable.\<close>

definition handleBatch :: "nat \<Rightarrow> ('w, 'i, 's) Env \<Rightarrow> IdentityRec option \<Rightarrow> string list \<Rightarrow> TelemetryBatch option
    \<Rightarrow> ('w, 'i, 's, unit) push_act" where
  "handleBatch fuel E actor peers bo = (\<lambda>s.
     case validateIngestBatch (sizeOf E) bo of
       Some e \<Rightarrow> rejectP E InvalidArgument (Some (recordRejected (errText E (Invalid e)))) s
     | None \<Rightarrow> (case bo of
         None \<Rightarrow> rejectP E InvalidArgument (Some (recordRejected (errText E (Invalid BatchNil)))) s
       | Some b \<Rightarrow>
         (case authorizeCollector actor (Collector b) peers (accessPolicy s) of
            Some e \<Rightarrow> rejectP E PermissionDenied (Some (recordAuthzRejected actor peers e (errText E (Denied e)))) s
          | None \<Rightarrow>
              bindP (tryP E Unavailable (Some (\<lambda>e. recordWriteGuardRejected (errText E (ServerError e)))) (guardWrite E)) (\<lambda>_.
              bindP (tryP E Unavailable None (envOp E (timeOf E))) (\<lambda>receivedAt.
              bindP (tryP E Unavailable None (injectFault E FaultBeforeInboxCommit)) (\<lambda>_.
              case receiptFromBatch (hashOf E) (marshalOf E) b receivedAt of
                Inl e \<Rightarrow> rejectP E Internal (Some (recordRejected (errText E (GoError e))))
              | Inr receipt \<Rightarrow> handleReceipt fuel E b receivedAt receipt))) s)))"

text \<open>What \<^verbatim>\<open>stream.Recv\<close> returns, call by call; the end of the list is \<^verbatim>\<open>io.EOF\<close>.\<close>

datatype received = Batch "TelemetryBatch option" | RecvErr goerr

fun pushLoop :: "nat \<Rightarrow> ('w, 'i, 's) Env \<Rightarrow> IdentityRec option \<Rightarrow> string list \<Rightarrow> received list \<Rightarrow> ('w, 'i, 's, unit) push_act" where
  "pushLoop fuel E actor peers [] s = Some (Inr (), s)"
| "pushLoop fuel E actor peers (RecvErr e # rs) s = Some (Inl (StreamErr e), s)"
| "pushLoop fuel E actor peers (Batch bo # rs) s =
     bindP (handleBatch fuel E actor peers bo) (\<lambda>_. pushLoop fuel E actor peers rs) s"

text \<open>\<open>auth\<close> is the result of the authenticator on the stream's context, \<open>cert\<close> the peer's certificate.\<close>

definition Push :: "nat \<Rightarrow> ('w, 'i, 's) Env \<Rightarrow> goerr + IdentityRec option \<Rightarrow> Certificate option \<Rightarrow> received list
    \<Rightarrow> ('w, 'i, 's, unit) push_act" where
  "Push fuel E auth cert rs = (\<lambda>s. case auth of
     Inl e \<Rightarrow> rejectP E Unauthenticated (Some (recordAuthnRejected (errText E (GoError e)))) s
   | Inr actor \<Rightarrow>
       let s = updStats (recordAuthenticatedSubject actor) s;
           peers = peerIdentitySubjects cert;
           s = updStats (recordPeerSubject peers) s
       in pushLoop fuel E actor peers rs s)"

section \<open>Weakest preconditions\<close>

definition wpP :: "('t \<Rightarrow> ('r \<times> 't) option) \<Rightarrow> ('r \<Rightarrow> 't \<Rightarrow> bool) \<Rightarrow> 't \<Rightarrow> bool" where
  "wpP m Q s = (case m s of None \<Rightarrow> True | Some (r, s') \<Rightarrow> Q r s')"

lemma wpP_bindP: "wpP (bindP m f) Q s = wpP m (\<lambda>r s'. case r of Inl e \<Rightarrow> Q (Inl e) s' | Inr x \<Rightarrow> wpP (f x) Q s') s"
  by (auto simp: wpP_def bindP_def split: option.splits prod.splits sum.splits)

lemma wpP_mono: "wpP m Q s \<Longrightarrow> (\<And>r s'. Q r s' \<Longrightarrow> Q' r s') \<Longrightarrow> wpP m Q' s"
  by (auto simp: wpP_def split: option.splits prod.splits)

lemma wpP_bindP_I:
  assumes "wpP m P s" "\<And>e s'. P (Inl e) s' \<Longrightarrow> Q (Inl e) s'" "\<And>x s'. P (Inr x) s' \<Longrightarrow> wpP (f x) Q s'"
  shows "wpP (bindP m f) Q s"
  unfolding wpP_bindP by (rule wpP_mono [OF assms(1)]) (auto split: sum.splits intro: assms(2,3))

lemma wpP_tryP: "wpP (tryP E code rec m) Q s = wp m (\<lambda>r s'. case r of Inl e \<Rightarrow> wpP (rejectP E code (map_option (\<lambda>f. f e) rec)) Q s' | Inr x \<Rightarrow> Q (Inr x) s') s"
  by (auto simp: wpP_def wp_def tryP_def split: option.splits prod.splits sum.splits)

lemma wp_envOpI: "(\<And>x w. Q (Inr x) (s\<lparr>world := w, sinbox := others E w (sinbox s)\<rparr>)) \<Longrightarrow> wp (envOp E f) Q s"
  by (auto simp: wp_def envOp_def split: prod.splits)

lemma wp_inboxOpI:
  assumes "\<And>e i. f (sinbox s) = (Inl e, i) \<Longrightarrow> Q (Inl (wrap e)) (s\<lparr>sinbox := i\<rparr>)"
    "\<And>x i. f (sinbox s) = (Inr x, i) \<Longrightarrow> Q (Inr x) (s\<lparr>sinbox := i\<rparr>)"
  shows "wp (inboxOp wrap f) Q s"
  using assms by (auto simp: wp_def inboxOp_def split: prod.splits sum.splits)

lemma wp_storeOpI: "(\<And>r st. Q r (s\<lparr>sstore := st\<rparr>)) \<Longrightarrow> wp (storeOp f) Q s"
  by (auto simp: wp_def storeOp_def split: prod.splits)

end
