(* ===== verification/IngestApply.thy ===== *)
theory IngestApply
  imports IngestServer "HOL-Library.Sublist"
begin

text \<open>
  The application of receipts, proved once for every inbox that keeps the contract \<open>inbox\<close> and for
  every environment, including other controllers that work on the same inbox at the same time.
\<close>

section \<open>Progress\<close>

text \<open>What the server does between two acknowledgements and without pruning: no receipt disappears,
  changes its contents or leaves the applied state.\<close>

definition moved :: "('i \<Rightarrow> string \<Rightarrow> Receipt option) \<Rightarrow> ('i \<Rightarrow> bool) \<Rightarrow> ('w, 'i, 's) Server \<Rightarrow> ('w, 'i, 's) Server \<Rightarrow> bool" where
  "moved view good s s' \<longleftrightarrow> good (sinbox s') \<and> (\<forall>k. advances (view (sinbox s) k) (view (sinbox s') k))
     \<and> acks s' = acks s \<and> lastInboxGC s' = lastInboxGC s \<and> inboxGCInterval s' = inboxGCInterval s
     \<and> accessPolicy s' = accessPolicy s \<and> inboxRetention s' = inboxRetention s"

definition isApplied :: "('i \<Rightarrow> string \<Rightarrow> Receipt option) \<Rightarrow> ('w, 'i, 's) Server \<Rightarrow> string \<Rightarrow> bool" where
  "isApplied view s k \<longleftrightarrow> (\<exists>r. view (sinbox s) k = Some r \<and> State r = ReceiptApplied)"

lemma moved_trans: "moved view good s s1 \<Longrightarrow> moved view good s1 s2 \<Longrightarrow> moved view good s s2"
  unfolding moved_def using advances_trans by metis

lemma moved_refl: "good (sinbox s) \<Longrightarrow> moved view good s s"
  by (simp add: moved_def)

lemma moved_good: "moved view good s s' \<Longrightarrow> good (sinbox s')"
  by (simp add: moved_def)

lemma isApplied_moved: "isApplied view s k \<Longrightarrow> moved view good s s' \<Longrightarrow> isApplied view s' k"
  by (cases "view (sinbox s') k") (auto simp: isApplied_def moved_def dest: spec [of _ k])

lemma applied_state: "sameButRevision (appliedReceipt t r) r' \<Longrightarrow> State r' = ReceiptApplied"
  by (cases r; cases r') (simp add: sameButRevision_def appliedReceipt_def)

text \<open>The batch passes validation and authorization, and its encoding is stored as an applied receipt under
  its identity.\<close>

definition accepted :: "('w, 'i, 's) Env \<Rightarrow> IdentityRec option \<Rightarrow> string list \<Rightarrow> AccessPolicy \<Rightarrow> TelemetryBatch \<Rightarrow> bool" where
  "accepted E actor peers policy b \<longleftrightarrow> validateIngestBatch (sizeOf E) (Some b) = None \<and> authorizeCollector actor (Collector b) peers policy = None"

definition materialized :: "('w, 'i, 's) Env \<Rightarrow> ('i \<Rightarrow> string \<Rightarrow> Receipt option) \<Rightarrow> ('w, 'i, 's) Server \<Rightarrow> TelemetryBatch \<Rightarrow> bool" where
  "materialized E view s b \<longleftrightarrow> (\<exists>r. view (sinbox s) (fst (batchDedupeIdentity (hashOf E) b)) = Some r
     \<and> State r = ReceiptApplied \<and> marshalOf E b = Inr (Payload r))"

definition ackOf :: "TelemetryBatch \<Rightarrow> Ack" where
  "ackOf b = \<lparr>AckBatchId = BatchId b\<rparr>"

locale ingest = inbox I view good for I :: "'i Inbox" and view good +
  fixes E :: "('w, 'i, 's) Env"
  assumes ops: "inboxOps E = I"
    and others_run: "good i \<Longrightarrow> inboxRun I (\<lambda>_ _. True) i (others E w i)"
begin

abbreviation "to \<equiv> moved view good"

definition keeps :: "('w, 'i, 's, 'a) server_act \<Rightarrow> bool" where
  "keeps m \<longleftrightarrow> (\<forall>s. good (sinbox s) \<longrightarrow> wp m (\<lambda>_ s'. to s s') s)"

lemma keepsD: "keeps m \<Longrightarrow> good (sinbox s) \<Longrightarrow> wp m (\<lambda>_ s'. to s s') s"
  by (simp add: keeps_def)

lemma wp_bind_keeps:
  assumes "keeps m" "good (sinbox s)" "\<And>x s'. to s s' \<Longrightarrow> wp (f x) Q s'" "\<And>e s'. to s s' \<Longrightarrow> Q (Inl e) s'"
  shows "wp (bindE m f) Q s"
  unfolding wp_bindE by (rule wp_mono [OF keepsD [OF assms(1,2)]]) (auto split: sum.splits intro: assms(3,4))

lemma wp_seq_keeps:
  assumes "keeps m" "good (sinbox s)" "\<And>s'. to s s' \<Longrightarrow> wp k Q s'" "\<And>e s'. to s s' \<Longrightarrow> Q (Inl e) s'"
  shows "wp (seqE m k) Q s"
  unfolding seqE_def by (rule wp_bind_keeps) (use assms in auto)

lemma keeps_after:
  assumes "keeps m" "to s s'"
  shows "wp m (\<lambda>_ s''. to s s'') s'"
  by (rule wp_mono [OF keepsD [OF assms(1) moved_good [OF assms(2)]]]) (rule moved_trans [OF assms(2)])

lemma keeps_bind:
  assumes "keeps m" "\<And>x. keeps (f x)"
  shows "keeps (bindE m f)"
  unfolding keeps_def by (intro allI impI wp_bind_keeps [OF assms(1)] keeps_after assms(2))

lemma keeps_seq: "keeps m \<Longrightarrow> keeps k \<Longrightarrow> keeps (seqE m k)"
  unfolding seqE_def by (rule keeps_bind)

lemma keeps_ret: "keeps (ret x)" "keeps (throw e)"
  by (simp_all add: keeps_def wp_ret wp_throw moved_refl)

lemma keeps_getS: "(\<And>s. keeps (f s)) \<Longrightarrow> keeps (getS f)"
  by (simp add: keeps_def wp_getS)

lemma keeps_ignore: "keeps m \<Longrightarrow> keeps (ignoreE m)"
  by (simp add: keeps_def wp_ignoreE)

lemma keeps_onErr: "keeps m \<Longrightarrow> keeps h \<Longrightarrow> keeps (onErr m h)"
  unfolding keeps_def [of "onErr m h"] wp_onErr
  by (intro allI impI wp_mono [OF keepsD]) (auto split: sum.splits intro: keeps_after)

lemma keeps_catch: "keeps m \<Longrightarrow> (\<And>e. keeps (h e)) \<Longrightarrow> keeps (catchE m h)"
  unfolding keeps_def [of "catchE m h"] wp_catchE
  by (intro allI impI wp_mono [OF keepsD]) (auto split: sum.splits intro: keeps_after)

lemma keeps_envOp: "keeps (envOp E f)"
proof -
  have "to s (s\<lparr>world := w, sinbox := others E w (sinbox s)\<rparr>)" if "good (sinbox s)" for s w
    using run_advances [OF others_run [OF that, of w] that] by (simp add: moved_def)
  then show ?thesis unfolding keeps_def by (auto intro: wp_envOpI)
qed

lemma keeps_storeOp: "keeps (storeOp f)"
  unfolding keeps_def by (auto intro!: wp_storeOpI simp: moved_def)

lemma keeps_inboxOp:
  assumes "\<And>i x i'. f i = (x, i') \<Longrightarrow> \<exists>owner now. inboxStep I owner now i i'"
  shows "keeps (inboxOp wrap f)"
proof -
  have "to s (s\<lparr>sinbox := i\<rparr>)" if "good (sinbox s)" "f (sinbox s) = (x, i)" for s i x
    using assms [OF that(2)] step_advances [OF _ that(1)] by (auto simp: moved_def)
  then show ?thesis unfolding keeps_def by (auto intro: wp_inboxOpI)
qed

lemma keeps_claim: "keeps (inboxOp wrap (IClaim I k owner now lease))"
  by (rule keeps_inboxOp) (blast intro: step_claim)

lemma keeps_applied: "keeps (inboxOp wrap (IMarkApplied I k owner t))"
  by (rule keeps_inboxOp) (blast intro: step_applied)

lemma keeps_failed: "keeps (inboxOp wrap (IMarkFailed I k owner msg))"
  by (rule keeps_inboxOp) (blast intro: step_failed)

lemma renewLoop_advances:
  "good i \<Longrightarrow> renewLoop I k owner lease ts i = (r, i') \<Longrightarrow> good i' \<and> (\<forall>k. advances (view i k) (view i' k))"
proof (induction ts arbitrary: i)
  case (Cons t ts)
  obtain u i1 where u: "IRenew I k owner t lease i = (u, i1)" by fastforce
  from step_advances [OF step_renew [OF u] Cons.prems(1)] have 1: "good i1" "\<forall>k. advances (view i k) (view i1 k)" by auto
  show ?case
  proof (cases u)
    case (Inr x)
    with u Cons.prems(2) have "renewLoop I k owner lease ts i1 = (r, i')" by (simp add: seqE_def bindE_def)
    with Cons.IH [OF 1(1)] 1(2) show ?thesis using advances_trans by blast
  qed (use u Cons.prems(2) 1 in \<open>simp add: seqE_def bindE_def\<close>)
qed (simp add: ret_def)


lemma keeps_renew: "keeps (renewReceiptLease E k owner)"
proof -
  have "keeps (inboxOp wrap (renewLoop I k owner l ts))" for wrap l ts
    unfolding keeps_def by (auto intro!: wp_inboxOpI simp: moved_def dest: renewLoop_advances)
  then show ?thesis unfolding renewReceiptLease_def ops by (intro keeps_getS keeps_bind keeps_envOp)
qed

lemma keeps_guard: "keeps (guardWrite E)" "keeps (injectFault E p)"
  unfolding guardWrite_def injectFault_def by (intro keeps_bind keeps_envOp; simp add: keeps_ret split: option.splits)+

lemma keeps_applyClaimed: "keeps (applyClaimed E k owner r)"
  unfolding applyClaimed_def ops
  by (intro keeps_catch keeps_seq keeps_ignore keeps_failed keeps_ret)
     (simp add: keeps_ret keeps_storeOp split: sum.splits)

lemmas keeps_rules = keeps_bind keeps_seq keeps_ret keeps_getS keeps_ignore keeps_onErr keeps_catch keeps_envOp keeps_storeOp
  keeps_claim keeps_applied keeps_failed keeps_renew keeps_guard keeps_applyClaimed

section \<open>One attempt\<close>

lemma wp_checkpoint:
  assumes "good (sinbox s)"
  shows "wp (inboxOp CheckpointFailed (IMarkApplied I k owner t)) (\<lambda>r s'. to s s' \<and> (\<forall>x. r = Inr x \<longrightarrow> isApplied view s' k)) s"
proof (rule wp_inboxOpI)
  fix e i assume *: "IMarkApplied I k owner t (sinbox s) = (Inl e, i)"
  from step_advances [OF step_applied [OF *] assms] show "to s (s\<lparr>sinbox := i\<rparr>) \<and> (\<forall>x. Inl (CheckpointFailed e) = Inr x \<longrightarrow> isApplied view (s\<lparr>sinbox := i\<rparr>) k)"
    by (simp add: moved_def)
next
  fix x i assume *: "IMarkApplied I k owner t (sinbox s) = (Inr x, i)"
  from applied_ok [OF assms *] have "isApplied view (s\<lparr>sinbox := i\<rparr>) k"
    by (auto simp: isApplied_def applied_state)
  with step_advances [OF step_applied [OF *] assms] show "to s (s\<lparr>sinbox := i\<rparr>) \<and> (\<forall>y. Inr x = Inr y \<longrightarrow> isApplied view (s\<lparr>sinbox := i\<rparr>) k)"
    by (simp add: moved_def)
qed

lemma wp_from:
  assumes "to s s'" "wp m (\<lambda>r s''. to s' s'' \<and> P r s'') s'"
  shows "wp m (\<lambda>r s''. to s s'' \<and> P r s'') s'"
  by (rule wp_mono [OF assms(2)]) (use moved_trans [OF assms(1)] in blast)

lemma wp_claim:
  assumes "good (sinbox s)"
  shows "wp (inboxOp ClaimFailed (IClaim I k owner now lease))
           (\<lambda>r s'. to s s' \<and> (\<forall>x. r = Inr (x, False) \<longrightarrow> State x = ReceiptApplied \<longrightarrow> isApplied view s' k)) s"
proof (rule wp_inboxOpI)
  fix x i assume *: "IClaim I k owner now lease (sinbox s) = (Inr x, i)"
  obtain r c where x: "x = (r, c)" by fastforce
  from claim_ok [OF assms * [unfolded x]] step_advances [OF step_claim [OF *] assms]
  show "to s (s\<lparr>sinbox := i\<rparr>) \<and> (\<forall>y. Inr x = Inr (y, False) \<longrightarrow> State y = ReceiptApplied \<longrightarrow> isApplied view (s\<lparr>sinbox := i\<rparr>) k)"
    by (auto simp: moved_def isApplied_def x)
next
  fix e i assume *: "IClaim I k owner now lease (sinbox s) = (Inl e, i)"
  from step_advances [OF step_claim [OF *] assms]
  show "to s (s\<lparr>sinbox := i\<rparr>) \<and> (\<forall>y. Inl (ClaimFailed e) = Inr (y, False) \<longrightarrow> State y = ReceiptApplied \<longrightarrow> isApplied view (s\<lparr>sinbox := i\<rparr>) k)"
    by (simp add: moved_def)
qed

text \<open>A part that keeps the invariant, followed by one that ends in \<open>P\<close>.\<close>

lemma wp_then:
  assumes "keeps m" "good (sinbox s)" "\<And>s'. good (sinbox s') \<Longrightarrow> wp k (\<lambda>r s''. to s' s'' \<and> P r s'') s'" "\<And>e s'. P (Inl e) s'"
  shows "wp (seqE m k) (\<lambda>r s'. to s s' \<and> P r s') s"
  by (rule wp_seq_keeps [OF assms(1,2)]) (auto intro: wp_from assms(3,4) moved_good)

lemma wp_then_bind:
  assumes "keeps m" "good (sinbox s)" "\<And>x s'. good (sinbox s') \<Longrightarrow> wp (f x) (\<lambda>r s''. to s' s'' \<and> P r s'') s'" "\<And>e s'. P (Inl e) s'"
  shows "wp (bindE m f) (\<lambda>r s'. to s s' \<and> P r s') s"
  by (rule wp_bind_keeps [OF assms(1,2)]) (auto intro: wp_from assms(3,4) moved_good)

text \<open>A part that ends with the receipt applied, followed by one that keeps the invariant.\<close>

lemma wp_applied_then:
  assumes "wp m (\<lambda>r s'. to s s' \<and> (\<forall>x. r = Inr x \<longrightarrow> isApplied view s' k)) s" "keeps m'"
  shows "wp (seqE m m') (\<lambda>r s'. to s s' \<and> (\<forall>x. r = Inr x \<longrightarrow> isApplied view s' k)) s"
proof (rule wp_seqE_I [OF assms(1)])
  fix x s' assume "to s s' \<and> (\<forall>y. Inr x = Inr y \<longrightarrow> isApplied view s' k)"
  then have s': "to s s'" "isApplied view s' k" by auto
  show "wp m' (\<lambda>r s'. to s s' \<and> (\<forall>x. r = Inr x \<longrightarrow> isApplied view s' k)) s'"
    by (rule wp_mono [OF keepsD [OF assms(2) moved_good [OF s'(1)]]]) (use moved_trans [OF s'(1)] isApplied_moved [OF s'(2)] in blast)
qed auto

lemma keeps_work:
  "keeps (onErr (seqE (injectFault E p) (seqE (applyClaimed E k owner r) (injectFault E q))) (renewReceiptLease E k owner))"
  by (intro keeps_onErr keeps_seq keeps_renew keeps_guard keeps_applyClaimed)

lemma wp_applyUnderLease:
  assumes "good (sinbox s)"
  shows "wp (applyUnderLease E owner k r) (\<lambda>r s'. to s s' \<and> (\<forall>x. r = Inr x \<longrightarrow> isApplied view s' k)) s"
  unfolding applyUnderLease_def ops
  by (intro wp_then [OF keeps_work assms] wp_then [OF keeps_renew] wp_applied_then keeps_guard wp_then_bind [OF keeps_envOp] wp_checkpoint)
     auto

lemma keeps_wait: "keeps (waitForLease E r)"
  unfolding waitForLease_def Let_def by (intro keeps_bind keeps_envOp) (simp add: keeps_ret split: option.splits)

lemma wp_applyAttempt:
  assumes "good (sinbox s)"
  shows "wp (applyAttempt E owner k) (\<lambda>r s'. to s s' \<and> (r = Inr True \<longrightarrow> isApplied view s' k)) s"
  unfolding applyAttempt_def ops
proof (intro wp_then [OF keeps_guard(1) assms] wp_then_bind [OF keeps_envOp] wp_getS [THEN iffD2] wp_bindE_I [OF wp_claim], goal_cases)
  case (4 s1 now s2 x s3)
  obtain r c where x: "x = (r, c)" by fastforce
  from 4(3) have s3: "to s2 s3" "good (sinbox s3)" by (auto dest: moved_good)
  have "wp (seqE (applyUnderLease E owner k r) (ret True)) (\<lambda>r s'. to s2 s' \<and> (\<forall>x. r = Inr x \<longrightarrow> isApplied view s' k)) s3"
    by (intro wp_from [OF s3(1)] wp_applied_then wp_applyUnderLease s3(2) keeps_ret)
  then have 1: "wp (seqE (applyUnderLease E owner k r) (ret True)) (\<lambda>r s'. to s2 s' \<and> (r = Inr True \<longrightarrow> isApplied view s' k)) s3"
    by (rule wp_mono) auto
  have 2: "wp (seqE (waitForLease E r) (ret False)) (\<lambda>r s'. to s2 s' \<and> (r = Inr True \<longrightarrow> isApplied view s' k)) s3"
    by (intro wp_from [OF s3(1)] wp_then keeps_wait s3(2)) (auto simp: wp_ret moved_refl)
  show ?case using 4(3) s3(1) 1 2 unfolding x by (auto simp: wp_ret)
qed auto

lemma wp_applyLoop:
  "good (sinbox s) \<Longrightarrow> wpP (applyLoop fuel E owner k) (\<lambda>r s'. to s s' \<and> (r = Inr () \<longrightarrow> isApplied view s' k)) s"
proof (induction fuel arbitrary: s)
  case (Suc fuel)
  obtain r s' where a: "applyAttempt E owner k s = (r, s')" by fastforce
  from wp_applyAttempt [OF Suc.prems, of owner k] have 1: "to s s'" "r = Inr True \<longrightarrow> isApplied view s' k"
    by (auto simp: wp_result a)
  have "wpP (applyLoop fuel E owner k) (\<lambda>r s''. to s s'' \<and> (r = Inr () \<longrightarrow> isApplied view s'' k)) s'"
    by (rule wpP_mono [OF Suc.IH [OF moved_good [OF 1(1)]]]) (use moved_trans [OF 1(1)] in blast)
  with a 1 show ?case by (auto simp: wpP_def split: sum.splits bool.splits)
qed (simp add: wpP_def)

lemma wp_applyReceipt:
  assumes "good (sinbox s)"
  shows "wpP (applyReceipt fuel E k) (\<lambda>r s'. to s s' \<and> (r = Inr () \<longrightarrow> isApplied view s' k)) s"
proof -
  obtain r s' where a: "envOp E (inboxOwner E) s = (r, s')" by fastforce
  from keepsD [OF keeps_envOp assms, of "inboxOwner E"] have 1: "to s s'" by (simp add: wp_result a)
  have "wpP (applyLoop fuel E owner k) (\<lambda>r s''. to s s'' \<and> (r = Inr () \<longrightarrow> isApplied view s'' k)) s'" for owner
    by (rule wpP_mono [OF wp_applyLoop [OF moved_good [OF 1]]]) (use moved_trans [OF 1] in blast)
  with a 1 show ?thesis by (auto simp: wpP_def applyReceipt_def split: sum.splits)
qed

section \<open>Receipts that are already applied\<close>

text \<open>The batch of an applied receipt does not reach the store again.\<close>

lemma wp_claim_applied:
  assumes "good (sinbox s)" "isApplied view s k"
  shows "wp (inboxOp ClaimFailed (IClaim I k owner now lease))
           (\<lambda>r s'. sstore s' = sstore s \<and> (\<forall>x c. r = Inr (x, c) \<longrightarrow> \<not> c \<and> State x = ReceiptApplied)) s"
proof (rule wp_inboxOpI)
  fix x i assume *: "IClaim I k owner now lease (sinbox s) = (Inr x, i)"
  obtain r c where x: "x = (r, c)" by fastforce
  from assms(2) have "view (sinbox s) k = Some r0 \<Longrightarrow> \<not> claimable now r0" for r0
    by (auto simp: isApplied_def claimable_def)
  with claim_ok [OF assms(1) * [unfolded x]] assms(2) have "\<not> c \<and> State r = ReceiptApplied"
    by (cases c) (auto simp: isApplied_def)
  then show "sstore (s\<lparr>sinbox := i\<rparr>) = sstore s \<and> (\<forall>y c. Inr x = Inr (y, c) \<longrightarrow> \<not> c \<and> State y = ReceiptApplied)"
    by (simp add: x)
qed simp

lemma wp_quietI:
  assumes "keeps m" "good (sinbox s)" "isApplied view s k" "wp m (\<lambda>_ s'. sstore s' = sstore s) s"
  shows "wp m (\<lambda>_ s'. good (sinbox s') \<and> isApplied view s' k \<and> sstore s' = sstore s) s"
  using keepsD [OF assms(1,2)] assms(4) by (auto simp: wp_result intro: moved_good isApplied_moved [OF assms(3)])

lemma wp_quiet:
  assumes "good (sinbox s)" "isApplied view s k"
  shows "wp (guardWrite E) (\<lambda>_ s'. good (sinbox s') \<and> isApplied view s' k \<and> sstore s' = sstore s) s"
    "wp (envOp E f) (\<lambda>_ s'. good (sinbox s') \<and> isApplied view s' k \<and> sstore s' = sstore s) s"
  by (rule wp_quietI [OF keeps_guard(1) assms], simp add: guardWrite_def envOp_def bindE_def ret_def throw_def wp_def split: prod.splits option.splits)
     (rule wp_quietI [OF keeps_envOp assms], simp add: wp_envOpI)

lemma wp_applyAttempt_applied:
  assumes "good (sinbox s)" "isApplied view s k"
  shows "wp (applyAttempt E owner k) (\<lambda>r s'. sstore s' = sstore s \<and> r \<noteq> Inr False) s"
  unfolding applyAttempt_def ops
proof (rule wp_seqE_I [OF wp_quiet(1) [OF assms]], goal_cases)
  case (2 x s1)
  then have s1: "good (sinbox s1)" "isApplied view s1 k" "sstore s1 = sstore s" by auto
  show ?case
  proof (rule wp_bindE_I [OF wp_quiet(2) [OF s1(1,2)]], goal_cases)
    case (2 now s2)
    then have s2: "good (sinbox s2)" "isApplied view s2 k" "sstore s2 = sstore s" using s1(3) by auto
    show ?case unfolding wp_getS
      by (rule wp_bindE_I [OF wp_claim_applied [OF s2(1,2)]]) (auto simp: s2(3) wp_ret split: prod.splits)
  qed (simp add: s1)
qed simp

lemma applyReceipt_applied:
  assumes "good (sinbox s)" "isApplied view s k"
  shows "\<exists>r s'. applyReceipt (Suc fuel) E k s = Some (r, s') \<and> sstore s' = sstore s"
proof -
  obtain o' s' where a: "envOp E (inboxOwner E) s = (Inr o', s')"
    by (cases "inboxOwner E (world s)") (simp add: envOp_def)
  from wp_quiet(2) [OF assms, of "inboxOwner E"] have 1: "good (sinbox s')" "isApplied view s' k" "sstore s' = sstore s"
    by (auto simp: wp_result a)
  have "\<exists>r s''. applyLoop (Suc fuel) E owner k s' = Some (r, s'') \<and> sstore s'' = sstore s" for owner
    using wp_applyAttempt_applied [OF 1(1,2), of owner] by (auto simp: wp_def 1(3) split: prod.splits sum.splits bool.splits)
  with a 1(3) show ?thesis by (cases o') (auto simp: applyReceipt_def)
qed

section \<open>The stream\<close>

text \<open>A call of the handler keeps what \<open>moved\<close> says of the inbox, provided no pruning is due at any reading
  of the clock; it may acknowledge.\<close>

definition noGC :: "('w, 'i, 's) Server \<Rightarrow> bool" where
  "noGC s \<longleftrightarrow> (\<forall>w. \<not> pruneDue (fst (timeOf E w)) s)"

definition served :: "('w, 'i, 's) Server \<Rightarrow> ('w, 'i, 's) Server \<Rightarrow> bool" where
  "served s s' \<longleftrightarrow> moved view good s (s'\<lparr>acks := acks s\<rparr>)"

definition holds :: "('w, 'i, 's) Server \<Rightarrow> string \<Rightarrow> bytes \<Rightarrow> bool" where
  "holds s k p \<longleftrightarrow> (\<exists>r. view (sinbox s) k = Some r \<and> State r = ReceiptApplied \<and> Payload r = p)"

lemma served_moved: "to s s' \<Longrightarrow> served s s'"
  by (simp add: served_def moved_def)

lemma served_trans: "served s s1 \<Longrightarrow> served s1 s2 \<Longrightarrow> served s s2"
  unfolding served_def moved_def using advances_trans by simp metis

lemma served_good: "served s s' \<Longrightarrow> good (sinbox s')"
  by (simp add: served_def moved_def)

lemma served_refl: "good (sinbox s) \<Longrightarrow> served s s"
  by (simp add: served_moved moved_refl)

lemma noGC_served: "noGC s \<Longrightarrow> served s s' \<Longrightarrow> noGC s'"
  by (simp add: noGC_def served_def moved_def pruneDue_def)

lemma holds_served: "holds s k p \<Longrightarrow> served s s' \<Longrightarrow> holds s' k p"
  by (cases "view (sinbox s') k") (auto simp: holds_def served_def moved_def sameContents_fields dest!: spec [of _ k])

text \<open>What a step that answers nothing does, and that it may only fail.\<close>

abbreviation "silent s s' \<equiv> served s s' \<and> acks s' = acks s"

lemma silent_moved: "to s s' \<Longrightarrow> silent s s'"
  by (simp add: served_moved) (simp add: moved_def)

lemma silent_trans: "silent s s1 \<Longrightarrow> silent s1 s2 \<Longrightarrow> silent s s2"
  using served_trans by metis

lemma silent_stats: "silent s s' \<Longrightarrow> silent s (updStats f s')"
  by (simp add: updStats_def served_def moved_def)

lemma wpP_rejectP:
  assumes "good (sinbox s)"
  shows "wpP (rejectP E code rec) (\<lambda>r s'. silent s s' \<and> (\<exists>e. r = Inl e)) s"
proof (cases rec)
  case None
  then show ?thesis using assms by (simp add: wpP_def rejectP_def served_refl)
next
  case (Some f)
  obtain r s' where a: "envOp E (timeOf E) s = (r, s')" by fastforce
  have "silent s s'" using keepsD [OF keeps_envOp assms, of "timeOf E"] by (simp add: wp_result a silent_moved)
  then show ?thesis using Some a silent_stats by (cases r) (simp_all add: wpP_def rejectP_def)
qed

lemma wpP_silent:
  assumes "silent s s'" "wpP m (\<lambda>r s''. silent s' s'' \<and> P r s'') s'"
  shows "wpP m (\<lambda>r s''. silent s s'' \<and> P r s'') s'"
  by (rule wpP_mono [OF assms(2)]) (use silent_trans [OF assms(1)] in blast)

lemma wpP_then_reject:
  assumes "silent s s'" "m t = rejectP E code rec s'"
  shows "wpP m (\<lambda>r s''. silent s s'' \<and> (\<forall>x. r = Inr x \<longrightarrow> P x s'')) t"
proof -
  have "wpP (rejectP E code rec) (\<lambda>r s''. silent s s'' \<and> (\<forall>x. r = Inr x \<longrightarrow> P x s'')) s'"
    by (rule wpP_mono [OF wpP_silent [OF assms(1) wpP_rejectP]]) (use assms(1) served_good in auto)
  then show ?thesis by (simp add: wpP_def assms(2))
qed

lemma wpP_try:
  assumes "good (sinbox s)" "keeps m"
  shows "wpP (tryP E code rec m) (\<lambda>r s'. silent s s') s"
proof -
  have "wpP (rejectP E code rec') (\<lambda>r s''. silent s s'') s'" if "to s s'" for s' rec'
    by (rule wpP_mono [OF wpP_silent [OF silent_moved [OF that] wpP_rejectP [OF moved_good [OF that]]]]) blast
  then show ?thesis unfolding wpP_tryP
    by (intro wp_mono [OF keepsD [OF assms(2,1)]]) (auto split: sum.splits simp: silent_moved)
qed

definition stored :: "('w, 'i, 's) Server \<Rightarrow> string \<Rightarrow> bytes \<Rightarrow> bool" where
  "stored s k p \<longleftrightarrow> (\<exists>r. view (sinbox s) k = Some r \<and> Payload r = p)"

lemma stored_served: "stored s k p \<Longrightarrow> served s s' \<Longrightarrow> stored s' k p"
  by (cases "view (sinbox s') k") (auto simp: stored_def served_def moved_def sameContents_fields dest!: spec [of _ k])

lemma holdsI: "stored s k p \<Longrightarrow> isApplied view s k \<Longrightarrow> holds s k p"
  by (auto simp: stored_def isApplied_def holds_def)

lemma wpP_commitP:
  assumes "good (sinbox s)"
  shows "wpP (commitP E r) (\<lambda>x s'. silent s s' \<and> (\<forall>y. x = Inr y \<longrightarrow> Identity (fst y) = Identity r \<and> stored s' (Identity r) (Payload r))) s"
proof -
  obtain x i where a: "ICommit I r (sinbox s) = (x, i)" by fastforce
  have q: "silent s (s\<lparr>sinbox := i\<rparr>)"
    using step_advances [OF step_commit [OF a] assms] by (simp add: served_def moved_def)
  show ?thesis
  proof (cases x)
    case (Inl e)
    with a show ?thesis by (intro wpP_then_reject [OF q]) (simp add: commitP_def ops)
  next
    case (Inr y)
    obtain st c where y: "y = (st, c)" by fastforce
    have *: "good i" "Payload st = Payload r" "view i = (view (sinbox s))(Identity r \<mapsto> st)"
      using commit_ok [OF assms a [unfolded Inr y]] by auto
    then have "Identity st = Identity r" using keyed [OF *(1), of "Identity r" st] by simp
    with * q a Inr y show ?thesis by (simp add: wpP_def commitP_def ops stored_def)
  qed
qed

lemma wpP_applyP:
  assumes "good (sinbox s)"
  shows "wpP (applyP fuel E k) (\<lambda>r s'. silent s s' \<and> (\<forall>u. r = Inr u \<longrightarrow> isApplied view s' k)) s"
proof (cases "applyReceipt fuel E k s")
  case (Some a)
  obtain r s1 where a: "a = (r, s1)" by fastforce
  from wp_applyReceipt [OF assms, of fuel k] Some a have *: "to s s1" "r = Inr () \<longrightarrow> isApplied view s1 k"
    by (auto simp: wpP_def)
  have q: "silent s s1" by (rule silent_moved [OF *(1)])
  show ?thesis
  proof (cases r)
    case (Inl e)
    with Some a show ?thesis by (intro wpP_then_reject [OF q]) (simp add: applyP_def)
  qed (use Some a * q in \<open>auto simp: wpP_def applyP_def\<close>)
qed (simp add: wpP_def applyP_def)

lemma wpP_ackP:
  assumes "good (sinbox s)"
  shows "wpP (ackP E a) (\<lambda>r s'. served s s' \<and> acks s' = acks s @ (case r of Inl _ \<Rightarrow> [] | Inr _ \<Rightarrow> [a])) s"
proof -
  obtain r s' where e: "envOp E (sendAck E a) s = (r, s')" by fastforce
  have "to s s'" using keepsD [OF keeps_envOp assms, of "sendAck E a"] by (simp add: wp_result e)
  then show ?thesis by (cases r) (auto simp: wpP_def ackP_def e served_def moved_def split: option.splits)
qed

lemma prune_not_due: "\<not> pruneDue now s \<Longrightarrow> maybePruneInbox E now s = (Inr (), s)"
  by (simp add: maybePruneInbox_def getS_def ret_def)

definition answered :: "TelemetryBatch \<Rightarrow> string \<Rightarrow> bytes \<Rightarrow> ('w, 'i, 's) Server \<Rightarrow> push_error + unit \<Rightarrow> ('w, 'i, 's) Server \<Rightarrow> bool" where
  "answered b k p s r s' \<longleftrightarrow> served s s' \<and> (acks s' = acks s \<or> acks s' = acks s @ [\<lparr>AckBatchId = BatchId b\<rparr>] \<and> holds s' k p)
     \<and> (r = Inr () \<longrightarrow> acks s' = acks s @ [\<lparr>AckBatchId = BatchId b\<rparr>])"

lemma answered_silent: "silent s s' \<Longrightarrow> answered b k p s (Inl e) s'"
  by (simp add: answered_def)

lemma answered_from: "silent s s1 \<Longrightarrow> answered b k p s1 r s' \<Longrightarrow> answered b k p s r s'"
  by (auto simp: answered_def intro: served_trans)

lemma wpP_seq_silent:
  assumes "wpP m (\<lambda>x s'. silent s s' \<and> P x s') s" "\<And>x s'. silent s s' \<Longrightarrow> P (Inr x) s' \<Longrightarrow> wpP (f x) (answered b k p s') s'"
  shows "wpP (bindP m f) (answered b k p s) s"
  by (rule wpP_bindP_I [OF assms(1)]) (auto intro: answered_silent wpP_mono [OF assms(2)] answered_from)

lemma pruneDue_served: "served s s' \<Longrightarrow> pruneDue now s' = pruneDue now s"
  by (simp add: pruneDue_def served_def moved_def)

lemma wpP_try_answered:
  assumes "good (sinbox s)" "keeps m" "\<And>x s'. silent s s' \<Longrightarrow> wpP (f x) (answered b k p s') s'"
  shows "wpP (bindP (tryP E code rec m) f) (answered b k p s) s"
  by (rule wpP_seq_silent [where P = "\<lambda>_ _. True"]) (simp_all add: assms(3) wpP_try [OF assms(1,2)])

lemma wpP_afterACK:
  assumes "good (sinbox s)" "served s0 s" "acks s = acks s0 @ [\<lparr>AckBatchId = BatchId b\<rparr>]" "holds s k p"
  shows "wpP (bindP (tryP E code rec (injectFault E q)) (\<lambda>_ s. Some (Inr (), updStats f s))) (answered b k p s0) s"
proof (rule wpP_bindP_I [OF wpP_try [OF assms(1) keeps_guard(2)]])
  have *: "served s0 s' \<and> acks s' = acks s0 @ [\<lparr>AckBatchId = BatchId b\<rparr>] \<and> holds s' k p" if "silent s s'" for s'
    using that assms(2-) by (metis served_trans holds_served)
  then show "answered b k p s0 (Inl e) s'" if "silent s s'" for e s'
    using that by (simp add: answered_def)
  show "wpP (\<lambda>s. Some (Inr (), updStats f s)) (answered b k p s0) s'" if "silent s s'" for s' and x :: unit
    using * [OF silent_stats [OF that]] by (simp add: answered_def wpP_def)
qed

lemma wpP_acknowledge:
  assumes "good (sinbox s)" "\<not> pruneDue now s" "holds s k p"
  shows "wpP (acknowledgeBatch E b now created) (answered b k p s) s"
proof -
  have "wpP (bindP (ackP E \<lparr>AckBatchId = BatchId b\<rparr>) (\<lambda>_. bindP (tryP E Unavailable None (injectFault E q)) (\<lambda>_ s. Some (Inr (), updStats f s))))
      (answered b k p s') s'" if "silent s s'" for s' f q
    by (rule wpP_bindP_I [OF wpP_ackP])
       (use that served_good holds_served [OF assms(3)] served_trans in \<open>auto simp: answered_def intro!: wpP_afterACK\<close>)
  then have "wpP (bindP (tryP E Unavailable None (injectFault E FaultBeforeACK)) (\<lambda>_.
     bindP (ackP E \<lparr>AckBatchId = BatchId b\<rparr>) (\<lambda>_. bindP (tryP E Unavailable None (injectFault E q)) (\<lambda>_ s. Some (Inr (), updStats f s)))))
     (answered b k p s) s" for f q
    by (intro wpP_try_answered [OF assms(1) keeps_guard(2)])
  then show ?thesis
    unfolding acknowledgeBatch_def by (simp add: wpP_bindP wpP_def [of "\<lambda>s. Some (Inr (), snd (maybePruneInbox E now s))"] prune_not_due [OF assms(2)])
qed

lemma wpP_handleReceipt:
  assumes "good (sinbox s)" "\<not> pruneDue now s"
  shows "wpP (handleReceipt fuel E b now r) (answered b (Identity r) (Payload r) s) s"
  unfolding handleReceipt_def
proof (rule wpP_seq_silent [OF wpP_commitP [OF assms(1)]], goal_cases)
  case (1 x s1)
  obtain st created where x: "x = (st, created)" by fastforce
  from 1 x have st: "Identity st = Identity r" "stored s1 (Identity r) (Payload r)" and good1: "good (sinbox s1)"
    using served_good by auto
  show ?case unfolding x prod.case st(1)
  proof (rule wpP_try_answered [OF good1 keeps_guard(2)], rule wpP_seq_silent [OF wpP_applyP])
    fix s2 s3 and x :: unit
    assume s2: "silent s1 s2" and s3: "silent s2 s3" "\<forall>u. Inr x = Inr u \<longrightarrow> isApplied view s3 (Identity r)"
    have s03: "served s s3" using 1(1) s2 s3 served_trans by blast
    have "stored s3 (Identity r) (Payload r)" using st(2) s2 s3(1) stored_served by blast
    with s3(2) have "holds s3 (Identity r) (Payload r)" by (simp add: holdsI)
    with s03 show "wpP (acknowledgeBatch E b now created) (answered b (Identity r) (Payload r) s3) s3"
      using assms(2) pruneDue_served [OF s03] by (intro wpP_acknowledge) (auto intro: served_good)
  qed (blast intro: served_good)
qed

lemma materialized_served: "materialized E view s b \<Longrightarrow> served s s' \<Longrightarrow> materialized E view s' b"
  using holds_served by (fastforce simp: materialized_def holds_def)

lemma served_policy: "served s s' \<Longrightarrow> accessPolicy s' = accessPolicy s"
  by (simp add: served_def moved_def)

text \<open>The answer to one message.\<close>

definition answeredOne :: "IdentityRec option \<Rightarrow> string list \<Rightarrow> TelemetryBatch option \<Rightarrow> ('w, 'i, 's) Server \<Rightarrow> push_error + unit \<Rightarrow> ('w, 'i, 's) Server \<Rightarrow> bool" where
  "answeredOne actor peers bo s r s' \<longleftrightarrow> served s s' \<and> (acks s' = acks s \<and> r \<noteq> Inr ()
     \<or> (\<exists>b. bo = Some b \<and> accepted E actor peers (accessPolicy s) b \<and> acks s' = acks s @ [ackOf b] \<and> materialized E view s' b))"

lemma receiptFromBatch_parts:
  "receiptFromBatch h m b t = Inr r \<Longrightarrow> Identity r = fst (batchDedupeIdentity h b) \<and> m b = Inr (Payload r)"
  by (auto simp: receiptFromBatch_def split: sum.splits option.splits prod.splits)

lemma answeredOne_silent: "silent s s' \<Longrightarrow> answeredOne actor peers bo s (Inl e) s'"
  by (simp add: answeredOne_def)

lemma answeredOne_from: "silent s s1 \<Longrightarrow> answeredOne actor peers bo s1 r s' \<Longrightarrow> answeredOne actor peers bo s r s'"
  by (auto simp: answeredOne_def served_policy intro: served_trans)

lemma wpP_reject_one: "good (sinbox s) \<Longrightarrow> wpP (rejectP E code rec) (answeredOne actor peers bo s) s"
  by (rule wpP_mono [OF wpP_rejectP]) (auto intro: answeredOne_silent)

lemma wpP_try_one:
  assumes "good (sinbox s)" "keeps m" "\<And>x s'. silent s s' \<Longrightarrow> wpP (f x) (answeredOne actor peers bo s') s'"
  shows "wpP (bindP (tryP E code rec m) f) (answeredOne actor peers bo s) s"
  by (rule wpP_bindP_I [OF wpP_try [OF assms(1,2)]])
     (simp_all add: answeredOne_silent wpP_mono [OF assms(3)] answeredOne_from)

lemma wpP_clock_one:
  assumes "good (sinbox s)" "\<And>w s'. silent s s' \<Longrightarrow> wpP (f (fst (timeOf E w))) (answeredOne actor peers bo s') s'"
  shows "wpP (bindP (tryP E code rec (envOp E (timeOf E))) f) (answeredOne actor peers bo s) s"
proof -
  obtain t w where t: "timeOf E (world s) = (t, w)" by fastforce
  let ?s = "s\<lparr>world := w, sinbox := others E w (sinbox s)\<rparr>"
  have q: "silent s ?s" using keepsD [OF keeps_envOp assms(1), of "timeOf E"] by (simp add: wp_result envOp_def t silent_moved)
  have "wpP (f t) (answeredOne actor peers bo s) ?s"
    using wpP_mono [OF assms(2) [OF q, of "world s"] answeredOne_from [OF q]] by (simp add: t)
  then show ?thesis by (simp add: wpP_bindP wpP_tryP wp_result envOp_def t)
qed

lemma wpP_receipt_one:
  assumes "good (sinbox s)" "\<not> pruneDue t s" "accepted E actor peers (accessPolicy s) b"
  shows "wpP (case receiptFromBatch (hashOf E) (marshalOf E) b t of Inl e \<Rightarrow> rejectP E code (rec e) | Inr r \<Rightarrow> handleReceipt fuel E b t r)
     (answeredOne actor peers (Some b) s) s"
proof (cases "receiptFromBatch (hashOf E) (marshalOf E) b t")
  case (Inr r)
  from receiptFromBatch_parts [OF Inr] assms(3) show ?thesis unfolding Inr sum.case
    by (intro wpP_mono [OF wpP_handleReceipt [OF assms(1,2)]]) (auto simp: answered_def answeredOne_def materialized_def holds_def ackOf_def)
qed (use wpP_reject_one [OF assms(1)] in simp)

lemma wpP_handleBatch:
  assumes "good (sinbox s)" "noGC s"
  shows "wpP (handleBatch fuel E actor peers bo) (answeredOne actor peers bo s) s"
proof (cases "\<exists>b. bo = Some b \<and> accepted E actor peers (accessPolicy s) b")
  case True
  then obtain b where b: "bo = Some b" "accepted E actor peers (accessPolicy s) b" by blast
  have "wpP (bindP (tryP E Unavailable (Some (\<lambda>e. recordWriteGuardRejected (errText E (ServerError e)))) (guardWrite E)) (\<lambda>_.
              bindP (tryP E Unavailable None (envOp E (timeOf E))) (\<lambda>receivedAt.
              bindP (tryP E Unavailable None (injectFault E FaultBeforeInboxCommit)) (\<lambda>_.
              case receiptFromBatch (hashOf E) (marshalOf E) b receivedAt of
                Inl e \<Rightarrow> rejectP E Internal (Some (recordRejected (errText E (GoError e))))
              | Inr receipt \<Rightarrow> handleReceipt fuel E b receivedAt receipt)))) (answeredOne actor peers bo s) s"
    unfolding b(1)
  proof (intro wpP_try_one [OF assms(1) keeps_guard(1)] wpP_clock_one wpP_try_one [OF _ keeps_guard(2)] wpP_receipt_one, goal_cases)
    case (4 x s1 w s2 y s3)
    then show ?case using assms(2) by (metis noGC_def pruneDue_served)
  next
    case (5 x s1 w s2 y s3)
    then show ?case using b(2) by (metis served_policy)
  qed (blast intro: served_good)+
  with b show ?thesis by (simp add: handleBatch_def accepted_def wpP_def)
next
  case False
  then have "\<exists>code rec. handleBatch fuel E actor peers bo s = rejectP E code (Some rec) s"
    by (cases bo; cases "validateIngestBatch (sizeOf E) bo") (auto simp: handleBatch_def accepted_def, metis)
  then obtain code rec where "handleBatch fuel E actor peers bo s = rejectP E code (Some rec) s" by blast
  with wpP_reject_one [OF assms(1)] show ?thesis by (simp add: wpP_def)
qed

text \<open>The acknowledgements of a stream: one for each batch of a prefix, in order, of everything if it ended well.\<close>

definition pushed :: "IdentityRec option \<Rightarrow> string list \<Rightarrow> received list \<Rightarrow> ('w, 'i, 's) Server \<Rightarrow> push_error + unit \<Rightarrow> ('w, 'i, 's) Server \<Rightarrow> bool" where
  "pushed actor peers rs s r s' \<longleftrightarrow> served s s' \<and> (\<exists>bs. acks s' = acks s @ map ackOf bs
     \<and> prefix (map (\<lambda>b. Batch (Some b)) bs) rs \<and> (r = Inr () \<longrightarrow> rs = map (\<lambda>b. Batch (Some b)) bs)
     \<and> (\<forall>b \<in> set bs. accepted E actor peers (accessPolicy s) b \<and> materialized E view s' b))"

lemma pushed_stop: "answeredOne actor peers bo s (Inl e) s' \<Longrightarrow> pushed actor peers (Batch bo # rs) s (Inl e) s'"
  unfolding answeredOne_def pushed_def
  by (elim conjE disjE exE) (auto intro: exI [of _ "[]"] exI [of _ "[b]" for b])

lemma pushed_step:
  assumes "answeredOne actor peers bo s (Inr u) s1" "pushed actor peers rs s1 r s'"
  shows "pushed actor peers (Batch bo # rs) s r s'"
proof -
  from assms(1) obtain b where b: "bo = Some b" "served s s1" "accepted E actor peers (accessPolicy s) b" "acks s1 = acks s @ [ackOf b]" "materialized E view s1 b"
    by (auto simp: answeredOne_def)
  from assms(2) obtain bs where bs: "served s1 s'" "acks s' = acks s1 @ map ackOf bs" "prefix (map (\<lambda>b. Batch (Some b)) bs) rs"
    "r = Inr () \<longrightarrow> rs = map (\<lambda>b. Batch (Some b)) bs" "\<forall>b \<in> set bs. accepted E actor peers (accessPolicy s1) b \<and> materialized E view s' b"
    by (auto simp: pushed_def)
  with b show ?thesis unfolding pushed_def
    by (auto intro!: exI [of _ "b # bs"] simp: served_policy intro: served_trans materialized_served)
qed

lemma wpP_pushLoop:
  assumes "good (sinbox s)" "noGC s"
  shows "wpP (pushLoop fuel E actor peers rs) (pushed actor peers rs s) s"
  using assms
proof (induction rs arbitrary: s)
  case Nil
  then show ?case by (simp add: wpP_def pushed_def served_refl)
next
  case (Cons x rs)
  show ?case
  proof (cases x)
    case (RecvErr e)
    then show ?thesis using Cons.prems by (auto simp: wpP_def pushed_def served_refl intro: exI [of _ "[]"])
  next
    case (Batch bo)
    have "wpP (bindP (handleBatch fuel E actor peers bo) (\<lambda>_. pushLoop fuel E actor peers rs)) (pushed actor peers (x # rs) s) s"
    proof (rule wpP_bindP_I [OF wpP_handleBatch [OF Cons.prems]])
      fix e s1 assume "answeredOne actor peers bo s (Inl e) s1"
      then show "pushed actor peers (x # rs) s (Inl e) s1" unfolding Batch by (rule pushed_stop)
    next
      fix u s1 assume *: "answeredOne actor peers bo s (Inr u) s1"
      then have "good (sinbox s1)" "noGC s1" using Cons.prems(2) noGC_served served_good by (auto simp: answeredOne_def)
      from wpP_mono [OF Cons.IH [OF this] pushed_step [OF *]]
      show "wpP (pushLoop fuel E actor peers rs) (pushed actor peers (x # rs) s) s1" unfolding Batch .
    qed
    then show ?thesis by (simp add: Batch wpP_def)
  qed
qed

section \<open>Recovery\<close>

lemma wpP_replayAll:
  "good (sinbox s) \<Longrightarrow> wpP (replayAll fuel E rs) (\<lambda>r s'. to s s' \<and> (r = Inr () \<longrightarrow> (\<forall>x \<in> set rs. isApplied view s' (Identity x)))) s"
proof (induction rs arbitrary: s)
  case (Cons x rs)
  show ?case
  proof (cases "applyReceipt fuel E (Identity x) s")
    case (Some a)
    obtain r s1 where a: "a = (r, s1)" by fastforce
    from wp_applyReceipt [OF Cons.prems, of fuel "Identity x"] Some a have *: "to s s1" "r = Inr () \<longrightarrow> isApplied view s1 (Identity x)"
      by (auto simp: wpP_def)
    have "wpP (replayAll fuel E rs) (\<lambda>r' s'. to s s' \<and> (r' = Inr () \<longrightarrow> (\<forall>y \<in> set (x # rs). isApplied view s' (Identity y)))) s1" if "r = Inr ()"
      by (rule wpP_mono [OF Cons.IH [OF moved_good [OF *(1)]]])
         (use that *(2) moved_trans [OF *(1)] isApplied_moved in auto)
    then show ?thesis using Some a * by (cases r) (simp_all add: wpP_def)
  qed (simp add: wpP_def)
qed (simp add: wpP_def moved_refl)

text \<open>When the recovery loop ends, no receipt is left that anybody could claim at that time.\<close>

lemma wp_list_pending:
  assumes "good (sinbox s)"
  shows "wp (bindE (envOp E (timeOf E)) (\<lambda>now. inboxOp ListFailed (IPending I now n)))
     (\<lambda>r s'. to s s' \<and> (\<forall>rs. r = Inr rs \<longrightarrow> rs = [] \<longrightarrow> (\<exists>w. \<forall>k x. view (sinbox s') k = Some x \<longrightarrow> \<not> claimable (fst (timeOf E w)) x))) s"
proof -
  obtain t w where t: "timeOf E (world s) = (t, w)" by fastforce
  let ?s = "s\<lparr>world := w, sinbox := others E w (sinbox s)\<rparr>"
  have q: "to s ?s" using keepsD [OF keeps_envOp assms, of "timeOf E"] by (simp add: wp_result envOp_def t)
  obtain rp i where p: "IPending I t n (sinbox ?s) = (rp, i)" by fastforce
  from pending_view [OF moved_good [OF q] p] have v: "good i" "view i = view (sinbox ?s)"
    "\<forall>rs. rp = Inr rs \<longrightarrow> rs = [] \<longrightarrow> (\<forall>k r. view (sinbox ?s) k = Some r \<longrightarrow> \<not> claimable (fst (timeOf E (world s))) r)"
    by (auto simp: t)
  have "to s (?s\<lparr>sinbox := i\<rparr>)" using q v(1,2) by (simp add: moved_def)
  moreover have "bindE (envOp E (timeOf E)) (\<lambda>now. inboxOp ListFailed (IPending I now n)) s
      = ((case rp of Inl e \<Rightarrow> Inl (ListFailed e) | Inr x \<Rightarrow> Inr x), ?s\<lparr>sinbox := i\<rparr>)"
    using p by (cases rp) (simp_all add: bindE_def envOp_def t inboxOp_def)
  ultimately show ?thesis using v(2,3) unfolding wp_result by (cases rp) auto
qed

lemma wpP_ReplayPending:
  "good (sinbox s) \<Longrightarrow> wpP (ReplayPending rounds fuel E)
     (\<lambda>r s'. to s s' \<and> (r = Inr () \<longrightarrow> (\<exists>w. \<forall>k x. view (sinbox s') k = Some x \<longrightarrow> \<not> claimable (fst (timeOf E w)) x))) s"
proof (induction rounds arbitrary: s)
  case (Suc rounds)
  let ?Q = "\<lambda>s r s'. to s s' \<and> (r = Inr () \<longrightarrow> (\<exists>w. \<forall>k x. view (sinbox s') k = Some x \<longrightarrow> \<not> claimable (fst (timeOf E w)) x))"
  obtain r s1 where l: "bindE (envOp E (timeOf E)) (\<lambda>now. inboxOp ListFailed (IPending I now 256)) s = (r, s1)" by fastforce
  from wp_list_pending [OF Suc.prems, of 256] have 1: "to s s1" "r = Inr [] \<longrightarrow> ?Q s (Inr ()) s1"
    by (auto simp: wp_result l)
  show ?case
  proof (cases "\<exists>x xs. r = Inr (x # xs)")
    case True
    then obtain x xs where r: "r = Inr (x # xs)" by blast
    have 2: "wpP (ReplayPending rounds fuel E) (?Q s) s2" if "to s s2" for s2
      by (rule wpP_mono [OF Suc.IH [OF moved_good [OF that]]]) (use moved_trans [OF that] in blast)
    show ?thesis
    proof (cases "replayAll fuel E (x # xs) s1")
      case None
      then show ?thesis using l r by (simp add: wpP_def ops del: replayAll.simps)
    next
      case (Some a)
      obtain r2 s2 where a: "a = (r2, s2)" by fastforce
      have "to s s2" using wpP_replayAll [OF moved_good [OF 1(1)], of fuel "x # xs"] Some a moved_trans [OF 1(1)]
        by (auto simp: wpP_def)
      with 2 [OF this] show ?thesis using l r Some a by (cases r2) (simp_all add: wpP_def ops del: replayAll.simps)
    qed
  next
    case False
    then show ?thesis using l 1 by (cases r; cases "projr r") (auto simp: wpP_def ops)
  qed
qed (simp add: wpP_def)

end

section \<open>Interpretation\<close>

text \<open>A controller that is alone on its in-memory inbox, in any environment.\<close>

definition aloneOn :: "'i Inbox \<Rightarrow> ('w, 'i, 's) Env \<Rightarrow> ('w, 'i, 's) Env" where
  "aloneOn I E = E\<lparr>inboxOps := I, others := (\<lambda>_ i. i)\<rparr>"

interpretation alone: ingest "memoryInboxOps fmt (\<lambda>m. remdups (keys (receipts m)))" memView memInv
  "aloneOn (memoryInboxOps fmt (\<lambda>m. remdups (keys (receipts m)))) E" for fmt E
  by unfold_locales (simp_all add: aloneOn_def run_refl)

end
