(* ===== verification/InboxProps.thy ===== *)
theory InboxProps
  imports Inbox
begin

text \<open>The correctness properties of the ingest journal, on its in-memory implementation.\<close>

section \<open>Identity\<close>

text \<open>The deduplication identity is faithful: the hashed bytes are an injective encoding, so, unless
  SHA-256 collides on these two inputs, two batches have the same identity exactly if they come from
  the same collector and name the same producer epoch and sequence number, or, without a producer
  sequence, the same batch id.\<close>

theorem identity_faithful:
  assumes short: "\<forall>b \<in> {b1, b2}. length (collectorOf b) < 2 ^ 32 \<and> length (ProducerEpoch b) < 2 ^ 32 \<and> length (BatchId b) < 2 ^ 32"
    and no_collision: "sha256 (identityInput b1) = sha256 (identityInput b2) \<Longrightarrow> identityInput b1 = identityInput b2"
  shows "batchDedupeIdentity sha256 b1 = batchDedupeIdentity sha256 b2 \<longleftrightarrow>
     hasProducer b1 = hasProducer b2 \<and> collectorOf b1 = collectorOf b2
     \<and> (if hasProducer b1 then trimSpace (ProducerEpoch b1) = trimSpace (ProducerEpoch b2) \<and> ProducerSequence b1 = ProducerSequence b2
        else trimSpace (BatchId b1) = trimSpace (BatchId b2))"
proof
  assume eq: "batchDedupeIdentity sha256 b1 = batchDedupeIdentity sha256 b2"
  then have hp: "hasProducer b1 = hasProducer b2" by (auto simp: batchDedupeIdentity_def split: if_splits)
  with eq have "sha256 (identityInput b1) = sha256 (identityInput b2)" by (auto simp: batchDedupeIdentity_def split: if_splits)
  then have inp: "identityInput b1 = identityInput b2" by (rule no_collision)
  have trim: "length (trimSpace s) < 2 ^ 32" if "length s < 2 ^ 32" for s
    using that length_trimSpace [of s] by linarith
  have lens: "length (collectorOf b1) < 2 ^ 32" "length (collectorOf b2) < 2 ^ 32"
    "length (trimSpace (ProducerEpoch b1)) < 2 ^ 32" "length (trimSpace (ProducerEpoch b2)) < 2 ^ 32"
    "length (trimSpace (BatchId b1)) < 2 ^ 32" "length (trimSpace (BatchId b2)) < 2 ^ 32"
    using short trim by blast+
  from writeIdentityField_split [OF inp [unfolded identityInput_def] lens(1,2)]
  have coll: "collectorOf b1 = collectorOf b2" by (rule conjunct1)
  show "hasProducer b1 = hasProducer b2 \<and> collectorOf b1 = collectorOf b2
     \<and> (if hasProducer b1 then trimSpace (ProducerEpoch b1) = trimSpace (ProducerEpoch b2) \<and> ProducerSequence b1 = ProducerSequence b2
        else trimSpace (BatchId b1) = trimSpace (BatchId b2))"
  proof (cases "hasProducer b1")
    case True
    with inp hp coll have "writeIdentityField (trimSpace (ProducerEpoch b1)) @ bePutUint64 (ProducerSequence b1)
        = writeIdentityField (trimSpace (ProducerEpoch b2)) @ bePutUint64 (ProducerSequence b2)" by (simp add: identityInput_def)
    from writeIdentityField_split [OF this lens(3,4)] hp coll True show ?thesis by (simp add: bePutUint64_def)
  next
    case False
    with inp hp coll have "writeIdentityField (trimSpace (BatchId b1)) @ [] = writeIdentityField (trimSpace (BatchId b2)) @ []"
      by (simp add: identityInput_def)
    from writeIdentityField_split [OF this lens(5,6)] hp coll False show ?thesis by simp
  qed
qed (auto simp: batchDedupeIdentity_def identityInput_def)


section \<open>The journal\<close>

text \<open>Committing is idempotent per identity: after a batch was committed, committing a receipt with the
  same identity and payload again returns the stored receipt and changes nothing but the duplicate
  counter, and one with another payload is refused as an identity conflict without effect.\<close>

theorem Commit_dedupes:
  assumes "memCommit r m = (Inr (st, created), m1)" "validateReceipt r' = None" "Identity r' = Identity r"
  shows "memCommit r' m1 = (if Payload r' = Payload r then (Inr (st, False), m1\<lparr>duplicates := duplicates m1 + 1\<rparr>)
     else (Inl ErrIdentityConflict, m1))"
proof -
  from assms(1) have "memView m1 (Identity r) = Some st" "Payload st = Payload r"
    by (auto simp: memCommit_cases memView_def update_conv' split: option.splits if_splits)
  with assms(2,3) show ?thesis by (auto simp: memCommit_cases)
qed

text \<open>The journal is bounded and consistent: starting from an empty inbox, after any sequence of
  operations by any owners, in any order and with any arguments, including pruning, every stored
  receipt is well-formed under its own identity, the byte counter is the sum of the payload sizes, and
  neither the record nor the byte limit is exceeded.\<close>

inductive memReachable :: "(int \<Rightarrow> string) \<Rightarrow> (memoryInbox \<Rightarrow> string list) \<Rightarrow> InboxConfig \<Rightarrow> memoryInbox \<Rightarrow> bool" for fmt order c where
  reach_new: "memReachable fmt order c (newMemoryInbox c)"
| reach_step: "memReachable fmt order c m \<Longrightarrow> inboxStep (memoryInboxOps fmt order) owner now m m' \<Longrightarrow> memReachable fmt order c m'"
| reach_prune: "memReachable fmt order c m \<Longrightarrow> IPrune (memoryInboxOps fmt order) now cutoff mx m = (n, m') \<Longrightarrow> memReachable fmt order c m'"

lemma memInv_new: "memInv (newMemoryInbox c)"
  by (simp add: memInv_def newMemoryInbox_def normalized_def Let_def DefaultInboxConfig_def)

lemma memReachable_inv: "memReachable fmt order c m \<Longrightarrow> map_order order \<Longrightarrow> memInv m"
proof (induction rule: memReachable.induct)
  case (reach_step m owner now m')
  then show ?case using inbox.step_advances [OF map_order.mem_inbox] by blast
next
  case (reach_prune m now cutoff mx n m')
  then show ?case using inbox.prune_ok [OF map_order.mem_inbox] by blast
qed (rule memInv_new)

theorem memoryInbox_bounded:
  assumes "map_order order" "memReachable fmt order c m"
  shows "distinct (map fst (receipts m)) \<and> payloadBytes m = (\<Sum>(k, r) \<leftarrow> receipts m. int (length (Payload r)))
    \<and> payloadBytes m \<le> CMaxBytes (mcfg m) \<and> int (length (receipts m)) \<le> CMaxRecords (mcfg m)
    \<and> (\<forall>(k, r) \<in> set (receipts m). Identity r = k \<and> 0 < length (Payload r) \<and> length (Payload r) \<le> maxInboxPayloadBytes)"
proof -
  have inv: "memInv m" by (rule memReachable_inv [OF assms(2,1)])
  then have "Identity r = k \<and> 0 < length (Payload r) \<and> length (Payload r) \<le> maxInboxPayloadBytes" if "(k, r) \<in> set (receipts m)" for k r
    using that memInv_receipt [OF inv, of k r] by (simp add: memInv_def memView_def map_of_eq_Some_iff receiptOK_def)
  with inv show ?thesis by (auto simp: memInv_def totalBytes_def)
qed

text \<open>C11. Receipts are durable: whatever operations other than pruning any number of owners interleave, a
  committed receipt never disappears and keeps its identity, payload and acceptance time, and once it
  is applied it does not change any more.\<close>

theorem receipts_durable:
  assumes "map_order order" "memInv m" "inboxRun (memoryInboxOps fmt order) (\<lambda>_ _. True) m m'" "map_of (receipts m) k = Some r"
  shows "\<exists>r'. map_of (receipts m') k = Some r' \<and> sameContents r r' \<and> (State r = ReceiptApplied \<longrightarrow> r' = r)"
proof -
  have "advances (memView m k) (memView m' k)"
    using inbox.run_advances [OF map_order.mem_inbox [OF assms(1)] assms(3,2)] by blast
  with assms(4) show ?thesis by (cases "memView m' k") (auto simp: memView_def)
qed

text \<open>C12. Leases exclude: between a claim and the end of its lease no sequence of operations by other owners
  changes the claimed receipt in any way; and at any time an owner who does not hold the receipt (for
  example because its claim was taken over) can neither renew, complete nor fail it.\<close>

theorem lease_exclusive:
  assumes "map_order order" "memInv m" "map_of (receipts m) k = Some r" "State r = ReceiptApplying" "ApplyOwner r = holder"
  shows "(\<forall>m'. inboxRun (memoryInboxOps fmt order) (\<lambda>owner now. owner \<noteq> holder \<and> now < LeaseExpiresAt r) m m'
        \<longrightarrow> map_of (receipts m') k = Some r)
    \<and> (\<forall>owner now lease msg. owner \<noteq> holder \<longrightarrow> memRenew k owner now lease m = (Inl ErrLeaseLost, m)
       \<and> memMarkApplied k owner now m = (Inl ErrLeaseLost, m) \<and> memMarkFailed k owner msg m = (Inl ErrLeaseLost, m))"
proof -
  have held: "heldBy holder r" "memView m k = Some r" using assms(3-5) by (simp_all add: heldBy_def memView_def)
  have "memView m' k = Some r"
    if "inboxRun (memoryInboxOps fmt order) (\<lambda>owner now. owner \<noteq> holder \<and> now < LeaseExpiresAt r) m m'" for m'
    using inbox.run_exclusive [OF map_order.mem_inbox [OF assms(1)] that assms(2) held(2,1)] by blast
  moreover have "memHeld k owner f m = (Inl ErrLeaseLost, m)" if "owner \<noteq> holder" for owner f
    using held that by (auto simp: memHeld_cases heldBy_def)
  ultimately show ?thesis by (simp add: memRenew_def memMarkApplied_def memMarkFailed_def memView_def)
qed

text \<open>Pruning removes exactly the receipts that were applied before the cutoff; receipts that are not
  yet applied, or applied later, are kept as they are, and the freed bytes are accounted for.\<close>

theorem Prune_exact:
  assumes "map_order order" "memInv m" "IPrune (memoryInboxOps fmt order) now cutoff mx m = (n, m')"
  shows "map_of (receipts m') = (\<lambda>k. case map_of (receipts m) k of
       Some r \<Rightarrow> if State r = ReceiptApplied \<and> AppliedAt r \<noteq> 0 \<and> AppliedAt r < cutoff then None else Some r | None \<Rightarrow> None)
    \<and> payloadBytes m' = (\<Sum>(k, r) \<leftarrow> receipts m'. int (length (Payload r)))"
proof -
  have run: "memPrune (order m) now cutoff mx m = (n, m')" using assms(3) by (simp add: memoryInboxOps_def getS_def)
  note o = map_order.order [OF assms(1)]
  from memPrune_cases [OF assms(2) o(1) run] have inv: "memInv m'"
    and v: "memView m' = (\<lambda>k. case memView m k of Some r \<Rightarrow> if k \<in> set (order m) \<and> prunable cutoff r then None else Some r | None \<Rightarrow> None)"
    by auto
  have "k \<in> set (order m)" if "memView m k = Some r" for k r
    using that o(2) [OF memInv_distinct [OF assms(2)]] by (force simp: memView_def dest!: map_of_SomeD)
  with v have "memView m' = (\<lambda>k. case memView m k of Some r \<Rightarrow> if prunable cutoff r then None else Some r | None \<Rightarrow> None)"
    by (auto simp: fun_eq_iff split: option.splits)
  with inv show ?thesis unfolding prunable_def [symmetric] by (simp add: memView_def memInv_def totalBytes_def)
qed

section \<open>Witnesses\<close>

definition exampleIdBatch :: "string \<Rightarrow> TelemetryBatch" where
  "exampleIdBatch i = \<lparr>Collector = Some \<lparr>CollectorId = ''n1'', Hostname = ''h'', CollectorVersion = '''', Os = '''', Arch = '''',
     CollectorLabels = []\<rparr>, WallTimeUnixNano = 0, MonotonicTimeUnixNano = 0, Metrics = [], Processes = [], Logs = [],
     BatchId = i, ProducerEpoch = '''', ProducerSequence = 0\<rparr>"

theorem identity_faithful_witness:
  "batchDedupeIdentity id (exampleIdBatch ''b1'') \<noteq> batchDedupeIdentity id (exampleIdBatch ''b2'')"
  using identity_faithful [of "exampleIdBatch ''b1''" "exampleIdBatch ''b2''" id]
  by (simp add: exampleIdBatch_def collectorOf_def trimSpace_def isSpace_def hasProducer_def)


definition exampleReceipt :: "string \<Rightarrow> bytes \<Rightarrow> Receipt" where
  "exampleReceipt k p = \<lparr>SchemaVersion = 1, Identity = k, IdentityKind = ''batch'', CollectorID = ''n1'', RProducerEpoch = '''',
     RProducerSequence = 0, BatchID = ''b1'', AcceptedAt = 1000, Payload = p, State = ReceiptCommitted, Revision = 1,
     ApplyOwner = '''', LeaseExpiresAt = 0, AppliedAt = 0, Attempts = 0, RLastError = ''''\<rparr>"

definition exampleInbox :: memoryInbox where
  "exampleInbox = snd (memCommit (exampleReceipt ''k1'' [1]) (newMemoryInbox DefaultInboxConfig))"

definition listOrder :: "memoryInbox \<Rightarrow> string list" where
  "listOrder m = remdups (map fst (receipts m))"

lemma listOrder_ok: "map_order listOrder"
  by unfold_locales (simp_all add: listOrder_def)

lemma exampleInbox_commit:
  "memCommit (exampleReceipt ''k1'' [1]) (newMemoryInbox DefaultInboxConfig) = (Inr (exampleReceipt ''k1'' [1], True), exampleInbox)"
  by (simp add: exampleInbox_def memCommit_cases validateReceipt_def exampleReceipt_def maxInboxPayloadBytes_def memView_def
      newMemoryInbox_def normalized_def DefaultInboxConfig_def Let_def toLower_def trimSpace_def isSpace_def lowerChar_def second_def)

lemma exampleInbox_eq:
  "exampleInbox = (newMemoryInbox DefaultInboxConfig)\<lparr>receipts := [(''k1'', exampleReceipt ''k1'' [1])], payloadBytes := 1\<rparr>"
  by (simp add: exampleInbox_def memCommit_cases validateReceipt_def exampleReceipt_def maxInboxPayloadBytes_def memView_def
      newMemoryInbox_def normalized_def DefaultInboxConfig_def Let_def toLower_def trimSpace_def isSpace_def lowerChar_def second_def)

lemma exampleInbox_inv: "memInv exampleInbox" "map_of (receipts exampleInbox) ''k1'' = Some (exampleReceipt ''k1'' [1])"
proof -
  show "memInv exampleInbox" using memInv_Commit [OF memInv_new] by (simp add: exampleInbox_def)
  show "map_of (receipts exampleInbox) ''k1'' = Some (exampleReceipt ''k1'' [1])"
    by (simp add: exampleInbox_eq newMemoryInbox_def)
qed

theorem Commit_dedupes_witness:
  "fst (memCommit (exampleReceipt ''k1'' [2]) exampleInbox) = Inl ErrIdentityConflict
   \<and> fst (memCommit (exampleReceipt ''k1'' [1]) exampleInbox) = Inr (exampleReceipt ''k1'' [1], False)"
  using Commit_dedupes [OF exampleInbox_commit, of "exampleReceipt ''k1'' [2]"] Commit_dedupes [OF exampleInbox_commit, of "exampleReceipt ''k1'' [1]"]
  by (simp add: validateReceipt_def exampleReceipt_def maxInboxPayloadBytes_def)

theorem memoryInbox_bounded_witness: "payloadBytes exampleInbox = 1 \<and> payloadBytes exampleInbox \<le> CMaxBytes (mcfg exampleInbox)"
proof -
  have "ICommit (memoryInboxOps (\<lambda>_. '''') listOrder) (exampleReceipt ''k1'' [1]) (newMemoryInbox DefaultInboxConfig)
      = (Inr (exampleReceipt ''k1'' [1], True), exampleInbox)"
    using exampleInbox_commit by (simp add: memoryInboxOps_def)
  from reach_step [OF reach_new step_commit [OF this]]
  have "memReachable (\<lambda>_. '''') listOrder DefaultInboxConfig exampleInbox" .
  from memoryInbox_bounded [OF listOrder_ok this] have "payloadBytes exampleInbox \<le> CMaxBytes (mcfg exampleInbox)" by simp
  moreover have "payloadBytes exampleInbox = 1"
    by (simp add: exampleInbox_eq newMemoryInbox_def)
  ultimately show ?thesis by simp
qed

definition exampleClaimed :: memoryInbox where
  "exampleClaimed = snd (memClaim ''k1'' ''a'' 10 30 exampleInbox)"

lemma exampleClaimed_step:
  "inboxRun (memoryInboxOps (\<lambda>_. '''') listOrder) (\<lambda>_ _. True) exampleInbox exampleClaimed"
  by (rule run_step [OF run_refl _ step_claim [of _ "''k1''" "''a''" 10 30 _ "fst (memClaim ''k1'' ''a'' 10 30 exampleInbox)"]])
     (simp_all add: memoryInboxOps_def exampleClaimed_def)

theorem receipts_durable_witness: "\<exists>r'. map_of (receipts exampleClaimed) ''k1'' = Some r' \<and> sameContents (exampleReceipt ''k1'' [1]) r'"
  using receipts_durable [OF listOrder_ok exampleInbox_inv(1) exampleClaimed_step exampleInbox_inv(2)] by blast

lemma exampleClaimed_receipt: "map_of (receipts exampleClaimed) ''k1'' = Some (claimReceipt ''a'' 10 30 (exampleReceipt ''k1'' [1]))"
  using exampleInbox_inv(2) by (simp add: exampleClaimed_def memClaim_cases memView_def update_conv' claimable_def exampleReceipt_def)

theorem lease_exclusive_witness: "memMarkApplied ''k1'' ''b'' 20 exampleClaimed = (Inl ErrLeaseLost, exampleClaimed)"
proof -
  have inv: "memInv exampleClaimed" unfolding exampleClaimed_def by (rule memInv_Claim [OF exampleInbox_inv(1)])
  from lease_exclusive [OF listOrder_ok inv exampleClaimed_receipt, of "''a''"] show ?thesis
    by (simp add: claimReceipt_def)
qed

theorem Prune_exact_witness: "map_of (receipts (snd (IPrune (memoryInboxOps (\<lambda>_. '''') listOrder) 99 50 0 exampleClaimed))) ''k1'' \<noteq> None"
proof -
  obtain n m' where run: "IPrune (memoryInboxOps (\<lambda>_. '''') listOrder) 99 50 0 exampleClaimed = (n, m')" by fastforce
  have inv: "memInv exampleClaimed" unfolding exampleClaimed_def by (rule memInv_Claim [OF exampleInbox_inv(1)])
  from Prune_exact [OF listOrder_ok inv run] run show ?thesis by (simp add: exampleClaimed_receipt claimReceipt_def)
qed

end
