(* ===== verification/ServerProps.thy ===== *)
theory ServerProps
  imports IngestApply InboxProps
begin

text \<open>The correctness properties of the ingest server.\<close>

section \<open>Acknowledgements\<close>

lemma Push_pushLoop:
  "Push fuel E (Inr actor) cert rs s =
     pushLoop fuel E actor (peerIdentitySubjects cert) rs (updStats (recordPeerSubject (peerIdentitySubjects cert)) (updStats (recordAuthenticatedSubject actor) s))"
  by (simp add: Push_def Let_def)

lemma updStats_sel [simp]:
  "world (updStats f s) = world s" "sinbox (updStats f s) = sinbox s" "sstore (updStats f s) = sstore s" "acks (updStats f s) = acks s"
  "accessPolicy (updStats f s) = accessPolicy s" "pruneDue now (updStats f s) = pruneDue now s"
  by (simp_all add: updStats_def pruneDue_def)


lemma rejectP_quiet:
  assumes "\<And>w i. others E w i = i"
  shows "\<exists>s' t. rejectP E code (Some f) s = Some (Inl (Status code), s') \<and> sinbox s' = sinbox s \<and> sstore s' = sstore s \<and> acks s' = acks s
      \<and> sstats s' = f t (sstats s)"
  by (cases "timeOf E (world s)") (auto simp: rejectP_def envOp_def assms updStats_def)

text \<open>C18. A stream that does not authenticate has no effect but the rejection counters, and a batch that is
  invalid or that its sender may not submit ends the stream with the matching status before anything
  is stored: the store and the acknowledgements stay as they are, and one rejection is counted.\<close>

theorem Push_rejects:
  assumes "\<And>w i. others E w i = i" "\<forall>actor b. auth = Inr actor \<and> bo = Some b \<longrightarrow> \<not> accepted E actor (peerIdentitySubjects cert) (accessPolicy s) b"
  shows "\<exists>s'. Push fuel E auth cert (Batch bo # rs) s = Some (Inl (Status
       (case auth of Inl _ \<Rightarrow> Unauthenticated
        | Inr _ \<Rightarrow> if validateIngestBatch (sizeOf E) bo = None then PermissionDenied else InvalidArgument)), s')
     \<and> sinbox s' = sinbox s \<and> sstore s' = sstore s \<and> acks s' = acks s \<and> RejectedTotal (sstats s') = RejectedTotal (sstats s) + 1"
proof -
  have counted [simp]: "RejectedTotal (recordRejected msg t st) = RejectedTotal st + 1" "RejectedTotal (recordAuthnRejected msg t st) = RejectedTotal st + 1"
    "RejectedTotal (recordAuthzRejected actor peers e msg t st) = RejectedTotal st + 1"
    "RejectedTotal (recordPeerSubject peers st) = RejectedTotal st" "RejectedTotal (recordAuthenticatedSubject actor st) = RejectedTotal st"
    for t st actor peers e msg
    by (simp_all add: recordRejected_def recordAuthnRejected_def recordAuthzRejected_def recordPeerSubject_def recordAuthenticatedSubject_def Let_def
        split: list.splits authorizationErrorKind.splits)
  show ?thesis
  proof (cases auth)
    case (Inl e)
    have "\<exists>s' t. rejectP E Unauthenticated (Some (recordAuthnRejected (errText E (GoError e)))) s = (Some (Inl (Status Unauthenticated), s') :: ((push_error + unit) \<times> _) option)
        \<and> sinbox s' = sinbox s \<and> sstore s' = sstore s \<and> acks s' = acks s \<and> sstats s' = recordAuthnRejected (errText E (GoError e)) t (sstats s)"
      by (rule rejectP_quiet) (rule assms(1))
    with Inl show ?thesis by (auto simp: Push_def)
  next
    case (Inr actor)
    let ?s = "updStats (recordPeerSubject (peerIdentitySubjects cert)) (updStats (recordAuthenticatedSubject actor) s)"
    let ?code = "if validateIngestBatch (sizeOf E) bo = None then PermissionDenied else InvalidArgument"
    have "\<exists>f. (\<forall>t st. RejectedTotal (f t st) = RejectedTotal st + 1)
        \<and> handleBatch fuel E actor (peerIdentitySubjects cert) bo ?s = rejectP E ?code (Some f) ?s"
    proof (cases "bo = None \<or> validateIngestBatch (sizeOf E) bo \<noteq> None")
      case True
      then obtain e where "validateIngestBatch (sizeOf E) bo = Some e" by (auto simp: validateIngestBatch_def [of _ None])
      then show ?thesis by (intro exI [of _ "recordRejected (errText E (Invalid e))"]) (simp add: handleBatch_def)
    next
      case False
      with assms(2) Inr obtain b e where "bo = Some b" "validateIngestBatch (sizeOf E) bo = None"
        "authorizeCollector actor (Collector b) (peerIdentitySubjects cert) (accessPolicy s) = Some e"
        by (auto simp: accepted_def)
      then show ?thesis by (intro exI [of _ "recordAuthzRejected actor (peerIdentitySubjects cert) e (errText E (Denied e))"]) (simp add: handleBatch_def)
    qed
    then obtain f where f: "\<And>t st. RejectedTotal (f t st) = RejectedTotal st + 1"
      "handleBatch fuel E actor (peerIdentitySubjects cert) bo ?s = rejectP E ?code (Some f) ?s" by blast
    have "\<exists>s' t. rejectP E ?code (Some f) ?s = (Some (Inl (Status ?code), s') :: ((push_error + unit) \<times> _) option)
        \<and> sinbox s' = sinbox ?s \<and> sstore s' = sstore ?s \<and> acks s' = acks ?s \<and> sstats s' = f t (sstats ?s)"
      by (rule rejectP_quiet) (rule assms(1))
    then obtain s' t where s': "rejectP E ?code (Some f) ?s = (Some (Inl (Status ?code), s') :: ((push_error + unit) \<times> _) option)" "sinbox s' = sinbox s"
      "sstore s' = sstore s" "acks s' = acks s" "sstats s' = f t (sstats ?s)" by auto
    have "Push fuel E auth cert (Batch bo # rs) s = Some (Inl (Status ?code), s')"
      by (simp only: Inr Push_pushLoop pushLoop.simps bindP_def f(2) s'(1) option.case prod.case sum.case)
    moreover have "RejectedTotal (sstats s') = RejectedTotal (sstats s) + 1" using s'(5) f(1) by (simp add: updStats_def)
    ultimately show ?thesis using s'(2-4) Inr by auto
  qed
qed

section \<open>Application\<close>

text \<open>A batch is materialized at most once per applied receipt: applying a receipt that is already in
  the applied state returns at once and leaves the hot store untouched, whatever other controllers do.
  Redelivered batches therefore do not reach the store or the processors again.\<close>

theorem applied_not_reapplied:
  assumes "inbox (inboxOps E) view good" "\<And>w i. good i \<Longrightarrow> inboxRun (inboxOps E) (\<lambda>_ _. True) i (others E w i)"
    "good (sinbox s)" "view (sinbox s) k = Some r" "State r = ReceiptApplied"
  shows "\<exists>res s'. applyReceipt (Suc fuel) E k s = Some (res, s') \<and> sstore s' = sstore s"
proof -
  have i: "ingest (inboxOps E) view good E"
    by (intro ingest.intro assms(1) ingest_axioms.intro refl assms(2))
  show ?thesis by (rule ingest.applyReceipt_applied [OF i assms(3)]) (simp add: isApplied_def assms(4,5))
qed


section \<open>A quiet server\<close>

text \<open>Nothing goes wrong: the guard admits writes, no fault is injected, an owner token is generated, the
  batch is applied before the first lease tick, the acknowledgement can be sent, and nobody else is at
  work.\<close>

definition calm :: "('w, 'i, 's) Env \<Rightarrow> bool" where
  "calm E \<longleftrightarrow> (\<forall>w. fst (writeGuard E w) = None) \<and> (\<forall>p w. fst (faultInjector E p w) = None) \<and> (\<forall>w. \<exists>o'. fst (inboxOwner E w) = Inr o')
     \<and> (\<forall>w. fst (leaseTicks E w) = []) \<and> (\<forall>a w. fst (sendAck E a w) = None) \<and> (\<forall>w i. others E w i = i)"








section \<open>Witnesses\<close>

definition exampleStore :: "string list Store" where
  "exampleStore = \<lparr>LastIngestAt = (\<lambda>_ _. None), UpsertCollector = (\<lambda>_ _ s. s), StoreBatchMeta = (\<lambda>_ b _ s. s @ [BatchId b]),
     StoreMetrics = (\<lambda>_ _ _ s. s), StoreProcesses = (\<lambda>_ _ _ s. s), StoreLogs = (\<lambda>_ _ _ s. s), StoreHistoricalBatch = None\<rparr>"

definition servedBatch :: TelemetryBatch where
  "servedBatch = \<lparr>Collector = Some \<lparr>CollectorId = ''n1'', Hostname = ''h1'', CollectorVersion = ''1'',
       Os = ''linux'', Arch = ''amd64'', CollectorLabels = []\<rparr>,
     WallTimeUnixNano = 1, MonotonicTimeUnixNano = 1, Metrics = [], Processes = [], Logs = [],
     BatchId = ''b1'', ProducerEpoch = ''e'', ProducerSequence = 1\<rparr>"

definition exampleServerEnv :: "(unit, memoryInbox, string list) Env" where
  "exampleServerEnv = aloneOn (memoryInboxOps (\<lambda>_. '''') listOrder)
     \<lparr>timeOf = (\<lambda>_. (5000, ())), writeGuard = (\<lambda>_. (None, ())), faultInjector = (\<lambda>_ _. (None, ())), inboxOwner = (\<lambda>_. (Inr ''o1'', ())),
      waitTimer = (\<lambda>_ _. (None, ())), leaseTicks = (\<lambda>_. ([], ())), sendAck = (\<lambda>_ _. (None, ())), others = (\<lambda>_ i. i),
      inboxOps = memoryInboxOps (\<lambda>_. '''') (\<lambda>m. []), storeOps = Some exampleStore, processors = [],
      hashOf = (\<lambda>_. replicate 32 0), marshalOf = (\<lambda>_. Inr [1, 2]), unmarshalOf = (\<lambda>_. Inr servedBatch), sizeOf = (\<lambda>_. 2),
      orderFormat = (\<lambda>_. ''''), errText = (\<lambda>_. '''')\<rparr>"

definition exampleServer :: "(unit, memoryInbox, string list) Server" where
  "exampleServer = (NewServerWithInbox () (newMemoryInbox DefaultInboxConfig) [])\<lparr>lastInboxGC := 4000\<rparr>"

lemma exampleServerEnv_fields:
  "inboxOps exampleServerEnv = memoryInboxOps (\<lambda>_. '''') listOrder" "others exampleServerEnv = (\<lambda>_ i. i)"
  "timeOf exampleServerEnv = (\<lambda>_. (5000, ()))" "calm exampleServerEnv" "length (hashOf exampleServerEnv x) = 32"
  "marshalOf exampleServerEnv b = Inr [1, 2]" "unmarshalOf exampleServerEnv p = Inr servedBatch"
  "storeOps exampleServerEnv = Some exampleStore" "processors exampleServerEnv = []"
  by (simp_all add: exampleServerEnv_def aloneOn_def calm_def)

lemma exampleServerEnv_inbox: "inbox (inboxOps exampleServerEnv) memView memInv"
  unfolding exampleServerEnv_fields by (rule map_order.mem_inbox [OF listOrder_ok])







theorem Push_rejects_witness: "\<exists>s'. Push 1 exampleServerEnv (Inr None) None [Batch None] exampleServer = Some (Inl (Status InvalidArgument), s')"
  using Push_rejects [of exampleServerEnv "Inr None" None None exampleServer 1 "[]"] by (auto simp: exampleServerEnv_fields validateIngestBatch_def)

definition exampleApplied :: "(unit, memoryInbox, string list) Server" where
  "exampleApplied = exampleServer\<lparr>sinbox := snd (memMarkApplied ''k1'' ''a'' 20 exampleClaimed)\<rparr>"

lemma exampleApplied_ok:
  "memInv (sinbox exampleApplied)" "\<exists>r. memView (sinbox exampleApplied) ''k1'' = Some r \<and> State r = ReceiptApplied"
proof -
  have inv: "memInv exampleClaimed" unfolding exampleClaimed_def by (rule memInv_Claim [OF exampleInbox_inv(1)])
  show "memInv (sinbox exampleApplied)" unfolding exampleApplied_def memMarkApplied_def
    by (simp add: memInv_Held [OF inv])
  show "\<exists>r. memView (sinbox exampleApplied) ''k1'' = Some r \<and> State r = ReceiptApplied"
    using exampleClaimed_receipt
    by (simp add: exampleApplied_def memMarkApplied_def memHeld_cases memView_update heldBy_def memView_def [of exampleClaimed] bumpRevision_def
        appliedReceipt_def claimReceipt_def)
qed

theorem applied_not_reapplied_witness:
  "\<exists>res s'. applyReceipt 1 exampleServerEnv ''k1'' exampleApplied = Some (res, s') \<and> sstore s' = sstore exampleApplied"
proof -
  obtain r where r: "memView (sinbox exampleApplied) ''k1'' = Some r" "State r = ReceiptApplied" using exampleApplied_ok(2) by blast
  from applied_not_reapplied [OF exampleServerEnv_inbox _ exampleApplied_ok(1) r, of 0] show ?thesis
    by (simp add: exampleServerEnv_fields run_refl)
qed




end
