(* ===== verification/InboxBolt.thy ===== *)
theory InboxBolt
  imports Inbox
begin

text \<open>
  The durable inbox on bbolt (\<^verbatim>\<open>controller/ingest/inbox_bbolt.go\<close>).

  A bucket is an association list with distinct keys; a cursor visits its keys in byte order.  A
  transaction works on the buckets and takes effect when its function and the commit succeed; otherwise
  the buckets are as before.  Cancelled contexts and failures of bbolt are drawn from the list
  \<open>bfaults\<close>, one entry per check or write, so that every error path is a schedule.  The JSON document of
  a receipt is a value of an arbitrary type \<open>'v\<close>; encoding, decoding and the rendering of timestamps and
  errors are arguments.  A missing bucket, on which the code would panic, is an error of its own.
\<close>

section \<open>State\<close>

record 'v boltDB =
  bucketReceipts :: "(string \<times> 'v) list option"
  bucketOrder :: "(string \<times> string) list option"
  bucketPending :: "(string \<times> string) list option"
  bucketMeta :: "(string \<times> bytes) list option"

record 'v boltInbox =
  bcfg :: InboxConfig
  bdb :: "'v boltDB"
  bduplicates :: "64 word"
  breplayed :: "64 word"
  bpruned :: "64 word"
  blastGCNano :: int
  blastError :: string
  bfaults :: "bool list"

record 'v Codec =
  marshalReceipt :: "Receipt \<Rightarrow> goerr + 'v"
  unmarshalReceipt :: "'v \<Rightarrow> goerr + Receipt"
  formatTime :: "int \<Rightarrow> string"
  errorString :: "inbox_error \<Rightarrow> string"

type_synonym ('v, 'a) bolt_act = "('v boltInbox, inbox_error, 'a) act"

definition keyInboxSchema :: string where "keyInboxSchema = ''schema_version''"
definition keyInboxBytes :: string where "keyInboxBytes = ''payload_bytes''"

section \<open>Transactions\<close>

definition faulty :: "inbox_error \<Rightarrow> ('v, unit) bolt_act" where
  "faulty e = (\<lambda>s. case bfaults s of
     [] \<Rightarrow> (Inr (), s)
   | f # fs \<Rightarrow> (if f then Inl e else Inr (), s\<lparr>bfaults := fs\<rparr>))"

definition ctxFault :: "('v, unit) bolt_act" where
  "ctxFault = faulty (ErrBackend (Plain ''context canceled''))"

definition dbFault :: "('v, unit) bolt_act" where
  "dbFault = faulty (ErrBackend (Plain ''bbolt''))"

definition dbUpdate :: "('v, 'a) bolt_act \<Rightarrow> ('v, 'a) bolt_act" where
  "dbUpdate f = (\<lambda>s. case seqE dbFault (bindE f (\<lambda>x. seqE dbFault (ret x))) s of
     (Inl e, s') \<Rightarrow> (Inl e, s'\<lparr>bdb := bdb s\<rparr>)
   | (Inr x, s') \<Rightarrow> (Inr x, s'))"

definition dbView :: "('v, 'a) bolt_act \<Rightarrow> ('v, 'a) bolt_act" where
  "dbView f = seqE dbFault f"

definition withBucket :: "('v boltDB \<Rightarrow> 'b option) \<Rightarrow> ('b \<Rightarrow> ('v, 'a) bolt_act) \<Rightarrow> ('v, 'a) bolt_act" where
  "withBucket sel f = getS (\<lambda>s. case sel (bdb s) of None \<Rightarrow> throw (ErrBackend (Plain ''ingest receipt bucket missing'')) | Some b \<Rightarrow> f b)"

definition writeDB :: "('v boltDB \<Rightarrow> 'v boltDB) \<Rightarrow> ('v, unit) bolt_act" where
  "writeDB f = seqE dbFault (modify (\<lambda>s. s\<lparr>bdb := f (bdb s)\<rparr>))"

definition putReceipt :: "string \<Rightarrow> 'v \<Rightarrow> ('v, unit) bolt_act" where
  "putReceipt k v = writeDB (\<lambda>d. d\<lparr>bucketReceipts := map_option (AList.update k v) (bucketReceipts d)\<rparr>)"

definition putOrder :: "string \<Rightarrow> string \<Rightarrow> ('v, unit) bolt_act" where
  "putOrder k v = writeDB (\<lambda>d. d\<lparr>bucketOrder := map_option (AList.update k v) (bucketOrder d)\<rparr>)"

definition putPending :: "string \<Rightarrow> string \<Rightarrow> ('v, unit) bolt_act" where
  "putPending k v = writeDB (\<lambda>d. d\<lparr>bucketPending := map_option (AList.update k v) (bucketPending d)\<rparr>)"

definition putMeta :: "string \<Rightarrow> bytes \<Rightarrow> ('v, unit) bolt_act" where
  "putMeta k v = writeDB (\<lambda>d. d\<lparr>bucketMeta := map_option (AList.update k v) (bucketMeta d)\<rparr>)"

definition deleteReceipt :: "string \<Rightarrow> ('v, unit) bolt_act" where
  "deleteReceipt k = writeDB (\<lambda>d. d\<lparr>bucketReceipts := map_option (AList.delete k) (bucketReceipts d)\<rparr>)"

definition deleteOrder :: "string \<Rightarrow> ('v, unit) bolt_act" where
  "deleteOrder k = writeDB (\<lambda>d. d\<lparr>bucketOrder := map_option (AList.delete k) (bucketOrder d)\<rparr>)"

definition deletePending :: "string \<Rightarrow> ('v, unit) bolt_act" where
  "deletePending k = writeDB (\<lambda>d. d\<lparr>bucketPending := map_option (AList.delete k) (bucketPending d)\<rparr>)"

text \<open>The entries of a bucket in cursor order.\<close>

definition cursor :: "(string \<times> 'b) list \<Rightarrow> (string \<times> 'b) list" where
  "cursor b = List.map_filter (\<lambda>k. map_option (Pair k) (map_of b k)) (sort (map fst b))"

definition beUint64 :: "bytes \<Rightarrow> 64 word" where
  "beUint64 bs = (let l = rev bs in ucast (l ! 0) OR push_bit 8 (ucast (l ! 1)) OR push_bit 16 (ucast (l ! 2)) OR push_bit 24 (ucast (l ! 3))
     OR push_bit 32 (ucast (l ! 4)) OR push_bit 40 (ucast (l ! 5)) OR push_bit 48 (ucast (l ! 6)) OR push_bit 56 (ucast (l ! 7)))"

definition inboxBytes :: "(string \<times> bytes) list \<Rightarrow> 64 word" where
  "inboxBytes meta = (case map_of meta keyInboxBytes of None \<Rightarrow> 0 | Some v \<Rightarrow> if length v \<noteq> 8 then 0 else beUint64 v)"

definition putInboxBytes :: "64 word \<Rightarrow> ('v, unit) bolt_act" where
  "putInboxBytes n = putMeta keyInboxBytes (bePutUint64 n)"

definition decode :: "'v Codec \<Rightarrow> 'v option \<Rightarrow> ('v, Receipt) bolt_act" where
  "decode C v = (case v of None \<Rightarrow> throw (ErrBackend (Plain ''unexpected end of JSON input''))
     | Some v \<Rightarrow> (case unmarshalReceipt C v of Inl e \<Rightarrow> throw (ErrBackend e) | Inr r \<Rightarrow> ret r))"

definition encode :: "'v Codec \<Rightarrow> Receipt \<Rightarrow> ('v, 'v) bolt_act" where
  "encode C r = (case marshalReceipt C r of Inl e \<Rightarrow> throw (ErrBackend e) | Inr v \<Rightarrow> ret v)"

definition recordError :: "'v Codec \<Rightarrow> inbox_error \<Rightarrow> 'v boltInbox \<Rightarrow> 'v boltInbox" where
  "recordError C e s = (if e = ErrReceiptNotFound then s else s\<lparr>blastError := trimSpace (errorString C e)\<rparr>)"

text \<open>Run a transaction and record its error.\<close>

definition recorded :: "'v Codec \<Rightarrow> ('v, 'a) bolt_act \<Rightarrow> ('v, 'a) bolt_act" where
  "recorded C m = (\<lambda>s. case m s of (Inl e, s') \<Rightarrow> (Inl e, recordError C e s') | (Inr x, s') \<Rightarrow> (Inr x, s'))"

section \<open>Opening\<close>

fun buildOrder :: "'v Codec \<Rightarrow> (string \<times> 'v) list \<Rightarrow> ('v, unit) bolt_act" where
  "buildOrder C [] = ret ()"
| "buildOrder C ((k, v) # rs) = bindE (decode C (Some v)) (\<lambda>r. seqE (putOrder (receiptOrder (formatTime C) r) k) (buildOrder C rs))"

fun buildPending :: "'v Codec \<Rightarrow> (string \<times> 'v) list \<Rightarrow> ('v, unit) bolt_act" where
  "buildPending C [] = ret ()"
| "buildPending C ((k, v) # rs) = bindE (decode C (Some v)) (\<lambda>r.
     seqE (if State r \<noteq> ReceiptApplied then putPending (receiptOrder (formatTime C) r) k else ret ()) (buildPending C rs))"

fun sumBytes :: "'v Codec \<Rightarrow> 64 word \<Rightarrow> (string \<times> 'v) list \<Rightarrow> ('v, 64 word) bolt_act" where
  "sumBytes C n [] = ret n"
| "sumBytes C n ((k, v) # rs) = bindE (decode C (Some v)) (\<lambda>r.
     let payloadBytes = of_nat (length (Payload r)) in
     if payloadBytes > - 1 - n then throw (ErrBackend (Plain ''ingest inbox payload byte accounting overflow''))
     else sumBytes C (n + payloadBytes) rs)"

definition ensureReceipts :: "('v, unit) bolt_act" where
  "ensureReceipts = getS (\<lambda>s. if bucketReceipts (bdb s) = None then writeDB (\<lambda>d. d\<lparr>bucketReceipts := Some []\<rparr>) else ret ())"

definition ensureOrder :: "'v Codec \<Rightarrow> ('v, unit) bolt_act" where
  "ensureOrder C = getS (\<lambda>s. if bucketOrder (bdb s) = None
     then seqE (writeDB (\<lambda>d. d\<lparr>bucketOrder := Some []\<rparr>)) (withBucket bucketReceipts (\<lambda>rb. buildOrder C (cursor rb))) else ret ())"

definition ensurePending :: "'v Codec \<Rightarrow> ('v, unit) bolt_act" where
  "ensurePending C = getS (\<lambda>s. if bucketPending (bdb s) = None
     then seqE (writeDB (\<lambda>d. d\<lparr>bucketPending := Some []\<rparr>)) (withBucket bucketReceipts (\<lambda>rb. buildPending C (cursor rb))) else ret ())"

definition ensureMeta :: "'v Codec \<Rightarrow> ('v, unit) bolt_act" where
  "ensureMeta C =
     seqE (getS (\<lambda>s. if bucketMeta (bdb s) = None then writeDB (\<lambda>d. d\<lparr>bucketMeta := Some []\<rparr>) else ret ()))
    (withBucket bucketMeta (\<lambda>meta.
       if map_of meta keyInboxSchema \<noteq> None \<and> map_of meta keyInboxSchema \<noteq> Some (bytesOf ''1'')
       then throw (ErrBackend (Plain ''unsupported ingest inbox schema''))
       else seqE (if map_of meta keyInboxBytes = None
                  then withBucket bucketReceipts (\<lambda>rb. bindE (sumBytes C 0 (cursor rb)) putInboxBytes) else ret ())
              (putMeta keyInboxSchema (bytesOf ''1''))))"

definition initialize :: "'v Codec \<Rightarrow> ('v, unit) bolt_act" where
  "initialize C = seqE ensureReceipts (seqE (ensureOrder C) (seqE (ensurePending C) (ensureMeta C)))"

fun wrapInboxErr :: "string \<Rightarrow> inbox_error \<Rightarrow> inbox_error" where
  "wrapInboxErr msg (ErrBackend e) = ErrBackend (Wrapped msg e)"
| "wrapInboxErr msg e = e"

definition wrapping :: "string \<Rightarrow> ('v, unit) bolt_act \<Rightarrow> ('v, unit) bolt_act" where
  "wrapping msg m = (\<lambda>s. case m s of (Inl e, s') \<Rightarrow> (Inl (wrapInboxErr msg e), s') | (Inr x, s') \<Rightarrow> (Inr x, s'))"

text \<open>The directory and the file are created or opened by the first two steps, which may fail.\<close>

definition newBoltInbox :: "'v Codec \<Rightarrow> InboxConfig \<Rightarrow> 'v boltDB \<Rightarrow> bool list \<Rightarrow> (inbox_error + unit) \<times> 'v boltInbox" where
  "newBoltInbox C cfg db faults =
     seqE (wrapping ''create ingest inbox directory'' dbFault)
      (seqE (wrapping ''open ingest inbox'' dbFault)
        (wrapping ''initialize ingest inbox'' (dbUpdate (initialize C))))
     \<lparr>bcfg = normalized cfg, bdb = db, bduplicates = 0, breplayed = 0, bpruned = 0, blastGCNano = 0, blastError = '''', bfaults = faults\<rparr>"

section \<open>Operations\<close>

definition commitTx :: "'v Codec \<Rightarrow> Receipt \<Rightarrow> ('v, Receipt \<times> bool) bolt_act" where
  "commitTx C r = withBucket bucketReceipts (\<lambda>rb. case map_of rb (Identity r) of
     Some v \<Rightarrow>
       (case unmarshalReceipt C v of
          Inl e \<Rightarrow> throw (ErrBackend (Wrapped ''decode existing receipt'' e))
        | Inr existing \<Rightarrow> if Payload existing \<noteq> Payload r then throw ErrIdentityConflict else ret (existing, False))
   | None \<Rightarrow> withBucket bucketMeta (\<lambda>meta. getS (\<lambda>s.
       let maxBytes = of_int (CMaxBytes (bcfg s)) :: 64 word; currentBytes = inboxBytes meta;
           payloadBytes = of_nat (length (Payload r)) in
       if int (length rb) \<ge> CMaxRecords (bcfg s) \<or> currentBytes > maxBytes \<or> payloadBytes > maxBytes - currentBytes then throw ErrInboxFull
       else bindE (encode C r) (\<lambda>v.
         seqE (putReceipt (Identity r) v)
           (seqE (putOrder (receiptOrder (formatTime C) r) (Identity r))
             (seqE (putPending (receiptOrder (formatTime C) r) (Identity r))
               (seqE (putInboxBytes (currentBytes + payloadBytes)) (ret (r, True)))))))))"

definition boltCommit :: "'v Codec \<Rightarrow> Receipt \<Rightarrow> ('v, Receipt \<times> bool) bolt_act" where
  "boltCommit C r = (case validateReceipt r of Some e \<Rightarrow> throw e
     | None \<Rightarrow> seqE ctxFault (bindE (recorded C (dbUpdate (commitTx C r))) (\<lambda>(stored, created).
         seqE (modify (\<lambda>s. if created then s else s\<lparr>bduplicates := bduplicates s + 1\<rparr>)) (ret (stored, created)))))"

definition boltGet :: "'v Codec \<Rightarrow> string \<Rightarrow> ('v, Receipt) bolt_act" where
  "boltGet C k = seqE ctxFault (dbView (withBucket bucketReceipts (\<lambda>rb.
     if map_of rb k = None then throw ErrReceiptNotFound else decode C (map_of rb k))))"

definition claimTx :: "'v Codec \<Rightarrow> string \<Rightarrow> string \<Rightarrow> int \<Rightarrow> int \<Rightarrow> ('v, Receipt \<times> bool) bolt_act" where
  "claimTx C k owner now lease = withBucket bucketReceipts (\<lambda>rb.
     if map_of rb k = None then throw ErrReceiptNotFound
     else bindE (decode C (map_of rb k)) (\<lambda>r.
       if \<not> claimable now r then ret (r, False)
       else let r' = claimReceipt owner now lease r in
         bindE (encode C r') (\<lambda>v. seqE (putReceipt k v) (ret (r', True)))))"

definition boltClaim :: "'v Codec \<Rightarrow> string \<Rightarrow> string \<Rightarrow> int \<Rightarrow> int \<Rightarrow> ('v, Receipt \<times> bool) bolt_act" where
  "boltClaim C k owner now lease = seqE ctxFault (recorded C (dbUpdate (claimTx C k owner now lease)))"

definition updateClaimedTx :: "'v Codec \<Rightarrow> string \<Rightarrow> string \<Rightarrow> (Receipt \<Rightarrow> Receipt) \<Rightarrow> ('v, unit) bolt_act" where
  "updateClaimedTx C k owner f = withBucket bucketReceipts (\<lambda>rb.
     if map_of rb k = None then throw ErrReceiptNotFound
     else bindE (decode C (map_of rb k)) (\<lambda>r.
       if State r \<noteq> ReceiptApplying \<or> ApplyOwner r \<noteq> owner then throw ErrLeaseLost
       else let r' = bumpRevision (f r) in
         seqE (if State r' = ReceiptApplied then deletePending (receiptOrder (formatTime C) r') else ret ())
           (bindE (encode C r') (\<lambda>v. putReceipt k v))))"

definition updateClaimed :: "'v Codec \<Rightarrow> string \<Rightarrow> string \<Rightarrow> (Receipt \<Rightarrow> Receipt) \<Rightarrow> ('v, unit) bolt_act" where
  "updateClaimed C k owner f = seqE ctxFault (recorded C (dbUpdate (updateClaimedTx C k owner f)))"

definition boltRenew :: "'v Codec \<Rightarrow> string \<Rightarrow> string \<Rightarrow> int \<Rightarrow> int \<Rightarrow> ('v, unit) bolt_act" where
  "boltRenew C k owner now lease = updateClaimed C k owner (\<lambda>r. r\<lparr>LeaseExpiresAt := now + lease\<rparr>)"

definition boltMarkApplied :: "'v Codec \<Rightarrow> string \<Rightarrow> string \<Rightarrow> int \<Rightarrow> ('v, unit) bolt_act" where
  "boltMarkApplied C k owner appliedAt = updateClaimed C k owner (appliedReceipt appliedAt)"

definition boltMarkFailed :: "'v Codec \<Rightarrow> string \<Rightarrow> string \<Rightarrow> string option \<Rightarrow> ('v, unit) bolt_act" where
  "boltMarkFailed C k owner failure = updateClaimed C k owner (failedReceipt failure)"

text \<open>The cursor loop of \<open>Pending\<close> over the identities in the index.\<close>

fun boltPendingLoop :: "'v Codec \<Rightarrow> (string \<times> 'v) list \<Rightarrow> int \<Rightarrow> nat \<Rightarrow> Receipt list \<Rightarrow> string list \<Rightarrow> ('v, Receipt list) bolt_act" where
  "boltPendingLoop C rb now limit result [] = ret result"
| "boltPendingLoop C rb now limit result (k # ks) =
     (if length result < limit then
        bindE (decode C (map_of rb k)) (\<lambda>r. boltPendingLoop C rb now limit (if claimable now r then result @ [r] else result) ks)
      else ret result)"

definition boltPending :: "'v Codec \<Rightarrow> int \<Rightarrow> int \<Rightarrow> ('v, Receipt list) bolt_act" where
  "boltPending C now limit = seqE ctxFault (bindE
     (recorded C (dbView (withBucket bucketPending (\<lambda>pb. withBucket bucketReceipts (\<lambda>rb.
        boltPendingLoop C rb now (pendingLimit limit) [] (map snd (cursor pb)))))))
     (\<lambda>result. seqE (modify (\<lambda>s. s\<lparr>breplayed := breplayed s + of_nat (length result)\<rparr>)) (ret result)))"

fun retainedLoop :: "'v Codec \<Rightarrow> (string \<times> 'v) list \<Rightarrow> nat \<Rightarrow> Receipt list \<Rightarrow> string list \<Rightarrow> ('v, Receipt list) bolt_act" where
  "retainedLoop C rb limit result [] = ret result"
| "retainedLoop C rb limit result (k # ks) =
     (if length result < limit then bindE (decode C (map_of rb k)) (\<lambda>r. retainedLoop C rb limit (result @ [r]) ks) else ret result)"

text \<open>\<^verbatim>\<open>Seek\<close> positions the cursor at the first key that is not below \<open>after\<close>.\<close>

definition seekAfter :: "string \<Rightarrow> (string \<times> string) list \<Rightarrow> (string \<times> string) list" where
  "seekAfter after entries = (case dropWhile (\<lambda>(k, _). k < after) entries of
     [] \<Rightarrow> [] | (k, v) # rest \<Rightarrow> if k = after then rest else (k, v) # rest)"

definition boltRetained :: "'v Codec \<Rightarrow> string \<Rightarrow> int \<Rightarrow> ('v, Receipt list) bolt_act" where
  "boltRetained C after limit = seqE ctxFault (dbView (withBucket bucketOrder (\<lambda>ob. withBucket bucketReceipts (\<lambda>rb.
     retainedLoop C rb (retainedLimit limit) [] (map snd (seekAfter after (cursor ob)))))))"

text \<open>The scan of \<open>Prune\<close> collects at most 1024 keys and removes their index entries.\<close>

fun pruneScan :: "'v Codec \<Rightarrow> int \<Rightarrow> (string \<times> 'v) list \<Rightarrow> string list \<Rightarrow> 64 word \<Rightarrow> ('v, string list \<times> 64 word) bolt_act" where
  "pruneScan C cutoff [] ids n = ret (ids, n)"
| "pruneScan C cutoff ((k, v) # rs) ids n =
     (if length ids < 1024 then
        bindE (decode C (Some v)) (\<lambda>r.
          if prunable cutoff r then
            (let payloadBytes = of_nat (length (Payload r)) in
             if payloadBytes > n then throw (ErrBackend (Plain ''ingest inbox payload byte accounting underflow''))
             else seqE (deleteOrder (receiptOrder (formatTime C) r)) (pruneScan C cutoff rs (ids @ [k]) (n - payloadBytes)))
          else pruneScan C cutoff rs ids n)
      else ret (ids, n))"

fun deleteAll :: "string list \<Rightarrow> ('v, unit) bolt_act" where
  "deleteAll [] = ret ()"
| "deleteAll (k # ks) = seqE (deleteReceipt k) (deleteAll ks)"

definition pruneTx :: "'v Codec \<Rightarrow> int \<Rightarrow> ('v, nat) bolt_act" where
  "pruneTx C cutoff = withBucket bucketReceipts (\<lambda>rb. withBucket bucketMeta (\<lambda>meta.
     bindE (pruneScan C cutoff (cursor rb) [] (inboxBytes meta)) (\<lambda>(ids, n).
       seqE (deleteAll ids) (seqE (putInboxBytes n) (ret (length ids))))))"

definition boltPrune :: "'v Codec \<Rightarrow> int \<Rightarrow> int \<Rightarrow> int \<Rightarrow> ('v, nat) bolt_act" where
  "boltPrune C now cutoff maxRecords = seqE ctxFault (\<lambda>s. case dbUpdate (pruneTx C cutoff) s of
     (Inl e, s') \<Rightarrow> (Inl e, recordError C e (s'\<lparr>blastGCNano := now - unixEpoch\<rparr>))
   | (Inr removed, s') \<Rightarrow> (Inr removed, s'\<lparr>blastGCNano := now - unixEpoch, bpruned := bpruned s' + of_nat removed\<rparr>))"

definition boltInboxOps :: "'v Codec \<Rightarrow> 'v boltInbox Inbox" where
  "boltInboxOps C = \<lparr>ICommit = boltCommit C, IGet = boltGet C, IClaim = boltClaim C, IRenew = boltRenew C,
     IMarkApplied = boltMarkApplied C, IMarkFailed = boltMarkFailed C, IPending = boltPending C,
     IRetained = boltRetained C, IPrune = boltPrune C\<rparr>"

definition boltStats :: "(int \<Rightarrow> string) \<Rightarrow> 'v Codec \<Rightarrow> 'v boltInbox \<Rightarrow> InboxStats" where
  "boltStats durationString C s =
     (let st = \<lparr>Enabled = True, StatsBackend = ''bbolt'', Shared = False, StatsPath = Path (bcfg s), Records = 0, PendingCount = 0,
         AppliedCount = 0, Duplicates = bduplicates s, Replayed = breplayed s, Pruned = bpruned s,
         LastGCAt = (if blastGCNano s > 0 then blastGCNano s + unixEpoch else 0), StatsLastError = blastError s,
         RetentionText = durationString (Retention (bcfg s)), StatsMaxRecords = CMaxRecords (bcfg s), StatsPayloadBytes = 0,
         StatsMaxBytes = CMaxBytes (bcfg s), LeaseDuration = durationString (Lease (bcfg s))\<rparr> in
      case ctxFault s of
        (Inl e, _) \<Rightarrow> st\<lparr>StatsLastError := errorString C e\<rparr>
      | (Inr _, s) \<Rightarrow>
         (case dbView (withBucket bucketMeta (\<lambda>meta. withBucket bucketReceipts (\<lambda>rb. withBucket bucketPending (\<lambda>pb.
            if unat (inboxBytes meta) > 2 ^ 63 - 1
            then throw (ErrBackend (Plain ''ingest inbox payload byte counter exceeds int64''))
            else ret (st\<lparr>StatsPayloadBytes := uint (inboxBytes meta), Records := int (length rb), PendingCount := int (length pb),
                         AppliedCount := int (length rb) - int (length pb)\<rparr>))))) s of
            (Inl e, _) \<Rightarrow> st\<lparr>Enabled := False, StatsLastError := errorString C e\<rparr>
          | (Inr st, _) \<Rightarrow> st))"

end
