(* ===== verification/BoltRefine.thy ===== *)
theory BoltRefine
  imports InboxBolt
begin

text \<open>
  The bbolt inbox implements the in-memory inbox: an abstraction function forgets the encoding and the
  indexes, an invariant ties the indexes and the byte counter to the receipts, and every operation that
  succeeds does on the abstraction what the in-memory operation does.
\<close>

section \<open>Success and frame of transactions\<close>

named_theorems ok_iff "when a computation succeeds"

lemma bind_ok [ok_iff]: "bindE m f s = (Inr x, s') \<longleftrightarrow> (\<exists>y s1. m s = (Inr y, s1) \<and> f y s1 = (Inr x, s'))"
  by (auto simp: bindE_def split: prod.splits sum.splits)

lemma seq_ok [ok_iff]: "seqE m k s = (Inr x, s') \<longleftrightarrow> (\<exists>y s1. m s = (Inr y, s1) \<and> k s1 = (Inr x, s'))"
  by (simp add: seqE_def bind_ok)

lemma basic_ok [ok_iff]:
  "ret y s = (Inr x, s') \<longleftrightarrow> x = y \<and> s' = s" "throw e s = (Inr x, s') \<longleftrightarrow> False"
  "modify g s = (Inr u, s') \<longleftrightarrow> s' = g s" "getS h s = (Inr x, s') \<longleftrightarrow> h s s = (Inr x, s')"
  by (auto simp: ret_def throw_def modify_def getS_def)

lemma withBucket_ok [ok_iff]: "withBucket sel f s = (Inr x, s') \<longleftrightarrow> (\<exists>b. sel (bdb s) = Some b \<and> f b s = (Inr x, s'))"
  by (auto simp: withBucket_def getS_def throw_def split: option.splits)

lemma decode_ok [ok_iff]: "decode C v s = (Inr r, s') \<longleftrightarrow> (\<exists>v'. v = Some v' \<and> unmarshalReceipt C v' = Inr r) \<and> s' = s"
  by (auto simp: decode_def throw_def ret_def split: option.splits sum.splits)

lemma encode_ok [ok_iff]: "encode C r s = (Inr v, s') \<longleftrightarrow> marshalReceipt C r = Inr v \<and> s' = s"
  by (auto simp: encode_def throw_def ret_def split: sum.splits)

text \<open>A transaction touches the buckets and draws faults, nothing else.\<close>

definition counters :: "'v boltInbox \<Rightarrow> InboxConfig \<times> 64 word \<times> 64 word \<times> 64 word \<times> int \<times> string" where
  "counters s = (bcfg s, bduplicates s, breplayed s, bpruned s, blastGCNano s, blastError s)"

definition untouched :: "'v boltInbox \<Rightarrow> 'v boltInbox \<Rightarrow> bool" where
  "untouched s s' \<longleftrightarrow> counters s' = counters s \<and> bdb s' = bdb s"

lemma untouched_refl [simp]: "untouched s s"
  by (simp add: untouched_def)

lemma untouched_trans: "untouched s s1 \<Longrightarrow> untouched s1 s2 \<Longrightarrow> untouched s s2"
  by (simp add: untouched_def)

lemma faulty_untouched: "faulty e s = (x, s') \<Longrightarrow> untouched s s'"
  by (auto simp: faulty_def untouched_def counters_def split: list.splits)

lemma ctxFault_untouched: "ctxFault s = (x, s') \<Longrightarrow> untouched s s'"
  and dbFault_untouched: "dbFault s = (x, s') \<Longrightarrow> untouched s s'"
  by (simp_all add: ctxFault_def dbFault_def faulty_untouched)

lemma writeDB_ok: "writeDB f s = (Inr u, s') \<Longrightarrow> counters s' = counters s \<and> bdb s' = f (bdb s)"
  by (auto simp: writeDB_def ok_iff untouched_def counters_def dest!: dbFault_untouched)

definition frame :: "('v, 'a) bolt_act \<Rightarrow> bool" where
  "frame m \<longleftrightarrow> (\<forall>s x s'. m s = (x, s') \<longrightarrow> counters s' = counters s)"

lemma frame_bind [intro!]:
  assumes "frame m" "\<And>x. frame (f x)"
  shows "frame (bindE m f)"
  unfolding frame_def
proof (intro allI impI)
  fix s x s' assume b: "bindE m f s = (x, s')"
  obtain y s1 where m: "m s = (y, s1)" by fastforce
  with assms(1) have s1: "counters s1 = counters s" by (simp add: frame_def)
  show "counters s' = counters s"
    using b m s1 assms(2) [unfolded frame_def] by (cases y) (auto simp: bindE_def)
qed

lemma frame_getS [intro!]: "(\<And>s. frame (h s)) \<Longrightarrow> frame (getS h)"
  by (simp add: frame_def getS_def)

lemma frame_basic [intro!]:
  "frame (ret x)" "frame (throw e)" "frame dbFault" "frame ctxFault" "frame (writeDB f)" "frame (decode C v)" "frame (encode C r)"
proof -
  show "frame dbFault" "frame ctxFault"
    unfolding frame_def by (metis dbFault_untouched untouched_def) (metis ctxFault_untouched untouched_def)
  show "frame (writeDB f)" unfolding frame_def writeDB_def seqE_def bindE_def modify_def
    by (auto simp: untouched_def counters_def split: prod.splits sum.splits dest!: dbFault_untouched)
qed (auto simp: frame_def ret_def throw_def decode_def encode_def split: option.splits sum.splits)

lemma frame_seq [intro!]: "frame m \<Longrightarrow> frame k \<Longrightarrow> frame (seqE m k)"
  unfolding seqE_def by (rule frame_bind)

lemma frame_withBucket [intro!]: "(\<And>b. frame (g b)) \<Longrightarrow> frame (withBucket sel g)"
  unfolding withBucket_def by (rule frame_getS) (simp add: frame_basic split: option.split)

lemma frame_if [intro!]: "frame m \<Longrightarrow> frame k \<Longrightarrow> frame (if b then m else k)"
  by simp

lemma dbUpdate_ok:
  assumes "dbUpdate f s = (Inr x, s')"
  shows "\<exists>s0 s1. untouched s s0 \<and> f s0 = (Inr x, s1) \<and> untouched s1 s'"
proof -
  have "seqE dbFault (bindE f (\<lambda>x. seqE dbFault (ret x))) s = (Inr x, s')"
    using assms by (auto simp: dbUpdate_def split: prod.splits sum.splits)
  then show ?thesis by (auto simp: ok_iff dest!: dbFault_untouched)
qed

lemma dbUpdate_err:
  assumes "dbUpdate f s = (Inl e, s')" "frame f"
  shows "untouched s s'"
proof -
  have fr: "frame (seqE dbFault (bindE f (\<lambda>x. seqE dbFault (ret x))))" by (intro frame_seq frame_bind frame_basic assms(2))
  obtain y s1 where y: "seqE dbFault (bindE f (\<lambda>x. seqE dbFault (ret x))) s = (y, s1)" by fastforce
  with fr have "counters s1 = counters s" by (simp add: frame_def)
  with y assms(1) show ?thesis by (auto simp: dbUpdate_def untouched_def counters_def split: sum.splits)
qed

section \<open>Abstraction and invariant\<close>

text \<open>What the code relies on: a document that was written reads back as the same receipt, and the rendered
  timestamps all have the same length.\<close>

definition codecOK :: "'v Codec \<Rightarrow> bool" where
  "codecOK C \<longleftrightarrow> (\<forall>r v. marshalReceipt C r = Inr v \<longrightarrow> unmarshalReceipt C v = Inr r)
     \<and> (\<forall>t t'. length (formatTime C t) = length (formatTime C t'))"

abbreviation order :: "'v Codec \<Rightarrow> Receipt \<Rightarrow> string" where
  "order C \<equiv> receiptOrder (formatTime C)"

definition absR :: "'v Codec \<Rightarrow> (string \<times> 'v) list \<Rightarrow> receiptMap" where
  "absR C rb = map (\<lambda>(k, v). (k, projr (unmarshalReceipt C v))) rb"

text \<open>The time of the last collection, as \<open>Stats\<close> reads it back from its Unix nanoseconds.\<close>

definition gcTime :: "int \<Rightarrow> int" where
  "gcTime n = (if n > 0 then n + unixEpoch else 0)"

definition absB :: "'v Codec \<Rightarrow> 'v boltInbox \<Rightarrow> memoryInbox" where
  "absB C s = \<lparr>mcfg = bcfg s, receipts = absR C (the (bucketReceipts (bdb s))), duplicates = bduplicates s,
     replayed = breplayed s, pruned = bpruned s, lastGC = gcTime (blastGCNano s), mlastError = blastError s,
     payloadBytes = uint (inboxBytes (the (bucketMeta (bdb s))))\<rparr>"

text \<open>The bucket \<open>b\<close> indexes the receipts with \<open>P\<close> by their order key.\<close>

definition indexes :: "'v Codec \<Rightarrow> (Receipt \<Rightarrow> bool) \<Rightarrow> (string \<Rightarrow> Receipt option) \<Rightarrow> (string \<times> string) list \<Rightarrow> bool" where
  "indexes C P V b \<longleftrightarrow> distinct (map fst b) \<and> (\<forall>x k. map_of b x = Some k \<longleftrightarrow> (\<exists>r. V k = Some r \<and> P r \<and> x = order C r))"

definition unapplied :: "Receipt \<Rightarrow> bool" where
  "unapplied r \<longleftrightarrow> State r \<noteq> ReceiptApplied"

definition boltInv :: "'v Codec \<Rightarrow> 'v boltInbox \<Rightarrow> bool" where
  "boltInv C s \<longleftrightarrow> memInv (absB C s) \<and> CMaxBytes (bcfg s) < 2 ^ 63 \<and>
     (\<exists>rb ob pb mb. bucketReceipts (bdb s) = Some rb \<and> bucketOrder (bdb s) = Some ob \<and> bucketPending (bdb s) = Some pb
        \<and> bucketMeta (bdb s) = Some mb \<and> (\<forall>(k, v) \<in> set rb. \<exists>r. unmarshalReceipt C v = Inr r)
        \<and> indexes C (\<lambda>_. True) (memView (absB C s)) ob \<and> indexes C unapplied (memView (absB C s)) pb)"

definition boltView :: "'v Codec \<Rightarrow> 'v boltInbox \<Rightarrow> string \<Rightarrow> Receipt option" where
  "boltView C s = memView (absB C s)"

lemma absB_untouched: "untouched s s' \<Longrightarrow> absB C s' = absB C s"
  by (simp add: untouched_def counters_def absB_def)

lemma boltInv_cong: "bdb s' = bdb s \<Longrightarrow> bcfg s' = bcfg s \<Longrightarrow> boltInv C s' = boltInv C s"
  unfolding boltInv_def memInv_def memView_def by (simp add: absB_def)

lemma boltInv_untouched: "untouched s s' \<Longrightarrow> boltInv C s' = boltInv C s"
  unfolding boltInv_def by (simp add: absB_untouched) (simp add: untouched_def counters_def)

lemma map_of_absR: "map_of (absR C rb) k = map_option (\<lambda>v. projr (unmarshalReceipt C v)) (map_of rb k)"
  by (induction rb) (auto simp: absR_def)

lemma keys_absR [simp]: "map fst (absR C rb) = map fst rb"
  by (simp add: absR_def case_prod_beta comp_def)

lemma length_absR [simp]: "length (absR C rb) = length rb"
  by (simp add: absR_def)

lemma absR_update: "absR C (AList.update k v rb) = AList.update k (projr (unmarshalReceipt C v)) (absR C rb)"
  by (induction rb) (auto simp: absR_def)

lemma absR_delete: "absR C (AList.delete k rb) = AList.delete k (absR C rb)"
  by (induction rb) (auto simp: absR_def)

lemma order_inj: "codecOK C \<Longrightarrow> order C r = order C r' \<Longrightarrow> Identity r = Identity r'"
proof -
  assume "codecOK C" "order C r = order C r'"
  then have "length (formatTime C (AcceptedAt r)) = length (formatTime C (AcceptedAt r'))"
    "formatTime C (AcceptedAt r) @ '':'' @ Identity r = formatTime C (AcceptedAt r') @ '':'' @ Identity r'"
    by (auto simp: codecOK_def receiptOrder_def)
  then show ?thesis by simp
qed

section \<open>Maintenance of the indexes\<close>

definition keyedV :: "(string \<Rightarrow> Receipt option) \<Rightarrow> bool" where
  "keyedV V \<longleftrightarrow> (\<forall>k r. V k = Some r \<longrightarrow> Identity r = k)"

lemma indexes_same:
  assumes "indexes C P V b" "V k = Some r" "order C r' = order C r" "P r' = P r"
  shows "indexes C P (V(k \<mapsto> r')) b"
  using assms by (auto simp: indexes_def)

lemma indexes_add:
  assumes "indexes C P V b" "keyedV V" "codecOK C" "V k = None" "Identity r = k" "P r"
  shows "indexes C P (V(k \<mapsto> r)) (AList.update (order C r) k b)"
proof -
  have "order C r' \<noteq> order C r" if "V k' = Some r'" for k' r'
    using that assms(2-5) order_inj [of C r' r] by (auto simp: keyedV_def)
  with assms show ?thesis by (fastforce simp: indexes_def distinct_update update_conv')
qed

lemma indexes_skip: "indexes C P V b \<Longrightarrow> V k = None \<Longrightarrow> \<not> P r \<Longrightarrow> indexes C P (V(k \<mapsto> r)) b"
  by (auto simp: indexes_def)

lemma indexes_drop:
  assumes "indexes C P V b" "keyedV V" "codecOK C" "V k = Some r" "order C r' = order C r" "\<not> P r'"
  shows "indexes C P (V(k \<mapsto> r')) (AList.delete (order C r') b)"
proof -
  have "order C x \<noteq> order C r" if "V k' = Some x" "k' \<noteq> k" for k' x
    using that assms(2-4) order_inj [of C x r] by (auto simp: keyedV_def)
  with assms show ?thesis by (fastforce simp: indexes_def distinct_delete delete_conv')
qed

lemma indexes_remove:
  assumes "indexes C P V b" "keyedV V" "codecOK C" "V k = Some r"
  shows "indexes C P (V(k := None)) (AList.delete (order C r) b)"
proof -
  have "order C x \<noteq> order C r" if "V k' = Some x" "k' \<noteq> k" for k' x
    using that assms(2-4) order_inj [of C x r] by (auto simp: keyedV_def)
  with assms show ?thesis by (fastforce simp: indexes_def distinct_delete delete_conv')
qed

lemma indexes_gone: "indexes C P V b \<Longrightarrow> V k = Some r \<Longrightarrow> \<not> P r \<Longrightarrow> indexes C P (V(k := None)) b"
  by (auto simp: indexes_def)

lemma memInv_keyed: "memInv m \<Longrightarrow> keyedV (memView m)"
  using memInv_receipt by (auto simp: keyedV_def receiptOK_def)

section \<open>Operations on one receipt\<close>

lemma recorded_ok: "recorded C m s = (Inr x, s') \<longleftrightarrow> m s = (Inr x, s')"
  by (auto simp: recorded_def split: prod.splits sum.splits)

lemma decoded:
  assumes "boltInv C s" "bucketReceipts (bdb s) = Some rb" "map_of rb k = Some v"
  shows "\<exists>r. unmarshalReceipt C v = Inr r \<and> memView (absB C s) k = Some r"
proof -
  from assms have "(k, v) \<in> set rb" by (auto dest: map_of_SomeD)
  with assms obtain r where "unmarshalReceipt C v = Inr r" by (fastforce simp: boltInv_def)
  with assms show ?thesis by (simp add: memView_def absB_def map_of_absR)
qed

lemma absent: "bucketReceipts (bdb s) = Some rb \<Longrightarrow> memView (absB C s) k = None \<longleftrightarrow> map_of rb k = None"
  by (simp add: memView_def absB_def map_of_absR)

lemma decodable_update:
  assumes "\<forall>(k, v) \<in> set rb. \<exists>r. unmarshalReceipt C v = Inr r" "unmarshalReceipt C v = Inr r"
  shows "\<forall>(k, v) \<in> set (AList.update k' v rb). \<exists>r. unmarshalReceipt C v = Inr r"
  using assms by (induction rb) auto

lemma boltInvE:
  assumes "boltInv C s"
  obtains rb ob pb mb where "bucketReceipts (bdb s) = Some rb" "bucketOrder (bdb s) = Some ob" "bucketPending (bdb s) = Some pb"
    "bucketMeta (bdb s) = Some mb" "\<forall>(k, v) \<in> set rb. \<exists>r. unmarshalReceipt C v = Inr r"
    "indexes C (\<lambda>_. True) (memView (absB C s)) ob" "indexes C unapplied (memView (absB C s)) pb"
    "memInv (absB C s)" "CMaxBytes (bcfg s) < 2 ^ 63" "keyedV (memView (absB C s))"
  using assms memInv_keyed unfolding boltInv_def by blast

lemma counters_eqD: "counters s' = counters s \<Longrightarrow> bcfg s' = bcfg s \<and> bduplicates s' = bduplicates s \<and> breplayed s' = breplayed s
    \<and> bpruned s' = bpruned s \<and> blastError s' = blastError s \<and> blastGCNano s' = blastGCNano s"
  by (simp add: counters_def)

text \<open>Storing a new version of a receipt whose order key stays.\<close>

lemma store_sim:
  assumes "codecOK C" "boltInv C s" "counters s' = counters s" "bucketReceipts (bdb s) = Some rb" "marshalReceipt C r' = Inr v"
    and bdb': "bdb s' = (bdb s)\<lparr>bucketReceipts := Some (AList.update k v rb), bucketPending := Some pb'\<rparr>"
    and r: "memView (absB C s) k = Some r" "receiptOK k r \<Longrightarrow> receiptOK k r'" "Payload r' = Payload r" "order C r' = order C r"
    and pb: "indexes C unapplied ((memView (absB C s))(k \<mapsto> r')) pb'"
  shows "absB C s' = (absB C s)\<lparr>receipts := AList.update k r' (receipts (absB C s))\<rparr> \<and> boltInv C s'"
proof -
  have dec: "unmarshalReceipt C v = Inr r'" using assms(1,5) by (simp add: codecOK_def)
  from assms(2) obtain rb0 ob pb0 mb where b: "bucketReceipts (bdb s) = Some rb0" "bucketOrder (bdb s) = Some ob" "bucketPending (bdb s) = Some pb0"
    "bucketMeta (bdb s) = Some mb" "\<forall>(k, v) \<in> set rb0. \<exists>r. unmarshalReceipt C v = Inr r"
    "indexes C (\<lambda>_. True) (memView (absB C s)) ob" "memInv (absB C s)" "CMaxBytes (bcfg s) < 2 ^ 63" by (rule boltInvE)
  have abs: "absB C s' = (absB C s)\<lparr>receipts := AList.update k r' (receipts (absB C s))\<rparr>"
    using counters_eqD [OF assms(3)] assms(4) bdb' b(4) dec by (simp add: absB_def absR_update)
  have inv: "memInv (absB C s')" unfolding abs
    using memInv_update [OF b(7), of k r r'] memInv_receipt [OF b(7) r(1)] r by (simp add: memView_def)
  have view: "memView (absB C s') = (memView (absB C s))(k \<mapsto> r')" unfolding abs by (rule memView_update)
  have "boltInv C s'" unfolding boltInv_def view
    using inv b(1,2,4,8) assms(4) bdb' counters_eqD [OF assms(3)] decodable_update [OF b(5) dec] pb
      indexes_same [OF b(6) r(1,4)] by simp
  with abs show ?thesis by blast
qed

lemma claim_sim:
  assumes "codecOK C" "boltInv C s" "boltClaim C k owner now lease s = (Inr x, s')"
  shows "memClaim k owner now lease (absB C s) = (Inr x, absB C s') \<and> boltInv C s'"
proof -
  obtain s0 s1 where q: "untouched s s0" "claimTx C k owner now lease s0 = (Inr x, s1)" "untouched s1 s'"
    using assms(3) by (auto simp: boltClaim_def ok_iff recorded_ok dest!: ctxFault_untouched dbUpdate_ok intro: untouched_trans)
  have inv: "boltInv C s0" using boltInv_untouched [OF q(1)] assms(2) by simp
  from q(2) obtain rb v r where rb: "bucketReceipts (bdb s0) = Some rb" "map_of rb k = Some v" "unmarshalReceipt C v = Inr r"
    by (auto simp: claimTx_def ok_iff split: if_splits)
  from decoded [OF inv rb(1,2)] rb(3) have view: "memView (absB C s0) k = Some r" by simp
  have "memClaim k owner now lease (absB C s0) = (Inr x, absB C s1) \<and> boltInv C s1"
  proof (cases "claimable now r")
    case False
    with q(2) rb view inv show ?thesis by (auto simp: claimTx_def ok_iff memClaim_cases split: if_splits)
  next
    case True
    let ?r = "claimReceipt owner now lease r"
    from q(2) rb True obtain v' where v': "marshalReceipt C ?r = Inr v'" "putReceipt k v' s0 = (Inr (), s1)" "x = (?r, True)"
      by (auto simp: claimTx_def ok_iff Let_def split: if_splits)
    from inv obtain pb where pb: "bucketPending (bdb s0) = Some pb" "indexes C unapplied (memView (absB C s0)) pb" by (rule boltInvE)
    have "unapplied r" "unapplied ?r" using True by (auto simp: unapplied_def claimable_def claimReceipt_def)
    have o: "order C ?r = order C r" by (simp add: receiptOrder_def claimReceipt_def)
    have idx: "indexes C unapplied ((memView (absB C s0))(k \<mapsto> ?r)) pb"
      by (rule indexes_same [OF pb(2) view o]) (simp add: \<open>unapplied r\<close> \<open>unapplied ?r\<close>)
    have w: "counters s1 = counters s0" "bdb s1 = (bdb s0)\<lparr>bucketReceipts := Some (AList.update k v' rb), bucketPending := Some pb\<rparr>"
      using writeDB_ok [OF v'(2) [unfolded putReceipt_def]] rb(1) pb(1) by auto
    show ?thesis using store_sim [OF assms(1) inv w(1) rb(1) v'(1) w(2) view _ _ o idx] True view v'(3)
      by (simp add: memClaim_cases)
  qed
  then show ?thesis using q absB_untouched boltInv_untouched by metis
qed

lemma held_sim:
  assumes "codecOK C" "boltInv C s" "updateClaimed C k owner f s = (Inr x, s')"
    and f: "\<And>r. receiptOK k (f r) = receiptOK k r" "\<And>r. Payload (f r) = Payload r" "\<And>r. order C (f r) = order C r"
  shows "memHeld k owner (\<lambda>r. bumpRevision (f r)) (absB C s) = (Inr x, absB C s') \<and> boltInv C s'"
proof -
  obtain s0 s1 where q: "untouched s s0" "updateClaimedTx C k owner f s0 = (Inr x, s1)" "untouched s1 s'"
    using assms(3) by (auto simp: updateClaimed_def ok_iff recorded_ok dest!: ctxFault_untouched dbUpdate_ok intro: untouched_trans)
  have inv: "boltInv C s0" using boltInv_untouched [OF q(1)] assms(2) by simp
  from q(2) obtain rb v r where rb: "bucketReceipts (bdb s0) = Some rb" "map_of rb k = Some v" "unmarshalReceipt C v = Inr r"
    and held: "heldBy owner r"
    by (auto simp: updateClaimedTx_def ok_iff heldBy_def split: if_splits)
  from decoded [OF inv rb(1,2)] rb(3) have view: "memView (absB C s0) k = Some r" by simp
  let ?r = "bumpRevision (f r)"
  have o: "order C ?r = order C r" using f(3) [of r] by (simp add: receiptOrder_def bumpRevision_def)
  from inv obtain pb where pb: "bucketPending (bdb s0) = Some pb" "indexes C unapplied (memView (absB C s0)) pb"
    and keyed: "keyedV (memView (absB C s0))" by (rule boltInvE)
  let ?pb = "if State ?r = ReceiptApplied then AList.delete (order C ?r) pb else pb"
  obtain v' s2 where v': "marshalReceipt C ?r = Inr v'" "putReceipt k v' s2 = (Inr x, s1)"
    "(if State ?r = ReceiptApplied then deletePending (order C ?r) else ret ()) s0 = (Inr (), s2)"
    using q(2) rb held by (auto simp: updateClaimedTx_def ok_iff Let_def heldBy_def split: if_splits)
  have s2: "counters s2 = counters s0" "bdb s2 = (bdb s0)\<lparr>bucketPending := Some ?pb\<rparr>"
    using v'(3) pb(1) writeDB_ok [of _ s0 "()" s2] by (auto simp: deletePending_def ok_iff split: if_splits)
  have w: "counters s1 = counters s0" "bdb s1 = (bdb s0)\<lparr>bucketReceipts := Some (AList.update k v' rb), bucketPending := Some ?pb\<rparr>"
    using writeDB_ok [OF v'(2) [unfolded putReceipt_def]] s2 rb(1) by auto
  have idx: "indexes C unapplied ((memView (absB C s0))(k \<mapsto> ?r)) ?pb"
  proof (cases "State ?r = ReceiptApplied")
    case True
    then show ?thesis using indexes_drop [OF pb(2) keyed assms(1) view o] by (simp add: unapplied_def)
  next
    case False
    with held show ?thesis using indexes_same [OF pb(2) view o] by (simp add: unapplied_def heldBy_def)
  qed
  have "memHeld k owner (\<lambda>r. bumpRevision (f r)) (absB C s0) = (Inr x, absB C s1) \<and> boltInv C s1"
    using store_sim [OF assms(1) inv w(1) rb(1) v'(1) w(2) view _ _ o idx] view held f by (simp add: memHeld_cases)
  then show ?thesis using q absB_untouched boltInv_untouched by metis
qed

lemma bit_byte_at:
  assumes "n < 64"
  shows "bit (push_bit (8 * i) (ucast (ucast (drop_bit (8 * i) w) :: byte)) :: 64 word) n \<longleftrightarrow> 8 * i \<le> n \<and> n < 8 * i + 8 \<and> bit w n"
  using assms by (auto simp: bit_simps)

lemma nth_putUint64: "i < 8 \<Longrightarrow> putUint64 w ! i = ucast (drop_bit (8 * i) w)"
  by (simp add: putUint64_def)

lemma be_put_get [simp]: "beUint64 (bePutUint64 w) = w"
proof (rule bit_word_eqI)
  fix n assume n: "n < LENGTH(64)"
  have n': "n < 64" using n by simp
  let ?b = "\<lambda>i. push_bit (8 * i) (ucast (ucast (drop_bit (8 * i) w) :: byte)) :: 64 word"
  have "beUint64 (bePutUint64 w) = ?b 0 OR ?b 1 OR ?b 2 OR ?b 3 OR ?b 4 OR ?b 5 OR ?b 6 OR ?b 7"
    by (simp add: beUint64_def bePutUint64_def Let_def nth_putUint64)
  then have "bit (beUint64 (bePutUint64 w)) n = (\<exists>i \<in> {0,1,2,3,4,5,6,7}. 8 * i \<le> n \<and> n < 8 * i + 8 \<and> bit w n)"
    by (simp only: bit_or_iff bit_byte_at [OF n'] Set.bex_simps Set.ball_simps simp_thms)
  moreover have "n div 8 \<in> {0,1,2,3,4,5,6,7}" "8 * (n div 8) \<le> n" "n < 8 * (n div 8) + 8"
    using n' by auto
  ultimately show "bit (beUint64 (bePutUint64 w)) n = bit w n" by blast
qed

lemma inboxBytes_put: "inboxBytes (AList.update keyInboxBytes (bePutUint64 n) mb) = n"
proof -
  have "length (bePutUint64 n) = 8" by (simp add: bePutUint64_def putUint64_def)
  then show ?thesis by (simp add: inboxBytes_def update_conv')
qed

text \<open>The unsigned comparison of the code is the signed one of the in-memory inbox.\<close>

lemma capacity_iff:
  fixes cur :: "64 word"
  assumes "uint cur \<le> m" "0 \<le> m" "m < 2 ^ 63" "n < 2 ^ 63"
  shows "(cur > of_int m \<or> of_nat n > (of_int m :: 64 word) - cur) \<longleftrightarrow> uint cur + int n > m"
    and "uint cur + int n \<le> m \<Longrightarrow> uint (cur + of_nat n) = uint cur + int n"
proof -
  have m: "uint (of_int m :: 64 word) = m" using assms(2,3) by (simp add: uint_word_of_int)
  have n: "uint (of_nat n :: 64 word) = int n" using assms(4) by (simp add: uint_nat unat_of_nat)
  have le: "cur \<le> of_int m" using assms(1) m by (simp add: word_le_def)
  then have "uint ((of_int m :: 64 word) - cur) = m - uint cur" using m assms(1) by (simp add: uint_sub_if')
  then show "(cur > of_int m \<or> of_nat n > (of_int m :: 64 word) - cur) \<longleftrightarrow> uint cur + int n > m"
    using le n by (auto simp: word_less_def word_le_def)
  assume "uint cur + int n \<le> m"
  then show "uint (cur + of_nat n) = uint cur + int n" using n assms(3) by (simp add: uint_plus_if')
qed
lemma commit_sim:
  assumes "codecOK C" "boltInv C s" "boltCommit C r s = (Inr (st, created), s')"
  shows "memCommit r (absB C s) = (Inr (st, created), absB C s') \<and> boltInv C s'"
proof -
  have valid: "validateReceipt r = None" using assms(3) by (auto simp: boltCommit_def ok_iff split: option.splits)
  then obtain s0 s1 s2 where q: "untouched s s0" "commitTx C r s0 = (Inr (st, created), s1)" "untouched s1 s2"
      "s' = (if created then s2 else s2\<lparr>bduplicates := bduplicates s2 + 1\<rparr>)"
    using assms(3) by (auto simp: boltCommit_def ok_iff recorded_ok dest!: ctxFault_untouched dbUpdate_ok intro: untouched_trans)
  have inv: "boltInv C s0" using boltInv_untouched [OF q(1)] assms(2) by simp
  from inv obtain rb ob pb mb where b: "bucketReceipts (bdb s0) = Some rb" "bucketOrder (bdb s0) = Some ob" "bucketPending (bdb s0) = Some pb"
    "bucketMeta (bdb s0) = Some mb" "\<forall>(k, v) \<in> set rb. \<exists>r. unmarshalReceipt C v = Inr r"
    "indexes C (\<lambda>_. True) (memView (absB C s0)) ob" "indexes C unapplied (memView (absB C s0)) pb"
    "memInv (absB C s0)" "CMaxBytes (bcfg s0) < 2 ^ 63" "keyedV (memView (absB C s0))" by (rule boltInvE)
  show ?thesis
  proof (cases "map_of rb (Identity r)")
    case (Some v)
    from decoded [OF inv b(1) Some] obtain old where old: "unmarshalReceipt C v = Inr old" "memView (absB C s0) (Identity r) = Some old" by blast
    with q(2) b(1) Some have x: "Payload old = Payload r" "st = old" "\<not> created" "s1 = s0"
      by (auto simp: commitTx_def ok_iff split: if_splits)
    have a: "absB C s' = (absB C s)\<lparr>duplicates := duplicates (absB C s) + 1\<rparr>"
      using q x absB_untouched [OF q(1), of C] absB_untouched [OF q(3), of C] by (simp add: absB_def)
    have "boltInv C s'" using inv q(3,4) x boltInv_cong [of s' s0 C] by (simp add: untouched_def counters_def)
    with a show ?thesis using x old valid absB_untouched [OF q(1), of C] by (simp add: memCommit_cases)
  next
    case None
    have view: "memView (absB C s0) (Identity r) = None" using absent [OF b(1)] None by simp
    have pb0: "payloadBytes (absB C s0) = uint (inboxBytes mb)" "mcfg (absB C s0) = bcfg s0" "receipts (absB C s0) = absR C rb"
      using b(1,4) by (simp_all add: absB_def)
    have len: "length (Payload r) < 2 ^ 63" using valid by (simp add: validateReceipt_None receiptOK_def maxInboxPayloadBytes_def)
    have cur: "uint (inboxBytes mb) \<le> CMaxBytes (bcfg s0)" "0 \<le> CMaxBytes (bcfg s0)"
      using b(8) pb0 uint_ge_0 [of "inboxBytes mb"] by (auto simp: memInv_def intro: order_trans)
    note cap = capacity_iff [OF cur b(9) len]
    from q(2) b(1,4) None obtain v s3 s4 s5 where
      w: "\<not> (int (length rb) \<ge> CMaxRecords (bcfg s0) \<or> inboxBytes mb > of_int (CMaxBytes (bcfg s0))
            \<or> of_nat (length (Payload r)) > (of_int (CMaxBytes (bcfg s0)) :: 64 word) - inboxBytes mb)"
        "marshalReceipt C r = Inr v" "putReceipt (Identity r) v s0 = (Inr (), s3)" "putOrder (order C r) (Identity r) s3 = (Inr (), s4)"
        "putPending (order C r) (Identity r) s4 = (Inr (), s5)" "st = r" "created"
        "putInboxBytes (inboxBytes mb + of_nat (length (Payload r))) s5 = (Inr (), s1)"
      by (auto simp: commitTx_def ok_iff Let_def split: if_splits)
    have d: "unmarshalReceipt C v = Inr r" using assms(1) w(2) by (simp add: codecOK_def)
    have fits: "int (length rb) < CMaxRecords (bcfg s0)" "uint (inboxBytes mb) + int (length (Payload r)) \<le> CMaxBytes (bcfg s0)"
      using w(1) cap(1) by auto
    have put: "counters s1 = counters s0" "bdb s1 = \<lparr>bucketReceipts = Some (AList.update (Identity r) v rb),
        bucketOrder = Some (AList.update (order C r) (Identity r) ob), bucketPending = Some (AList.update (order C r) (Identity r) pb),
        bucketMeta = Some (AList.update keyInboxBytes (bePutUint64 (inboxBytes mb + of_nat (length (Payload r)))) mb)\<rparr>"
      using writeDB_ok [OF w(3) [unfolded putReceipt_def]] writeDB_ok [OF w(4) [unfolded putOrder_def]]
        writeDB_ok [OF w(5) [unfolded putPending_def]] writeDB_ok [OF w(8) [unfolded putInboxBytes_def putMeta_def]] b(1-4) by auto
    have mem: "memCommit r (absB C s0) = (Inr (r, True), absB C s1)"
      using valid view fits pb0 cap(2) [OF fits(2)] put counters_eqD [OF put(1)] d
      by (simp add: memCommit_cases absB_def absR_update inboxBytes_put)
    have view1: "memView (absB C s1) = (memView (absB C s0))(Identity r \<mapsto> r)"
      using put b(1) d by (simp add: memView_def absB_def absR_update update_conv')
    have "memInv (absB C s1)" using memInv_Commit [OF b(8), of r] mem by simp
    then have "boltInv C s1" unfolding boltInv_def view1
      using put counters_eqD [OF put(1)] b(9) decodable_update [OF b(5) d] indexes_add [OF b(6) b(10) assms(1) view] 
        indexes_add [OF b(7) b(10) assms(1) view] valid by (simp add: unapplied_def validateReceipt_None)
    moreover have "untouched s1 s'" using q(3,4) w(7) by simp
    ultimately show ?thesis
      using mem w(6,7) absB_untouched [OF q(1), of C] absB_untouched [of s1 s' C] boltInv_untouched [of s1 s' C] by simp
  qed
qed

end
