(* ===== verification/BoltScan.thy ===== *)
theory BoltScan
  imports BoltRefine
begin

text \<open>
  The operations of the bbolt inbox that scan a bucket: \<open>Pending\<close>, \<open>Retained\<close> and \<open>Prune\<close>.
\<close>

section \<open>Cursors\<close>

lemma map_filter_id: "(\<And>k. k \<in> set ks \<Longrightarrow> f k \<noteq> None) \<Longrightarrow> List.map_filter f ks = map (\<lambda>k. the (f k)) ks"
proof (induction ks)
  case (Cons a ks)
  from Cons.prems [of a] obtain y where "f a = Some y" by auto
  with Cons show ?case by (simp add: List.map_filter_simps)
qed (simp add: List.map_filter_simps)

lemma cursor_map: "cursor b = map (\<lambda>k. (k, the (map_of b k))) (sort (map fst b))"
proof -
  have "map_of b k \<noteq> None" if "k \<in> set (sort (map fst b))" for k
    using that by (auto simp: map_of_eq_None_iff)
  then show ?thesis unfolding cursor_def by (subst map_filter_id) (auto simp: option.map_sel)
qed

lemma fst_cursor [simp]: "map fst (cursor b) = sort (map fst b)"
  by (simp add: cursor_map comp_def)

lemma set_cursor: "distinct (map fst b) \<Longrightarrow> set (cursor b) = set b"
  by (force simp: cursor_map)

lemma map_of_cursor: "distinct (map fst b) \<Longrightarrow> map_of (cursor b) = map_of b"
  by (rule map_of_inject_set [THEN iffD2]) (simp_all add: set_cursor)

section \<open>Pending\<close>

lemma boltPendingLoop_ok:
  assumes "boltPendingLoop C rb now limit result ks s = (Inr rs, s')" "length result \<le> limit"
  shows "s' = s \<and> rs = result @ take (limit - length result) (filter (claimable now) (List.map_filter (map_of (absR C rb)) ks))"
  using assms
proof (induction ks arbitrary: result)
  case (Cons k ks)
  show ?case
  proof (cases "length result < limit")
    case True
    with Cons.prems obtain v r where v: "map_of rb k = Some v" "unmarshalReceipt C v = Inr r"
        "boltPendingLoop C rb now limit (if claimable now r then result @ [r] else result) ks s = (Inr rs, s')"
      by (auto simp: ok_iff)
    have "limit - length result = Suc (limit - Suc (length result))" using True by linarith
    with Cons.IH [OF v(3)] v(1,2) True show ?thesis by (simp add: List.map_filter_simps map_of_absR)
  qed (use Cons.prems in \<open>auto simp: ok_iff\<close>)
qed (auto simp: ok_iff List.map_filter_simps)

lemma indexes_snd:
  assumes "indexes C P V b"
  shows "distinct (map snd (cursor b))" "set (map snd (cursor b)) = {k. \<exists>r. V k = Some r \<and> P r}"
proof -
  from assms have d: "distinct (map fst b)" and m: "\<And>x k. map_of b x = Some k \<longleftrightarrow> (\<exists>r. V k = Some r \<and> P r \<and> x = order C r)"
    by (auto simp: indexes_def)
  have c: "(x, k) \<in> set (cursor b) \<longleftrightarrow> (\<exists>r. V k = Some r \<and> P r \<and> x = order C r)" for x k
    using set_cursor [OF d] map_of_eq_Some_iff [OF d, of x k] m [of x k] by simp
  have "distinct (cursor b)" using d fst_cursor [of b] by (metis distinct_map distinct_sort)
  moreover have "inj_on snd (set (cursor b))" using c by (force simp: inj_on_def)
  ultimately show "distinct (map snd (cursor b))" by (simp add: distinct_map)
  show "set (map snd (cursor b)) = {k. \<exists>r. V k = Some r \<and> P r}" using c by (force simp: image_iff)
qed

lemma map_filter_append: "List.map_filter f (xs @ ys) = List.map_filter f xs @ List.map_filter f ys"
  by (simp add: List.map_filter_def)

lemma pending_sim:
  assumes "boltInv C s" "boltPending C now limit s = (Inr rs, s')"
  shows "\<exists>ord. distinct ord \<and> set ord = set (keys (receipts (absB C s)))
    \<and> memPending ord now limit (absB C s) = (Inr rs, absB C s') \<and> boltInv C s'"
proof -
  from assms(2) obtain s0 s1 s2 pb rb where q1: "untouched s s0" "untouched s0 s1" and q0: "bucketPending (bdb s1) = Some pb" "bucketReceipts (bdb s1) = Some rb"
      "boltPendingLoop C rb now (pendingLimit limit) [] (map snd (cursor pb)) s1 = (Inr rs, s2)"
      "s' = s2\<lparr>breplayed := breplayed s2 + of_nat (length rs)\<rparr>"
    by (auto simp: boltPending_def dbView_def ok_iff recorded_ok dest!: ctxFault_untouched dbFault_untouched)
  have s2: "s2 = s1" using boltPendingLoop_ok [OF q0(3)] by simp
  note q = untouched_trans [OF q1] q0 [unfolded s2]
  let ?V = "memView (absB C s)"
  have pb: "indexes C unapplied ?V pb" and rb: "receipts (absB C s) = absR C rb" "?V = map_of (absR C rb)"
    using assms(1) q(1-3) by (auto simp: boltInv_def untouched_def absB_def memView_def)
  let ?ks = "map snd (cursor pb)"
  let ?rest = "filter (\<lambda>k. k \<notin> set ?ks) (remdups (keys (absR C rb)))"
  note ks = indexes_snd [OF pb]
  have ks_in: "set ?ks \<subseteq> set (keys (absR C rb))" unfolding ks(2) rb(2) by (force simp: map_of_absR dest: map_of_SomeD)
  have "\<not> claimable now r" if "k \<in> set ?rest" "?V k = Some r" for k r
    using that ks(2) by (auto simp: unapplied_def not_claimable_applied)
  then have none: "filter (claimable now) (List.map_filter ?V ?rest) = []" by (auto simp: filter_empty_conv set_map_filter)
  have res: "rs = take (pendingLimit limit) (filter (claimable now) (List.map_filter ?V ?ks))"
    using boltPendingLoop_ok [OF q(4)] rb by simp
  have "memPending (?ks @ ?rest) now limit (absB C s) = (Inr rs, absB C s')"
    using res none q(5) absB_untouched [OF q(1), of C] by (simp add: memPending_cases map_filter_append absB_def)
  moreover have "distinct (?ks @ ?rest)" using ks(1) by auto
  moreover have "set (?ks @ ?rest) = set (keys (receipts (absB C s)))" using ks_in rb(1) by auto
  moreover have "boltInv C s'" using assms(1) q(1,5) boltInv_cong [of s' s C] by (simp add: untouched_def counters_def)
  ultimately show ?thesis by blast
qed


section \<open>Retained\<close>

lemma seekAfter_filter:
  assumes "sorted (map fst es)" "distinct (map fst es)"
  shows "seekAfter after es = filter (\<lambda>(k, v). k > after) es"
  using assms
proof (induction es)
  case (Cons e es)
  obtain k v where e: "e = (k, v)" by fastforce
  have gt: "k < fst y" if "y \<in> set es" for y using Cons.prems that e by (auto simp: less_le image_iff)
  have all: "filter (\<lambda>(k, v). k > after) es = es" if "after \<le> k"
    using gt that by (fastforce simp: filter_id_conv intro: le_less_trans)
  show ?case
  proof (cases "k < after")
    case True
    with e Cons show ?thesis by (simp add: seekAfter_def)
  next
    case False
    with e all show ?thesis by (auto simp: seekAfter_def)
  qed
qed (simp add: seekAfter_def)

lemma retainedLoop_ok:
  assumes "retainedLoop C rb limit result ks s = (Inr rs, s')" "length result \<le> limit"
  shows "s' = s \<and> rs = result @ take (limit - length result) (List.map_filter (map_of (absR C rb)) ks)"
  using assms
proof (induction ks arbitrary: result)
  case (Cons k ks)
  show ?case
  proof (cases "length result < limit")
    case True
    with Cons.prems obtain v r where v: "map_of rb k = Some v" "unmarshalReceipt C v = Inr r"
        "retainedLoop C rb limit (result @ [r]) ks s = (Inr rs, s')"
      by (auto simp: ok_iff)
    have "limit - length result = Suc (limit - Suc (length result))" using True by linarith
    with Cons.IH [OF v(3)] v(1,2) True show ?thesis by (simp add: List.map_filter_simps map_of_absR)
  qed (use Cons.prems in \<open>auto simp: ok_iff\<close>)
qed (auto simp: ok_iff List.map_filter_simps)

lemma map_of_foldl_update:
  assumes "inj_on f (set rs)" "r \<in> set rs"
  shows "map_of (foldl (\<lambda>al r. AList.update (f r) r al) al rs) (f r) = Some r"
  using assms
proof (induction rs arbitrary: r rule: rev_induct)
  case (snoc x rs)
  show ?case
  proof (cases "f r = f x")
    case True
    with snoc.prems have "r = x" by (auto simp: inj_on_def)
    then show ?thesis by (simp add: update_conv')
  next
    case False
    then have "r \<in> set rs" "inj_on f (set rs)" using snoc.prems by (auto simp: inj_on_def)
    with snoc.IH False show ?thesis by (simp add: update_conv')
  qed
qed simp

text \<open>The receipts whose keys are listed, looked up one by one.\<close>

lemma lookups:
  assumes "\<And>x. x \<in> set xs \<Longrightarrow> \<exists>r. V (g x) = Some r \<and> f r = h x \<and> r \<in> S"
  shows "map f (List.map_filter V (map g xs)) = map h xs" "set (List.map_filter V (map g xs)) \<subseteq> S"
proof -
  have ne: "V k \<noteq> None" if "k \<in> set (map g xs)" for k using that assms by fastforce
  have eq: "List.map_filter V (map g xs) = map (\<lambda>x. the (V (g x))) xs" using map_filter_id [of "map g xs" V, OF ne] by (simp add: comp_def)
  show "map f (List.map_filter V (map g xs)) = map h xs" "set (List.map_filter V (map g xs)) \<subseteq> S"
    unfolding eq using assms by (auto simp: subset_iff) (metis option.sel)+
qed

lemma order_inj_on:
  assumes "codecOK C" "keyedV V"
  shows "inj_on (order C) {r. \<exists>k. V k = Some r}"
proof (rule inj_onI)
  fix r r' assume "r \<in> {r. \<exists>k. V k = Some r}" "r' \<in> {r. \<exists>k. V k = Some r}" and eq: "order C r = order C r'"
  then obtain k k' where k: "V k = Some r" "V k' = Some r'" by auto
  then have "k = k'" using order_inj [OF assms(1) eq] assms(2) by (auto simp: keyedV_def)
  with k show "r = r'" by simp
qed

lemma retained_sim:
  assumes "codecOK C" "boltInv C s" "boltRetained C after limit s = (Inr rs, s')"
    and ord: "distinct ord" "set ord = set (keys (receipts (absB C s)))"
  shows "memRetained (formatTime C) ord after limit (absB C s) = (Inr rs, absB C s') \<and> boltInv C s'"
proof -
  from assms(3) obtain s0 s1 ob rb where q: "untouched s s0" "untouched s0 s1" "bucketOrder (bdb s1) = Some ob" "bucketReceipts (bdb s1) = Some rb"
      "retainedLoop C rb (retainedLimit limit) [] (map snd (seekAfter after (cursor ob))) s1 = (Inr rs, s')"
    by (auto simp: boltRetained_def dbView_def ok_iff dest!: ctxFault_untouched dbFault_untouched)
  note qt = untouched_trans [OF q(1,2)]
  let ?V = "memView (absB C s)" and ?f = "order C"
  have ob: "indexes C (\<lambda>_. True) ?V ob" and rb: "receipts (absB C s) = absR C rb" "?V = map_of (absR C rb)"
    using assms(2) qt q(3,4) by (auto simp: boltInv_def untouched_def absB_def memView_def)
  have keyed: "keyedV ?V" using assms(2) by (simp add: boltInv_def memInv_keyed)
  note inj = order_inj_on [OF assms(1) keyed]
  let ?all = "List.map_filter ?V ord"
  have set_all: "set ?all = {r. \<exists>k. ?V k = Some r}"
  proof -
    have "k \<in> set ord" if v: "?V k = Some r" for k r
      using imageI [OF map_of_SomeD [OF v [unfolded rb(2)]], of fst] unfolding ord(2) rb(1) by (simp only: set_map fst_conv)
    then show ?thesis by (auto simp: set_map_filter)
  qed
  have d_all: "distinct (map ?f ?all)"
  proof -
    have "distinct ?all" using identities_map_filter [OF conjunct1 [OF assms(2) [unfolded boltInv_def]], of ord] ord(1)
      by (metis distinct_filter distinct_map)
    then show ?thesis using inj set_all by (simp add: distinct_map)
  qed
  have d_ob: "distinct (map fst ob)" using ob by (simp add: indexes_def)
  have in_ob: "(x, k) \<in> set ob \<longleftrightarrow> (\<exists>r. ?V k = Some r \<and> x = ?f r)" for x k
    using ob map_of_eq_Some_iff [OF d_ob] by (simp add: indexes_def)
  have "set (map fst ob) = set (map ?f ?all)" unfolding set_map set_all using in_ob by force
  then have keys: "sort (map fst ob) = sort (map ?f ?all)" using d_ob d_all by (intro sorted_distinct_set_unique) auto
  let ?es = "filter (\<lambda>(k, v). k > after) (cursor ob)"
  have es: "seekAfter after (cursor ob) = ?es" using d_ob by (intro seekAfter_filter) auto
  have fst_es: "map fst ?es = filter (\<lambda>k. k > after) (sort (map ?f ?all))"
    unfolding keys [symmetric] fst_cursor [symmetric] filter_map by (simp add: comp_def case_prod_unfold)
  have "\<exists>r. ?V (snd e) = Some r \<and> ?f r = fst e \<and> r \<in> set ?all" if "e \<in> set ?es" for e
    using that in_ob [of "fst e" "snd e"] set_cursor [OF d_ob] set_all by auto
  note bolt = lookups [of ?es ?V snd ?f fst "set ?all", OF this]
  have rs: "rs = take (retainedLimit limit) (List.map_filter ?V (map snd ?es))" "s' = s1"
    using retainedLoop_ok [OF q(5)] rb es by auto
  let ?late = "filter (\<lambda>r. ?f r > after) ?all"
  let ?by = "foldl (\<lambda>al r. AList.update (?f r) r al) [] ?late"
  let ?ks = "take (retainedLimit limit) (sort (map ?f ?late))"
  have "\<exists>r. map_of ?by (id k) = Some r \<and> ?f r = id k \<and> r \<in> set ?all" if "k \<in> set ?ks" for k
  proof -
    from that obtain r where "r \<in> set ?late" "k = ?f r" by (auto dest!: in_set_takeD)
    then show ?thesis using map_of_foldl_update [of ?f ?late r] inj set_all by (auto simp: inj_on_def)
  qed
  note mem = lookups [of ?ks "map_of ?by" id ?f id "set ?all", OF this]
  have eq: "List.map_filter (map_of ?by) ?ks = rs"
  proof (rule map_inj_on [of ?f])
    show "map ?f (List.map_filter (map_of ?by) ?ks) = map ?f rs"
      using mem(1) bolt(1) fst_es unfolding rs take_map [symmetric]
      by (simp add: filter_sort filter_map comp_def take_map)
    show "inj_on ?f (set (List.map_filter (map_of ?by) ?ks) \<union> set rs)"
      using mem(2) bolt(2) inj set_all rs by (auto intro!: inj_on_subset [OF inj] dest: in_set_takeD)
  qed
  have "memRetained (formatTime C) ord after limit (absB C s) = (Inr rs, absB C s)"
    using eq by (simp add: memRetained_def gets_def Let_def memView_def [symmetric])
  then show ?thesis using absB_untouched [OF qt, of C] boltInv_untouched [OF qt, of C] assms(2) rs(2) by simp
qed


section \<open>Prune\<close>

text \<open>What the scan collects: prunable receipts \<open>ps\<close>, all of them unless the batch of 1024 is full.\<close>

definition collects :: "'v Codec \<Rightarrow> int \<Rightarrow> (string \<times> 'v) list \<Rightarrow> nat \<Rightarrow> (string \<times> Receipt) list \<Rightarrow> bool" where
  "collects C cutoff es room ps \<longleftrightarrow> (\<forall>(k, r) \<in> set ps. prunable cutoff r \<and> (\<exists>v. (k, v) \<in> set es \<and> unmarshalReceipt C v = Inr r))
     \<and> (distinct (map fst es) \<longrightarrow> distinct (map fst ps)) \<and> length ps \<le> room
     \<and> (length ps < room \<longrightarrow> (\<forall>(k, v) \<in> set es. \<forall>r. unmarshalReceipt C v = Inr r \<and> prunable cutoff r \<longrightarrow> k \<in> fst ` set ps))"

lemma collects_take:
  assumes "collects C cutoff es room ps" "unmarshalReceipt C v = Inr r" "prunable cutoff r"
  shows "collects C cutoff ((k, v) # es) (Suc room) ((k, r) # ps)"
proof -
  have "k \<notin> fst ` set ps" if "k \<notin> fst ` set es" using assms(1) that by (force simp: collects_def)
  with assms show ?thesis unfolding collects_def by auto
qed

lemma collects_skip:
  assumes "collects C cutoff es room ps" "unmarshalReceipt C v = Inr r" "\<not> prunable cutoff r"
  shows "collects C cutoff ((k, v) # es) room ps"
  using assms unfolding collects_def by auto

lemma uint_minus_length:
  fixes n :: "64 word"
  assumes "\<not> of_nat m > n" "m < 2 ^ 63"
  shows "uint (n - of_nat m) = uint n - int m"
proof -
  have "uint (of_nat m :: 64 word) = int m" using assms(2) by (simp add: uint_nat unat_of_nat)
  with assms(1) show ?thesis by (simp add: uint_sub_if' word_less_def not_less)
qed

lemma pruneScan_ok:
  assumes "pruneScan C cutoff es ids n s = (Inr (ids', n'), s')" "length ids \<le> 1024"
    "\<And>k v r. (k, v) \<in> set es \<Longrightarrow> unmarshalReceipt C v = Inr r \<Longrightarrow> length (Payload r) < 2 ^ 63"
  shows "\<exists>ps. ids' = ids @ map fst ps \<and> collects C cutoff es (1024 - length ids) ps \<and> uint n' = uint n - totalBytes ps
    \<and> counters s' = counters s
    \<and> bdb s' = (bdb s)\<lparr>bucketOrder := map_option (fold AList.delete (map (order C \<circ> snd) ps)) (bucketOrder (bdb s))\<rparr>"
  using assms
proof (induction es arbitrary: ids n s)
  case Nil
  then show ?case by (auto simp: ok_iff collects_def option.map_id intro!: exI [of _ "[]"])
next
  case (Cons e es)
  obtain k v where e: "e = (k, v)" by fastforce
  show ?case
  proof (cases "length ids < 1024")
    case False
    with Cons.prems e show ?thesis by (auto simp: ok_iff collects_def option.map_id intro!: exI [of _ "[]"])
  next
    case True
    with Cons.prems(1) e obtain r where r: "unmarshalReceipt C v = Inr r" by (auto simp: ok_iff)
    show ?thesis
    proof (cases "prunable cutoff r")
      case False
      with True r e Cons.prems(1) have "pruneScan C cutoff es ids n s = (Inr (ids', n'), s')" by (auto simp: ok_iff)
      from Cons.IH [OF this Cons.prems(2)] Cons.prems(3) collects_skip [OF _ r False, of es] show ?thesis
        unfolding e by (metis list.set_intros(2))
    next
      case p: True
      let ?n = "of_nat (length (Payload r)) :: 64 word"
      from True r e p Cons.prems(1) obtain s1 where s1: "\<not> ?n > n" "deleteOrder (order C r) s = (Inr (), s1)"
          "pruneScan C cutoff es (ids @ [k]) (n - ?n) s1 = (Inr (ids', n'), s')"
        by (auto simp: ok_iff Let_def split: if_splits)
      have w: "counters s1 = counters s" "bdb s1 = (bdb s)\<lparr>bucketOrder := map_option (AList.delete (order C r)) (bucketOrder (bdb s))\<rparr>"
        using writeDB_ok [OF s1(2) [unfolded deleteOrder_def]] by auto
      from Cons.IH [OF s1(3)] True Cons.prems(3) e obtain ps where ps: "ids' = (ids @ [k]) @ map fst ps"
          "collects C cutoff es (1024 - length (ids @ [k])) ps" "uint n' = uint (n - ?n) - totalBytes ps" "counters s' = counters s1"
          "bdb s' = (bdb s1)\<lparr>bucketOrder := map_option (fold AList.delete (map (order C \<circ> snd) ps)) (bucketOrder (bdb s1))\<rparr>"
        using list.set_intros(2) [of _ es e] by (metis One_nat_def Suc_leI length_append_singleton)
      have room: "1024 - length ids = Suc (1024 - length (ids @ [k]))" using True by simp
      have "length (Payload r) < 2 ^ 63" using Cons.prems(3) e r by auto
      then have "uint n' = uint n - totalBytes ((k, r) # ps)" using ps(3) uint_minus_length [OF s1(1)] by simp
      moreover have "collects C cutoff (e # es) (1024 - length ids) ((k, r) # ps)"
        unfolding room e by (rule collects_take [OF ps(2) r p])
      ultimately show ?thesis using ps w by (intro exI [of _ "(k, r) # ps"]) (simp add: option.map_comp comp_def)
    qed
  qed
qed

lemma deleteAll_ok:
  assumes "deleteAll ks s = (Inr u, s')"
  shows "counters s' = counters s
    \<and> bdb s' = (bdb s)\<lparr>bucketReceipts := map_option (fold AList.delete ks) (bucketReceipts (bdb s))\<rparr>"
  using assms
proof (induction ks arbitrary: s)
  case Nil
  then show ?case by (simp add: ok_iff option.map_id option.map_ident)
next
  case (Cons k ks)
  then obtain s1 where s1: "deleteReceipt k s = (Inr (), s1)" "deleteAll ks s1 = (Inr u, s')" by (auto simp: ok_iff)
  with Cons.IH [OF s1(2)] writeDB_ok [OF s1(1) [unfolded deleteReceipt_def]] show ?case by (simp add: option.map_comp comp_def)
qed

lemma map_of_fold_delete: "map_of (fold AList.delete ks rs) = (\<lambda>k. if k \<in> set ks then None else map_of rs k)"
  by (induction ks arbitrary: rs) (auto simp: delete_conv' fun_eq_iff)

lemma absR_fold_delete: "absR C (fold AList.delete ks rb) = fold AList.delete ks (absR C rb)"
  by (induction ks arbitrary: rb) (simp_all add: absR_delete)

lemma set_fold_delete: "set (fold AList.delete ks rb) \<subseteq> set rb"
proof (induction ks arbitrary: rb)
  case (Cons k ks)
  then show ?case using Cons [of "AList.delete k rb"] by (auto simp: AList.delete_eq)
qed simp

lemma indexes_fold:
  assumes "indexes C P V b" "keyedV V" "codecOK C" "\<forall>(k, r) \<in> set ps. V k = Some r" "distinct (map fst ps)"
  shows "indexes C P (\<lambda>k. if k \<in> fst ` set ps then None else V k) (fold AList.delete (map (order C \<circ> snd) ps) b)"
  using assms
proof (induction ps arbitrary: V b)
  case (Cons p ps)
  obtain k r where p: "p = (k, r)" by fastforce
  have i: "indexes C P (V(k := None)) (AList.delete (order C r) b)" using indexes_remove [OF Cons.prems(1-3)] Cons.prems(4) p by simp
  have kv: "keyedV (V(k := None))" using Cons.prems(2) by (auto simp: keyedV_def)
  have ps: "\<forall>(j, r) \<in> set ps. (V(k := None)) j = Some r" using Cons.prems(4,5) p by force
  have d: "distinct (map fst ps)" using Cons.prems(5) by simp
  have "(\<lambda>j. if j \<in> fst ` set ps then None else (V(k := None)) j) = (\<lambda>j. if j \<in> fst ` set (p # ps) then None else V j)"
    using p by auto
  with Cons.IH [OF i kv Cons.prems(3) ps d] p show ?case by (simp only: list.map fold.simps comp_def snd_conv)
qed simp

lemma pruneLoop_all:
  assumes "\<forall>(k, r) \<in> set ps. map_of rs k = Some r \<and> prunable cutoff r" "distinct (map fst ps)"
  shows "pruneLoop cutoff (map fst ps) (rs, b, n) = (fold AList.delete (map fst ps) rs, b - totalBytes ps, n + length ps)"
  using assms
proof (induction ps arbitrary: rs b n)
  case (Cons p ps)
  obtain k r where p: "p = (k, r)" by fastforce
  have "\<forall>(j, r) \<in> set ps. map_of (AList.delete k rs) j = Some r \<and> prunable cutoff r"
    using Cons.prems p by (force simp: delete_conv')
  from Cons.IH [OF this] Cons.prems p show ?case by simp
qed simp

lemma indexes_keep:
  assumes "indexes C P V b" "\<And>k r. k \<in> fst ` set ps \<Longrightarrow> V k = Some r \<Longrightarrow> \<not> P r"
  shows "indexes C P (\<lambda>k. if k \<in> fst ` set ps then None else V k) b"
  using assms by (auto simp: indexes_def)

lemma collects_view:
  assumes "collects C cutoff (cursor rb) room ps" "distinct (map fst rb)" "\<forall>(k, v) \<in> set rb. \<exists>r. unmarshalReceipt C v = Inr r"
  shows "\<forall>(k, r) \<in> set ps. map_of (absR C rb) k = Some r \<and> prunable cutoff r" "distinct (map fst ps)" "length ps \<le> room"
    "length ps < room \<longrightarrow> (\<forall>k r. map_of (absR C rb) k = Some r \<and> prunable cutoff r \<longrightarrow> k \<in> set (map fst ps))"
proof -
  note c = assms(1) [unfolded collects_def set_cursor [OF assms(2)]]
  have V: "map_of (absR C rb) k = Some r" if "(k, v) \<in> set rb" "unmarshalReceipt C v = Inr r" for k v r
    using that map_of_is_SomeI [OF assms(2)] by (simp add: map_of_absR)
  show "\<forall>(k, r) \<in> set ps. map_of (absR C rb) k = Some r \<and> prunable cutoff r" using c V by blast
  show "distinct (map fst ps)" "length ps \<le> room" using c assms(2) by simp_all
  have "\<exists>v. (k, v) \<in> set rb \<and> unmarshalReceipt C v = Inr r" if "map_of (absR C rb) k = Some r" for k r
    using that assms(3) by (fastforce simp: map_of_absR dest: map_of_SomeD)
  then show "length ps < room \<longrightarrow> (\<forall>k r. map_of (absR C rb) k = Some r \<and> prunable cutoff r \<longrightarrow> k \<in> set (map fst ps))"
    using c by (metis (mono_tags, lifting) case_prodD set_map)
qed

lemma pruneTx_ok:
  assumes "pruneTx C cutoff s = (Inr removed, s')" "boltInv C s"
    and b: "bucketReceipts (bdb s) = Some rb" "bucketOrder (bdb s) = Some ob" "bucketMeta (bdb s) = Some mb"
  shows "\<exists>ps n. removed = length ps \<and> collects C cutoff (cursor rb) 1024 ps \<and> uint n = uint (inboxBytes mb) - totalBytes ps
    \<and> counters s' = counters s \<and> bdb s' = (bdb s)\<lparr>bucketReceipts := Some (fold AList.delete (map fst ps) rb),
        bucketOrder := Some (fold AList.delete (map (order C \<circ> snd) ps) ob),
        bucketMeta := Some (AList.update keyInboxBytes (bePutUint64 n) mb)\<rparr>"
proof -
  have inv: "memInv (absB C s)" using assms(2) by (simp add: boltInv_def)
  have V: "memView (absB C s) = map_of (absR C rb)" "receipts (absB C s) = absR C rb" using b(1) by (simp_all add: memView_def absB_def)
  have d: "distinct (map fst rb)" using memInv_distinct [OF inv] V(2) by simp
  have small: "length (Payload r) < 2 ^ 63" if "(k, v) \<in> set rb" "unmarshalReceipt C v = Inr r" for k v r
  proof -
    have "memView (absB C s) k = Some r" using that map_of_is_SomeI [OF d] by (simp add: V(1) map_of_absR)
    from memInv_receipt [OF inv this] show ?thesis by (simp add: receiptOK_def maxInboxPayloadBytes_def)
  qed
  from assms(1) b obtain ids n sb sc where tx: "pruneScan C cutoff (cursor rb) [] (inboxBytes mb) s = (Inr (ids, n), sb)"
      "deleteAll ids sb = (Inr (), sc)" "putInboxBytes n sc = (Inr (), s')" "removed = length ids"
    by (auto simp: pruneTx_def ok_iff)
  from pruneScan_ok [OF tx(1)] small set_cursor [OF d] obtain ps where ps: "ids = map fst ps" "collects C cutoff (cursor rb) 1024 ps"
      "uint n = uint (inboxBytes mb) - totalBytes ps" "counters sb = counters s"
      "bdb sb = (bdb s)\<lparr>bucketOrder := map_option (fold AList.delete (map (order C \<circ> snd) ps)) (bucketOrder (bdb s))\<rparr>"
    by auto
  show ?thesis using ps deleteAll_ok [OF tx(2)] writeDB_ok [OF tx(3) [unfolded putInboxBytes_def putMeta_def]] tx(4) b
    by (intro exI [of _ ps] exI [of _ n]) simp
qed

lemma boltPrune_ok:
  assumes "boltPrune C now cutoff mx s = (Inr removed, s')"
  shows "\<exists>s0 s1 s2. untouched s s0 \<and> pruneTx C cutoff s0 = (Inr removed, s1) \<and> untouched s1 s2
    \<and> s' = s2\<lparr>blastGCNano := now - unixEpoch, bpruned := bpruned s2 + of_nat removed\<rparr>"
proof -
  from assms obtain sa where sa: "ctxFault s = (Inr (), sa)" by (auto simp: boltPrune_def ok_iff)
  obtain y s2 where y: "dbUpdate (pruneTx C cutoff) sa = (y, s2)" by fastforce
  have "y = Inr removed \<and> s' = s2\<lparr>blastGCNano := now - unixEpoch, bpruned := bpruned s2 + of_nat removed\<rparr>"
    using assms sa y by (cases y) (auto simp: boltPrune_def seqE_def bindE_def)
  with ctxFault_untouched [OF sa] y have "untouched s sa" "dbUpdate (pruneTx C cutoff) sa = (Inr removed, s2)"
      "s' = s2\<lparr>blastGCNano := now - unixEpoch, bpruned := bpruned s2 + of_nat removed\<rparr>" by auto
  moreover from dbUpdate_ok [OF this(2)] obtain s0 s1 where "untouched sa s0" "pruneTx C cutoff s0 = (Inr removed, s1)" "untouched s1 s2" by blast
  ultimately show ?thesis using untouched_trans by blast
qed

lemma memInv_lastGC [simp]: "memInv (m\<lparr>lastGC := t\<rparr>) = memInv m"
  by (simp add: memInv_def)

lemma prune_sim:
  assumes "codecOK C" "boltInv C s" "boltPrune C now cutoff mx s = (Inr removed, s')"
  shows "\<exists>ks. distinct ks \<and> set ks \<subseteq> set (keys (receipts (absB C s)))
    \<and> memPrune ks now cutoff mx (absB C s) = (Inr removed, (absB C s')\<lparr>lastGC := now\<rparr>) \<and> boltInv C s' \<and> removed \<le> 1024
    \<and> (removed < 1024 \<longrightarrow> (\<forall>k r. memView (absB C s) k = Some r \<and> prunable cutoff r \<longrightarrow> k \<in> set ks))"
proof -
  from boltPrune_ok [OF assms(3)] obtain s0 s1 s2 where q: "untouched s s0" "pruneTx C cutoff s0 = (Inr removed, s1)" "untouched s1 s2"
      "s' = s2\<lparr>blastGCNano := now - unixEpoch, bpruned := bpruned s2 + of_nat removed\<rparr>" by blast
  have abs0: "absB C s0 = absB C s" and inv: "boltInv C s0" using absB_untouched [OF q(1)] boltInv_untouched [OF q(1)] assms(2) by auto
  from inv obtain rb ob pb mb where b: "bucketReceipts (bdb s0) = Some rb" "bucketOrder (bdb s0) = Some ob" "bucketPending (bdb s0) = Some pb"
    "bucketMeta (bdb s0) = Some mb" "\<forall>(k, v) \<in> set rb. \<exists>r. unmarshalReceipt C v = Inr r"
    "indexes C (\<lambda>_. True) (memView (absB C s0)) ob" "indexes C unapplied (memView (absB C s0)) pb"
    "memInv (absB C s0)" "CMaxBytes (bcfg s0) < 2 ^ 63" "keyedV (memView (absB C s0))" by (rule boltInvE)
  let ?V = "memView (absB C s0)"
  have V: "?V = map_of (absR C rb)" "receipts (absB C s0) = absR C rb" "payloadBytes (absB C s0) = uint (inboxBytes mb)"
    using b(1,4) by (simp_all add: memView_def absB_def)
  have d: "distinct (map fst rb)" using memInv_distinct [OF b(8)] V(2) by simp
  from pruneTx_ok [OF q(2) inv b(1,2,4)] obtain ps n where ps: "removed = length ps" "collects C cutoff (cursor rb) 1024 ps"
      "uint n = uint (inboxBytes mb) - totalBytes ps" "counters s1 = counters s0"
      "bdb s1 = (bdb s0)\<lparr>bucketReceipts := Some (fold AList.delete (map fst ps) rb),
        bucketOrder := Some (fold AList.delete (map (order C \<circ> snd) ps) ob),
        bucketMeta := Some (AList.update keyInboxBytes (bePutUint64 n) mb)\<rparr>" by blast
  note c = collects_view [OF ps(2) d b(5)]
  have same: "bdb s' = bdb s1" "counters s2 = counters s0" using q(3,4) ps(4) by (simp_all add: untouched_def)
  have mem: "memPrune (map fst ps) now cutoff mx (absB C s0) = (Inr removed, (absB C s')\<lparr>lastGC := now\<rparr>)"
    using pruneLoop_all [OF c(1,2), of "payloadBytes (absB C s0)" 0] V(2,3) counters_eqD [OF same(2)] same(1) ps q(4)
    by (simp add: memPrune_def getS_def seqE_def bindE_def modify_def ret_def absB_def absR_fold_delete inboxBytes_put)
  have inv': "memInv (absB C s')" using memPrune_cases [OF b(8) c(2) mem] by (simp add: memInv_lastGC)
  have view': "memView (absB C s') = (\<lambda>k. if k \<in> fst ` set ps then None else ?V k)"
    using same(1) ps(5) unfolding V(1) by (simp add: memView_def absB_def absR_fold_delete map_of_fold_delete)
  have psV: "\<forall>(k, r) \<in> set ps. ?V k = Some r" using c(1) V(1) by auto
  have ob: "indexes C (\<lambda>_. True) (memView (absB C s')) (fold AList.delete (map (order C \<circ> snd) ps) ob)"
    unfolding view' by (rule indexes_fold [OF b(6,10) assms(1) psV c(2)])
  have pb: "indexes C unapplied (memView (absB C s')) pb"
    unfolding view'
  proof (rule indexes_keep [OF b(7)])
    fix k r assume "k \<in> fst ` set ps" "?V k = Some r"
    then show "\<not> unapplied r" using c(1) V(1) by (force simp: prunable_def unapplied_def)
  qed
  have dec: "\<forall>(k, v) \<in> set (fold AList.delete (map fst ps) rb). \<exists>r. unmarshalReceipt C v = Inr r"
    using b(5) set_fold_delete [of "map fst ps" rb] by blast
  have cfg: "bcfg s' = bcfg s0" using counters_eqD [OF same(2)] q(4) by simp
  have "boltInv C s'" unfolding boltInv_def using inv' ob pb same(1) ps(5) b(3,9) dec cfg by simp
  moreover have "set (map fst ps) \<subseteq> set (keys (receipts (absB C s0)))"
  proof
    fix k assume "k \<in> set (map fst ps)"
    then obtain r where "map_of (absR C rb) k = Some r" using c(1) by auto
    then show "k \<in> set (keys (receipts (absB C s0)))" unfolding V(2) by (metis map_of_SomeD fst_conv image_eqI set_map)
  qed
  ultimately show ?thesis using mem c(2-4) unfolding abs0 ps(1) V(1) [unfolded abs0] by blast
qed

end
