(* ===== verification/BoltOpen.thy ===== *)
theory BoltOpen
  imports BoltScan
begin

text \<open>
  Opening a bbolt inbox: a database of an earlier layout, without the index buckets or the byte counter,
  is completed from its receipts in one transaction.
\<close>

section \<open>Building an index\<close>

abbreviation decoding :: "'v Codec \<Rightarrow> 'v \<Rightarrow> Receipt" where
  "decoding C v \<equiv> projr (unmarshalReceipt C v)"

text \<open>The index that inserting the receipts \<open>es\<close> with \<open>P\<close> one by one gives.\<close>

definition indexing :: "'v Codec \<Rightarrow> (Receipt \<Rightarrow> bool) \<Rightarrow> (string \<times> 'v) list \<Rightarrow> (string \<times> string) list \<Rightarrow> (string \<times> string) list" where
  "indexing C P es b = fold (\<lambda>(k, v) b. if P (decoding C v) then AList.update (order C (decoding C v)) k b else b) es b"

lemma indexing_simps [simp]:
  "indexing C P [] b = b"
  "indexing C P ((k, v) # es) b = indexing C P es (if P (decoding C v) then AList.update (order C (decoding C v)) k b else b)"
  by (simp_all add: indexing_def)

lemma buildOrder_ok:
  assumes "buildOrder C es s = (Inr u, s')"
  shows "counters s' = counters s \<and> bdb s' = (bdb s)\<lparr>bucketOrder := map_option (indexing C (\<lambda>_. True) es) (bucketOrder (bdb s))\<rparr>"
  using assms
proof (induction C es arbitrary: s rule: buildOrder.induct)
  case (1 C)
  then show ?case by (simp add: ok_iff indexing_def option.map_id option.map_ident)
next
  case (2 C k v es)
  from 2(2) obtain r s1 where r: "unmarshalReceipt C v = Inr r" "putOrder (order C r) k s = (Inr (), s1)" "buildOrder C es s1 = (Inr u, s')"
    by (auto simp: ok_iff)
  from 2(1) [OF r(3)] writeDB_ok [OF r(2) [unfolded putOrder_def]] r(1) show ?case by (simp add: option.map_comp comp_def)
qed

lemma buildPending_ok:
  assumes "buildPending C es s = (Inr u, s')"
  shows "counters s' = counters s \<and> bdb s' = (bdb s)\<lparr>bucketPending := map_option (indexing C unapplied es) (bucketPending (bdb s))\<rparr>"
  using assms
proof (induction C es arbitrary: s rule: buildPending.induct)
  case (1 C)
  then show ?case by (simp add: ok_iff indexing_def option.map_id option.map_ident)
next
  case (2 C k v es)
  from 2(2) obtain r s1 where r: "unmarshalReceipt C v = Inr r"
      "(if State r \<noteq> ReceiptApplied then putPending (order C r) k else ret ()) s = (Inr (), s1)" "buildPending C es s1 = (Inr u, s')"
    by (auto simp: ok_iff)
  show ?case
  proof (cases "unapplied r")
    case True
    with r(2) have "putPending (order C r) k s = (Inr (), s1)" by (simp add: unapplied_def)
    from 2(1) [OF r(3)] writeDB_ok [OF this [unfolded putPending_def]] r(1) True show ?thesis by (simp add: option.map_comp comp_def)
  next
    case False
    with r(2) have "s1 = s" by (simp add: unapplied_def ok_iff)
    with 2(1) [OF r(3)] r(1) False show ?thesis by simp
  qed
qed

lemma indexes_indexing:
  assumes "indexes C P V b" "keyedV V" "codecOK C" "distinct (map fst es)"
    "\<And>k v. (k, v) \<in> set es \<Longrightarrow> Identity (decoding C v) = k \<and> V k = None"
  shows "indexes C P (\<lambda>k. case map_of es k of Some v \<Rightarrow> Some (decoding C v) | None \<Rightarrow> V k) (indexing C P es b)"
  using assms
proof (induction es arbitrary: V b)
  case (Cons e es)
  obtain k v where e: "e = (k, v)" by fastforce
  let ?r = "decoding C v" and ?V = "V(k \<mapsto> decoding C v)"
  have k: "Identity ?r = k" "V k = None" using Cons.prems(5) [of k v] e by auto
  have i: "indexes C P ?V (if P ?r then AList.update (order C ?r) k b else b)"
    using indexes_add [OF Cons.prems(1-3) k(2) k(1)] indexes_skip [OF Cons.prems(1) k(2)] by simp
  have kv: "keyedV ?V" using Cons.prems(2) k by (auto simp: keyedV_def)
  have d: "distinct (map fst es)" and new: "k \<notin> fst ` set es" using Cons.prems(4) e by auto
  have rest: "Identity (decoding C v') = k' \<and> ?V k' = None" if "(k', v') \<in> set es" for k' v'
    using Cons.prems(5) [of k' v'] that new by force
  have "map_of es k = None" using new by (simp add: map_of_eq_None_iff)
  then have "(\<lambda>j. case map_of es j of Some v \<Rightarrow> Some (decoding C v) | None \<Rightarrow> ?V j)
      = (\<lambda>j. case map_of (e # es) j of Some v \<Rightarrow> Some (decoding C v) | None \<Rightarrow> V j)"
    using e by (auto split: option.splits)
  with Cons.IH [OF i kv Cons.prems(3) d rest] e show ?case by simp
qed simp

lemma indexes_rebuilt:
  assumes "codecOK C" "distinct (map fst rb)" "\<And>k v. (k, v) \<in> set rb \<Longrightarrow> Identity (decoding C v) = k"
  shows "indexes C P (map_of (absR C rb)) (indexing C P (cursor rb) [])"
proof -
  have "(\<lambda>k. case map_of (cursor rb) k of Some v \<Rightarrow> Some (decoding C v) | None \<Rightarrow> None) = map_of (absR C rb)"
    by (auto simp: map_of_cursor [OF assms(2)] map_of_absR split: option.split)
  moreover have "indexes C P (\<lambda>k. case map_of (cursor rb) k of Some v \<Rightarrow> Some (decoding C v) | None \<Rightarrow> Map.empty k) (indexing C P (cursor rb) [])"
    by (rule indexes_indexing [OF _ _ assms(1)]) (use assms(2,3) set_cursor [OF assms(2)] in \<open>auto simp: indexes_def keyedV_def\<close>)
  ultimately show ?thesis by simp
qed

section \<open>The byte counter\<close>

lemma sumBytes_ok:
  assumes "sumBytes C n es s = (Inr m, s')" "\<And>k v. (k, v) \<in> set es \<Longrightarrow> length (Payload (decoding C v)) < 2 ^ 63"
  shows "s' = s \<and> uint m = uint n + totalBytes (absR C es)"
  using assms
proof (induction C n es arbitrary: s rule: sumBytes.induct)
  case (1 C n)
  then show ?case by (simp add: ok_iff absR_def)
next
  case (2 C n k v es)
  let ?p = "of_nat (length (Payload (decoding C v))) :: 64 word"
  from 2(2) obtain r where r: "unmarshalReceipt C v = Inr r" by (auto simp: ok_iff)
  with 2(2) have run: "\<not> ?p > - 1 - n" "sumBytes C (n + ?p) es s = (Inr m, s')" by (auto simp: ok_iff Let_def split: if_splits)
  have p: "uint ?p = int (length (Payload r))" using 2(3) [of k v] r by (simp add: uint_nat unat_of_nat)
  have "uint ?p \<le> 2 ^ 64 - 1 - uint n"
  proof -
    have "uint (- 1 - n) = 2 ^ 64 - 1 - uint n" using uint_lt2p [of n] by (simp add: uint_sub_if' unsigned_minus_1_eq_mask mask_eq_exp_minus_1)
    with run(1) show ?thesis by (simp add: word_less_def not_less)
  qed
  then have "uint (n + ?p) = uint n + int (length (Payload r))" using p by (simp add: uint_plus_if')
  moreover have "s' = s \<and> uint m = uint (n + ?p) + totalBytes (absR C es)"
    using 2(1) [of ?p, OF refl] run r 2(3) by auto
  ultimately show ?case using r by (simp add: absR_def)
qed

lemma totalBytes_set: "distinct rs \<Longrightarrow> totalBytes rs = (\<Sum>(k, r) \<in> set rs. int (length (Payload r)))"
  by (simp add: totalBytes_def sum_list_distinct_conv_sum_set)

lemma totalBytes_cursor:
  assumes "distinct (map fst rb)"
  shows "totalBytes (absR C (cursor rb)) = totalBytes (absR C rb)"
proof -
  have "distinct (absR C rb)" "distinct (absR C (cursor rb))"
    using assms by (metis keys_absR distinct_map, metis fst_cursor keys_absR distinct_map distinct_sort)
  moreover have "set (absR C (cursor rb)) = set (absR C rb)" using set_cursor [OF assms] by (simp add: absR_def)
  ultimately show ?thesis by (simp add: totalBytes_set)
qed

section \<open>Opening\<close>

definition receiptsIn :: "'v boltDB \<Rightarrow> (string \<times> 'v) list" where
  "receiptsIn db = (case bucketReceipts db of None \<Rightarrow> [] | Some rb \<Rightarrow> rb)"

text \<open>A database an earlier run may have left: sound receipts within the limits, and what there is of the
  indexes, the schema version and the byte counter is right.\<close>

definition openable :: "'v Codec \<Rightarrow> InboxConfig \<Rightarrow> 'v boltDB \<Rightarrow> bool" where
  "openable C cfg db \<longleftrightarrow> distinct (map fst (receiptsIn db))
     \<and> (\<forall>(k, v) \<in> set (receiptsIn db). \<exists>r. unmarshalReceipt C v = Inr r \<and> receiptOK k r)
     \<and> totalBytes (absR C (receiptsIn db)) \<le> CMaxBytes (normalized cfg) \<and> CMaxBytes (normalized cfg) < 2 ^ 63
     \<and> int (length (receiptsIn db)) \<le> CMaxRecords (normalized cfg)
     \<and> (\<forall>ob. bucketOrder db = Some ob \<longrightarrow> indexes C (\<lambda>_. True) (map_of (absR C (receiptsIn db))) ob)
     \<and> (\<forall>pb. bucketPending db = Some pb \<longrightarrow> indexes C unapplied (map_of (absR C (receiptsIn db))) pb)
     \<and> (\<forall>mb. bucketMeta db = Some mb \<longrightarrow> map_of mb keyInboxSchema \<in> {None, Some (bytesOf ''1'')}
          \<and> (map_of mb keyInboxBytes \<noteq> None \<longrightarrow> uint (inboxBytes mb) = totalBytes (absR C (receiptsIn db))))"

lemma ensureReceipts_ok:
  assumes "ensureReceipts s = (Inr u, s')"
  shows "counters s' = counters s \<and> bdb s' = (bdb s)\<lparr>bucketReceipts := Some (receiptsIn (bdb s))\<rparr>"
proof (cases "bucketReceipts (bdb s)")
  case None
  with assms show ?thesis by (auto simp: ensureReceipts_def ok_iff receiptsIn_def dest!: writeDB_ok)
next
  case (Some rb)
  with assms show ?thesis by (simp add: ensureReceipts_def ok_iff receiptsIn_def)
qed

lemma ensureOrder_ok:
  assumes "ensureOrder C s = (Inr u, s')" "bucketReceipts (bdb s) = Some rb"
  shows "counters s' = counters s \<and> bdb s' = (bdb s)\<lparr>bucketOrder :=
     Some (case bucketOrder (bdb s) of None \<Rightarrow> indexing C (\<lambda>_. True) (cursor rb) [] | Some ob \<Rightarrow> ob)\<rparr>"
proof (cases "bucketOrder (bdb s)")
  case None
  with assms(1) obtain s1 rb1 where w: "writeDB (\<lambda>d. d\<lparr>bucketOrder := Some []\<rparr>) s = (Inr (), s1)"
      "bucketReceipts (bdb s1) = Some rb1" "buildOrder C (cursor rb1) s1 = (Inr u, s')"
    by (auto simp: ensureOrder_def ok_iff)
  with writeDB_ok [OF w(1)] buildOrder_ok [OF w(3)] assms(2) None show ?thesis by simp
next
  case (Some ob)
  with assms show ?thesis by (simp add: ensureOrder_def ok_iff)
qed

lemma ensurePending_ok:
  assumes "ensurePending C s = (Inr u, s')" "bucketReceipts (bdb s) = Some rb"
  shows "counters s' = counters s \<and> bdb s' = (bdb s)\<lparr>bucketPending :=
     Some (case bucketPending (bdb s) of None \<Rightarrow> indexing C unapplied (cursor rb) [] | Some pb \<Rightarrow> pb)\<rparr>"
proof (cases "bucketPending (bdb s)")
  case None
  with assms(1) obtain s1 rb1 where w: "writeDB (\<lambda>d. d\<lparr>bucketPending := Some []\<rparr>) s = (Inr (), s1)"
      "bucketReceipts (bdb s1) = Some rb1" "buildPending C (cursor rb1) s1 = (Inr u, s')"
    by (auto simp: ensurePending_def ok_iff)
  with writeDB_ok [OF w(1)] buildPending_ok [OF w(3)] assms(2) None show ?thesis by simp
next
  case (Some ob)
  with assms show ?thesis by (simp add: ensurePending_def ok_iff)
qed

lemma inboxBytes_schema [simp]: "inboxBytes (AList.update keyInboxSchema v mb) = inboxBytes mb"
  by (simp add: inboxBytes_def update_conv' keyInboxSchema_def keyInboxBytes_def)

lemma ensureMeta_ok:
  assumes "ensureMeta C s = (Inr u, s')" "bucketReceipts (bdb s) = Some rb" "distinct (map fst rb)"
    "\<And>k v. (k, v) \<in> set rb \<Longrightarrow> length (Payload (decoding C v)) < 2 ^ 63"
    "\<And>mb. bucketMeta (bdb s) = Some mb \<Longrightarrow> map_of mb keyInboxBytes \<noteq> None \<Longrightarrow> uint (inboxBytes mb) = totalBytes (absR C rb)"
  shows "counters s' = counters s \<and> (\<exists>mb. bdb s' = (bdb s)\<lparr>bucketMeta := Some mb\<rparr> \<and> uint (inboxBytes mb) = totalBytes (absR C rb))"
proof -
  let ?mb = "case bucketMeta (bdb s) of None \<Rightarrow> [] | Some mb \<Rightarrow> mb"
  from assms(1) obtain s1 meta where s1: "(if bucketMeta (bdb s) = None then writeDB (\<lambda>d. d\<lparr>bucketMeta := Some []\<rparr>) else ret ()) s = (Inr (), s1)"
      "bucketMeta (bdb s1) = Some meta"
    and run: "seqE (if map_of meta keyInboxBytes = None
                  then withBucket bucketReceipts (\<lambda>rb. bindE (sumBytes C 0 (cursor rb)) putInboxBytes) else ret ())
              (putMeta keyInboxSchema (bytesOf ''1'')) s1 = (Inr u, s')"
    by (auto simp: ensureMeta_def ok_iff split: if_splits)
  have eq1: "counters s1 = counters s" "bdb s1 = (bdb s)\<lparr>bucketMeta := Some ?mb\<rparr>"
    using s1(1) by (cases "bucketMeta (bdb s)"; auto simp: ok_iff dest!: writeDB_ok)+
  then have meta: "meta = ?mb" using s1(2) by simp
  from run obtain s2 where s2: "(if map_of meta keyInboxBytes = None
                  then withBucket bucketReceipts (\<lambda>rb. bindE (sumBytes C 0 (cursor rb)) putInboxBytes) else ret ()) s1 = (Inr (), s2)"
      "putMeta keyInboxSchema (bytesOf ''1'') s2 = (Inr u, s')" by (auto simp: ok_iff)
  have "counters s2 = counters s \<and> (\<exists>mb. bdb s2 = (bdb s)\<lparr>bucketMeta := Some mb\<rparr> \<and> uint (inboxBytes mb) = totalBytes (absR C rb))"
  proof (cases "map_of meta keyInboxBytes")
    case None
    with s2(1) eq1 assms(2) obtain n s3 where n: "sumBytes C 0 (cursor rb) s1 = (Inr n, s3)" "putInboxBytes n s3 = (Inr (), s2)"
      by (auto simp: ok_iff)
    have "s3 = s1 \<and> uint n = totalBytes (absR C rb)"
      using sumBytes_ok [OF n(1)] assms(4) set_cursor [OF assms(3)] totalBytes_cursor [OF assms(3), of C] by auto
    with writeDB_ok [OF n(2) [unfolded putInboxBytes_def putMeta_def]] eq1 show ?thesis by (auto simp: inboxBytes_put)
  next
    case (Some v)
    then have "bucketMeta (bdb s) = Some meta" using meta by (simp split: option.splits)
    moreover have "s2 = s1" using s2(1) Some by (simp add: ok_iff)
    ultimately show ?thesis using assms(5) [of meta] Some eq1 by (intro conjI exI [of _ meta]) simp_all
  qed
  with writeDB_ok [OF s2(2) [unfolded putMeta_def]] show ?thesis by auto
qed

lemma initialize_ok:
  assumes "initialize C s = (Inr u, s')" "codecOK C" "openable C cfg (bdb s)" "bcfg s = normalized cfg"
  shows "counters s' = counters s \<and> boltInv C s' \<and> bucketReceipts (bdb s') = Some (receiptsIn (bdb s))"
proof -
  let ?rb = "receiptsIn (bdb s)"
  from assms(1) obtain s1 s2 s3 where st: "ensureReceipts s = (Inr (), s1)" "ensureOrder C s1 = (Inr (), s2)" "ensurePending C s2 = (Inr (), s3)"
      "ensureMeta C s3 = (Inr u, s')" by (auto simp: initialize_def ok_iff)
  note o = assms(3) [unfolded openable_def]
  have dec: "\<exists>r. unmarshalReceipt C v = Inr r \<and> receiptOK k r" if "(k, v) \<in> set ?rb" for k v
    using o that by auto
  then have small: "length (Payload (decoding C v)) < 2 ^ 63" "Identity (decoding C v) = k" if "(k, v) \<in> set ?rb" for k v
    using that by (fastforce simp: receiptOK_def maxInboxPayloadBytes_def)+
  have d: "distinct (map fst ?rb)" using o by blast
  note e1 = ensureReceipts_ok [OF st(1)]
  then have rb1: "bucketReceipts (bdb s1) = Some ?rb" by simp
  note e2 = ensureOrder_ok [OF st(2) rb1]
  with rb1 have rb2: "bucketReceipts (bdb s2) = Some ?rb" by simp
  note e3 = ensurePending_ok [OF st(3) rb2]
  with rb2 have rb3: "bucketReceipts (bdb s3) = Some ?rb" by simp
  have "bucketMeta (bdb s3) = bucketMeta (bdb s)" using e1 e2 e3 by simp
  then have bytes: "uint (inboxBytes mb) = totalBytes (absR C ?rb)" if "bucketMeta (bdb s3) = Some mb" "map_of mb keyInboxBytes \<noteq> None" for mb
    using that o by metis
  have "counters s' = counters s3 \<and> (\<exists>mb. bdb s' = (bdb s3)\<lparr>bucketMeta := Some mb\<rparr> \<and> uint (inboxBytes mb) = totalBytes (absR C ?rb))"
    by (rule ensureMeta_ok [OF st(4) rb3 d]) (fact small(1), fact bytes)
  then obtain mb where
    e4: "counters s' = counters s3" "bdb s' = (bdb s3)\<lparr>bucketMeta := Some mb\<rparr>" "uint (inboxBytes mb) = totalBytes (absR C ?rb)"
    by blast
  have rb': "bucketReceipts (bdb s') = Some ?rb" using e4 rb3 by simp
  have cs: "counters s' = counters s" using e1 e2 e3 e4(1) by simp
  have abs: "receipts (absB C s') = absR C ?rb" "payloadBytes (absB C s') = totalBytes (absR C ?rb)" "mcfg (absB C s') = normalized cfg"
    "memView (absB C s') = map_of (absR C ?rb)"
    using rb' e4 counters_eqD [OF cs] assms(4) by (simp_all add: absB_def memView_def)
  have ok: "receiptOK k r" if "map_of (absR C ?rb) k = Some r" for k r
    using that dec by (fastforce simp: map_of_absR dest: map_of_SomeD)
  have "memInv (absB C s')" unfolding memInv_def abs using o d ok by simp
  moreover have "indexes C P (map_of (absR C ?rb)) (case b of None \<Rightarrow> indexing C P (cursor ?rb) [] | Some x \<Rightarrow> x)"
    if "\<And>x. b = Some x \<Longrightarrow> indexes C P (map_of (absR C ?rb)) x" for b P
    using that indexes_rebuilt [OF assms(2) d small(2)] by (simp split: option.split)
  ultimately have "boltInv C s'" unfolding boltInv_def abs(4)
    using rb' e1 e2 e3 e4 o counters_eqD [OF cs] assms(4) dec by fastforce
  with cs rb' show ?thesis by blast
qed

section \<open>Progress\<close>

text \<open>Without faults and with readable receipts, nothing stops the initialization.\<close>

abbreviation noFault :: "'v boltInbox \<Rightarrow> bool" where
  "noFault s \<equiv> True \<notin> set (bfaults s)"

definition completes :: "('v, unit) bolt_act \<Rightarrow> 'v boltInbox \<Rightarrow> bool" where
  "completes m s \<longleftrightarrow> (\<exists>s'. m s = (Inr (), s') \<and> noFault s')"

lemma completes_seq: "completes m s \<Longrightarrow> (\<And>s'. m s = (Inr (), s') \<Longrightarrow> noFault s' \<Longrightarrow> completes k s') \<Longrightarrow> completes (seqE m k) s"
  by (auto simp: completes_def ok_iff)

lemma completes_basic [simp]:
  "completes (ret ()) s \<longleftrightarrow> noFault s" "noFault s \<Longrightarrow> completes (writeDB f) s" "noFault s \<Longrightarrow> completes dbFault s"
  by (auto simp: completes_def ret_def writeDB_def dbFault_def faulty_def seqE_def bindE_def modify_def split: list.splits)

lemma completes_put [simp]:
  "noFault s \<Longrightarrow> completes (putOrder k v) s" "noFault s \<Longrightarrow> completes (putPending k v) s" "noFault s \<Longrightarrow> completes (putMeta k b) s"
  by (simp_all add: putOrder_def putPending_def putMeta_def)

lemma completes_build:
  assumes "noFault s" "\<forall>(k, v) \<in> set es. \<exists>r. unmarshalReceipt C v = Inr r"
  shows "completes (buildOrder C es) s \<and> completes (buildPending C es) s"
  using assms
proof (induction es arbitrary: s)
  case (Cons e es)
  obtain k v where e: "e = (k, v)" by fastforce
  with Cons.prems obtain r where r: "unmarshalReceipt C v = Inr r" by auto
  have rest: "completes (buildOrder C es) s' \<and> completes (buildPending C es) s'" if "noFault s'" for s'
    using Cons.IH [OF that] Cons.prems by simp
  have "completes (seqE (putOrder (order C r) k) (buildOrder C es)) s"
    by (rule completes_seq) (use Cons.prems(1) rest in auto)
  moreover have "completes (seqE (if State r \<noteq> ReceiptApplied then putPending (order C r) k else ret ()) (buildPending C es)) s"
    by (rule completes_seq) (use Cons.prems(1) rest in auto)
  ultimately show ?case using e r by (simp add: completes_def bindE_def decode_def ret_def)
qed simp

lemma sumBytes_completes:
  assumes "\<forall>(k, v) \<in> set es. \<exists>r. unmarshalReceipt C v = Inr r" "\<And>k v. (k, v) \<in> set es \<Longrightarrow> length (Payload (decoding C v)) < 2 ^ 63"
    "uint n + totalBytes (absR C es) < 2 ^ 64"
  shows "\<exists>m. sumBytes C n es s = (Inr m, s)"
  using assms
proof (induction es arbitrary: n)
  case (Cons e es)
  obtain k v where e: "e = (k, v)" by fastforce
  with Cons.prems obtain r where r: "unmarshalReceipt C v = Inr r" by auto
  let ?p = "of_nat (length (Payload r)) :: 64 word"
  have p: "uint ?p = int (length (Payload r))" using Cons.prems(2) [of k v] e r by (simp add: uint_nat unat_of_nat)
  have le: "uint n + int (length (Payload r)) + totalBytes (absR C es) < 2 ^ 64" using Cons.prems(3) e r by (simp add: absR_def)
  have nn: "0 \<le> totalBytes (absR C es)" by (auto simp: totalBytes_def intro!: sum_list_nonneg)
  have "\<not> ?p > - 1 - n"
    using le nn p by (simp add: word_less_def uint_sub_if' unsigned_minus_1_eq_mask mask_eq_exp_minus_1)
  moreover have "uint (n + ?p) = uint n + int (length (Payload r))" using p le nn by (simp add: uint_plus_if')
  moreover have "length (Payload (decoding C v')) < 2 ^ 63" if "(k', v') \<in> set es" for k' v'
    using Cons.prems(2) [of k' v'] that by simp
  ultimately have "\<exists>m. sumBytes C (n + ?p) es s = (Inr m, s)"
    using Cons.IH [of "n + ?p"] Cons.prems(1) le by simp
  with \<open>\<not> ?p > - 1 - n\<close> e r show ?case by (simp add: bindE_def decode_def ret_def Let_def)
qed (simp add: ret_def)

lemma ensure_completes:
  assumes "noFault s" "bucketReceipts (bdb s) = Some rb" "distinct (map fst rb)" "\<forall>(k, v) \<in> set rb. \<exists>r. unmarshalReceipt C v = Inr r"
  shows "completes (ensureOrder C) s" "completes (ensurePending C) s"
proof -
  have es: "\<forall>(k, v) \<in> set (cursor rb). \<exists>r. unmarshalReceipt C v = Inr r" using assms(4) set_cursor [OF assms(3)] by simp
  have build: "completes (withBucket bucketReceipts (\<lambda>rb. buildOrder C (cursor rb))) s'"
    "completes (withBucket bucketReceipts (\<lambda>rb. buildPending C (cursor rb))) s'" if "noFault s'" "bucketReceipts (bdb s') = Some rb" for s'
    using completes_build [OF that(1) es] that(2) by (simp_all add: completes_def withBucket_def getS_def)
  have "completes (seqE (writeDB (\<lambda>d. d\<lparr>bucketOrder := Some []\<rparr>)) (withBucket bucketReceipts (\<lambda>rb. buildOrder C (cursor rb)))) s"
    using assms(1,2) build(1) by (intro completes_seq) (auto dest: writeDB_ok)
  then show "completes (ensureOrder C) s" using assms(1) by (simp add: ensureOrder_def completes_def getS_def ret_def)
  have "completes (seqE (writeDB (\<lambda>d. d\<lparr>bucketPending := Some []\<rparr>)) (withBucket bucketReceipts (\<lambda>rb. buildPending C (cursor rb)))) s"
    using assms(1,2) build(2) by (intro completes_seq) (auto dest: writeDB_ok)
  then show "completes (ensurePending C) s" using assms(1) by (simp add: ensurePending_def completes_def getS_def ret_def)
qed

lemma ensureMeta_completes:
  assumes "noFault s" "bucketReceipts (bdb s) = Some rb" "distinct (map fst rb)" "\<forall>(k, v) \<in> set rb. \<exists>r. unmarshalReceipt C v = Inr r"
    "\<And>k v. (k, v) \<in> set rb \<Longrightarrow> length (Payload (decoding C v)) < 2 ^ 63" "totalBytes (absR C rb) < 2 ^ 64"
    "\<And>mb. bucketMeta (bdb s) = Some mb \<Longrightarrow> map_of mb keyInboxSchema \<in> {None, Some (bytesOf ''1'')}"
  shows "completes (ensureMeta C) s"
proof -
  note c = set_cursor [OF assms(3)]
  have es: "\<forall>(k, v) \<in> set (cursor rb). \<exists>r. unmarshalReceipt C v = Inr r" using assms(4) c by simp
  have small: "length (Payload (decoding C v)) < 2 ^ 63" if "(k, v) \<in> set (cursor rb)" for k v using assms(5) that c by auto
  have sum: "completes (withBucket bucketReceipts (\<lambda>rb. bindE (sumBytes C 0 (cursor rb)) putInboxBytes)) s'"
    if s': "noFault s'" "bucketReceipts (bdb s') = Some rb" for s'
  proof -
    have "\<exists>m. sumBytes C 0 (cursor rb) s' = (Inr m, s')"
      by (rule sumBytes_completes [OF es]) (use small assms(6) totalBytes_cursor [OF assms(3), of C] in auto)
    then obtain m where "sumBytes C 0 (cursor rb) s' = (Inr m, s')" by blast
    then show ?thesis using s' completes_put(3) [OF s'(1), of keyInboxBytes "bePutUint64 m"]
      by (simp add: completes_def withBucket_def getS_def bindE_def putInboxBytes_def)
  qed
  let ?first = "getS (\<lambda>s. if bucketMeta (bdb s) = None then writeDB (\<lambda>d. d\<lparr>bucketMeta := Some []\<rparr>) else ret ()) :: ('v, unit) bolt_act"
  have first: "completes ?first s" using assms(1) completes_basic(2) [OF assms(1)] by (simp add: completes_def getS_def ret_def)
  show ?thesis unfolding ensureMeta_def
  proof (rule completes_seq [OF first])
    fix s1 assume run: "?first s = (Inr (), s1)" and f1: "noFault s1"
    have b1: "bdb s1 = (bdb s)\<lparr>bucketMeta := Some (case bucketMeta (bdb s) of None \<Rightarrow> [] | Some mb \<Rightarrow> mb)\<rparr>"
      using run by (cases "bucketMeta (bdb s)") (auto simp: ok_iff dest!: writeDB_ok)
    let ?meta = "case bucketMeta (bdb s) of None \<Rightarrow> [] | Some mb \<Rightarrow> mb"
    have schema: "map_of ?meta keyInboxSchema \<in> {None, Some (bytesOf ''1'')}" using assms(7) by (auto split: option.split)
    have "completes (seqE (if map_of ?meta keyInboxBytes = None
        then withBucket bucketReceipts (\<lambda>rb. bindE (sumBytes C 0 (cursor rb)) putInboxBytes) else ret ())
        (putMeta keyInboxSchema (bytesOf ''1''))) s1"
      using f1 sum [OF f1] b1 assms(2) by (intro completes_seq) auto
    then show "completes (withBucket bucketMeta (\<lambda>meta.
       if map_of meta keyInboxSchema \<noteq> None \<and> map_of meta keyInboxSchema \<noteq> Some (bytesOf ''1'')
       then throw (ErrBackend (Plain ''unsupported ingest inbox schema''))
       else seqE (if map_of meta keyInboxBytes = None
                  then withBucket bucketReceipts (\<lambda>rb. bindE (sumBytes C 0 (cursor rb)) putInboxBytes) else ret ())
              (putMeta keyInboxSchema (bytesOf ''1'')))) s1"
      using b1 schema by (auto simp: completes_def withBucket_def getS_def)
  qed
qed

lemma initialize_completes:
  assumes "openable C cfg (bdb s)" "noFault s"
  shows "completes (initialize C) s"
proof -
  let ?rb = "receiptsIn (bdb s)"
  note o = assms(1) [unfolded openable_def]
  have d: "distinct (map fst ?rb)" and total: "totalBytes (absR C ?rb) < 2 ^ 64" using o by auto
  have dec: "\<forall>(k, v) \<in> set ?rb. \<exists>r. unmarshalReceipt C v = Inr r" using o by blast
  have small: "length (Payload (decoding C v)) < 2 ^ 63" if "(k, v) \<in> set ?rb" for k v
    using o that by (fastforce simp: receiptOK_def maxInboxPayloadBytes_def)
  have meta: "map_of mb keyInboxSchema \<in> {None, Some (bytesOf ''1'')}" if "bucketMeta (bdb s) = Some mb" for mb using o that by blast
  have "completes ensureReceipts s" using assms(2) completes_basic(2) [OF assms(2)] by (simp add: ensureReceipts_def completes_def getS_def ret_def)
  then show ?thesis unfolding initialize_def
  proof (rule completes_seq, intro completes_seq)
    fix s1 assume r1: "ensureReceipts s = (Inr (), s1)" "noFault s1"
    note b1 = ensureReceipts_ok [OF r1(1)]
    then show "completes (ensureOrder C) s1" using ensure_completes(1) [OF r1(2) _ d dec] by simp
    fix s2 assume r2: "ensureOrder C s1 = (Inr (), s2)" "noFault s2"
    note b2 = ensureOrder_ok [OF r2(1)]
    have rb2: "bucketReceipts (bdb s2) = Some ?rb" using b1 b2 [of ?rb] by simp
    then show "completes (ensurePending C) s2" using ensure_completes(2) [OF r2(2) _ d dec] by simp
    fix s3 assume r3: "ensurePending C s2 = (Inr (), s3)" "noFault s3"
    note b3 = ensurePending_ok [OF r3(1) rb2]
    have "bucketReceipts (bdb s3) = Some ?rb" "bucketMeta (bdb s3) = bucketMeta (bdb s)" using b1 b2 [of ?rb] b3 rb2 by simp_all
    then show "completes (ensureMeta C) s3" using meta by (intro ensureMeta_completes [OF r3(2) _ d dec small total]) auto
  qed
qed

end
