(* ===== verification/BoltErrors.thy ===== *)
theory BoltErrors
  imports BoltRefine
begin

text \<open>
  When an operation of the bbolt inbox fails with an error of the domain, the in-memory inbox fails with the
  same error.
\<close>

section \<open>Errors of the domain\<close>

text \<open>Errors that say something about the receipt, as opposed to a failure of the backend.\<close>

fun domainErr :: "inbox_error \<Rightarrow> bool" where
  "domainErr (ErrBackend g) = False"
| "domainErr e = True"

named_theorems err_iff "when a computation fails with an error of the domain"

lemma bind_err [err_iff]:
  "bindE m f s = (Inl e, s') \<longleftrightarrow> m s = (Inl e, s') \<or> (\<exists>y s1. m s = (Inr y, s1) \<and> f y s1 = (Inl e, s'))"
  by (auto simp: bindE_def split: prod.splits sum.splits)

lemma seq_err [err_iff]:
  "seqE m k s = (Inl e, s') \<longleftrightarrow> m s = (Inl e, s') \<or> (\<exists>y s1. m s = (Inr y, s1) \<and> k s1 = (Inl e, s'))"
  by (simp add: seqE_def bind_err)

lemma basic_err [err_iff]:
  "ret x s = (Inl e, s') \<longleftrightarrow> False" "throw e' s = (Inl e, s') \<longleftrightarrow> e' = e \<and> s' = s" "modify g s = (Inl e, s') \<longleftrightarrow> False"
  "getS h s = (Inl e, s') \<longleftrightarrow> h s s = (Inl e, s')"
  by (auto simp: ret_def throw_def modify_def getS_def)

lemma backend_err [err_iff]:
  "domainErr e \<Longrightarrow> dbFault s = (Inl e, s') \<longleftrightarrow> False" "domainErr e \<Longrightarrow> ctxFault s = (Inl e, s') \<longleftrightarrow> False"
  "domainErr e \<Longrightarrow> writeDB g s = (Inl e, s') \<longleftrightarrow> False"
  "domainErr e \<Longrightarrow> decode C v s = (Inl e, s') \<longleftrightarrow> False" "domainErr e \<Longrightarrow> encode C r s = (Inl e, s') \<longleftrightarrow> False"
  by (auto simp: dbFault_def ctxFault_def faulty_def writeDB_def decode_def encode_def seq_err basic_err
      split: list.splits if_splits option.splits sum.splits)

lemma put_err [err_iff]:
  "domainErr e \<Longrightarrow> putReceipt k v s = (Inl e, s') \<longleftrightarrow> False" "domainErr e \<Longrightarrow> putOrder k x s = (Inl e, s') \<longleftrightarrow> False"
  "domainErr e \<Longrightarrow> putPending k x s = (Inl e, s') \<longleftrightarrow> False" "domainErr e \<Longrightarrow> putInboxBytes n s = (Inl e, s') \<longleftrightarrow> False"
  "domainErr e \<Longrightarrow> deletePending k s = (Inl e, s') \<longleftrightarrow> False"
  by (simp_all add: putReceipt_def putOrder_def putPending_def putInboxBytes_def putMeta_def deletePending_def err_iff)

lemma withBucket_err [err_iff]:
  "domainErr e \<Longrightarrow> withBucket sel f s = (Inl e, s') \<longleftrightarrow> (\<exists>b. sel (bdb s) = Some b \<and> f b s = (Inl e, s'))"
  by (auto simp: withBucket_def getS_def throw_def split: option.splits)

lemma dbUpdate_domain:
  assumes "recorded C (dbUpdate f) s = (Inl e, s')" "domainErr e"
  shows "\<exists>s0 s1. untouched s s0 \<and> f s0 = (Inl e, s1)"
proof -
  from assms(1) obtain s1 where "dbUpdate f s = (Inl e, s1)" by (auto simp: recorded_def split: prod.splits sum.splits)
  then obtain s2 where "seqE dbFault (bindE f (\<lambda>x. seqE dbFault (ret x))) s = (Inl e, s2)"
    by (auto simp: dbUpdate_def split: prod.splits sum.splits)
  with assms(2) show ?thesis by (auto simp: err_iff dest!: dbFault_untouched)
qed

lemma guarded_domain:
  assumes "seqE ctxFault (recorded C (dbUpdate f)) s = (Inl e, s')" "domainErr e"
  shows "\<exists>s0 s1. untouched s s0 \<and> f s0 = (Inl e, s1)"
proof -
  from assms obtain s0 where s0: "ctxFault s = (Inr (), s0)" "recorded C (dbUpdate f) s0 = (Inl e, s')" by (auto simp: err_iff)
  with dbUpdate_domain [OF s0(2) assms(2)] ctxFault_untouched [OF s0(1)] untouched_trans show ?thesis by blast
qed

lemma claim_domain:
  assumes "boltInv C s" "boltClaim C k owner now lease s = (Inl e, s')" "domainErr e"
  shows "memClaim k owner now lease (absB C s) = (Inl e, absB C s)"
proof -
  from guarded_domain [OF assms(2) [unfolded boltClaim_def] assms(3)] obtain s0 s1 where
    q: "untouched s s0" "claimTx C k owner now lease s0 = (Inl e, s1)" by blast
  then obtain rb where rb: "bucketReceipts (bdb s0) = Some rb" "map_of rb k = None" "e = ErrReceiptNotFound"
    using assms(3) by (auto simp: claimTx_def err_iff Let_def split: if_splits)
  then show ?thesis using absent [OF rb(1), of C k] absB_untouched [OF q(1), of C] by (simp add: memClaim_cases)
qed

lemma held_domain:
  assumes "boltInv C s" "updateClaimed C k owner f s = (Inl e, s')" "domainErr e"
  shows "memHeld k owner g (absB C s) = (Inl e, absB C s)"
proof -
  from guarded_domain [OF assms(2) [unfolded updateClaimed_def] assms(3)] obtain s0 s1 where
    q: "untouched s s0" "updateClaimedTx C k owner f s0 = (Inl e, s1)" by blast
  have inv: "boltInv C s0" using boltInv_untouched [OF q(1)] assms(1) by simp
  from q(2) assms(3) obtain rb where rb: "bucketReceipts (bdb s0) = Some rb" by (auto simp: updateClaimedTx_def err_iff)
  show ?thesis
  proof (cases "map_of rb k")
    case None
    with q(2) rb assms(3) have "e = ErrReceiptNotFound" by (auto simp: updateClaimedTx_def err_iff)
    then show ?thesis using absent [OF rb(1), of C k] None absB_untouched [OF q(1), of C] by (simp add: memHeld_cases)
  next
    case (Some v)
    from decoded [OF inv rb Some] obtain r where r: "unmarshalReceipt C v = Inr r" "memView (absB C s0) k = Some r" by blast
    with q(2) rb Some assms(3) have "e = ErrLeaseLost" "\<not> heldBy owner r"
      by (auto simp: updateClaimedTx_def err_iff ok_iff heldBy_def Let_def split: if_splits)
    then show ?thesis using r(2) absB_untouched [OF q(1), of C] by (simp add: memHeld_cases)
  qed
qed

lemma commit_domain:
  assumes "boltInv C s" "boltCommit C r s = (Inl e, s')" "domainErr e"
  shows "memCommit r (absB C s) = (Inl e, absB C s)"
proof (cases "validateReceipt r")
  case (Some e')
  with assms(2) show ?thesis by (auto simp: boltCommit_def err_iff memCommit_cases)
next
  case None
  with assms(2,3) obtain s0 where s0: "ctxFault s = (Inr (), s0)" "recorded C (dbUpdate (commitTx C r)) s0 = (Inl e, s')"
    by (auto simp: boltCommit_def err_iff)
  from dbUpdate_domain [OF s0(2) assms(3)] ctxFault_untouched [OF s0(1)] obtain s1 s2 where
    q: "untouched s s1" "commitTx C r s1 = (Inl e, s2)" using untouched_trans by blast
  have inv: "boltInv C s1" and abs: "absB C s1 = absB C s" using boltInv_untouched [OF q(1)] absB_untouched [OF q(1)] assms(1) by auto
  from inv obtain rb mb where b: "bucketReceipts (bdb s1) = Some rb" "bucketMeta (bdb s1) = Some mb" "memInv (absB C s1)" "CMaxBytes (bcfg s1) < 2 ^ 63"
    by (rule boltInvE)
  show ?thesis
  proof (cases "map_of rb (Identity r)")
    case (Some v)
    from decoded [OF inv b(1) Some] obtain old where old: "unmarshalReceipt C v = Inr old" "memView (absB C s1) (Identity r) = Some old" by blast
    with q(2) b(1) Some assms(3) have "Payload old \<noteq> Payload r" "e = ErrIdentityConflict"
      by (auto simp: commitTx_def err_iff split: if_splits)
    with None old(2) abs show ?thesis by (simp add: memCommit_cases)
  next
    case new: None
    have pb: "payloadBytes (absB C s1) = uint (inboxBytes mb)" "mcfg (absB C s1) = bcfg s1" "length (receipts (absB C s1)) = length rb"
      using b(1,2) by (simp_all add: absB_def)
    have len: "length (Payload r) < 2 ^ 63" using None by (simp add: validateReceipt_None receiptOK_def maxInboxPayloadBytes_def)
    have cur: "uint (inboxBytes mb) \<le> CMaxBytes (bcfg s1)" "0 \<le> CMaxBytes (bcfg s1)"
      using b(3) pb uint_ge_0 [of "inboxBytes mb"] by (auto simp: memInv_def intro: order_trans)
    from q(2) b(1,2) new assms(3) have "e = ErrInboxFull" "int (length rb) \<ge> CMaxRecords (bcfg s1)
        \<or> (inboxBytes mb > of_int (CMaxBytes (bcfg s1)) \<or> of_nat (length (Payload r)) > (of_int (CMaxBytes (bcfg s1)) :: 64 word) - inboxBytes mb)"
      by (auto simp: commitTx_def err_iff ok_iff Let_def split: if_splits)
    then show ?thesis using None absent [OF b(1), of C "Identity r"] new pb abs capacity_iff(1) [OF cur b(4) len]
      by (auto simp: memCommit_cases)
  qed
qed

lemma get_sim:
  assumes "boltInv C s" "boltGet C k s = (x, s')"
  shows "(\<forall>r. x = Inr r \<longrightarrow> memGet k (absB C s) = (Inr r, absB C s)) \<and> (\<forall>e. x = Inl e \<and> domainErr e \<longrightarrow> memGet k (absB C s) = (Inl e, absB C s))"
proof -
  obtain a s1 where a: "ctxFault s = (a, s1)" by fastforce
  obtain b s2 where b: "dbFault s1 = (b, s2)" by fastforce
  have q: "untouched s s2" using ctxFault_untouched [OF a] dbFault_untouched [OF b] untouched_trans by blast
  have inv: "boltInv C s2" using boltInv_untouched [OF q] assms(1) by simp
  then obtain rb where rb: "bucketReceipts (bdb s2) = Some rb" by (rule boltInvE)
  have get: "memGet k m = (case memView m k of None \<Rightarrow> Inl ErrReceiptNotFound | Some r \<Rightarrow> Inr r, m)" for m
    by (simp add: memGet_def getS_def throw_def ret_def memView_def split: option.split)
  show ?thesis
  proof (cases "map_of rb k")
    case None
    with absent [OF rb, of C k] assms(2) a b rb absB_untouched [OF q, of C] show ?thesis
      by (auto simp: boltGet_def dbView_def err_iff ok_iff get)
  next
    case (Some v)
    from decoded [OF inv rb Some] obtain r where r: "unmarshalReceipt C v = Inr r" "memView (absB C s2) k = Some r" by blast
    with Some assms(2) a b rb absB_untouched [OF q, of C] show ?thesis
      by (auto simp: boltGet_def dbView_def err_iff ok_iff get)
  qed
qed

end
