(* ===== verification/BoltProps.thy ===== *)
theory BoltProps
  imports BoltOpen BoltErrors
begin

text \<open>
  The bbolt inbox keeps the contract of the interface \<^verbatim>\<open>Inbox\<close>: failed operations leave the database as
  it was, successful ones do what the in-memory inbox does.  Opening a database of an earlier layout
  rebuilds what it lacks.
\<close>

section \<open>Failed operations\<close>

definition keepsDB :: "'v boltInbox \<Rightarrow> 'v boltInbox \<Rightarrow> bool" where
  "keepsDB s s' \<longleftrightarrow> bdb s' = bdb s \<and> bcfg s' = bcfg s"

lemma untouched_keepsDB: "untouched s s' \<Longrightarrow> keepsDB s s'"
  by (simp add: untouched_def keepsDB_def counters_def)

lemma keepsDB_trans: "keepsDB s s1 \<Longrightarrow> keepsDB s1 s2 \<Longrightarrow> keepsDB s s2"
  by (simp add: keepsDB_def)

lemma frame_option [intro!]: "frame m \<Longrightarrow> (\<And>x. frame (f x)) \<Longrightarrow> frame (case v of None \<Rightarrow> m | Some x \<Rightarrow> f x)"
  by (simp split: option.split)

lemma frame_sum [intro!]: "(\<And>x. frame (g x)) \<Longrightarrow> (\<And>x. frame (f x)) \<Longrightarrow> frame (case v of Inl x \<Rightarrow> g x | Inr x \<Rightarrow> f x)"
  by (simp split: sum.split)

lemma frame_put [intro!]:
  "frame (putReceipt k v)" "frame (putOrder k x)" "frame (putPending k x)" "frame (putMeta k b)" "frame (putInboxBytes n)"
  "frame (deleteReceipt k)" "frame (deleteOrder k)" "frame (deletePending k)"
  by (auto simp: putReceipt_def putOrder_def putPending_def putMeta_def putInboxBytes_def deleteReceipt_def deleteOrder_def deletePending_def)

lemma frame_pruneScan [intro!]: "frame (pruneScan C cutoff es ids n)"
  by (induction es arbitrary: ids n) (auto simp: Let_def)

lemma frame_deleteAll [intro!]: "frame (deleteAll ks)"
  by (induction ks) auto

lemma frame_tx: "frame (commitTx C r)" "frame (claimTx C k owner now lease)" "frame (updateClaimedTx C k owner f)" "frame (pruneTx C cutoff)"
  unfolding commitTx_def claimTx_def updateClaimedTx_def pruneTx_def Let_def case_prod_beta by (auto simp del: split_paired_All)

lemma ctxFault_err: "seqE ctxFault m s = (Inl e, s') \<Longrightarrow> untouched s s' \<or> (\<exists>s0. untouched s s0 \<and> m s0 = (Inl e, s'))"
  by (auto simp: seqE_def bindE_def split: prod.splits sum.splits dest: ctxFault_untouched)

lemma recordError_keeps [simp]: "bdb (recordError C e s) = bdb s" "bcfg (recordError C e s) = bcfg s"
  by (simp_all add: recordError_def)

lemma tx_err:
  assumes "recorded C (dbUpdate f) s = (Inl e, s')" "frame f"
  shows "keepsDB s s'"
proof -
  from assms(1) obtain s1 where s1: "dbUpdate f s = (Inl e, s1)" "s' = recordError C e s1"
    by (auto simp: recorded_def split: prod.splits sum.splits)
  with dbUpdate_err [OF s1(1) assms(2)] show ?thesis by (simp add: untouched_def counters_def keepsDB_def)
qed

lemma guarded_err:
  assumes "seqE ctxFault (recorded C (dbUpdate f)) s = (Inl e, s')" "frame f"
  shows "keepsDB s s'"
  using ctxFault_err [OF assms(1)] tx_err [OF _ assms(2)] untouched_keepsDB keepsDB_trans by blast

lemma boltHeld_err:
  "boltRenew C k owner now lease s = (Inl e, s') \<Longrightarrow> keepsDB s s'"
  "boltMarkApplied C k owner t s = (Inl e, s') \<Longrightarrow> keepsDB s s'"
  "boltMarkFailed C k owner failure s = (Inl e, s') \<Longrightarrow> keepsDB s s'"
  by (auto simp: boltRenew_def boltMarkApplied_def boltMarkFailed_def updateClaimed_def intro: guarded_err frame_tx)

lemma boltClaim_err: "boltClaim C k owner now lease s = (Inl e, s') \<Longrightarrow> keepsDB s s'"
  by (auto simp: boltClaim_def intro: guarded_err frame_tx)

lemma boltCommit_err:
  assumes "boltCommit C r s = (Inl e, s')"
  shows "keepsDB s s'"
proof (cases "validateReceipt r")
  case None
  with assms have "seqE ctxFault (bindE (recorded C (dbUpdate (commitTx C r))) (\<lambda>(stored, created).
         seqE (modify (\<lambda>s. if created then s else s\<lparr>bduplicates := bduplicates s + 1\<rparr>)) (ret (stored, created)))) s = (Inl e, s')"
    by (simp add: boltCommit_def)
  from ctxFault_err [OF this] show ?thesis
  proof (elim disjE exE conjE)
    fix s0 assume "untouched s s0" and run: "bindE (recorded C (dbUpdate (commitTx C r))) (\<lambda>(stored, created).
         seqE (modify (\<lambda>s. if created then s else s\<lparr>bduplicates := bduplicates s + 1\<rparr>)) (ret (stored, created))) s0 = (Inl e, s')"
    moreover from run have "recorded C (dbUpdate (commitTx C r)) s0 = (Inl e, s')"
      by (auto simp: bindE_def seqE_def modify_def ret_def split: prod.splits sum.splits)
    ultimately show ?thesis using tx_err [OF _ frame_tx(1)] untouched_keepsDB keepsDB_trans by blast
  qed (rule untouched_keepsDB)
next
  case (Some a)
  with assms show ?thesis by (simp add: boltCommit_def throw_def keepsDB_def)
qed

lemma boltPrune_err:
  assumes "boltPrune C now cutoff mx s = (Inl e, s')"
  shows "keepsDB s s'"
  using ctxFault_err [OF assms [unfolded boltPrune_def]]
proof (elim disjE exE conjE)
  fix s0 assume q: "untouched s s0" and run: "(case dbUpdate (pruneTx C cutoff) s0 of
     (Inl e, s') \<Rightarrow> (Inl e, recordError C e (s'\<lparr>blastGCNano := now - unixEpoch\<rparr>))
   | (Inr removed, s') \<Rightarrow> (Inr removed, s'\<lparr>blastGCNano := now - unixEpoch, bpruned := bpruned s' + of_nat removed\<rparr>)) = (Inl e, s')"
  obtain y s1 where y: "dbUpdate (pruneTx C cutoff) s0 = (y, s1)" by fastforce
  with run have "y = Inl e" "s' = recordError C e (s1\<lparr>blastGCNano := now - unixEpoch\<rparr>)" by (cases y; simp)+
  with y dbUpdate_err [OF _ frame_tx(4)] q show ?thesis by (fastforce simp: untouched_def counters_def keepsDB_def)
qed (rule untouched_keepsDB)

text \<open>Read-only transactions.\<close>

definition readonly :: "('v, 'a) bolt_act \<Rightarrow> bool" where
  "readonly m \<longleftrightarrow> (\<forall>s x s'. m s = (x, s') \<longrightarrow> keepsDB s s')"

lemma readonly_bind [intro!]:
  assumes "readonly m" "\<And>x. readonly (f x)"
  shows "readonly (bindE m f)"
  unfolding readonly_def
proof (intro allI impI)
  fix s x s' assume b: "bindE m f s = (x, s')"
  obtain y s1 where m: "m s = (y, s1)" by fastforce
  then have s1: "keepsDB s s1" using assms(1) by (simp add: readonly_def)
  show "keepsDB s s'"
  proof (cases y)
    case (Inr a)
    with b m assms(2) [of a] have "keepsDB s1 s'" by (simp add: bindE_def readonly_def)
    with s1 show ?thesis by (rule keepsDB_trans)
  qed (use b m s1 in \<open>simp add: bindE_def\<close>)
qed

lemma readonly_seq [intro!]: "readonly m \<Longrightarrow> readonly k \<Longrightarrow> readonly (seqE m k)"
  unfolding seqE_def by (rule readonly_bind)

lemma readonly_basic [intro!]:
  "readonly (ret x)" "readonly (throw e)" "readonly dbFault" "readonly ctxFault" "readonly (decode C v)"
  by (auto simp: readonly_def ret_def throw_def decode_def keepsDB_def split: option.splits sum.splits
      dest!: dbFault_untouched ctxFault_untouched dest: untouched_keepsDB [unfolded keepsDB_def])

lemma readonly_withBucket [intro!]: "(\<And>b. readonly (g b)) \<Longrightarrow> readonly (withBucket sel g)"
  by (auto simp: readonly_def withBucket_def getS_def throw_def keepsDB_def split: option.splits)

lemma readonly_modify [intro!]: "(\<And>s. keepsDB s (g s)) \<Longrightarrow> readonly (modify g)"
  by (simp add: readonly_def modify_def)

lemma readonly_recorded [intro!]: "readonly m \<Longrightarrow> readonly (recorded C m)"
  by (fastforce simp: readonly_def recorded_def keepsDB_def split: prod.splits sum.splits)

lemma readonly_loop [intro!]: "readonly (boltPendingLoop C rb now limit result ks)" "readonly (retainedLoop C rb limit result ks)"
  by (induction ks arbitrary: result) auto

lemma readonly_ops: "readonly (boltPending C now limit)" "readonly (boltRetained C after limit)" "readonly (boltGet C k)"
  unfolding boltPending_def boltRetained_def boltGet_def dbView_def by (auto simp: keepsDB_def)

section \<open>The contract\<close>

lemma keepsDB_good: "keepsDB s s' \<Longrightarrow> boltInv C s \<Longrightarrow> boltInv C s' \<and> boltView C s' = boltView C s"
  using boltInv_cong [of s' s C] by (simp add: keepsDB_def boltView_def memView_def absB_def)

lemmas bolt_err = boltCommit_err boltClaim_err boltHeld_err boltPrune_err

lemma renew_sim:
  assumes "codecOK C" "boltInv C s" "boltRenew C k owner now lease s = (Inr u, s')"
  shows "memHeld k owner (\<lambda>r. bumpRevision (r\<lparr>LeaseExpiresAt := now + lease\<rparr>)) (absB C s) = (Inr u, absB C s') \<and> boltInv C s'"
  by (rule held_sim [OF assms(1,2) assms(3) [unfolded boltRenew_def]]) (simp_all add: receiptOK_def receiptOrder_def)

lemma applied_sim:
  assumes "codecOK C" "boltInv C s" "boltMarkApplied C k owner t s = (Inr u, s')"
  shows "memMarkApplied k owner t (absB C s) = (Inr u, absB C s') \<and> boltInv C s'"
  unfolding memMarkApplied_def
  by (rule held_sim [OF assms(1,2) assms(3) [unfolded boltMarkApplied_def]])
    (simp_all add: receiptOK_def receiptOrder_def appliedReceipt_def)

lemma failed_sim:
  assumes "codecOK C" "boltInv C s" "boltMarkFailed C k owner failure s = (Inr u, s')"
  shows "memMarkFailed k owner failure (absB C s) = (Inr u, absB C s') \<and> boltInv C s'"
  unfolding memMarkFailed_def
  by (rule held_sim [OF assms(1,2) assms(3) [unfolded boltMarkFailed_def]])
    (simp_all add: receiptOK_def receiptOrder_def failedReceipt_def)

text \<open>An abstract step on the receipts carries over to the view.\<close>

lemma view_of_sim: "boltView C s = memView (absB C s)"
  by (simp add: boltView_def)

lemma held_view:
  assumes "codecOK C" "boltInv C s" "memHeld k owner f (absB C s) = (Inr u, absB C s') \<and> boltInv C s'"
    "\<And>r. receiptOK k (f r) = receiptOK k r" "\<And>r. Payload (f r) = Payload r" "\<And>r. P r (f r)"
  shows "boltInv C s' \<and> (\<exists>r r'. boltView C s k = Some r \<and> heldBy owner r \<and> P r r' \<and> boltView C s' = (boltView C s)(k \<mapsto> r'))"
  using memHeld_rel [of "absB C s" k owner f u "absB C s'" P] assms by (simp add: boltInv_def view_of_sim)

lemma memCommit_view:
  "memCommit r m = (Inr (st, created), m') \<Longrightarrow> Payload st = Payload r \<and> memView m' = (memView m)(Identity r \<mapsto> st)
      \<and> (if created then memView m (Identity r) = None \<and> st = r else memView m (Identity r) = Some st)"
  by (auto simp: memCommit_cases memView_def update_conv' fun_upd_idem split: option.splits if_splits)

lemma commit_view:
  assumes "codecOK C" "boltInv C s" "boltCommit C r s = (Inr (st, created), s')"
  shows "boltInv C s' \<and> Payload st = Payload r \<and> boltView C s' = (boltView C s)(Identity r \<mapsto> st)
      \<and> (if created then boltView C s (Identity r) = None \<and> st = r else boltView C s (Identity r) = Some st)"
  using commit_sim [OF assms] memCommit_view unfolding view_of_sim by blast

lemma claim_view:
  assumes "codecOK C" "boltInv C s" "boltClaim C k owner now lease s = (Inr (r, claimed), s')"
  shows "boltInv C s' \<and> (\<exists>r0. boltView C s k = Some r0 \<and> (if claimed then claimable now r0 \<and> r = claimReceipt owner now lease r0
        \<and> boltView C s' = (boltView C s)(k \<mapsto> r) else \<not> claimable now r0 \<and> r = r0 \<and> boltView C s' = boltView C s))"
  using claim_sim [OF assms] unfolding view_of_sim
  by (auto simp: memClaim_cases memView_update split: option.splits if_splits dest!: sym [of "_\<lparr>receipts := _\<rparr>"])

lemma prune_view:
  assumes "codecOK C" "boltInv C s" "boltPrune C now cutoff mx s = (rn, s')"
  shows "boltInv C s' \<and> (\<forall>k. boltView C s' k = boltView C s k \<or> boltView C s' k = None \<and> (\<exists>r. boltView C s k = Some r \<and> prunable cutoff r))"
proof (cases rn)
  case (Inl e)
  with boltPrune_err assms(3) keepsDB_good [OF _ assms(2)] show ?thesis by metis
next
  case (Inr n)
  with prune_sim [OF assms(1,2)] assms(3) obtain ks where ks: "distinct ks" "boltInv C s'"
      "memPrune ks now cutoff mx (absB C s) = (Inr n, (absB C s')\<lparr>lastGC := now\<rparr>)" by blast
  have inv: "memInv (absB C s)" using assms(2) by (simp add: boltInv_def)
  have "memView (absB C s') = memView ((absB C s')\<lparr>lastGC := now\<rparr>)" by (simp add: memView_def)
  with memPrune_cases [OF inv ks(1,3)] ks(2) show ?thesis by (auto simp: view_of_sim split: option.splits)
qed

lemma pending_views:
  assumes "boltInv C s" "boltPending C now limit s = (rp, s')"
  shows "boltInv C s' \<and> boltView C s' = boltView C s
      \<and> (\<forall>rs. rp = Inr rs \<longrightarrow> distinct (map Identity rs) \<and> (\<forall>r \<in> set rs. boltView C s (Identity r) = Some r \<and> claimable now r)
          \<and> (rs = [] \<longrightarrow> (\<forall>k r. boltView C s k = Some r \<longrightarrow> \<not> claimable now r)))"
proof -
  have "keepsDB s s'" using readonly_ops(1) [of C now limit] assms(2) by (simp add: readonly_def)
  note good = keepsDB_good [OF this assms(1)]
  have inv: "memInv (absB C s)" using assms(1) by (simp add: boltInv_def)
  have "distinct (map Identity rs) \<and> (\<forall>r \<in> set rs. boltView C s (Identity r) = Some r \<and> claimable now r)
          \<and> (rs = [] \<longrightarrow> (\<forall>k r. boltView C s k = Some r \<longrightarrow> \<not> claimable now r))" if "rp = Inr rs" for rs
    using pending_sim [OF assms(1), of now limit rs s'] assms(2) memPending_sound [OF inv] that unfolding view_of_sim by blast
  with good show ?thesis by blast
qed

lemma bolt_inbox:
  assumes C: "codecOK C"
  shows "inbox (boltInboxOps C) (boltView C) (boltInv C)"
proof
  note ops = boltInboxOps_def
  fix i i' r st created
  assume "boltInv C i" and run: "ICommit (boltInboxOps C) r i = (Inr (st, created), i')"
  then show "boltInv C i' \<and> Payload st = Payload r \<and> boltView C i' = (boltView C i)(Identity r \<mapsto> st)
      \<and> (if created then boltView C i (Identity r) = None \<and> st = r else boltView C i (Identity r) = Some st)"
    using commit_view [OF C] by (simp add: ops)
  show "validateReceipt r = None" using run by (auto simp: ops boltCommit_def throw_def split: option.splits)
next
  fix i k r assume "boltInv C i" "boltView C i k = Some r"
  then show "Identity r = k" using memInv_keyed by (auto simp: boltInv_def boltView_def keyedV_def)
next
  fix i k owner now lease r claimed i'
  assume "boltInv C i" "IClaim (boltInboxOps C) k owner now lease i = (Inr (r, claimed), i')"
  then show "boltInv C i' \<and> (\<exists>r0. boltView C i k = Some r0 \<and> (if claimed then claimable now r0 \<and> r = claimReceipt owner now lease r0
        \<and> boltView C i' = (boltView C i)(k \<mapsto> r) else \<not> claimable now r0 \<and> r = r0 \<and> boltView C i' = boltView C i))"
    using claim_view [OF C] by (simp add: boltInboxOps_def)
next
  fix i k owner now lease u i'
  assume i: "boltInv C i" and "IRenew (boltInboxOps C) k owner now lease i = (Inr u, i')"
  then have "boltRenew C k owner now lease i = (Inr u, i')" by (simp add: boltInboxOps_def)
  from held_view [OF C i renew_sim [OF C i this], of "\<lambda>r r'. sameClaim r r' \<and> LeaseExpiresAt r' = now + lease"]
  show "boltInv C i' \<and> (\<exists>r r'. boltView C i k = Some r \<and> heldBy owner r \<and> sameClaim r r' \<and> LeaseExpiresAt r' = now + lease
      \<and> boltView C i' = (boltView C i)(k \<mapsto> r'))"
    by (simp add: receiptOK_def bumpRevision_def sameClaim_def)
next
  fix i k owner t u i'
  assume i: "boltInv C i" and "IMarkApplied (boltInboxOps C) k owner t i = (Inr u, i')"
  then have "boltMarkApplied C k owner t i = (Inr u, i')" by (simp add: boltInboxOps_def)
  from held_view [OF C i applied_sim [OF C i this, unfolded memMarkApplied_def], of "\<lambda>r r'. sameButRevision (appliedReceipt t r) r'"]
  show "boltInv C i' \<and> (\<exists>r r'. boltView C i k = Some r \<and> heldBy owner r \<and> sameButRevision (appliedReceipt t r) r'
      \<and> boltView C i' = (boltView C i)(k \<mapsto> r'))"
    by (simp add: receiptOK_def bumpRevision_def appliedReceipt_def sameButRevision_def)
next
  fix i k owner msg u i'
  assume i: "boltInv C i" and "IMarkFailed (boltInboxOps C) k owner msg i = (Inr u, i')"
  then have "boltMarkFailed C k owner msg i = (Inr u, i')" by (simp add: boltInboxOps_def)
  from held_view [OF C i failed_sim [OF C i this, unfolded memMarkFailed_def], of "\<lambda>r r'. sameButRevision (failedReceipt msg r) r'"]
  show "boltInv C i' \<and> (\<exists>r r'. boltView C i k = Some r \<and> heldBy owner r \<and> sameButRevision (failedReceipt msg r) r'
      \<and> boltView C i' = (boltView C i)(k \<mapsto> r'))"
    by (simp add: receiptOK_def bumpRevision_def failedReceipt_def sameButRevision_def)
next
  fix i now cutoff mx rn i' assume "boltInv C i" "IPrune (boltInboxOps C) now cutoff mx i = (rn, i')"
  then show "boltInv C i' \<and> (\<forall>k. boltView C i' k = boltView C i k \<or> boltView C i' k = None \<and> (\<exists>r. boltView C i k = Some r \<and> prunable cutoff r))"
    using prune_view [OF C] by (simp add: boltInboxOps_def)
next
  fix i now limit rp i' assume "boltInv C i" "IPending (boltInboxOps C) now limit i = (rp, i')"
  then show "boltInv C i' \<and> boltView C i' = boltView C i
      \<and> (\<forall>rs. rp = Inr rs \<longrightarrow> distinct (map Identity rs) \<and> (\<forall>r \<in> set rs. boltView C i (Identity r) = Some r \<and> claimable now r)
          \<and> (rs = [] \<longrightarrow> (\<forall>k r. boltView C i k = Some r \<longrightarrow> \<not> claimable now r)))"
    using pending_views by (simp add: boltInboxOps_def)
qed (auto simp: boltInboxOps_def dest!: bolt_err dest: keepsDB_good)

section \<open>Opening\<close>

lemma frame_build [intro!]: "frame (buildOrder C es)" "frame (buildPending C es)" "frame (sumBytes C n es)"
proof -
  show "frame (buildOrder C es)" "frame (buildPending C es)"
    by (induction es; auto)+
  show "frame (sumBytes C n es)" by (induction es arbitrary: n) (auto simp: Let_def)
qed

lemma frame_initialize: "frame (initialize C)"
  unfolding initialize_def ensureReceipts_def ensureOrder_def ensurePending_def ensureMeta_def by auto

lemma wrapping_cases: "wrapping msg m s = (x, s') \<Longrightarrow> \<exists>y. m s = (y, s') \<and> (case y of Inl e \<Rightarrow> x = Inl (wrapInboxErr msg e) | Inr u \<Rightarrow> x = Inr u)"
  by (auto simp: wrapping_def split: prod.splits sum.splits)

lemma dbFault_noFault: "dbFault s = (x, s') \<Longrightarrow> noFault s \<Longrightarrow> x = Inr () \<and> noFault s'"
  by (auto simp: dbFault_def faulty_def split: list.splits if_splits)

lemma dbUpdate_completes:
  assumes "completes f s'" "\<And>s1. dbFault s = (Inr (), s1) \<Longrightarrow> s1 = s'" "noFault s"
  shows "\<exists>s2. dbUpdate f s = (Inr (), s2)"
proof -
  obtain x s1 where f1: "dbFault s = (x, s1)" by fastforce
  with dbFault_noFault [OF f1 assms(3)] assms(2) have "dbFault s = (Inr (), s')" by simp
  moreover from assms(1) obtain s2 where f2: "f s' = (Inr (), s2)" "noFault s2" by (auto simp: completes_def)
  moreover obtain y s3 where f3: "dbFault s2 = (y, s3)" by fastforce
  moreover have "y = Inr ()" using dbFault_noFault [OF f3 f2(2)] by simp
  ultimately show ?thesis by (simp add: dbUpdate_def seqE_def bindE_def ret_def)
qed

lemma newBoltInbox_cases:
  assumes "newBoltInbox C cfg db faults = (x, s')"
  shows "\<exists>s. bdb s = db \<and> bcfg s = normalized cfg \<and> (True \<notin> set faults \<longrightarrow> noFault s) \<and>
    ((\<exists>e. x = Inl e \<and> bdb s' = db \<and> True \<in> set faults) \<or> (\<exists>y. dbUpdate (initialize C) s = (y, s') \<and> ((\<exists>u. x = Inr u) \<longleftrightarrow> (\<exists>u. y = Inr u))))"
proof -
  let ?s = "\<lparr>bcfg = normalized cfg, bdb = db, bduplicates = 0, breplayed = 0, bpruned = 0, blastGCNano = 0, blastError = '''', bfaults = faults\<rparr>"
  obtain a s1 where a: "dbFault ?s = (a, s1)" by fastforce
  obtain b s2 where b: "dbFault s1 = (b, s2)" by fastforce
  have q: "untouched ?s s1" "untouched s1 s2" using dbFault_untouched a b by blast+
  have n: "a = Inr () \<and> noFault s1 \<and> b = Inr () \<and> noFault s2" if "True \<notin> set faults"
    using dbFault_noFault [OF a] dbFault_noFault [OF b] that by simp
  obtain y s3 where y: "dbUpdate (initialize C) s2 = (y, s3)" by fastforce
  show ?thesis
  proof (cases "\<exists>u v. a = Inr u \<and> b = Inr v")
    case True
    with assms a b y have "s' = s3 \<and> ((\<exists>u. x = Inr u) \<longleftrightarrow> (\<exists>u. y = Inr u))"
      by (cases y) (auto simp: newBoltInbox_def seqE_def bindE_def wrapping_def)
    with y q n show ?thesis by (intro exI [of _ s2]) (auto simp: untouched_def counters_def)
  next
    case False
    have "(\<exists>e. x = Inl e) \<and> (s' = s1 \<or> s' = s2)"
      using assms a b False by (cases a; cases b) (auto simp: newBoltInbox_def seqE_def bindE_def wrapping_def)
    with False q n show ?thesis by (intro exI [of _ ?s]) (auto simp: untouched_def)
  qed
qed

lemma newBoltInbox_inv:
  assumes "codecOK C" "openable C cfg db" "newBoltInbox C cfg db faults = (Inr u, s)"
  shows "boltInv C s \<and> boltView C s = map_of (absR C (receiptsIn db))"
proof -
  from newBoltInbox_cases [OF assms(3)] obtain s0 v where s0: "bdb s0 = db" "bcfg s0 = normalized cfg"
    and y: "dbUpdate (initialize C) s0 = (Inr v, s)" by auto
  from dbUpdate_ok [OF y] obtain s1 s2 where q: "untouched s0 s1" "initialize C s1 = (Inr v, s2)" "untouched s2 s" by blast
  have s1: "bdb s1 = db" "bcfg s1 = normalized cfg" using q(1) s0 by (simp_all add: untouched_def counters_def)
  from initialize_ok [OF q(2) assms(1)] s1 assms(2) have "boltInv C s2" "bucketReceipts (bdb s2) = Some (receiptsIn db)" by auto
  then show ?thesis using q(3) boltInv_untouched [OF q(3), of C] by (auto simp: untouched_def boltView_def memView_def absB_def)
qed

lemma newBoltInbox_fails:
  assumes "openable C cfg db" "newBoltInbox C cfg db faults = (Inl e, s)"
  shows "bdb s = db \<and> True \<in> set faults"
proof -
  from newBoltInbox_cases [OF assms(2)] obtain s0 e' where s0: "bdb s0 = db" "True \<notin> set faults \<Longrightarrow> noFault s0"
    and c: "(bdb s = db \<and> True \<in> set faults) \<or> dbUpdate (initialize C) s0 = (Inl e', s)"
    by (metis Inl_not_Inr sum.exhaust)
  show ?thesis using c
  proof
    assume y: "dbUpdate (initialize C) s0 = (Inl e', s)"
    have "bdb s = db" using dbUpdate_err [OF y frame_initialize] s0(1) by (simp add: untouched_def)
    moreover have "True \<in> set faults"
    proof (rule ccontr)
      assume "True \<notin> set faults"
      then have n: "noFault s0" by (rule s0(2))
      obtain z s1 where z: "dbFault s0 = (z, s1)" by fastforce
      have "bdb s1 = db" "noFault s1" using dbFault_untouched [OF z] dbFault_noFault [OF z n] s0(1) by (simp_all add: untouched_def)
      then have "completes (initialize C) s1" using initialize_completes assms(1) by blast
      from dbUpdate_completes [OF this _ n] z y show False by auto
    qed
    ultimately show ?thesis ..
  qed
qed

text \<open>Opening an inbox restores it: whatever of the two indexes, the byte counter and the schema version an
  earlier version did not yet keep is rebuilt from the receipts, so that the invariant holds and the
  receipts are those of the file.  Opening fails only if the file system or bbolt fails, and then the
  database is as it was.\<close>

theorem newBoltInbox_restores:
  assumes "codecOK C" "openable C cfg db" "newBoltInbox C cfg db faults = (x, s)"
  shows "case x of Inr _ \<Rightarrow> boltInv C s \<and> boltView C s = map_of (absR C (receiptsIn db))
     | Inl _ \<Rightarrow> bdb s = db \<and> True \<in> set faults"
  using newBoltInbox_inv [OF assms(1,2)] newBoltInbox_fails [OF assms(2)] assms(3) by (auto split: sum.split)

section \<open>Properties\<close>






text \<open>C20. The scans of the bbolt inbox over its index buckets agree with the scans of the in-memory map: \<open>Pending\<close>
  returns what the in-memory inbox returns for one iteration order of its map, \<open>Retained\<close> returns
  the same page whatever that order is, and \<open>Prune\<close> removes prunable receipts as the in-memory one
  does, at most 1024 in one call, and all of them if it removes fewer.\<close>

theorem bolt_scans_memory:
  assumes "codecOK C" "boltInv C s"
  shows "(\<forall>now limit rs s'. boltPending C now limit s = (Inr rs, s') \<longrightarrow> (\<exists>ord. distinct ord \<and> set ord = set (keys (receipts (absB C s)))
      \<and> memPending ord now limit (absB C s) = (Inr rs, absB C s') \<and> boltInv C s'))
    \<and> (\<forall>after limit rs s' ord. boltRetained C after limit s = (Inr rs, s') \<and> distinct ord \<and> set ord = set (keys (receipts (absB C s)))
      \<longrightarrow> memRetained (formatTime C) ord after limit (absB C s) = (Inr rs, absB C s') \<and> boltInv C s')
    \<and> (\<forall>now cutoff mx removed s'. boltPrune C now cutoff mx s = (Inr removed, s') \<longrightarrow> (\<exists>ks. distinct ks
      \<and> memPrune ks now cutoff mx (absB C s) = (Inr removed, (absB C s')\<lparr>lastGC := now\<rparr>) \<and> boltInv C s' \<and> removed \<le> 1024
      \<and> (removed < 1024 \<longrightarrow> (\<forall>k r. memView (absB C s) k = Some r \<and> prunable cutoff r \<longrightarrow> k \<in> set ks))))"
proof (intro conjI allI impI)
  fix now limit rs s' assume "boltPending C now limit s = (Inr rs, s')"
  then show "\<exists>ord. distinct ord \<and> set ord = set (keys (receipts (absB C s)))
      \<and> memPending ord now limit (absB C s) = (Inr rs, absB C s') \<and> boltInv C s'" by (rule pending_sim [OF assms(2)])
next
  fix after limit rs s' ord
  assume "boltRetained C after limit s = (Inr rs, s') \<and> distinct ord \<and> set ord = set (keys (receipts (absB C s)))"
  then have r: "boltRetained C after limit s = (Inr rs, s')" "distinct ord" "set ord = set (keys (receipts (absB C s)))" by blast+
  show "memRetained (formatTime C) ord after limit (absB C s) = (Inr rs, absB C s')" "boltInv C s'"
    using retained_sim [OF assms r] by blast+
next
  fix now cutoff mx removed s' assume "boltPrune C now cutoff mx s = (Inr removed, s')"
  from prune_sim [OF assms this] show "\<exists>ks. distinct ks
      \<and> memPrune ks now cutoff mx (absB C s) = (Inr removed, (absB C s')\<lparr>lastGC := now\<rparr>) \<and> boltInv C s' \<and> removed \<le> 1024
      \<and> (removed < 1024 \<longrightarrow> (\<forall>k r. memView (absB C s) k = Some r \<and> prunable cutoff r \<longrightarrow> k \<in> set ks))" by blast
qed

section \<open>Examples\<close>

text \<open>A codec that keeps receipts as they are, and a database of the layout before the indexes.\<close>

definition plainCodec :: "Receipt Codec" where
  "plainCodec = \<lparr>marshalReceipt = Inr, unmarshalReceipt = Inr, formatTime = (\<lambda>_. replicate 26 (CHR ''0'')), errorString = (\<lambda>_. '''')\<rparr>"

definition oldReceipt :: Receipt where
  "oldReceipt = \<lparr>SchemaVersion = 1, Identity = ''batch:1'', IdentityKind = ''batch'', CollectorID = ''c1'', RProducerEpoch = '''',
     RProducerSequence = 0, BatchID = ''B1'', AcceptedAt = 1000, Payload = [1, 2, 3], State = ReceiptCommitted, Revision = 1,
     ApplyOwner = '''', LeaseExpiresAt = 0, AppliedAt = 0, Attempts = 0, RLastError = ''''\<rparr>"

definition oldDB :: "Receipt boltDB" where
  "oldDB = \<lparr>bucketReceipts = Some [(''batch:1'', oldReceipt)], bucketOrder = None, bucketPending = None, bucketMeta = None\<rparr>"

definition oldInbox :: "Receipt boltInbox" where
  "oldInbox = snd (newBoltInbox plainCodec DefaultInboxConfig oldDB [])"

lemma plainCodec_ok: "codecOK plainCodec"
  by (simp add: codecOK_def plainCodec_def)

lemma oldDB_openable: "openable plainCodec DefaultInboxConfig oldDB"
proof -
  have "normalized DefaultInboxConfig = DefaultInboxConfig"
    by (simp add: normalized_def DefaultInboxConfig_def second_def Let_def) code_simp
  then show ?thesis
    by (simp add: openable_def receiptsIn_def oldDB_def oldReceipt_def plainCodec_def receiptOK_def maxInboxPayloadBytes_def absR_def
        DefaultInboxConfig_def)
qed

theorem newBoltInbox_restores_witness: "boltInv plainCodec oldInbox \<and> boltView plainCodec oldInbox ''batch:1'' = Some oldReceipt"
proof -
  obtain x s where run: "newBoltInbox plainCodec DefaultInboxConfig oldDB [] = (x, s)" by fastforce
  have s: "oldInbox = s" by (simp add: oldInbox_def run)
  from newBoltInbox_restores [OF plainCodec_ok oldDB_openable run]
  have "boltInv plainCodec s \<and> boltView plainCodec s = map_of (absR plainCodec (receiptsIn oldDB))" by (cases x) auto
  then show ?thesis unfolding s by (simp add: absR_def receiptsIn_def oldDB_def plainCodec_def)
qed

lemma oldInbox_inv: "boltInv plainCodec oldInbox"
proof -
  obtain x s where run: "newBoltInbox plainCodec DefaultInboxConfig oldDB [] = (x, s)" by fastforce
  then obtain u where "x = Inr u" using newBoltInbox_fails [OF oldDB_openable, of "[]"] by (cases x) auto
  then show ?thesis using newBoltInbox_inv [OF plainCodec_ok oldDB_openable] run by (simp add: oldInbox_def)
qed


lemma oldInbox_pending: "fst (boltPending plainCodec 2000 10 oldInbox) = Inr [oldReceipt]"
  by code_simp

theorem bolt_scans_memory_witness:
  "\<exists>ord. distinct ord \<and> set ord = set (keys (receipts (absB plainCodec oldInbox)))
     \<and> fst (memPending ord 2000 10 (absB plainCodec oldInbox)) = Inr [oldReceipt]"
proof -
  have "boltPending plainCodec 2000 10 oldInbox = (Inr [oldReceipt], snd (boltPending plainCodec 2000 10 oldInbox))"
    using oldInbox_pending by (metis prod.collapse)
  then show ?thesis using bolt_scans_memory [OF plainCodec_ok oldInbox_inv] by (metis fst_conv)
qed

end
