(* ===== verification/Pipeline.thy ===== *)
theory Pipeline
  imports TransportProps ServerProps BoltProps
begin

text \<open>
  The way of a record from the spool of a collector to the inbox of a controller: the flush of
  \<^verbatim>\<open>collector/transport\<close> talks to the stream handler of \<^verbatim>\<open>controller/ingest\<close> over a network that may fail at
  every step, before or after the controller has done its work.
\<close>

section \<open>The network\<close>

text \<open>The batch on the open stream, one controller per endpoint, and the failures to come.\<close>

record ('w, 'i, 's) wire =
  sent :: "TelemetryBatch option"
  controllers :: "string \<Rightarrow> ('w, 'i, 's) Server"
  mishaps :: "goerr option list"

definition mishap :: "('w, 'i, 's) wire \<Rightarrow> goerr option \<times> ('w, 'i, 's) wire" where
  "mishap w = (case mishaps w of [] \<Rightarrow> (None, w) | m # ms \<Rightarrow> (m, w\<lparr>mishaps := ms\<rparr>))"

definition wireOp :: "(('w, 'i, 's) wire \<Rightarrow> ('w, 'i, 's) wire) \<Rightarrow> ('w, 'i, 's) wire \<Rightarrow> (goerr + unit) \<times> ('w, 'i, 's) wire" where
  "wireOp f w = (case mishap w of (Some e, w) \<Rightarrow> (Inl e, w) | (None, w) \<Rightarrow> (Inr (), f w))"

text \<open>The controller serves the stream; its answer may get lost.\<close>

definition wireRecv :: "nat \<Rightarrow> ('w, 'i, 's) Env \<Rightarrow> goerr + IdentityRec option \<Rightarrow> Certificate option \<Rightarrow> (push_error + unit \<Rightarrow> goerr)
    \<Rightarrow> string \<Rightarrow> ('w, 'i, 's) wire \<Rightarrow> (goerr + Ack option) \<times> ('w, 'i, 's) wire" where
  "wireRecv fuel E auth cert statusErr ep w = (case sent w of
     None \<Rightarrow> (Inl (Plain ''EOF''), w)
   | Some b \<Rightarrow> (case Push fuel E auth cert [Batch (Some b)] (controllers w ep) of
       None \<Rightarrow> (Inl (Plain ''deadline exceeded''), w)
     | Some (r, s') \<Rightarrow>
         (case mishap (w\<lparr>sent := None, controllers := (controllers w)(ep := s')\<rparr>) of
            (Some e, w') \<Rightarrow> (Inl e, w')
          | (None, w') \<Rightarrow> if length (acks s') > length (acks (controllers w ep)) then (Inr (Some (last (acks s'))), w')
                          else (Inl (statusErr r), w'))))"

text \<open>The network on top of the clock, the files and the dialling of \<open>B\<close>.\<close>

definition wireNet :: "nat \<Rightarrow> ('w, 'i, 's) Env \<Rightarrow> goerr + IdentityRec option \<Rightarrow> Certificate option \<Rightarrow> (push_error + unit \<Rightarrow> goerr)
    \<Rightarrow> ('w, 'i, 's) wire Net \<Rightarrow> ('w, 'i, 's) wire Net" where
  "wireNet fuel E auth cert statusErr B = B\<lparr>
     openPush := (\<lambda>ep timeout bearer compress. wireOp (\<lambda>w. w\<lparr>sent := None\<rparr>)),
     streamSend := (\<lambda>ep b. wireOp (\<lambda>w. w\<lparr>sent := Some b\<rparr>)),
     streamRecv := wireRecv fuel E auth cert statusErr,
     closeSend := (\<lambda>ep. wireOp (\<lambda>w. w\<lparr>sent := None\<rparr>))\<rparr>"

text \<open>Files, dialling and the passing of time leave the controllers alone.\<close>

definition besides :: "('w, 'i, 's) wire Net \<Rightarrow> bool" where
  "besides B \<longleftrightarrow> (\<forall>f w. controllers (snd (readFile B f w)) = controllers w) \<and> (\<forall>c k w. controllers (snd (loadX509KeyPair B c k w)) = controllers w)
     \<and> (\<forall>ep t creds w. controllers (snd (dialContext B ep t creds w)) = controllers w) \<and> (\<forall>w. controllers (elapse B w) = controllers w)"

section \<open>Delivery with a memory\<close>

text \<open>A sender whose successes leave a lasting trace in the network.\<close>

locale tracked_sender =
  fixes send1 :: "'w sender" and inv :: "'w \<Rightarrow> bool" and later :: "'w \<Rightarrow> 'w \<Rightarrow> bool" and stored :: "bytes \<Rightarrow> 'w \<Rightarrow> bool"
  assumes later_refl: "inv w \<Longrightarrow> later w w"
    and later_trans: "later w w1 \<Longrightarrow> later w1 w2 \<Longrightarrow> later w w2"
    and later_inv: "later w w' \<Longrightarrow> inv w \<Longrightarrow> inv w'"
    and later_stored: "later w w' \<Longrightarrow> inv w \<Longrightarrow> stored p w \<Longrightarrow> stored p w'"
    and send_later: "send1 n ep p s = (r, s') \<Longrightarrow> inv (net s) \<Longrightarrow> later (net s) (net s')"
    and send_stored: "send1 n ep p s = (Inr ack, s') \<Longrightarrow> inv (net s) \<Longrightarrow> stored p (net s')"
begin

lemma mirror_tracked:
  assumes "sendMirrorLoop send1 p k la errs es s = ((la', errs'), s')" "inv (net s)" "la \<noteq> None \<Longrightarrow> stored p (net s)"
  shows "later (net s) (net s') \<and> (la' \<noteq> None \<longrightarrow> stored p (net s'))"
  using assms
proof (induction es arbitrary: k la errs s)
  case (Cons e es)
  obtain x s1 where x: "send1 (k + 1) e p s = (x, s1)" by fastforce
  have l: "later (net s) (net s1)" by (rule send_later [OF x Cons.prems(2)])
  have i: "inv (net s1)" by (rule later_inv [OF l Cons.prems(2)])
  show ?case
  proof (cases x)
    case (Inl err)
    with Cons.prems(1) x have "sendMirrorLoop send1 p (k + 1) la (errs @ [err]) es (s1\<lparr>client := bumpErr err (client s1)\<rparr>) = ((la', errs'), s')"
      by simp
    from Cons.IH [OF this] i Cons.prems(2,3) later_stored [OF l] have "later (net s1) (net s') \<and> (la' \<noteq> None \<longrightarrow> stored p (net s'))" by simp
    then show ?thesis using later_trans [OF l] by blast
  next
    case (Inr ack)
    with Cons.prems(1) x have "sendMirrorLoop send1 p (k + 1) (Some ack) errs es s1 = ((la', errs'), s')" by simp
    from Cons.IH [OF this i] send_stored [OF x [unfolded Inr] Cons.prems(2)] have "later (net s1) (net s') \<and> (la' \<noteq> None \<longrightarrow> stored p (net s'))" by simp
    then show ?thesis using later_trans [OF l] by blast
  qed
qed (simp add: later_refl)

lemma failover_tracked:
  assumes "failoverLoop send1 p k errs es s = (x, s')" "inv (net s)"
  shows "later (net s) (net s') \<and> (\<forall>ack. x = Inr ack \<longrightarrow> stored p (net s'))"
  using assms
proof (induction es arbitrary: k errs s)
  case (Cons e es)
  let ?s = "if k > 0 then s\<lparr>client := bumpRetry 1 (client s)\<rparr> else s"
  have s: "net ?s = net s" by simp
  obtain y s1 where y: "send1 (k + 1) e p ?s = (y, s1)" by fastforce
  have l: "later (net s) (net s1)" using send_later [OF y] Cons.prems(2) s by simp
  have i: "inv (net s1)" by (rule later_inv [OF l Cons.prems(2)])
  show ?case
  proof (cases y)
    case (Inl err)
    with Cons.prems(1) y have "failoverLoop send1 p (k + 1) (errs @ [err]) es (s1\<lparr>client := bumpErr err (client s1)\<rparr>) = (x, s')"
      by (simp add: Let_def split: if_splits)
    from Cons.IH [OF this] i have "later (net s1) (net s') \<and> (\<forall>ack. x = Inr ack \<longrightarrow> stored p (net s'))" by simp
    then show ?thesis using later_trans [OF l] by blast
  next
    case (Inr ack)
    with Cons.prems(1) y have "x = Inr ack" "s' = s1" by (simp_all add: Let_def split: if_splits)
    then show ?thesis using l send_stored [OF y [unfolded Inr]] Cons.prems(2) s by simp
  qed
qed (auto simp: later_refl)

lemma Send_tracked:
  assumes "Send N send1 p s = (x, s')" "inv (net s)"
  shows "later (net s) (net s') \<and> (\<forall>ack. x = Inr ack \<longrightarrow> stored p (net s'))"
proof -
  obtain c order cl where o: "snapshotConfigAndOrder (client s) = ((c, order), cl)" by (metis surj_pair)
  let ?s = "s\<lparr>client := cl\<rparr>"
  obtain la errs s1 where m: "sendMirrorLoop send1 p 0 None [] order ?s = ((la, errs), s1)" by (metis surj_pair)
  obtain y s2 where f: "failoverLoop send1 p 0 [] order ?s = (y, s2)" by fastforce
  have "net ?s = net s" by simp
  with mirror_tracked [OF m] failover_tracked [OF f] assms(2) later_refl [OF assms(2)] assms(1) o m f
  show ?thesis
    by (auto simp: Send_def sendMirror_def sendWithFailover_def Let_def split: option.splits if_splits sum.splits)
qed

end

section \<open>Collector and controllers\<close>

locale pipeline = ingest I view good E for I :: "'i Inbox" and view good and E :: "('w, 'i, 's) Env" +
  fixes fuel :: nat and auth :: "goerr + IdentityRec option" and cert :: "Certificate option" and statusErr :: "push_error + unit \<Rightarrow> goerr"
    and B :: "('w, 'i, 's) wire Net"
  assumes besides: "besides B"
begin

abbreviation "N \<equiv> wireNet fuel E auth cert statusErr B"

definition ready :: "('w, 'i, 's) wire \<Rightarrow> bool" where
  "ready w \<longleftrightarrow> (\<forall>ep. good (sinbox (controllers w ep)) \<and> noGC (controllers w ep))"

definition progress :: "('w, 'i, 's) wire \<Rightarrow> ('w, 'i, 's) wire \<Rightarrow> bool" where
  "progress w w' \<longleftrightarrow> (\<forall>ep. served (controllers w ep) (controllers w' ep))"

definition arrived :: "bytes \<Rightarrow> ('w, 'i, 's) wire \<Rightarrow> bool" where
  "arrived p w \<longleftrightarrow> (\<exists>b ep. unmarshalBatch B p = Inr b \<and> materialized E view (controllers w ep) b)"

lemma progress_same: "ready w \<Longrightarrow> controllers w' = controllers w \<Longrightarrow> progress w w'"
  by (simp add: progress_def ready_def served_refl)

lemma wireOp_controllers: "(\<And>w. controllers (f w) = controllers w) \<Longrightarrow> controllers (snd (wireOp f w)) = controllers w"
  by (auto simp: wireOp_def mishap_def split: list.splits option.splits)

lemma Push_served:
  assumes "good (sinbox s)" "noGC s" "Push fuel E auth cert [Batch (Some b)] s = Some (r, s')"
  shows "served s s' \<and> (length (acks s) < length (acks s') \<longrightarrow> materialized E view s' b)"
proof (cases auth)
  case (Inl e)
  let ?m = "rejectP E Unauthenticated (Some (recordAuthnRejected (errText E (GoError e)))) :: ('w, 'i, 's, unit) push_act"
  have "?m s = Some (r, s')" using Inl assms(3) by (simp add: Push_def)
  moreover have "wpP ?m (\<lambda>r s'. silent s s' \<and> (\<exists>e. r = Inl e)) s" by (rule wpP_rejectP [OF assms(1)])
  ultimately show ?thesis by (simp add: wpP_def)
next
  case (Inr actor)
  let ?peers = "peerIdentitySubjects cert"
  let ?s = "updStats (recordPeerSubject ?peers) (updStats (recordAuthenticatedSubject actor) s)"
  have s: "served s ?s" "noGC ?s" "good (sinbox ?s)" "acks ?s = acks s"
    using assms(1,2) served_refl [OF assms(1)] by (simp_all add: noGC_def served_def moved_def updStats_def pruneDue_def)
  from wpP_pushLoop [OF s(3,2), of fuel actor ?peers "[Batch (Some b)]"] assms(3) Inr
  have "pushed actor ?peers [Batch (Some b)] ?s r s'" by (simp add: wpP_def Push_pushLoop)
  then obtain bs where bs: "served ?s s'" "acks s' = acks s @ map ackOf bs" "prefix (map (\<lambda>b. Batch (Some b)) bs) [Batch (Some b)]"
      "\<forall>b \<in> set bs. materialized E view s' b" using s(4) by (auto simp: pushed_def)
  from bs(3) have "bs = [] \<or> bs = [b]" by (cases bs) (auto simp: prefix_Cons)
  then show ?thesis using bs served_trans [OF s(1) bs(1)] by auto
qed

lemma wireRecv_tracked:
  assumes "ready w" "sent w = Some b" "wireRecv fuel E auth cert statusErr ep w = (r, w')"
  shows "progress w w' \<and> (\<forall>ack. r = Inr (Some ack) \<longrightarrow> materialized E view (controllers w' ep) b)"
proof (cases "Push fuel E auth cert [Batch (Some b)] (controllers w ep)")
  case None
  with assms show ?thesis by (auto simp: wireRecv_def intro: progress_same)
next
  case (Some y)
  obtain x s' where y: "y = (x, s')" by fastforce
  obtain m w1 where m: "mishap (w\<lparr>sent := None, controllers := (controllers w)(ep := s')\<rparr>) = (m, w1)" by fastforce
  have c: "controllers w1 = (controllers w)(ep := s')" using m by (auto simp: mishap_def split: list.splits)
  have p: "served (controllers w ep) s'" "length (acks (controllers w ep)) < length (acks s') \<Longrightarrow> materialized E view s' b"
    using Push_served [of "controllers w ep" b x s'] assms(1) Some y by (auto simp: ready_def)
  have "progress w w1" unfolding progress_def c using p(1) assms(1) by (simp add: served_refl ready_def)
  moreover have "w' = w1" using assms(2,3) Some y m by (auto simp: wireRecv_def split: option.splits if_splits)
  moreover have "materialized E view (controllers w1 ep) b" if "r = Inr (Some ack)" for ack
    using that assms(2,3) Some y m p(2) c by (auto simp: wireRecv_def split: option.splits if_splits)
  ultimately show ?thesis by blast
qed

lemma wp_onNet: "wp (onNet f) Q s = Q (fst (f (net s))) (s\<lparr>net := snd (f (net s))\<rparr>)"
  by (simp add: wp_def onNet_def split: prod.splits)

lemma N_sel [simp]:
  "readFile N = readFile B" "certsFromPEM N = certsFromPEM B" "loadX509KeyPair N = loadX509KeyPair B" "dialContext N = dialContext B"
  "unmarshalBatch N = unmarshalBatch B" "elapse N = elapse B"
  "openPush N ep t bearer z = wireOp (\<lambda>w. w\<lparr>sent := None\<rparr>)" "streamSend N ep b = wireOp (\<lambda>w. w\<lparr>sent := Some b\<rparr>)"
  "streamRecv N = wireRecv fuel E auth cert statusErr" "closeSend N ep = wireOp (\<lambda>w. w\<lparr>sent := None\<rparr>)"
  by (simp_all add: wireNet_def)

abbreviation "unmoved s s' \<equiv> controllers (net s') = controllers (net s)"

lemma besidesD:
  "controllers (snd (readFile B f w)) = controllers w" "controllers (snd (loadX509KeyPair B c k w)) = controllers w"
  "controllers (snd (dialContext B ep t creds w)) = controllers w" "controllers (elapse B w) = controllers w"
  using besides by (simp_all add: besides_def)

lemma wp_load_unmoved: "wp (loadTLSCredentials N c) (\<lambda>_ s'. unmoved s s') s"
  unfolding loadTLSCredentials_def by (auto simp: wp_simps wp_onNet besidesD split: sum.splits option.splits)

lemma wp_creds_unmoved: "wp (currentTransportCredentials N c) (\<lambda>_ s'. unmoved s s') s"
  unfolding currentTransportCredentials_def
  by (auto simp: wp_getS wp_if wp_ret wp_bindE wp_seqE wp_modify Let_def split: sum.splits option.splits intro!: wp_mono [OF wp_load_unmoved])

lemma wp_dial_unmoved: "wp (dial N ep) (\<lambda>_ s'. unmoved s s') s"
  unfolding dial_def wp_getS wp_if wp_bindE wp_wrapErr wp_ret
  by (auto intro!: wp_mono [OF wp_creds_unmoved] simp: wp_simps wp_onNet besidesD split: sum.splits)

lemma wireOp_sent: "fst (wireOp f w) = Inr () \<Longrightarrow> (\<And>w. sent (f w) = x) \<Longrightarrow> sent (snd (wireOp f w)) = x"
  by (auto simp: wireOp_def mishap_def split: list.splits option.splits)

lemma wp_send_tracked:
  assumes "ready (net s)"
  shows "wp (sendToEndpoint N n ep p) (\<lambda>r s'. progress (net s) (net s') \<and> (\<forall>ack. r = Inr ack \<longrightarrow> arrived p (net s'))) s"
proof -
  have ready: "ready w" if "controllers w = controllers (net s)" for w using assms that by (simp add: ready_def)
  have rest: "wp (case decodeBatchPayload (unmarshalBatch N) p of
            Inl e \<Rightarrow> throw (TransportError ErrorKindDecode ep n e)
          | Inr batch \<Rightarrow> getS (\<lambda>s1.
              seqE (wrapErr ErrorKindSend ep n (onNet (streamSend N ep batch)))
                (getS (\<lambda>s2. bindE (wrapErr ErrorKindReceive ep n (onNet (streamRecv N ep))) (\<lambda>ack.
                  case validateAck (BatchId batch) ack of
                    Some e \<Rightarrow> throw (TransportError ErrorKindReceive ep n e)
                  | None \<Rightarrow> getS (\<lambda>s3.
                      seqE (ignoreE (onNet (closeSend N ep)))
                        (seqE (modify (\<lambda>s. s\<lparr>client := updateStats ep (clock N (net s2) - clock N (net s1))
                                 (clock N (net s3) - clock N (net s2)) z (client s)\<rparr>))
                          (ret (the ack)))))))))
     (\<lambda>r s'. progress (net s) (net s') \<and> (\<forall>ack. r = Inr ack \<longrightarrow> arrived p (net s'))) s'" if same: "unmoved s s'" for s' z
  proof (cases "decodeBatchPayload (unmarshalBatch N) p")
    case (Inl e)
    with same show ?thesis by (simp add: wp_throw progress_same [OF assms])
  next
    case (Inr b)
    then have b: "unmarshalBatch B p = Inr b" using decodeBatchPayload_valid [OF Inr] by simp
    obtain x w1 where x: "wireOp (\<lambda>w. w\<lparr>sent := Some b\<rparr>) (net s') = (x, w1)" by fastforce
    have w1: "controllers w1 = controllers (net s)" using wireOp_controllers [of "\<lambda>w. w\<lparr>sent := Some b\<rparr>" "net s'"] x same by simp
    obtain y w2 where y: "wireRecv fuel E auth cert statusErr ep w1 = (y, w2)" by fastforce
    obtain z' w3 where z': "wireOp (\<lambda>w. w\<lparr>sent := None\<rparr>) w2 = (z', w3)" by fastforce
    have w3: "controllers w3 = controllers w2" using wireOp_controllers [of "\<lambda>w. w\<lparr>sent := None\<rparr>" w2] z' by simp
    have t: "progress (net s) w2 \<and> (\<forall>ack. y = Inr (Some ack) \<longrightarrow> materialized E view (controllers w2 ep) b)" if "x = Inr ()"
      using wireRecv_tracked [OF ready [OF w1] _ y] wireOp_sent [of "\<lambda>w. w\<lparr>sent := Some b\<rparr>" "net s'" "Some b"] x that w1
      by (simp add: progress_def)
    then have t3: "x = Inr () \<Longrightarrow> progress (net s) w3" "x = Inr () \<Longrightarrow> y = Inr (Some ack) \<Longrightarrow> arrived p w3" for ack
      using w3 b by (auto simp: progress_def arrived_def)
    show ?thesis using Inr x y z' t t3 progress_same [OF assms w1]
      by (auto simp: wp_simps wp_onNet validateAck_None split: sum.splits option.splits)
  qed
  show ?thesis
    unfolding sendToEndpoint_def Let_def wp_getS
    by (intro wp_seq_inv [where P = "unmoved s"] rest)
       (auto simp: wp_wrapErr wp_onNet wireOp_controllers progress_same [OF assms] intro!: wp_mono [OF wp_dial_unmoved] split: sum.splits)
qed

lemma progress_ready: "ready w \<Longrightarrow> progress w w' \<Longrightarrow> ready w'"
  unfolding ready_def progress_def using served_good noGC_served by metis

end

sublocale pipeline \<subseteq> tracked: tracked_sender "sendToEndpoint (wireNet fuel E auth cert statusErr B)" ready progress arrived
proof
  fix w w1 w2 p
  show "ready w \<Longrightarrow> progress w w" by (rule progress_same) simp_all
  show "progress w w1 \<Longrightarrow> progress w1 w2 \<Longrightarrow> progress w w2" unfolding progress_def using served_trans by metis
  show "progress w w1 \<Longrightarrow> ready w \<Longrightarrow> ready w1" by (rule progress_ready)
  show "progress w w1 \<Longrightarrow> ready w \<Longrightarrow> arrived p w \<Longrightarrow> arrived p w1"
    unfolding progress_def arrived_def using materialized_served by metis
next
  fix n ep p r ack and s s' :: "('w, 'i, 's) wire cstate" assume s: "ready (net s)"
  show "sendToEndpoint N n ep p s = (r, s') \<Longrightarrow> progress (net s) (net s')" using wp_send_tracked [OF s, of n ep p] by (simp add: wp_def)
  show "sendToEndpoint N n ep p s = (Inr ack, s') \<Longrightarrow> arrived p (net s')" using wp_send_tracked [OF s, of n ep p] by (simp add: wp_def)
qed

context pipeline begin

text \<open>What the flush has seen acknowledged is in the inbox of a controller, from then on.\<close>

lemma history_tracked:
  assumes "history (clientEnv N code) evs t t'" "ready (net t)"
  shows "progress (net t) (net t') \<and> (\<forall>p. Acked p \<in> set evs \<longrightarrow> arrived p (net t'))"
  using assms
proof (induction rule: history.induct)
  case (hist_nil t)
  then show ?case using tracked.later_refl by simp
next
  case (hist_ctx evs t t1 r t2)
  then have "progress (net t1) (net t2)" using progress_ready
    by (intro progress_same) (auto simp: clientEnv_def Let_def besidesD)
  with hist_ctx show ?case using tracked.later_trans tracked.later_stored progress_ready by metis
next
  case (hist_time evs t t1 n t2)
  then have "progress (net t1) (net t2)" using progress_ready
    by (intro progress_same) (auto simp: clientEnv_def Let_def besidesD)
  with hist_time show ?case using tracked.later_trans tracked.later_stored progress_ready by metis
next
  case (hist_ack evs t t1 p a t2)
  then have r: "ready (net t1)" using progress_ready by blast
  from hist_ack(2) obtain ack where "Send N (sendToEndpoint N) p t1 = (Inr ack, t2)"
    by (auto simp: clientEnv_def sendCallback_def split: prod.splits sum.splits if_splits)
  from tracked.Send_tracked [OF this r] have "progress (net t1) (net t2)" "arrived p (net t2)" by auto
  with hist_ack r show ?case using tracked.later_trans tracked.later_stored by auto
next
  case (hist_reject evs t t1 p e t2)
  then have r: "ready (net t1)" using progress_ready by blast
  obtain x where "Send N (sendToEndpoint N) p t1 = (x, t2)" using hist_reject(2)
    by (auto simp: clientEnv_def sendCallback_def split: prod.splits sum.splits if_splits)
  from tracked.Send_tracked [OF this r] have "progress (net t1) (net t2)" by auto
  with hist_reject r show ?case using tracked.later_trans tracked.later_stored by auto
next
  case (hist_fail evs t t1 p e t2)
  then have r: "ready (net t1)" using progress_ready by blast
  obtain x where "Send N (sendToEndpoint N) p t1 = (x, t2)" using hist_fail(2)
    by (auto simp: clientEnv_def sendCallback_def split: prod.splits sum.splits if_splits)
  from tracked.Send_tracked [OF this r] have "progress (net t1) (net t2)" by auto
  with hist_fail r show ?case using tracked.later_trans tracked.later_stored by auto
qed

end

section \<open>Interpretation\<close>

text \<open>Controllers that each have a bbolt inbox of their own.\<close>

definition stillNet :: "(bytes \<Rightarrow> goerr + TelemetryBatch) \<Rightarrow> ('w, 'i, 's) wire Net" where
  "stillNet unmarshal = \<lparr>clock = (\<lambda>_. 0), readFile = (\<lambda>_ w. (Inr [], w)), certsFromPEM = Some, loadX509KeyPair = (\<lambda>_ _ w. (Inr [], w)),
     dialContext = (\<lambda>_ _ _. wireOp id), openPush = (\<lambda>_ _ _ _. wireOp id), streamSend = (\<lambda>_ _. wireOp id),
     streamRecv = (\<lambda>_ w. (Inr None, w)), closeSend = (\<lambda>_. wireOp id), unmarshalBatch = unmarshal, contextErr = (\<lambda>_. None), elapse = id\<rparr>"

lemma stillNet_besides: "besides (stillNet unmarshal)"
  by (auto simp: besides_def stillNet_def wireOp_def mishap_def split: list.splits option.splits)

interpretation onBolt: pipeline "boltInboxOps plainCodec" "boltView plainCodec" "boltInv plainCodec" "aloneOn (boltInboxOps plainCodec) E"
  fuel auth cert statusErr "stillNet unmarshal" for E fuel auth cert statusErr unmarshal
  by (intro pipeline.intro ingest.intro bolt_inbox plainCodec_ok ingest_axioms.intro pipeline_axioms.intro stillNet_besides)
    (simp_all add: aloneOn_def run_refl)

section \<open>Property\<close>










end
