(* ===== verification/Safeconv.thy ===== *)
theory Safeconv
  imports Prelude
begin

text \<open>
  Saturating conversions and arithmetic on counters (\<^verbatim>\<open>pkg/safeconv/int.go\<close>).  A Go \<^verbatim>\<open>int\<close> or \<^verbatim>\<open>int64\<close> is an
  integer in the range of 64 bits, whose arithmetic wraps around; a \<^verbatim>\<open>uint64\<close> is a word.
\<close>

definition maxInt :: int where "maxInt = 2 ^ 63 - 1"
definition minInt :: int where "minInt = - (2 ^ 63)"

definition isInt :: "int \<Rightarrow> bool" where
  "isInt i \<longleftrightarrow> minInt \<le> i \<and> i \<le> maxInt"

text \<open>The value a Go integer operation stores.\<close>

definition wrapInt :: "int \<Rightarrow> int" where
  "wrapInt i = (i + 2 ^ 63) mod 2 ^ 64 - 2 ^ 63"

definition Uint64ToInt :: "64 word \<Rightarrow> int" where
  "Uint64ToInt v = (if v > of_int maxInt then maxInt else wrapInt (uint v))"

definition Uint64ToInt64 :: "64 word \<Rightarrow> int" where
  "Uint64ToInt64 v = (if v > of_int maxInt then maxInt else wrapInt (uint v))"

definition Int64ToInt :: "int \<Rightarrow> int" where
  "Int64ToInt v = (if v > maxInt then maxInt else if v < minInt then minInt else v)"

definition NonNegativeInt64ToUint64 :: "int \<Rightarrow> 64 word" where
  "NonNegativeInt64ToUint64 v = (if v \<le> 0 then 0 else of_int v)"

definition NonNegativeIntToUint64 :: "int \<Rightarrow> 64 word" where
  "NonNegativeIntToUint64 v = (if v \<le> 0 then 0 else of_int v)"

definition IntToInt32 :: "int \<Rightarrow> int" where
  "IntToInt32 v = (if v > 2 ^ 31 - 1 then 2 ^ 31 - 1 else if v < - (2 ^ 31) then - (2 ^ 31) else v)"

definition AddUint64 :: "64 word \<Rightarrow> 64 word \<Rightarrow> 64 word" where
  "AddUint64 l r = (if l > - 1 - r then - 1 else l + r)"

definition AddUint64ToInt :: "int \<Rightarrow> 64 word \<Rightarrow> int" where
  "AddUint64ToInt base v =
     (if v = 0 then base
      else if base \<ge> maxInt then maxInt
      else if base < 0 then
        (let converted = Uint64ToInt v in
         if converted > wrapInt (maxInt + base) then maxInt else wrapInt (base + converted))
      else if v > of_int (wrapInt (maxInt - base)) then maxInt
      else wrapInt (base + wrapInt (uint v)))"

definition AddInts :: "int \<Rightarrow> int \<Rightarrow> int" where
  "AddInts l r =
     (if r > 0 \<and> l > wrapInt (maxInt - r) then maxInt
      else if r < 0 \<and> l < wrapInt (minInt - r) then minInt
      else wrapInt (l + r))"

definition MultiplyUint64 :: "64 word \<Rightarrow> 64 word \<Rightarrow> 64 word" where
  "MultiplyUint64 l r = (if l = 0 \<or> r = 0 then 0 else if l > (- 1) div r then - 1 else l * r)"

section \<open>Correctness\<close>

text \<open>The reference: clamp the exact result to the range of the type.\<close>

definition clampInt :: "int \<Rightarrow> int" where
  "clampInt i = max minInt (min maxInt i)"

definition clampUint64 :: "int \<Rightarrow> int" where
  "clampUint64 i = max 0 (min (2 ^ 64 - 1) i)"

lemma wrapInt_id: "isInt i \<Longrightarrow> wrapInt i = i"
  by (simp add: wrapInt_def isInt_def minInt_def maxInt_def)

lemma isIntI: "0 \<le> i \<Longrightarrow> i \<le> maxInt \<Longrightarrow> isInt i"
  by (simp add: isInt_def minInt_def)

lemma clampInt_id: "isInt i \<Longrightarrow> clampInt i = i"
  by (simp add: clampInt_def isInt_def)

lemma clampInt_max: "maxInt < i \<Longrightarrow> clampInt i = maxInt"
  by (simp add: clampInt_def minInt_def maxInt_def)

lemma uint_maxInt: "uint (of_int maxInt :: 64 word) = maxInt"
  by (simp add: maxInt_def uint_word_of_int)

lemma uint_max: "uint (- 1 :: 64 word) = 2 ^ 64 - 1"
  by (simp add: unsigned_minus_1_eq_mask mask_eq_exp_minus_1)

lemma uint_range: "0 \<le> uint (v :: 64 word)" "uint (v :: 64 word) < 2 ^ 64"
  using uint_lt2p [of v] by simp_all

lemma Uint64ToInt_clamp: "Uint64ToInt v = clampInt (uint v)" "Uint64ToInt64 v = clampInt (uint v)"
proof -
  have "v > of_int maxInt \<longleftrightarrow> uint v > maxInt" by (simp add: word_less_def uint_maxInt)
  moreover have "isInt (uint v)" if "\<not> uint v > maxInt" using that uint_range [of v] by (simp add: isIntI)
  ultimately show "Uint64ToInt v = clampInt (uint v)" "Uint64ToInt64 v = clampInt (uint v)"
    by (auto simp: Uint64ToInt_def Uint64ToInt64_def clampInt_max clampInt_id wrapInt_id)
qed

lemma AddUint64_clamp: "uint (AddUint64 l r) = clampUint64 (uint l + uint r)"
proof -
  have "uint (- 1 - r) = 2 ^ 64 - 1 - uint r" using uint_range [of r] uint_max by (simp add: uint_sub_if')
  then have "l > - 1 - r \<longleftrightarrow> uint l + uint r > 2 ^ 64 - 1" by (simp add: word_less_def) linarith
  then show ?thesis using uint_range [of l] uint_range [of r]
    by (auto simp: AddUint64_def clampUint64_def uint_max uint_plus_if')
qed

lemma AddInts_clamp:
  assumes "isInt l" "isInt r"
  shows "AddInts l r = clampInt (l + r)"
  using assms by (auto simp: AddInts_def clampInt_def wrapInt_id isInt_def minInt_def maxInt_def)

lemma div_less_mult:
  assumes "0 < (b :: int)"
  shows "a div b < c \<longleftrightarrow> a < c * b"
proof
  assume "a div b < c"
  then have "(a div b + 1) * b \<le> c * b" using assms by (intro mult_right_mono) auto
  moreover have "(a div b + 1) * b = b * (a div b) + b" by (simp add: algebra_simps)
  moreover have "a = b * (a div b) + a mod b" by simp
  moreover have "a mod b < b" using assms by simp
  ultimately show "a < c * b" by linarith
next
  assume less: "a < c * b"
  show "a div b < c"
  proof (rule ccontr)
    assume "\<not> a div b < c"
    then have "c * b \<le> (a div b) * b" using assms by (intro mult_right_mono) auto
    also have "\<dots> \<le> a" using pos_mod_sign [OF assms, of a] div_mult_mod_eq [of a b] by linarith
    finally show False using less by simp
  qed
qed

lemma MultiplyUint64_clamp: "uint (MultiplyUint64 l r) = clampUint64 (uint l * uint r)"
proof (cases "l = 0 \<or> r = 0")
  case False
  then have pos: "0 < uint l" "0 < uint r" using uint_range [of l] uint_range [of r] by (auto simp: less_le unsigned_eq_0_iff)
  have "uint ((- 1) div r) = (2 ^ 64 - 1) div uint r" by (simp add: uint_div uint_max)
  then have big: "l > (- 1) div r \<longleftrightarrow> uint l * uint r > 2 ^ 64 - 1"
    using div_less_mult [OF pos(2), of "2 ^ 64 - 1" "uint l"] by (simp add: word_less_def)
  show ?thesis
  proof (cases "uint l * uint r > 2 ^ 64 - 1")
    case True
    with big False show ?thesis using pos by (simp add: MultiplyUint64_def clampUint64_def uint_max)
  next
    case small: False
    have "uint (l * r) = uint l * uint r"
      using small pos by (simp add: uint_word_ariths)
    with big small False pos show ?thesis by (simp add: MultiplyUint64_def clampUint64_def)
  qed
qed (auto simp: MultiplyUint64_def clampUint64_def)

text \<open>\<open>AddUint64ToInt\<close> clamps for a base that is not negative; for a negative base it saturates too early.\<close>

lemma AddUint64ToInt_clamp:
  assumes "0 \<le> base" "isInt base"
  shows "AddUint64ToInt base v = clampInt (base + uint v)"
proof (cases "v = 0 \<or> base = maxInt")
  case True
  with assms uint_range [of v] show ?thesis by (auto simp: AddUint64ToInt_def clampInt_def isInt_def)
next
  case False
  have "uint (of_int (maxInt - base) :: 64 word) = maxInt - base"
  proof -
    have "(maxInt - base) mod 2 ^ 64 = maxInt - base" using assms by (simp add: maxInt_def isInt_def)
    then show ?thesis by (simp only: uint_word_of_int len_num1 len_bit0) simp
  qed
  then have "v > of_int (wrapInt (maxInt - base)) \<longleftrightarrow> base + uint v > maxInt"
    using assms by (simp add: word_less_def wrapInt_id isInt_def minInt_def) linarith
  moreover have "wrapInt (base + wrapInt (uint v)) = base + uint v" if "base + uint v \<le> maxInt"
  proof -
    have "isInt (uint v)" "isInt (base + uint v)" using that assms(1) uint_range [of v] by (auto intro: isIntI)
    then show ?thesis by (simp add: wrapInt_id)
  qed
  moreover have "clampInt (base + uint v) = base + uint v" if "base + uint v \<le> maxInt"
    using that assms(1) uint_range [of v] by (simp add: clampInt_id isIntI)
  ultimately show ?thesis using False assms by (auto simp: AddUint64ToInt_def isInt_def clampInt_max not_less)
qed

lemma AddUint64ToInt_early: "AddUint64ToInt (- 1) (of_int maxInt) = maxInt \<and> clampInt (- 1 + uint (of_int maxInt :: 64 word)) = maxInt - 1"
  by (simp add: AddUint64ToInt_def Let_def Uint64ToInt_clamp uint_maxInt clampInt_def wrapInt_id isInt_def minInt_def maxInt_def)

end
