(* ===== verification/Remediation.thy ===== *)
theory Remediation
  imports Telemetry Identities Safeconv "HOL-Library.AList" "HOL-Library.Sublist"
begin

text \<open>
  Checks before a remediation action (\<^verbatim>\<open>controller/remediation/validator.go\<close>): parameters of an action, the
  rules, the cooldown of a target.

  A value of type \<^verbatim>\<open>interface{}\<close> carries its dynamic type as a constructor.  Error texts leave out the
  formatted values.  \<open>clk n\<close> is the \<open>n\<close>-th reading of the clock during a call; every rule and the
  cooldown table hold their own mutex, so each check is one step.
\<close>

section \<open>Actions\<close>

datatype Param =
    PInt int | PInt8 "8 word" | PInt16 "16 word" | PInt32 "32 word" | PInt64 int
  | PUint "64 word" | PUint8 "8 word" | PUint16 "16 word" | PUint32 "32 word" | PUint64 "64 word"
  | PFloat32 float64 | PFloat64 float64 | PString string | PBytes bytes | PBool bool | POther

record Action =
  AType :: string
  ATarget :: string
  Parameters :: "(string \<times> Param) list"
  AReason :: string
  CanRollback :: bool

definition checkedSignedInt :: "int \<Rightarrow> string \<Rightarrow> goerr + int" where
  "checkedSignedInt v key = (if v > maxInt \<or> v < minInt then Inl (Plain (key @ '' is outside the supported integer range''))
     else Inr (Int64ToInt v))"

definition checkedUnsignedInt :: "64 word \<Rightarrow> string \<Rightarrow> goerr + int" where
  "checkedUnsignedInt v key = (if v > of_int maxInt then Inl (Plain (key @ '' is outside the supported integer range''))
     else Inr (Uint64ToInt v))"

definition truncRat :: "rat \<Rightarrow> int" where
  "truncRat q = (if q < 0 then ceiling q else floor q)"

definition checkedFloatInt :: "float64 \<Rightarrow> string \<Rightarrow> goerr + int" where
  "checkedFloatInt f key = (case f of
     Fin q \<Rightarrow> if of_int (truncRat q) \<noteq> q then Inl (Plain (key @ '' must be a finite whole number''))
              else if q < of_int minInt \<or> q \<ge> - of_int minInt then Inl (Plain (key @ '' is outside the supported integer range''))
              else Inr (truncRat q)
   | _ \<Rightarrow> Inl (Plain (key @ '' must be a finite whole number'')))"

text \<open>The result \<open>Inr None\<close> means that the parameter is absent.\<close>

definition actionIntParameter :: "Action \<Rightarrow> string \<Rightarrow> goerr + int option" where
  "actionIntParameter a key = (case map_of (Parameters a) key of
     None \<Rightarrow> Inr None
   | Some raw \<Rightarrow> map_sum id Some (case raw of
       PInt v \<Rightarrow> Inr v
     | PInt8 v \<Rightarrow> Inr (Int64ToInt (sint v))
     | PInt16 v \<Rightarrow> Inr (Int64ToInt (sint v))
     | PInt32 v \<Rightarrow> Inr (Int64ToInt (sint v))
     | PInt64 v \<Rightarrow> checkedSignedInt v key
     | PUint v \<Rightarrow> checkedUnsignedInt v key
     | PUint8 v \<Rightarrow> Inr (Uint64ToInt (ucast v))
     | PUint16 v \<Rightarrow> Inr (Uint64ToInt (ucast v))
     | PUint32 v \<Rightarrow> checkedUnsignedInt (ucast v) key
     | PUint64 v \<Rightarrow> checkedUnsignedInt v key
     | PFloat32 f \<Rightarrow> checkedFloatInt f key
     | PFloat64 f \<Rightarrow> checkedFloatInt f key
     | PString s \<Rightarrow> (case parseInt (trimSpace s) of None \<Rightarrow> Inl (Wrapped (key @ '' must be an integer'') (Plain ''strconv.Atoi''))
                    | Some v \<Rightarrow> Inr v)
     | _ \<Rightarrow> Inl (Plain (key @ '' has unsupported type''))))"

definition actionStringParameter :: "Action \<Rightarrow> string \<Rightarrow> goerr + string option" where
  "actionStringParameter a key = (case map_of (Parameters a) key of
     None \<Rightarrow> Inr None
   | Some (PString s) \<Rightarrow> Inr (Some (trimSpace s))
   | Some (PBytes bs) \<Rightarrow> Inr (Some (trimSpace (stringOf bs)))
   | Some _ \<Rightarrow> Inl (Plain (key @ '' has unsupported type'')))"

definition parseBool :: "string \<Rightarrow> bool option" where
  "parseBool s = (if s \<in> {''1'', ''t'', ''T'', ''TRUE'', ''true'', ''True''} then Some True
     else if s \<in> {''0'', ''f'', ''F'', ''FALSE'', ''false'', ''False''} then Some False else None)"

definition actionBoolParameter :: "Action \<Rightarrow> string \<Rightarrow> goerr + bool option" where
  "actionBoolParameter a key = (case map_of (Parameters a) key of
     None \<Rightarrow> Inr None
   | Some (PBool b) \<Rightarrow> Inr (Some b)
   | Some (PString s) \<Rightarrow> (case parseBool (trimSpace s) of None \<Rightarrow> Inl (Wrapped (key @ '' must be a boolean'') (Plain ''strconv.ParseBool''))
                         | Some b \<Rightarrow> Inr (Some b))
   | Some _ \<Rightarrow> Inl (Plain (key @ '' has unsupported type'')))"

text \<open>Go's zero value where the code ignores presence and error.\<close>

definition stringOrEmpty :: "goerr + string option \<Rightarrow> string" where
  "stringOrEmpty r = (case r of Inr (Some s) \<Rightarrow> s | _ \<Rightarrow> '''')"

section \<open>Rules\<close>

definition requiresProductionChangeRecord :: "string \<Rightarrow> bool" where
  "requiresProductionChangeRecord t \<longleftrightarrow> trimSpace (toLower t)
     \<in> {''scale_deployment'', ''restart_pod'', ''failover_traffic'', ''rollback_deployment'', ''delete_service''}"

definition scaleCheck :: "Action \<Rightarrow> goerr option" where
  "scaleCheck a = (case actionIntParameter a ''replicas'' of
     Inl e \<Rightarrow> Some e
   | Inr None \<Rightarrow> None
   | Inr (Some replicas) \<Rightarrow>
       if replicas = 0 then Some (Plain ''cannot scale to zero replicas'')
       else case actionIntParameter a ''max_safe_replicas'' of
         Inl e \<Rightarrow> Some e
       | Inr configured \<Rightarrow>
           let maxSafeReplicas = (case configured of Some c \<Rightarrow> if c > 0 then c else 16 | None \<Rightarrow> 16) in
           (case actionBoolParameter a ''cost_approved'' of
              Inl e \<Rightarrow> Some e
            | Inr approved \<Rightarrow>
                if replicas > maxSafeReplicas \<and> approved \<noteq> Some True then Some (Plain ''scale exceeds safe cap without cost approval'')
                else case actionIntParameter a ''current_replicas'' of
                  Inl e \<Rightarrow> Some e
                | Inr None \<Rightarrow> None
                | Inr (Some current) \<Rightarrow>
                    if current > 0 \<and> replicas > wrapInt (current * 2) \<and> approved \<noteq> Some True
                    then Some (Plain ''scale requires cost approval'') else None))"

definition safetyRuleValidate :: "Action option \<Rightarrow> goerr option" where
  "safetyRuleValidate ao = (case ao of
     None \<Rightarrow> Some (Plain ''action is required'')
   | Some a \<Rightarrow>
       let environment = stringOrEmpty (actionStringParameter a ''environment'') in
       case (if AType a = ''scale_deployment'' then scaleCheck a else None) of
         Some e \<Rightarrow> Some e
       | None \<Rightarrow>
           if AType a = ''delete_service'' \<and> equalFold environment ''production'' then Some (Plain ''cannot delete production service'')
           else if equalFold environment ''production'' \<and> requiresProductionChangeRecord (AType a)
               \<and> trimSpace (stringOrEmpty (actionStringParameter a ''change_id'')) = ''''
               \<and> trimSpace (stringOrEmpty (actionStringParameter a ''compliance_ticket'')) = ''''
           then Some (Plain ''production action requires change_id or compliance_ticket'')
           else None)"

record RateLimit =
  maxActions :: int
  window :: int
  rhistory :: "(string \<times> int list) list"

definition newRateLimitRule :: "int \<Rightarrow> int \<Rightarrow> RateLimit" where
  "newRateLimitRule n w = \<lparr>maxActions = n, window = w, rhistory = []\<rparr>"

definition historyOf :: "RateLimit \<Rightarrow> string \<Rightarrow> int list" where
  "historyOf r k = (case map_of (rhistory r) k of None \<Rightarrow> [] | Some ts \<Rightarrow> ts)"

definition rateLimitValidate :: "int \<Rightarrow> Action \<Rightarrow> RateLimit \<Rightarrow> goerr option \<times> RateLimit" where
  "rateLimitValidate now a r =
     (let key = ATarget a; cutoff = now - window r;
          valid = filter (\<lambda>t. t > cutoff) (historyOf r key);
          r = r\<lparr>rhistory := AList.update key valid (rhistory r)\<rparr>
      in if int (length valid) \<ge> maxActions r then (Some (Plain ''rate limit exceeded''), r)
         else (None, r\<lparr>rhistory := AList.update key (valid @ [now]) (rhistory r)\<rparr>))"

definition newPermissionRule :: "string list \<Rightarrow> (string \<times> bool) list" where
  "newPermissionRule allowed = fold (\<lambda>a m. AList.update a True m) allowed []"

definition permissionRuleValidate :: "(string \<times> bool) list \<Rightarrow> Action option \<Rightarrow> goerr option" where
  "permissionRuleValidate allowed ao = (case ao of
     None \<Rightarrow> Some (Plain ''action is required'')
   | Some a \<Rightarrow> if map_of allowed (AType a) \<noteq> Some True then Some (Plain ''action type is not allowed'') else None)"

datatype Rule = SafetyRule | RateLimitRule RateLimit | PermissionRule "(string \<times> bool) list"

fun ruleName :: "Rule \<Rightarrow> string" where
  "ruleName SafetyRule = ''safety''"
| "ruleName (RateLimitRule r) = ''rate_limit''"
| "ruleName (PermissionRule m) = ''permission''"

fun ruleValidate :: "int \<Rightarrow> Action \<Rightarrow> Rule \<Rightarrow> goerr option \<times> Rule" where
  "ruleValidate now a SafetyRule = (safetyRuleValidate (Some a), SafetyRule)"
| "ruleValidate now a (RateLimitRule r) = (case rateLimitValidate now a r of (e, r) \<Rightarrow> (e, RateLimitRule r))"
| "ruleValidate now a (PermissionRule m) = (permissionRuleValidate m (Some a), PermissionRule m)"

section \<open>The validator\<close>

record ActionValidator =
  rules :: "Rule list"
  cooldowns :: "(string \<times> int) list"

definition newActionValidator :: ActionValidator where
  "newActionValidator = \<lparr>rules = [], cooldowns = []\<rparr>"

definition AddRule :: "Rule \<Rightarrow> ActionValidator \<Rightarrow> ActionValidator" where
  "AddRule rule v = v\<lparr>rules := rules v @ [rule]\<rparr>"

definition cooldownPeriod :: int where "cooldownPeriod = 5 * 60 * 10 ^ 9"

definition isInCooldown :: "int \<Rightarrow> string \<Rightarrow> ActionValidator \<Rightarrow> bool" where
  "isInCooldown now target v = (case map_of (cooldowns v) target of
     None \<Rightarrow> False | Some lastAction \<Rightarrow> now - lastAction < cooldownPeriod)"

fun runRules :: "(nat \<Rightarrow> int) \<Rightarrow> nat \<Rightarrow> Action \<Rightarrow> Rule list \<Rightarrow> goerr option \<times> Rule list" where
  "runRules clk n a [] = (None, [])"
| "runRules clk n a (r # rs) = (case ruleValidate (clk n) a r of
     (Some e, r') \<Rightarrow> (Some (Wrapped (ruleName r) e), r' # rs)
   | (None, r') \<Rightarrow> (case runRules clk (Suc n) a rs of (e, rs') \<Rightarrow> (e, r' # rs')))"

definition Validate :: "(nat \<Rightarrow> int) \<Rightarrow> Action option \<Rightarrow> ActionValidator \<Rightarrow> goerr option \<times> ActionValidator" where
  "Validate clk ao v = (case ao of
     None \<Rightarrow> (Some (Plain ''action is required''), v)
   | Some a \<Rightarrow>
       if isInCooldown (clk 0) (ATarget a) v then (Some (Plain ''target is in cooldown period''), v)
       else case runRules clk 1 a (rules v) of (e, rs) \<Rightarrow> (e, v\<lparr>rules := rs\<rparr>))"

definition RecordAction :: "int \<Rightarrow> string \<Rightarrow> ActionValidator \<Rightarrow> ActionValidator" where
  "RecordAction now target v = v\<lparr>cooldowns := AList.update target now (cooldowns v)\<rparr>"

section \<open>What the validator admits\<close>

text \<open>The values that \<open>actionIntParameter\<close> returns are Go integers if the parameters are.\<close>

definition goParams :: "Action \<Rightarrow> bool" where
  "goParams a \<longleftrightarrow> (\<forall>(k, p) \<in> set (Parameters a). case p of PInt v \<Rightarrow> isInt v | PInt64 v \<Rightarrow> isInt v | _ \<Rightarrow> True)"

lemma isInt_clamp: "isInt (clampInt i)"
  by (auto simp: isInt_def clampInt_def minInt_def maxInt_def)

lemma isInt_Int64ToInt: "isInt (Int64ToInt i)"
  by (auto simp: isInt_def Int64ToInt_def minInt_def maxInt_def)

lemma parseInt_isInt: "parseInt s = Some i \<Longrightarrow> isInt i"
  by (auto simp: parseInt_def isInt_def minInt_def maxInt_def Let_def split: list.splits if_splits option.splits)

lemma checkedFloatInt_isInt:
  assumes "checkedFloatInt f key = Inr i"
  shows "isInt i"
proof (cases f)
  case (Fin q)
  with assms have q: "of_int i = q" "of_int minInt \<le> q" "q < - of_int minInt" by (auto simp: checkedFloatInt_def split: if_splits)
  then have "of_int minInt \<le> (of_int i :: rat)" "(of_int i :: rat) < of_int (- minInt)" by simp_all
  then have "minInt \<le> i" "i < - minInt" by (simp_all only: of_int_le_iff of_int_less_iff)
  then show ?thesis by (simp add: isInt_def minInt_def maxInt_def)
qed (use assms in \<open>auto simp: checkedFloatInt_def\<close>)

lemma map_sum_Some: "map_sum id Some x = Inr (Some i) \<longleftrightarrow> x = Inr i"
  by (cases x) auto

lemma actionIntParameter_isInt:
  assumes "goParams a" "actionIntParameter a key = Inr (Some i)"
  shows "isInt i"
proof -
  obtain raw where raw: "map_of (Parameters a) key = Some raw"
    using assms(2) by (auto simp: actionIntParameter_def split: option.splits)
  then have "(key, raw) \<in> set (Parameters a)" by (rule map_of_SomeD)
  with assms(1) have "case raw of PInt v \<Rightarrow> isInt v | PInt64 v \<Rightarrow> isInt v | _ \<Rightarrow> True" by (auto simp: goParams_def)
  with assms(2) raw show ?thesis
    by (cases raw) (auto simp: actionIntParameter_def map_sum_Some checkedSignedInt_def checkedUnsignedInt_def isInt_Int64ToInt Uint64ToInt_clamp isInt_clamp
        split: if_splits option.splits dest: parseInt_isInt checkedFloatInt_isInt)
qed

text \<open>Approval, cap and production flag of an action.\<close>

definition costApproved :: "Action \<Rightarrow> bool" where
  "costApproved a \<longleftrightarrow> actionBoolParameter a ''cost_approved'' = Inr (Some True)"

definition replicaCap :: "Action \<Rightarrow> int" where
  "replicaCap a = (case actionIntParameter a ''max_safe_replicas'' of Inr (Some c) \<Rightarrow> if c > 0 then c else 16 | _ \<Rightarrow> 16)"

definition inProduction :: "Action \<Rightarrow> bool" where
  "inProduction a \<longleftrightarrow> equalFold (stringOrEmpty (actionStringParameter a ''environment'')) ''production''"

definition hasChangeRecord :: "Action \<Rightarrow> bool" where
  "hasChangeRecord a \<longleftrightarrow> trimSpace (stringOrEmpty (actionStringParameter a ''change_id'')) \<noteq> ''''
     \<or> trimSpace (stringOrEmpty (actionStringParameter a ''compliance_ticket'')) \<noteq> ''''"

lemma scaleCheck_safe:
  assumes "scaleCheck a = None" "actionIntParameter a ''replicas'' = Inr (Some n)"
  shows "n \<noteq> 0 \<and> (costApproved a \<or> n \<le> replicaCap a
     \<and> (\<forall>c. actionIntParameter a ''current_replicas'' = Inr (Some c) \<and> 0 < c \<longrightarrow> n \<le> wrapInt (c * 2)))"
  using assms by (auto simp: scaleCheck_def costApproved_def replicaCap_def Let_def split: sum.splits option.splits if_splits)

lemma safetyRule_safe:
  assumes "safetyRuleValidate (Some a) = None"
  shows "AType a = ''scale_deployment'' \<Longrightarrow> scaleCheck a = None"
    and "inProduction a \<Longrightarrow> AType a \<noteq> ''delete_service'' \<and> (requiresProductionChangeRecord (AType a) \<longrightarrow> hasChangeRecord a)"
  using assms by (auto simp: safetyRuleValidate_def inProduction_def hasChangeRecord_def Let_def split: option.splits if_splits)

lemma runRules_accepts:
  assumes "runRules clk n a rs = (None, rs')" "r \<in> set rs"
  shows "\<exists>t. fst (ruleValidate t a r) = None"
  using assms
proof (induction rs arbitrary: n rs')
  case (Cons x xs)
  obtain e x' where x: "ruleValidate (clk n) a x = (e, x')" by fastforce
  with Cons.prems(1) have e: "e = None" by (cases e) auto
  obtain e2 xs' where xs: "runRules clk (Suc n) a xs = (e2, xs')" by fastforce
  with x e Cons.prems(1) have "e2 = None" by simp
  with Cons.IH xs x e Cons.prems(2) show ?case by (auto intro: exI [of _ "clk n"])
qed simp

section \<open>The rate limit\<close>

text \<open>The calls that a rate limit admits, with time and target.\<close>

fun rateRun :: "RateLimit \<Rightarrow> (int \<times> Action) list \<Rightarrow> (int \<times> string) list" where
  "rateRun r [] = []"
| "rateRun r ((t, a) # cs) = (case rateLimitValidate t a r of
     (None, r') \<Rightarrow> (t, ATarget a) # rateRun r' cs
   | (Some e, r') \<Rightarrow> rateRun r' cs)"

definition times :: "string \<Rightarrow> (int \<times> string) list \<Rightarrow> int list" where
  "times k acc = map fst (filter (\<lambda>(t, k'). k' = k) acc)"

definition inWindow :: "int \<Rightarrow> int \<Rightarrow> int list \<Rightarrow> nat" where
  "inWindow w T ts = length (filter (\<lambda>t. T - w < t \<and> t \<le> T) ts)"

text \<open>The history of a target is a late part of what was admitted.\<close>

definition tracks :: "RateLimit \<Rightarrow> (int \<times> string) list \<Rightarrow> int \<Rightarrow> bool" where
  "tracks r acc now \<longleftrightarrow> (\<forall>k. (\<exists>c \<le> now - window r. historyOf r k = filter (\<lambda>t. t > c) (times k acc)))
     \<and> (\<forall>(t, k) \<in> set acc. t \<le> now)"

lemma times_append [simp]: "times k (acc @ [(t, k')]) = times k acc @ (if k' = k then [t] else [])"
  by (simp add: times_def)

lemma times_le: "tracks r acc now \<Longrightarrow> t \<in> set (times k acc) \<Longrightarrow> t \<le> now"
  by (auto simp: tracks_def times_def)

lemma historyOf_update [simp]: "historyOf (r\<lparr>rhistory := AList.update k ts (rhistory r)\<rparr>) k' = (if k' = k then ts else historyOf r k')"
  by (simp add: historyOf_def update_conv')

lemma tracks_valid:
  assumes "tracks r acc now" "now \<le> t"
  shows "filter (\<lambda>x. x > t - window r) (historyOf r k) = filter (\<lambda>x. x > t - window r) (times k acc)"
proof -
  from assms(1) obtain c where c: "c \<le> now - window r" "historyOf r k = filter (\<lambda>x. x > c) (times k acc)" by (auto simp: tracks_def)
  have "x > c" if "x > t - window r" for x using that c(1) assms(2) by linarith
  then show ?thesis unfolding c(2) filter_filter by (intro filter_cong) auto
qed

lemma inWindow_accept:
  assumes new: "length (filter (\<lambda>x. x > t - w) ts) < n" and old: "inWindow w T ts \<le> n"
  shows "inWindow w T (ts @ [t]) \<le> n"
proof (cases "T - w < t \<and> t \<le> T")
  case True
  then have "inWindow w T ts \<le> length (filter (\<lambda>x. x > t - w) ts)"
    unfolding inWindow_def by (induction ts) auto
  with new True show ?thesis by (simp add: inWindow_def)
qed (use old in \<open>auto simp: inWindow_def\<close>)

lemma rateRun_bound:
  assumes "tracks r acc now" "sorted (now # map fst cs)" "0 < window r" "\<And>T k. inWindow (window r) T (times k acc) \<le> nat (maxActions r)"
  shows "inWindow (window r) T (times k (acc @ rateRun r cs)) \<le> nat (maxActions r)"
  using assms
proof (induction cs arbitrary: r acc now)
  case Nil
  then show ?case by simp
next
  case (Cons e cs)
  obtain t a where e: "e = (t, a)" by fastforce
  let ?k = "ATarget a" and ?w = "window r"
  let ?valid = "filter (\<lambda>x. x > t - ?w) (times ?k acc)"
  let ?r = "r\<lparr>rhistory := AList.update ?k ?valid (rhistory r)\<rparr>"
  have t: "now \<le> t" "sorted (t # map fst cs)" using Cons.prems(2) e by auto
  have valid: "filter (\<lambda>x. t - ?w < x) (historyOf r ?k) = ?valid" by (rule tracks_valid [OF Cons.prems(1) t(1)])
  have keep: "\<exists>c \<le> t - ?w. historyOf r j = filter (\<lambda>x. x > c) (times j acc)" for j
    using Cons.prems(1) t(1) unfolding tracks_def by (meson diff_right_mono order_trans)
  have past: "\<forall>(x, j) \<in> set acc. x \<le> t" using Cons.prems(1) t(1) by (auto simp: tracks_def)
  show ?case
  proof (cases "int (length ?valid) \<ge> maxActions r")
    case True
    then have run: "rateLimitValidate t a r = (Some (Plain ''rate limit exceeded''), ?r)"
      using valid by (simp add: rateLimitValidate_def Let_def)
    have "tracks ?r acc t" using keep past by (auto simp: tracks_def)
    from Cons.IH [OF this t(2)] Cons.prems(3,4) run e show ?thesis by simp
  next
    case False
    let ?r' = "?r\<lparr>rhistory := AList.update ?k (?valid @ [t]) (rhistory ?r)\<rparr>"
    from False have run: "rateLimitValidate t a r = (None, ?r')" using valid by (simp add: rateLimitValidate_def Let_def)
    have hist: "historyOf ?r' j = (if j = ?k then ?valid @ [t] else historyOf r j)" for j
      by (simp only: historyOf_update split: if_split) simp
    have tr: "tracks ?r' (acc @ [(t, ?k)]) t" unfolding tracks_def
    proof (intro conjI allI)
      fix j
      show "\<exists>c \<le> t - window ?r'. historyOf ?r' j = filter (\<lambda>x. x > c) (times j (acc @ [(t, ?k)]))"
      proof (cases "j = ?k")
        case True
        then have h: "historyOf ?r' j = filter (\<lambda>x. x > t - ?w) (times j (acc @ [(t, ?k)]))" unfolding hist using Cons.prems(3) by simp
        show ?thesis by (rule exI [of _ "t - ?w"], rule conjI) (simp, rule h)
      next
        case False
        then show ?thesis unfolding hist using keep [of j] by simp
      qed
    qed (use past in auto)
    have bound: "inWindow ?w T (times j (acc @ [(t, ?k)])) \<le> nat (maxActions r)" for T j
    proof (cases "j = ?k")
      case True
      have "length ?valid < nat (maxActions r)" using False by linarith
      then show ?thesis using inWindow_accept [OF _ Cons.prems(4)] True by simp
    qed (use Cons.prems(4) in simp)
    from Cons.IH [OF tr t(2)] Cons.prems(3) bound run e show ?thesis by simp
  qed
qed

end
