(* ===== verification/RemediationExec.thy ===== *)
theory RemediationExec
  imports Remediation
begin

text \<open>
  Execution of remediation actions (\<^verbatim>\<open>controller/remediation\<close>): the executor with its concurrency slots
  (\<^verbatim>\<open>executor.go\<close>), playbooks (\<^verbatim>\<open>playbook.go\<close>) and the governance gate of the engine (\<^verbatim>\<open>engine.go\<close>).

  The clock readings and context checks of one call are the record \<open>ExecIO\<close>.  The engine's effects on the
  outside are the list of the API calls and commands it issues; their results are arguments.  Logging is
  left out.
\<close>

section \<open>Data\<close>

record ResourceChange =
  ChangeType :: string
  ChangeName :: string
  OldValue :: string
  NewValue :: string

record ActionResult =
  Success :: bool
  Message :: string
  Changes :: "ResourceChange list"
  ResultDuration :: int
  ResultError :: "goerr option"

record ActionExecution =
  ExecID :: string
  ExecType :: string
  ExecTarget :: string
  StartedAt :: int
  Status :: string
  Result :: "ActionResult option"

record ExecConfig =
  DryRun :: bool
  MaxConcurrent :: int
  CooldownPeriod :: int
  RequireApproval :: bool
  MaxActionsPerHour :: int

record ActionRecord =
  RecordedAction :: Action
  RecordedResult :: ActionResult
  Timestamp :: int

text \<open>\<open>slots\<close> is the number of tokens in the channel, \<open>None\<close> for a nil channel.\<close>

record Executor =
  inflight :: "(string \<times> ActionExecution) list"
  slots :: "nat option"
  config :: ExecConfig
  validator :: "ActionValidator option"
  rollbackHistory :: "(string \<times> ActionRecord list) list"

record ExecIO =
  validatorClock :: "nat \<Rightarrow> int"
  ctxStart :: "goerr option"
  ctxRun :: "goerr option"
  idTime :: int
  startTime :: int
  endTime :: int
  stepStart :: int
  stepEnd :: int
  recordTime :: int
  coolTime :: int
  errorText :: "goerr \<Rightarrow> string"

definition newExecutor :: "ExecConfig \<Rightarrow> Executor" where
  "newExecutor c = \<lparr>inflight = [], slots = (if MaxConcurrent c > 0 then Some 0 else None), config = c, validator = None, rollbackHistory = []\<rparr>"

definition SetValidator :: "ActionValidator option \<Rightarrow> Executor \<Rightarrow> Executor" where
  "SetValidator v e = e\<lparr>validator := v\<rparr>"

section \<open>Running an action\<close>

definition failedResult :: "string \<Rightarrow> goerr option \<Rightarrow> ActionResult" where
  "failedResult msg err = \<lparr>Success = False, Message = msg, Changes = [], ResultDuration = 0, ResultError = err\<rparr>"

definition okResult :: "string \<Rightarrow> ResourceChange list \<Rightarrow> ActionResult" where
  "okResult msg chs = \<lparr>Success = True, Message = msg, Changes = chs, ResultDuration = 0, ResultError = None\<rparr>"

definition change :: "string \<Rightarrow> string \<Rightarrow> string \<Rightarrow> ResourceChange" where
  "change t n v = \<lparr>ChangeType = t, ChangeName = n, OldValue = '''', NewValue = v\<rparr>"

definition scaleDeployment :: "(goerr \<Rightarrow> string) \<Rightarrow> Action \<Rightarrow> ActionResult" where
  "scaleDeployment txt a = (case actionIntParameter a ''replicas'' of
     Inl e \<Rightarrow> failedResult (''invalid replicas parameter: '' @ txt e) (Some e)
   | Inr p \<Rightarrow> let replicas = (case p of None \<Rightarrow> 3 | Some n \<Rightarrow> n) in
       okResult (''Scaled '' @ ATarget a @ '' to '' @ formatInt replicas @ '' replicas'')
         [change ''deployment'' (ATarget a) (formatInt replicas @ '' replicas'')])"

definition restartPodAction :: "Action \<Rightarrow> ActionResult" where
  "restartPodAction a = okResult (''Restarted pod '' @ ATarget a) [change ''pod'' (ATarget a) ''restarted'']"

definition failoverTraffic :: "(goerr \<Rightarrow> string) \<Rightarrow> Action \<Rightarrow> ActionResult" where
  "failoverTraffic txt a = (case actionStringParameter a ''region'' of
     Inl e \<Rightarrow> failedResult (''invalid region parameter: '' @ txt e) (Some e)
   | Inr p \<Rightarrow> let region = (case p of None \<Rightarrow> '''' | Some r \<Rightarrow> r) in
       okResult (''Failed over traffic to '' @ region) [change ''dns'' (ATarget a) region])"

definition clearCache :: "Action \<Rightarrow> ActionResult" where
  "clearCache a = okResult (''Cleared cache for '' @ ATarget a) []"

definition rollbackDeployment :: "Action \<Rightarrow> ActionResult" where
  "rollbackDeployment a = okResult (''Rolled back deployment '' @ ATarget a) []"

definition runLive :: "ExecIO \<Rightarrow> Action \<Rightarrow> ActionResult" where
  "runLive io a = (case ctxRun io of
     Some e \<Rightarrow> failedResult (errorText io e) (Some e)
   | None \<Rightarrow>
       if AType a = ''scale_deployment'' then scaleDeployment (errorText io) a
       else if AType a = ''restart_pod'' then restartPodAction a
       else if AType a = ''failover_traffic'' then failoverTraffic (errorText io) a
       else if AType a = ''clear_cache'' then clearCache a
       else if AType a = ''rollback_deployment'' then rollbackDeployment a
       else failedResult (''unknown action type: '' @ AType a) None)"

definition runDry :: "Action \<Rightarrow> ActionResult" where
  "runDry a = okResult (''Dry run: would execute '' @ AType a @ '' on '' @ ATarget a) [change (AType a) (ATarget a) ''[simulated]'']"

definition run :: "ExecIO \<Rightarrow> Action \<Rightarrow> Executor \<Rightarrow> ActionResult" where
  "run io a e = (if DryRun (config e) then runDry a else runLive io a)"

section \<open>Slots and tracking\<close>

definition tryAcquireSlot :: "Executor \<Rightarrow> bool \<times> Executor" where
  "tryAcquireSlot e = (case slots e of
     None \<Rightarrow> (False, e)
   | Some n \<Rightarrow> if int n < MaxConcurrent (config e) then (True, e\<lparr>slots := Some (n + 1)\<rparr>) else (False, e))"

definition releaseSlot :: "Executor \<Rightarrow> Executor" where
  "releaseSlot e = (case slots e of None \<Rightarrow> e | Some n \<Rightarrow> if n > 0 then e\<lparr>slots := Some (n - 1)\<rparr> else e)"

definition trackStart :: "string \<Rightarrow> Action \<Rightarrow> int \<Rightarrow> Executor \<Rightarrow> Executor" where
  "trackStart xid a startedAt e = e\<lparr>inflight := AList.update xid
     \<lparr>ExecID = xid, ExecType = AType a, ExecTarget = ATarget a, StartedAt = startedAt, Status = ''running'', Result = None\<rparr> (inflight e)\<rparr>"

definition statusFromResult :: "ActionResult option \<Rightarrow> string" where
  "statusFromResult r = (case r of None \<Rightarrow> ''failed'' | Some r \<Rightarrow> if Success r then ''completed'' else ''failed'')"

definition trackResult :: "string \<Rightarrow> ActionResult \<Rightarrow> Executor \<Rightarrow> Executor" where
  "trackResult xid r e = (case map_of (inflight e) xid of
     None \<Rightarrow> e
   | Some current \<Rightarrow> e\<lparr>inflight := AList.update xid (current\<lparr>Result := Some r, Status := statusFromResult (Some r)\<rparr>) (inflight e)\<rparr>)"

definition trackDone :: "string \<Rightarrow> goerr option \<Rightarrow> Executor \<Rightarrow> Executor" where
  "trackDone xid runErr e = (case map_of (inflight e) xid of
     None \<Rightarrow> e
   | Some current \<Rightarrow>
       let e = (if runErr \<noteq> None then e\<lparr>inflight := AList.update xid (current\<lparr>Status := ''failed''\<rparr>) (inflight e)\<rparr> else e) in
       e\<lparr>inflight := AList.delete xid (inflight e)\<rparr>)"

definition GetRunningActions :: "Executor \<Rightarrow> ActionExecution list" where
  "GetRunningActions e = map snd (inflight e)"

definition RecordRollback :: "int \<Rightarrow> Action \<Rightarrow> ActionResult \<Rightarrow> Executor \<Rightarrow> Executor" where
  "RecordRollback now a r e = e\<lparr>rollbackHistory := AList.update (ATarget a)
     ((case map_of (rollbackHistory e) (ATarget a) of None \<Rightarrow> [] | Some h \<Rightarrow> h) @ [\<lparr>RecordedAction = a, RecordedResult = r, Timestamp = now\<rparr>])
     (rollbackHistory e)\<rparr>"

definition GetHistory :: "string \<Rightarrow> Executor \<Rightarrow> ActionRecord list" where
  "GetHistory target e = (case map_of (rollbackHistory e) target of None \<Rightarrow> [] | Some h \<Rightarrow> h)"

definition Rollback :: "goerr option \<Rightarrow> string \<Rightarrow> Executor \<Rightarrow> goerr option" where
  "Rollback ctx target e = (case ctx of Some err \<Rightarrow> Some err
     | None \<Rightarrow> if GetHistory target e = [] then Some (Plain (''no rollback history for '' @ target)) else None)"

section \<open>Execute\<close>

text \<open>The call up to \<^verbatim>\<open>trackStart\<close>, and what it holds from then on.\<close>

record Ticket =
  TicketID :: string
  TicketAction :: Action
  TicketStart :: int

definition admit :: "ExecIO \<Rightarrow> Action option \<Rightarrow> Executor \<Rightarrow> (goerr + Ticket) \<times> Executor" where
  "admit io ao e = (case ao of
     None \<Rightarrow> (Inl (Plain ''action is required''), e)
   | Some a \<Rightarrow> (case ctxStart io of
       Some err \<Rightarrow> (Inl err, e)
     | None \<Rightarrow>
         (case (case validator e of None \<Rightarrow> (None, None)
                | Some v \<Rightarrow> (case Validate (validatorClock io) (Some a) v of (err, v) \<Rightarrow> (err, Some v))) of
            (Some err, v) \<Rightarrow> (Inl (Wrapped ''validation failed'' err), e\<lparr>validator := v\<rparr>)
          | (None, v) \<Rightarrow>
              let e = e\<lparr>validator := v\<rparr> in
              (case tryAcquireSlot e of
                 (False, e) \<Rightarrow> (Inl (Plain ''concurrency limit reached''), e)
               | (True, e) \<Rightarrow>
                   let xid = ''exec-'' @ formatInt (idTime io) in
                   (Inr \<lparr>TicketID = xid, TicketAction = a, TicketStart = startTime io\<rparr>, trackStart xid a (startTime io) e)))))"

text \<open>The rest of the call; the deferred functions run last, \<^verbatim>\<open>trackDone\<close> before \<^verbatim>\<open>releaseSlot\<close>.\<close>

definition complete :: "ExecIO \<Rightarrow> Ticket \<Rightarrow> Executor \<Rightarrow> ActionResult \<times> Executor" where
  "complete io tk e =
     (let a = TicketAction tk; xid = TicketID tk;
          result = (run io a e)\<lparr>ResultDuration := endTime io - TicketStart tk\<rparr>;
          e = trackResult xid result e;
          e = (if CanRollback a \<and> Success result then RecordRollback (recordTime io) a result e else e);
          e = (case validator e of
                 Some v \<Rightarrow> if ATarget a \<noteq> '''' \<and> Success result then e\<lparr>validator := Some (RecordAction (coolTime io) (ATarget a) v)\<rparr> else e
               | None \<Rightarrow> e)
      in (result, releaseSlot (trackDone xid None e)))"

definition Execute :: "ExecIO \<Rightarrow> Action option \<Rightarrow> Executor \<Rightarrow> (goerr + ActionResult) \<times> Executor" where
  "Execute io ao e = (case admit io ao e of
     (Inl err, e) \<Rightarrow> (Inl err, e)
   | (Inr tk, e) \<Rightarrow> (case complete io tk e of (r, e) \<Rightarrow> (Inr r, e)))"

section \<open>Playbooks\<close>

record PlaybookStep =
  StepName :: string
  StepType :: string
  Command :: string
  StepParameters :: "(string \<times> Param) list"
  StepTimeout :: int
  StepOnFailure :: string

record Playbook =
  PlaybookName :: string
  Description :: string
  Steps :: "PlaybookStep list"
  PlaybookTimeout :: int
  OnFailure :: string

record StepResult =
  SStep :: string
  SSuccess :: bool
  SDuration :: int
  SOutput :: string
  SError :: string
  SChanges :: "ResourceChange list"

record PlaybookResult =
  RPlaybook :: string
  RSuccess :: bool
  RStartedAt :: int
  RCompletedAt :: int
  RSteps :: "StepResult list"

definition stepString :: "(string \<times> Param) list \<Rightarrow> string \<Rightarrow> string" where
  "stepString ps key = (case map_of ps key of Some (PString s) \<Rightarrow> s | _ \<Rightarrow> '''')"

text \<open>The steps \<open>read\<close>, \<open>validate\<close> and \<open>notify\<close> only look at the context.  A dry run on a live executor uses an
  executor of its own that shares the validator.\<close>

definition executeStep :: "ExecIO \<Rightarrow> PlaybookStep \<Rightarrow> bool \<Rightarrow> Executor option \<Rightarrow> StepResult \<times> Executor option" where
  "executeStep io step dryRun eo =
     (let base = \<lparr>SStep = StepName step, SSuccess = False, SDuration = stepEnd io - stepStart io, SOutput = '''', SError = '''', SChanges = []\<rparr> in
      if StepType step = ''read'' then
        (case ctxStart io of Some err \<Rightarrow> (base\<lparr>SError := errorText io err\<rparr>, eo)
         | None \<Rightarrow> (base\<lparr>SSuccess := True, SOutput := ''read output for '' @ Command step\<rparr>, eo))
      else if StepType step = ''write'' \<or> StepType step = ''execute'' then
        (case eo of
           None \<Rightarrow> (base\<lparr>SError := ''executor is required''\<rparr>, eo)
         | Some e \<Rightarrow>
             let a = \<lparr>AType = Command step, ATarget = stepString (StepParameters step) ''target'', Parameters = StepParameters step,
                      AReason = '''', CanRollback = False\<rparr>;
                 own = dryRun \<and> \<not> DryRun (config e);
                 x = (if own then SetValidator (validator e) (newExecutor ((config e)\<lparr>DryRun := True\<rparr>)) else e)
             in (case Execute io (Some a) x of (r, x) \<Rightarrow>
                  (case r of
                     Inl err \<Rightarrow> base\<lparr>SError := errorText io err\<rparr>
                   | Inr ar \<Rightarrow> base\<lparr>SSuccess := Success ar, SOutput := Message ar, SChanges := Changes ar,
                       SError := (case ResultError ar of None \<Rightarrow> '''' | Some err \<Rightarrow> errorText io err)\<rparr>,
                   Some (if own then e\<lparr>validator := validator x\<rparr> else x))))
      else if StepType step = ''validate'' \<or> StepType step = ''notify'' then
        (case ctxStart io of Some err \<Rightarrow> (base\<lparr>SError := errorText io err\<rparr>, eo) | None \<Rightarrow> (base\<lparr>SSuccess := True\<rparr>, eo))
      else (base\<lparr>SError := ''unknown step type: '' @ StepType step\<rparr>, eo))"

text \<open>The rollback of a playbook walks over the steps and logs them.\<close>

fun runSteps :: "(nat \<Rightarrow> ExecIO) \<Rightarrow> nat \<Rightarrow> string \<Rightarrow> bool \<Rightarrow> PlaybookStep list \<Rightarrow> StepResult list \<Rightarrow> Executor option
    \<Rightarrow> (goerr option \<times> StepResult list) \<times> Executor option" where
  "runSteps io n onFailure dryRun [] done eo = ((None, done), eo)"
| "runSteps io n onFailure dryRun (step # rest) done eo =
     (case executeStep (io n) step dryRun eo of (r, eo) \<Rightarrow>
        if SSuccess r then runSteps io (Suc n) onFailure dryRun rest (done @ [r]) eo
        else let action = (if StepOnFailure step = '''' then onFailure else StepOnFailure step) in
          if action = ''continue'' then runSteps io (Suc n) onFailure dryRun rest (done @ [r]) eo
          else if action = ''rollback'' then ((Some (Plain (''step '' @ StepName step @ '' failed, rollback executed'')), done @ [r]), eo)
          else ((Some (Plain (''step '' @ StepName step @ '' failed: '' @ SError r)), done @ [r]), eo))"

definition RunPlaybook :: "(nat \<Rightarrow> ExecIO) \<Rightarrow> int \<Rightarrow> int \<Rightarrow> Playbook option \<Rightarrow> bool \<Rightarrow> Executor option
    \<Rightarrow> (goerr option \<times> PlaybookResult option) \<times> Executor option" where
  "RunPlaybook io t0 t1 po dryRun eo = (case po of
     None \<Rightarrow> ((Some (Plain ''playbook is required''), None), eo)
   | Some p \<Rightarrow> (case runSteps io 0 (OnFailure p) dryRun (Steps p) [] eo of ((err, results), eo) \<Rightarrow>
       ((err, Some \<lparr>RPlaybook = PlaybookName p, RSuccess = (err = None), RStartedAt = t0, RCompletedAt = t1, RSteps = results\<rparr>), eo)))"

definition simpleStep :: "string \<Rightarrow> string \<Rightarrow> string \<Rightarrow> (string \<times> Param) list \<Rightarrow> PlaybookStep" where
  "simpleStep n t c ps = \<lparr>StepName = n, StepType = t, Command = c, StepParameters = ps, StepTimeout = 0, StepOnFailure = ''''\<rparr>"

definition ScaleUpPlaybook :: "int \<Rightarrow> Playbook" where
  "ScaleUpPlaybook replicas = \<lparr>PlaybookName = ''scale_up'', Description = ''Scale up deployment to handle increased load'',
     Steps = [simpleStep ''check_current_capacity'' ''read'' ''kubectl get deployment'' [(''output'', PString ''json'')],
              simpleStep ''scale_replicas'' ''write'' ''scale_deployment'' [(''replicas'', PInt replicas)],
              simpleStep ''verify_scaling'' ''validate'' ''check_replicas'' [(''expected'', PInt replicas)]],
     PlaybookTimeout = 0, OnFailure = ''rollback''\<rparr>"

definition RestartPodPlaybook :: Playbook where
  "RestartPodPlaybook = \<lparr>PlaybookName = ''restart_pod'', Description = ''Gracefully restart a pod'',
     Steps = [simpleStep ''drain_connections'' ''write'' ''drain_pod'' [], simpleStep ''delete_pod'' ''write'' ''restart_pod'' [],
              simpleStep ''verify_ready'' ''validate'' ''check_ready'' []],
     PlaybookTimeout = 0, OnFailure = ''stop''\<rparr>"

definition FailoverPlaybook :: "string \<Rightarrow> Playbook" where
  "FailoverPlaybook region = \<lparr>PlaybookName = ''failover'', Description = ''Shift traffic to a secondary region'',
     Steps = [simpleStep ''verify_secondary'' ''read'' ''check_region_health'' [(''region'', PString region)],
              simpleStep ''switch_traffic'' ''write'' ''failover_traffic'' [(''region'', PString region)],
              simpleStep ''verify_traffic'' ''validate'' ''check_traffic'' [(''region'', PString region)]],
     PlaybookTimeout = 0, OnFailure = ''rollback''\<rparr>"

section \<open>The engine\<close>

record RemediationRequest =
  ReqID :: string
  ReqAction :: string
  ReqTarget :: string
  ReqNamespace :: string
  ReqParams :: "(string \<times> string) list"
  ReqReason :: string
  RequestedBy :: string
  ReqExecutionLevel :: string
  BlastRadius :: string
  RollbackAction :: string
  ReqTimeout :: string
  IdempotencyNote :: string
  LinkedEvidence :: "string list"

record Engine =
  k8sClient :: bool
  engineDryRun :: bool
  allowedScriptDirs :: "string list"

datatype effect = DeletePod string string | RunCommand string "string list"

record Outside =
  statPath :: "string \<Rightarrow> goerr option"
  perform :: "effect \<Rightarrow> goerr option"

definition isAbs :: "string \<Rightarrow> bool" where
  "isAbs p \<longleftrightarrow> (case p of [] \<Rightarrow> False | c # _ \<Rightarrow> c = CHR ''/'')"

fun containsDots :: "string \<Rightarrow> bool" where
  "containsDots (a # b # s) = (a = CHR ''.'' \<and> b = CHR ''.'' \<or> containsDots (b # s))"
| "containsDots s = False"

definition shellMeta :: "char list" where
  "shellMeta = ''|;&><()$'' @ [CHR 0x60, CHR 0x5C, CHR 10, CHR 13]"

definition validateScriptPath :: "Outside \<Rightarrow> string \<Rightarrow> string \<Rightarrow> goerr option" where
  "validateScriptPath W label path =
     (let path = trimSpace path in
      if path = '''' then Some (Plain (label @ '' path is empty''))
      else if \<not> isAbs path then Some (Plain (label @ '' path must be absolute''))
      else if containsDots path then Some (Plain (label @ '' path contains traversal sequence''))
      else if \<exists>c \<in> set path. c \<in> set shellMeta then Some (Plain (label @ '' path contains shell metacharacters''))
      else case statPath W path of Some e \<Rightarrow> Some (Wrapped (label @ '' path does not exist'') e) | None \<Rightarrow> None)"

text \<open>\<^verbatim>\<open>filepath.Clean\<close>: the elements of the path on a stack.\<close>

fun cleanElems :: "bool \<Rightarrow> string list \<Rightarrow> string list \<Rightarrow> string list" where
  "cleanElems rooted out [] = out"
| "cleanElems rooted out (e # es) =
     (if e = '''' \<or> e = ''.'' then cleanElems rooted out es
      else if e = ''..'' then
        (if out \<noteq> [] \<and> last out \<noteq> ''..'' then cleanElems rooted (butlast out) es
         else if rooted then cleanElems rooted out es else cleanElems rooted (out @ [e]) es)
      else cleanElems rooted (out @ [e]) es)"

definition cleanPath :: "string \<Rightarrow> string" where
  "cleanPath p = (let out = joinWith ''/'' (cleanElems (isAbs p) [] (splitChar (CHR ''/'') p)) in
     if isAbs p then ''/'' @ out else if out = '''' then ''.'' else out)"

definition validateScriptAllowlist :: "string \<Rightarrow> Engine \<Rightarrow> goerr option" where
  "validateScriptAllowlist script e =
     (if allowedScriptDirs e = [] then None
      else if \<exists>dir \<in> set (allowedScriptDirs e). prefix (cleanPath dir @ ''/'') (cleanPath script) then None
      else Some (Plain ''script is not in any allowed script directory''))"

definition restartPod :: "Outside \<Rightarrow> RemediationRequest \<Rightarrow> Engine \<Rightarrow> goerr option \<times> effect list" where
  "restartPod W req e =
     (if \<not> k8sClient e then (Some (Plain ''k8s client not initialized''), [])
      else let ns = (if ReqNamespace req = '''' then ''default'' else ReqNamespace req); f = DeletePod ns (ReqTarget req) in
        (perform W f, [f]))"

definition runAnsible :: "Outside \<Rightarrow> RemediationRequest \<Rightarrow> Engine \<Rightarrow> goerr option \<times> effect list" where
  "runAnsible W req e = (case map_of (ReqParams req) ''playbook'' of
     None \<Rightarrow> (Some (Plain ''missing 'playbook' parameter''), [])
   | Some playbook \<Rightarrow> (case validateScriptPath W ''playbook'' playbook of
       Some err \<Rightarrow> (Some err, [])
     | None \<Rightarrow>
         let given = (case map_of (ReqParams req) ''inventory'' of None \<Rightarrow> '''' | Some i \<Rightarrow> i);
             inventory = (if given = '''' then ''/etc/ansible/hosts'' else given) in
         (case validateScriptPath W ''inventory'' inventory of
            Some err \<Rightarrow> (Some err, [])
          | None \<Rightarrow>
              let f = RunCommand ''ansible-playbook'' ([playbook, ''-i'', inventory] @ (if ReqTarget req \<noteq> '''' then [''--limit'', ReqTarget req] else [])) in
              (map_option (Wrapped ''ansible failed'') (perform W f), [f]))))"

definition runScript :: "Outside \<Rightarrow> RemediationRequest \<Rightarrow> Engine \<Rightarrow> goerr option \<times> effect list" where
  "runScript W req e = (case map_of (ReqParams req) ''script'' of
     None \<Rightarrow> (Some (Plain ''missing 'script' parameter''), [])
   | Some script \<Rightarrow> (case validateScriptPath W ''script'' script of
       Some err \<Rightarrow> (Some err, [])
     | None \<Rightarrow> (case validateScriptAllowlist script e of
         Some err \<Rightarrow> (Some err, [])
       | None \<Rightarrow> let f = RunCommand script [] in (map_option (Wrapped ''script failed'') (perform W f), [f]))))"

definition executionLevel :: "RemediationRequest \<Rightarrow> Engine \<Rightarrow> string" where
  "executionLevel req e = (if ReqExecutionLevel req = '''' then (if engineDryRun e then ''dry_run'' else ''approval_required'')
     else ReqExecutionLevel req)"

definition engineExecute :: "Outside \<Rightarrow> RemediationRequest \<Rightarrow> Engine \<Rightarrow> goerr option \<times> effect list" where
  "engineExecute W req e =
     (let level = executionLevel req e in
      if level = ''suggest_only'' then (None, [])
      else if level = ''dry_run'' then (None, [])
      else if level = ''approval_required'' then (Some (Plain (''action '' @ ReqID req @ '' requires approval before execution'')), [])
      else if level \<noteq> ''auto_execute'' then (Some (Plain (''unknown execution level: '' @ level)), [])
      else if ReqAction req = ''restart_pod'' then restartPod W req e
      else if ReqAction req = ''ansible_playbook'' then runAnsible W req e
      else if ReqAction req = ''script'' then runScript W req e
      else (Some (Plain (''unknown action type: '' @ ReqAction req)), []))"

end
