(* ===== verification/RemediationProps.thy ===== *)
theory RemediationProps
  imports RemediationExec
begin

text \<open>
  What remediation promises: the actions that the validator admits, the number of actions within a window of a
  rate limit, the number of actions that run at once, and the effects of the engine.
\<close>

section \<open>The validator\<close>

lemma Validate_accepts:
  assumes "Validate clk (Some a) v = (None, v')"
  shows "\<not> isInCooldown (clk 0) (ATarget a) v"
    and "r \<in> set (rules v) \<Longrightarrow> \<exists>t. fst (ruleValidate t a r) = None"
proof -
  from assms show "\<not> isInCooldown (clk 0) (ATarget a) v" by (auto simp: Validate_def split: if_splits)
  with assms obtain rs where "runRules clk 1 a (rules v) = (None, rs)" by (auto simp: Validate_def split: prod.splits)
  then show "r \<in> set (rules v) \<Longrightarrow> \<exists>t. fst (ruleValidate t a r) = None" by (rule runRules_accepts)
qed

lemma newPermissionRule_mem: "map_of (newPermissionRule allowed) t = Some True \<longleftrightarrow> t \<in> set allowed"
proof -
  have "map_of (fold (\<lambda>a m. AList.update a True m) allowed m) t = Some True \<longleftrightarrow> t \<in> set allowed \<or> map_of m t = Some True" for m
    by (induction allowed arbitrary: m) (auto simp: update_conv')
  then show ?thesis by (simp add: newPermissionRule_def)
qed

lemma Validate_cooldown:
  assumes "Validate clk (Some a) v = (None, v')" "map_of (cooldowns v) (ATarget a) = Some t"
  shows "cooldownPeriod \<le> clk 0 - t"
  using Validate_accepts(1) [OF assms(1)] assms(2) by (simp add: isInCooldown_def)

lemma Validate_permitted:
  assumes "Validate clk (Some a) v = (None, v')" "PermissionRule (newPermissionRule allowed) \<in> set (rules v)"
  shows "AType a \<in> set allowed"
  using Validate_accepts(2) [OF assms] newPermissionRule_mem [of allowed "AType a"]
  by (auto simp: permissionRuleValidate_def split: if_splits)

lemma Validate_safetyRule:
  assumes "Validate clk (Some a) v = (None, v')" "SafetyRule \<in> set (rules v)"
  shows "safetyRuleValidate (Some a) = None"
  using Validate_accepts(2) [OF assms] by simp

text \<open>An action that the validator admits is not within the cooldown of its target (an earlier successful
  action on the target is at least five minutes old); its type is allowed by every permission rule; and if the
  safety rule is installed, a scaling does not go to zero replicas, stays below the cap and the double of the
  current replicas unless its cost is approved, and an action in production is no deletion of a service and has
  a change record where one is needed.\<close>

theorem Validate_safe:
  assumes "Validate clk (Some a) v = (None, v')"
  shows "(\<forall>t. map_of (cooldowns v) (ATarget a) = Some t \<longrightarrow> cooldownPeriod \<le> clk 0 - t)
    \<and> (\<forall>allowed. PermissionRule (newPermissionRule allowed) \<in> set (rules v) \<longrightarrow> AType a \<in> set allowed)
    \<and> (SafetyRule \<in> set (rules v) \<longrightarrow>
       (\<forall>n. AType a = ''scale_deployment'' \<and> actionIntParameter a ''replicas'' = Inr (Some n) \<longrightarrow>
          n \<noteq> 0 \<and> (costApproved a \<or> n \<le> replicaCap a
            \<and> (\<forall>c. actionIntParameter a ''current_replicas'' = Inr (Some c) \<and> 0 < c \<longrightarrow> n \<le> wrapInt (c * 2))))
       \<and> (inProduction a \<longrightarrow> AType a \<noteq> ''delete_service'' \<and> (requiresProductionChangeRecord (AType a) \<longrightarrow> hasChangeRecord a)))"
  (is "?cool \<and> ?allow \<and> (?rule \<longrightarrow> ?scale \<and> ?prod)")
proof -
  have ?cool using Validate_cooldown [OF assms] by blast
  moreover have ?allow using Validate_permitted [OF assms] by blast
  moreover have "?scale \<and> ?prod" if ?rule
  proof
    have ok: "safetyRuleValidate (Some a) = None" by (rule Validate_safetyRule [OF assms that])
    show ?scale using scaleCheck_safe safetyRule_safe(1) [OF ok] by blast
    show ?prod using safetyRule_safe(2) [OF ok] by blast
  qed
  ultimately show ?thesis by blast
qed

definition scaleAction :: "int \<Rightarrow> Action" where
  "scaleAction n = \<lparr>AType = ''scale_deployment'', ATarget = ''web'', Parameters = [(''replicas'', PInt n), (''current_replicas'', PInt 4)],
     AReason = '''', CanRollback = True\<rparr>"

definition exampleValidator :: ActionValidator where
  "exampleValidator = RecordAction 0 ''web'' (AddRule (RateLimitRule (newRateLimitRule 3 1000)) (AddRule SafetyRule
     (AddRule (PermissionRule (newPermissionRule [''scale_deployment''])) newActionValidator)))"

lemmas example_validator_simps = exampleValidator_def scaleAction_def RecordAction_def AddRule_def newActionValidator_def
  newPermissionRule_def newRateLimitRule_def Validate_def isInCooldown_def cooldownPeriod_def permissionRuleValidate_def
  safetyRuleValidate_def scaleCheck_def actionIntParameter_def actionBoolParameter_def actionStringParameter_def
  stringOrEmpty_def rateLimitValidate_def historyOf_def wrapInt_def equalFold_def toLower_def lowerChar_def

lemma exampleValidator_accepts: "\<exists>v'. Validate (\<lambda>_. cooldownPeriod) (Some (scaleAction 8)) exampleValidator = (None, v')"
  by (simp add: example_validator_simps)

theorem Validate_safe_witness:
  "actionIntParameter (scaleAction 8) ''replicas'' = Inr (Some 8) \<and> (8 :: int) \<noteq> 0
     \<and> (costApproved (scaleAction 8) \<or> 8 \<le> replicaCap (scaleAction 8))"
proof -
  obtain v' where v: "Validate (\<lambda>_. cooldownPeriod) (Some (scaleAction 8)) exampleValidator = (None, v')"
    using exampleValidator_accepts by blast
  have r: "actionIntParameter (scaleAction 8) ''replicas'' = Inr (Some 8)" by (simp add: actionIntParameter_def scaleAction_def)
  have s: "SafetyRule \<in> set (rules exampleValidator)" "AType (scaleAction 8) = ''scale_deployment''"
    by (simp_all add: example_validator_simps)
  from Validate_safe [OF v] r s show ?thesis by blast
qed

text \<open>C22. If the readings of the clock do not go back, every window of a rate limit contains at most the configured
  number of admitted actions on one target, whatever the sequence of requests is.\<close>

theorem rate_limit_bound:
  assumes "sorted (map fst calls)" "0 < w"
  shows "inWindow w T (times target (rateRun (newRateLimitRule n w) calls)) \<le> nat n"
proof (cases calls)
  case Nil
  then show ?thesis by (simp add: times_def inWindow_def)
next
  case (Cons c cs)
  let ?r = "newRateLimitRule n w"
  have "tracks ?r [] (fst c)"
    by (auto simp: tracks_def newRateLimitRule_def historyOf_def times_def)
  from rateRun_bound [OF this, of calls] assms Cons show ?thesis
    by (simp add: newRateLimitRule_def times_def inWindow_def)
qed

theorem rate_limit_bound_witness:
  "rateRun (newRateLimitRule 1 10) [(0, scaleAction 8), (5, scaleAction 8), (11, scaleAction 8)] = [(0, ''web''), (11, ''web'')]
   \<and> inWindow 10 9 (times ''web'' (rateRun (newRateLimitRule 1 10) [(0, scaleAction 8), (5, scaleAction 8), (11, scaleAction 8)])) \<le> nat 1"
proof
  show "rateRun (newRateLimitRule 1 10) [(0, scaleAction 8), (5, scaleAction 8), (11, scaleAction 8)] = [(0, ''web''), (11, ''web'')]"
    by (simp add: rateLimitValidate_def newRateLimitRule_def historyOf_def scaleAction_def Let_def)
  show "inWindow 10 9 (times ''web'' (rateRun (newRateLimitRule 1 10) [(0, scaleAction 8), (5, scaleAction 8), (11, scaleAction 8)])) \<le> nat 1"
    by (rule rate_limit_bound) simp_all
qed

section \<open>The executor\<close>





lemma keys_update: "fst ` set (AList.update k v xs) = insert k (fst ` set xs)"
  using dom_update [of k v xs] by (simp add: dom_map_of_conv_image_fst)

lemma keys_delete: "fst ` set (AList.delete k xs) = fst ` set xs - {k}"
  by (auto simp: AList.delete_eq image_iff)

lemma trackResult_frame [simp]:
  "config (trackResult x r e) = config e" "slots (trackResult x r e) = slots e"
  "fst ` set (inflight (trackResult x r e)) = fst ` set (inflight e)" "validator (trackResult x r e) = validator e"
  by (auto simp: trackResult_def keys_update split: option.splits dest: map_of_SomeD intro: rev_image_eqI)

lemma trackDone_frame [simp]:
  "config (trackDone x r e) = config e" "slots (trackDone x r e) = slots e"
  "fst ` set (inflight (trackDone x r e)) = fst ` set (inflight e) - {x}"
  by (auto simp: trackDone_def keys_update keys_delete map_of_eq_None_iff Let_def split: option.splits)

lemma RecordRollback_frame [simp]:
  "config (RecordRollback t a r e) = config e" "slots (RecordRollback t a r e) = slots e"
  "inflight (RecordRollback t a r e) = inflight e"
  by (simp_all add: RecordRollback_def)

lemma releaseSlot_frame [simp]:
  "config (releaseSlot e) = config e" "slots (releaseSlot e) = map_option (\<lambda>n. n - 1) (slots e)" "inflight (releaseSlot e) = inflight e"
  by (auto simp: releaseSlot_def split: option.splits)










section \<open>The engine\<close>

text \<open>A path that passed the check, and paths as sequences of elements.\<close>

definition checkedPath :: "Outside \<Rightarrow> string \<Rightarrow> bool" where
  "checkedPath W p \<longleftrightarrow> isAbs (trimSpace p) \<and> \<not> sublist ''..'' (trimSpace p) \<and> set (trimSpace p) \<inter> set shellMeta = {}
     \<and> statPath W (trimSpace p) = None"

definition elements :: "string \<Rightarrow> string list" where
  "elements p = cleanElems (isAbs p) [] (splitChar (CHR ''/'') p)"

lemma containsDots_iff: "containsDots p \<longleftrightarrow> sublist ''..'' p"
proof (induction p rule: containsDots.induct)
  case (1 a b s)
  then show ?case by (auto simp: sublist_Cons_right)
qed (auto simp: sublist_Cons_right)

lemma validateScriptPath_checked: "validateScriptPath W l p = None \<Longrightarrow> checkedPath W p"
  by (auto simp: validateScriptPath_def checkedPath_def containsDots_iff Let_def split: if_splits option.splits)

lemma cleanElems_set:
  "x \<in> set (cleanElems rooted out es) \<Longrightarrow> x \<in> set out \<or> x \<in> set es \<and> x \<noteq> ''''"
  by (induction rooted out es rule: cleanElems.induct) (auto split: if_splits dest: in_set_butlastD)

lemma splitChar_elems: "x \<in> set (splitChar c s) \<Longrightarrow> c \<notin> set x"
  by (induction s arbitrary: x) (auto split: if_splits list.splits)

lemma elements_proper: "x \<in> set (elements p) \<Longrightarrow> x \<noteq> '''' \<and> CHR ''/'' \<notin> set x"
  unfolding elements_def by (drule cleanElems_set) (auto dest: splitChar_elems)

lemma splitChar_not_Nil [simp]: "splitChar c s \<noteq> []"
  by (cases s) (auto split: list.splits)

lemma splitChar_sep: "splitChar c (xs @ c # ys) = splitChar c xs @ splitChar c ys"
  by (induction xs) (auto split: list.splits)

lemma joinWith_no_slash: "\<forall>x \<in> set xs. x \<noteq> '''' \<and> CHR ''/'' \<notin> set x \<Longrightarrow> \<not> isAbs (joinWith ''/'' xs)"
  by (induction "''/''" xs rule: joinWith.induct) (auto simp: isAbs_def append_eq_Cons_conv split: list.splits)

lemma cleanPath_abs: "isAbs p \<Longrightarrow> cleanPath p = ''/'' @ joinWith ''/'' (elements p)"
  by (simp add: cleanPath_def elements_def Let_def)

lemma cleanPath_isAbs: "isAbs (cleanPath p) \<longleftrightarrow> isAbs p"
proof (cases "isAbs p")
  case False
  then have "cleanPath p = (if joinWith ''/'' (elements p) = '''' then ''.'' else joinWith ''/'' (elements p))"
    by (simp add: cleanPath_def elements_def Let_def)
  moreover have "\<not> isAbs (joinWith ''/'' (elements p))" by (intro joinWith_no_slash ballI elements_proper)
  ultimately show ?thesis using False by (simp add: isAbs_def)
qed (simp add: cleanPath_def Let_def isAbs_def)

text \<open>The textual prefix test of the allowlist compares whole elements of the path.\<close>

lemma allowlist_below:
  assumes "isAbs dir" "prefix (cleanPath dir @ ''/'') (cleanPath p)"
  shows "strict_prefix (elements dir) (elements p)"
proof -
  let ?c = "CHR ''/''"
  have slash: "\<not> isAbs (joinWith ''/'' (elements q))" for q by (intro joinWith_no_slash ballI elements_proper)
  have "isAbs (cleanPath p)" using assms by (auto simp: cleanPath_abs prefix_def isAbs_def)
  then have p: "isAbs p" by (simp add: cleanPath_isAbs)
  with assms obtain rest where join: "joinWith [?c] (elements p) = joinWith [?c] (elements dir) @ ?c # rest"
    by (auto simp: cleanPath_abs prefix_def)
  then have ne: "elements p \<noteq> []" "elements dir \<noteq> []" using slash [of p] by (auto simp: isAbs_def)
  have split: "splitChar ?c (joinWith [?c] (elements q)) = elements q" if "elements q \<noteq> []" for q
    using that elements_proper by (intro splitChar_join) auto
  have "elements p = elements dir @ splitChar ?c rest"
    using arg_cong [OF join, of "splitChar ?c"] ne by (simp add: splitChar_sep split)
  then show ?thesis by (simp add: strict_prefix_def)
qed

text \<open>What the engine may do for a request.\<close>

definition authorized :: "Outside \<Rightarrow> RemediationRequest \<Rightarrow> Engine \<Rightarrow> effect \<Rightarrow> bool" where
  "authorized W req e f \<longleftrightarrow> ReqExecutionLevel req = ''auto_execute'' \<and> (case f of
     DeletePod ns pod \<Rightarrow> ReqAction req = ''restart_pod'' \<and> k8sClient e \<and> ns \<noteq> '''' \<and> pod = ReqTarget req
   | RunCommand cmd args \<Rightarrow>
       ReqAction req = ''script'' \<and> map_of (ReqParams req) ''script'' = Some cmd \<and> args = [] \<and> checkedPath W cmd
         \<and> (allowedScriptDirs e = [] \<or> (\<exists>dir \<in> set (allowedScriptDirs e). strict_prefix (elements dir) (elements cmd)))
     \<or> ReqAction req = ''ansible_playbook'' \<and> cmd = ''ansible-playbook''
         \<and> (\<exists>playbook inventory limit. args = [playbook, ''-i'', inventory] @ limit \<and> checkedPath W playbook \<and> checkedPath W inventory
              \<and> map_of (ReqParams req) ''playbook'' = Some playbook
              \<and> limit = (if ReqTarget req = '''' then [] else [''--limit'', ReqTarget req])))"

lemma executionLevel_auto: "executionLevel req e = ''auto_execute'' \<Longrightarrow> ReqExecutionLevel req = ''auto_execute''"
  by (auto simp: executionLevel_def split: if_splits)

lemma restartPod_authorized:
  "restartPod W req e = (r, fs) \<Longrightarrow> ReqExecutionLevel req = ''auto_execute'' \<Longrightarrow> ReqAction req = ''restart_pod''
     \<Longrightarrow> fs = [] \<and> r \<noteq> None \<or> (\<exists>f. fs = [f] \<and> authorized W req e f \<and> (r = None \<longleftrightarrow> perform W f = None))"
  by (auto simp: restartPod_def authorized_def Let_def split: if_splits)

lemma runAnsible_authorized:
  "runAnsible W req e = (r, fs) \<Longrightarrow> ReqExecutionLevel req = ''auto_execute'' \<Longrightarrow> ReqAction req = ''ansible_playbook''
     \<Longrightarrow> fs = [] \<and> r \<noteq> None \<or> (\<exists>f. fs = [f] \<and> authorized W req e f \<and> (r = None \<longleftrightarrow> perform W f = None))"
  by (auto simp: runAnsible_def authorized_def Let_def split: if_splits option.splits dest: validateScriptPath_checked dest!: sym [of "Some x" for x])

lemma runScript_authorized:
  assumes "runScript W req e = (r, fs)" "ReqExecutionLevel req = ''auto_execute''" "ReqAction req = ''script''"
    and dirs: "\<forall>dir \<in> set (allowedScriptDirs e). isAbs dir"
  shows "fs = [] \<and> r \<noteq> None \<or> (\<exists>f. fs = [f] \<and> authorized W req e f \<and> (r = None \<longleftrightarrow> perform W f = None))"
proof -
  have "allowedScriptDirs e = [] \<or> (\<exists>dir \<in> set (allowedScriptDirs e). strict_prefix (elements dir) (elements s))"
    if "validateScriptAllowlist s e = None" for s
    using that dirs allowlist_below by (auto simp: validateScriptAllowlist_def split: if_splits)
  then show ?thesis using assms(1-3)
    by (auto simp: runScript_def authorized_def Let_def split: option.splits dest: validateScriptPath_checked dest!: sym [of "Some x" for x])
qed

text \<open>C24. The engine touches the outside only for a request whose execution level is explicitly
  \<^verbatim>\<open>auto_execute\<close>, and then with one effect that the request asks for: the deletion of the named pod, the named
  script, or \<^verbatim>\<open>ansible-playbook\<close> with the named playbook.  A path in the effect is absolute, without
  \<^verbatim>\<open>..\<close> or shell metacharacters, and exists; a script lies below an allowed directory, compared by whole
  path elements, if there are any.  At that level the engine reports success only if the effect succeeded.\<close>

theorem engine_governed:
  assumes "\<forall>dir \<in> set (allowedScriptDirs e). isAbs dir" "engineExecute W req e = (r, fs)"
  shows "(fs = [] \<or> (\<exists>f. fs = [f] \<and> authorized W req e f))
    \<and> (ReqExecutionLevel req = ''auto_execute'' \<longrightarrow> r = None \<longrightarrow> (\<exists>f. fs = [f] \<and> perform W f = None))"
proof (cases "ReqExecutionLevel req = ''auto_execute''")
  case True
  then have "engineExecute W req e = (if ReqAction req = ''restart_pod'' then restartPod W req e
      else if ReqAction req = ''ansible_playbook'' then runAnsible W req e
      else if ReqAction req = ''script'' then runScript W req e
      else (Some (Plain (''unknown action type: '' @ ReqAction req)), []))"
    by (simp add: engineExecute_def executionLevel_def Let_def)
  with assms True show ?thesis
    using restartPod_authorized [of W req e r fs] runAnsible_authorized [of W req e r fs] runScript_authorized [of W req e r fs]
    by (auto split: if_splits)
next
  case False
  then have "fs = []" using assms(2) executionLevel_auto [of req e] by (auto simp: engineExecute_def Let_def split: if_splits)
  with False show ?thesis by simp
qed

definition exampleEngine :: Engine where
  "exampleEngine = \<lparr>k8sClient = False, engineDryRun = False, allowedScriptDirs = [''/opt/fix//./'']\<rparr>"

definition scriptRequest :: "string \<Rightarrow> RemediationRequest" where
  "scriptRequest p = \<lparr>ReqID = ''r1'', ReqAction = ''script'', ReqTarget = '''', ReqNamespace = '''', ReqParams = [(''script'', p)], ReqReason = '''',
     RequestedBy = ''ops'', ReqExecutionLevel = ''auto_execute'', BlastRadius = '''', RollbackAction = '''', ReqTimeout = '''', IdempotencyNote = '''',
     LinkedEvidence = []\<rparr>"

definition exampleOutside :: Outside where
  "exampleOutside = \<lparr>statPath = \<lambda>_. None, perform = \<lambda>_. None\<rparr>"

theorem engine_governed_witness:
  "authorized exampleOutside (scriptRequest ''/opt/fix/a'') exampleEngine (RunCommand ''/opt/fix/a'' [])
   \<and> fst (engineExecute exampleOutside (scriptRequest ''/opt/fixit/a'') exampleEngine) \<noteq> None"
proof -
  have run: "engineExecute exampleOutside (scriptRequest ''/opt/fix/a'') exampleEngine = (None, [RunCommand ''/opt/fix/a'' []])"
    and no: "fst (engineExecute exampleOutside (scriptRequest ''/opt/fixit/a'') exampleEngine) \<noteq> None"
    by (simp_all add: engineExecute_def scriptRequest_def exampleEngine_def exampleOutside_def executionLevel_def runScript_def validateScriptPath_def
        validateScriptAllowlist_def cleanPath_def isAbs_def trimSpace_def isSpace_def shellMeta_def Let_def)
  have "\<forall>dir \<in> set (allowedScriptDirs exampleEngine). isAbs dir" by (simp add: exampleEngine_def isAbs_def)
  from engine_governed [OF this run] no show ?thesis by simp
qed

section \<open>Behaviour worth knowing\<close>

text \<open>The playbook for a pod restart fails at its first step on a live executor: \<^verbatim>\<open>drain_pod\<close> is not an action of
  the executor.\<close>

lemma run_unknown:
  assumes "\<not> DryRun (config e)" "AType a \<notin> {''scale_deployment'', ''restart_pod'', ''failover_traffic'', ''clear_cache'', ''rollback_deployment''}"
  shows "\<not> Success (run io a e)"
  using assms by (auto simp: run_def runLive_def failedResult_def split: option.splits)

lemma admit_ticket: "admit io (Some a) e = (Inr tk, e') \<Longrightarrow> TicketAction tk = a \<and> config e' = config e"
  by (auto simp: admit_def tryAcquireSlot_def trackStart_def Let_def split: option.splits prod.splits if_splits)

lemma Execute_unknown:
  assumes "\<not> DryRun (config e)" "AType a \<notin> {''scale_deployment'', ''restart_pod'', ''failover_traffic'', ''clear_cache'', ''rollback_deployment''}"
    "Execute io (Some a) e = (Inr r, e')"
  shows "\<not> Success r"
proof -
  obtain tk e1 where ad: "admit io (Some a) e = (Inr tk, e1)" "complete io tk e1 = (r, e')"
    using assms(3) by (auto simp: Execute_def split: prod.splits sum.splits)
  then have "r = (run io a e1)\<lparr>ResultDuration := endTime io - TicketStart tk\<rparr>" "config e1 = config e"
    using admit_ticket by (auto simp: complete_def Let_def)
  with run_unknown [of e1 a io] assms(1,2) show ?thesis by simp
qed

lemma RestartPodPlaybook_fails:
  assumes "\<not> DryRun (config e)"
  shows "fst (fst (RunPlaybook io t0 t1 (Some RestartPodPlaybook) False (Some e))) \<noteq> None"
proof -
  let ?step = "simpleStep ''drain_connections'' ''write'' ''drain_pod'' []"
  have "\<not> SSuccess (fst (executeStep (io 0) ?step False (Some e)))"
    using Execute_unknown [OF assms, of "\<lparr>AType = ''drain_pod'', ATarget = '''', Parameters = [], AReason = '''', CanRollback = False\<rparr>" "io 0"]
    by (auto simp: executeStep_def simpleStep_def stepString_def Let_def split: prod.splits sum.splits)
  then show ?thesis
    by (auto simp: RunPlaybook_def RestartPodPlaybook_def simpleStep_def Let_def split: prod.splits)
qed

text \<open>A negative number of replicas passes the safety rule.\<close>

lemma negative_replicas: "safetyRuleValidate (Some (scaleAction (- 3))) = None"
  by (simp add: example_validator_simps)

text \<open>The rate limit counts an action that is then refused because no slot is free.\<close>

lemma refused_action_counts:
  assumes "r = newRateLimitRule 1 w" "0 < w" "validator e = Some (AddRule (RateLimitRule r) newActionValidator)" "slots e = None" "ctxStart io = None"
  shows "\<exists>e' r'. admit io (Some a) e = (Inl (Plain ''concurrency limit reached''), e')
     \<and> validator e' = Some \<lparr>rules = [RateLimitRule r'], cooldowns = []\<rparr> \<and> historyOf r' (ATarget a) = [validatorClock io 1]"
  using assms by (simp add: admit_def tryAcquireSlot_def Validate_def AddRule_def newActionValidator_def newRateLimitRule_def
      isInCooldown_def rateLimitValidate_def historyOf_def Let_def)

text \<open>A dry run of a playbook on a live executor starts the cooldown of its target.\<close>

lemma dry_run_cools:
  assumes "\<not> DryRun (config e)" "MaxConcurrent (config e) > 0" "validator e = Some newActionValidator"
    "StepType s = ''write''" "stepString (StepParameters s) ''target'' = t" "t \<noteq> ''''" "ctxStart io = None"
  shows "\<exists>e' v. snd (executeStep io s True (Some e)) = Some e' \<and> validator e' = Some v \<and> map_of (cooldowns v) t = Some (coolTime io)"
  using assms by (simp add: executeStep_def Execute_def admit_def Validate_def newActionValidator_def isInCooldown_def SetValidator_def newExecutor_def
      tryAcquireSlot_def trackStart_def complete_def run_def runDry_def okResult_def trackResult_def trackDone_def releaseSlot_def RecordAction_def
      update_conv' Let_def)

text \<open>The path is checked without its surrounding blanks and executed with them.\<close>

lemma untrimmed_script: "engineExecute exampleOutside (scriptRequest ''/opt/fix/a '') exampleEngine = (None, [RunCommand ''/opt/fix/a '' []])"
  by (simp add: engineExecute_def scriptRequest_def exampleEngine_def exampleOutside_def executionLevel_def runScript_def validateScriptPath_def
      validateScriptAllowlist_def cleanPath_def isAbs_def trimSpace_def isSpace_def shellMeta_def Let_def)

end
