(* ===== verification/Ring.thy ===== *)
theory Ring
  imports Main
begin

text \<open>
  The fixed-capacity circular buffer (\<^verbatim>\<open>pkg/collections/ring/ring.go\<close>) that bounds the histories of the
  controller, as an implementation of a list of which only the newest elements are kept.

  A nil ring is \<open>None\<close>.  The mutex makes every method one step.  An element type of Go has a zero value, the
  argument \<open>zero\<close>; the sum of two indexes of a slice does not overflow an \<^verbatim>\<open>int\<close>, so indexes are numbers.
\<close>

record 'a Ring =
  rbuf :: "'a list"
  rhead :: nat
  rsize :: nat

definition ringNew :: "'a \<Rightarrow> int \<Rightarrow> 'a Ring option" where
  "ringNew zero capacity = (if capacity \<le> 0 then None else Some \<lparr>rbuf = replicate (nat capacity) zero, rhead = 0, rsize = 0\<rparr>)"

definition ringCap :: "'a Ring option \<Rightarrow> nat" where
  "ringCap ro = (case ro of None \<Rightarrow> 0 | Some r \<Rightarrow> length (rbuf r))"

definition ringLen :: "'a Ring option \<Rightarrow> nat" where
  "ringLen ro = (case ro of None \<Rightarrow> 0 | Some r \<Rightarrow> rsize r)"

definition ringOldest :: "'a Ring option \<Rightarrow> 'a option" where
  "ringOldest ro = (case ro of None \<Rightarrow> None | Some r \<Rightarrow> if rsize r = 0 then None else Some (rbuf r ! rhead r))"

definition ringNewest :: "'a Ring option \<Rightarrow> 'a option" where
  "ringNewest ro = (case ro of None \<Rightarrow> None | Some r \<Rightarrow> if rsize r = 0 then None
     else Some (rbuf r ! ((rhead r + rsize r - 1) mod length (rbuf r))))"

definition ringPush :: "'a \<Rightarrow> 'a Ring option \<Rightarrow> 'a Ring option" where
  "ringPush v ro = (case ro of
     None \<Rightarrow> None
   | Some r \<Rightarrow>
       if length (rbuf r) = 0 then Some r
       else if rsize r < length (rbuf r)
       then Some (r\<lparr>rbuf := (rbuf r)[(rhead r + rsize r) mod length (rbuf r) := v], rsize := rsize r + 1\<rparr>)
       else Some (r\<lparr>rbuf := (rbuf r)[rhead r := v], rhead := (rhead r + 1) mod length (rbuf r)\<rparr>))"

text \<open>The loop of the slices: the elements at the logical positions from \<open>start\<close> on.\<close>

definition sliceFrom :: "nat \<Rightarrow> 'a Ring \<Rightarrow> 'a list" where
  "sliceFrom start r = map (\<lambda>i. rbuf r ! ((rhead r + i) mod length (rbuf r))) [start..<rsize r]"

definition sliceOldest :: "'a Ring option \<Rightarrow> 'a list" where
  "sliceOldest ro = (case ro of None \<Rightarrow> [] | Some r \<Rightarrow> if rsize r = 0 then [] else sliceFrom 0 r)"

definition sliceLastN :: "int \<Rightarrow> 'a Ring option \<Rightarrow> 'a list" where
  "sliceLastN n ro = (case ro of
     None \<Rightarrow> []
   | Some r \<Rightarrow>
       if n \<le> 0 then [] else if rsize r = 0 then []
       else let n = (if n > int (rsize r) then rsize r else nat n) in sliceFrom (rsize r - n) r)"

definition forEachOldest :: "('a \<Rightarrow> 's \<Rightarrow> 's) option \<Rightarrow> 'a Ring option \<Rightarrow> 's \<Rightarrow> 's" where
  "forEachOldest f ro s = (case f of None \<Rightarrow> s | Some f \<Rightarrow> fold f (sliceOldest ro) s)"

section \<open>The interface\<close>

text \<open>The newest elements of a list.\<close>

definition lastn :: "nat \<Rightarrow> 'a list \<Rightarrow> 'a list" where
  "lastn n xs = drop (length xs - n) xs"

lemma length_lastn [simp]: "length (lastn n xs) = min n (length xs)"
  by (simp add: lastn_def)

lemma lastn_Nil [simp]: "lastn n [] = []"
  by (simp add: lastn_def)

lemma lastn_short [simp]: "length xs \<le> n \<Longrightarrow> lastn n xs = xs"
  by (simp add: lastn_def)

lemma set_lastn: "set (lastn n xs) \<subseteq> set xs"
  by (simp add: lastn_def set_drop_subset)

lemma lastn_eq_Nil: "0 < n \<Longrightarrow> lastn n xs = [] \<longleftrightarrow> xs = []"
  by (cases xs) (simp_all add: lastn_def)

lemma last_lastn: "0 < n \<Longrightarrow> last (lastn n xs) = last xs"
  by (cases xs) (simp_all add: lastn_def last_drop)

lemma lastn_append: "lastn n (lastn n xs @ ys) = lastn n (xs @ ys)"
proof (cases "length xs \<le> n")
  case False
  then have "lastn n xs = drop (length xs - n) xs" "length (lastn n xs) = n" by (simp_all add: lastn_def)
  with False show ?thesis by (simp add: lastn_def add.commute)
qed simp

lemma lastn_full: "length xs = n \<Longrightarrow> 0 < n \<Longrightarrow> lastn n (xs @ [x]) = tl xs @ [x]"
  by (simp add: lastn_def Suc_diff_le drop_Suc)

locale bounded_log =
  fixes new :: "nat \<Rightarrow> 'r" and push :: "'a \<Rightarrow> 'r \<Rightarrow> 'r" and items :: "'r \<Rightarrow> 'a list" and cap :: "'r \<Rightarrow> nat" and good :: "'r \<Rightarrow> bool"
  assumes new_good: "0 < n \<Longrightarrow> good (new n)" and new_items: "0 < n \<Longrightarrow> items (new n) = []" and new_cap: "0 < n \<Longrightarrow> cap (new n) = n"
    and push_good: "good r \<Longrightarrow> good (push x r)" and push_cap: "good r \<Longrightarrow> cap (push x r) = cap r"
    and push_items: "good r \<Longrightarrow> items (push x r) = lastn (cap r) (items r @ [x])"
    and bounded: "good r \<Longrightarrow> length (items r) \<le> cap r" and cap_pos: "good r \<Longrightarrow> 0 < cap r"
begin

lemma pushes:
  assumes "good r"
  shows "good (fold push xs r) \<and> cap (fold push xs r) = cap r \<and> items (fold push xs r) = lastn (cap r) (items r @ xs)"
  using assms
proof (induction xs arbitrary: r)
  case Nil
  then show ?case by (simp add: bounded)
next
  case (Cons x xs)
  then show ?case using lastn_append [of "cap r" "items r @ [x]" xs] by (simp add: push_good push_cap push_items)
qed

lemma rebuild:
  assumes "0 < n"
  shows "good (fold push xs (new n)) \<and> cap (fold push xs (new n)) = n \<and> items (fold push xs (new n)) = lastn n xs"
  using pushes [OF new_good [OF assms]] assms by (simp add: new_items new_cap)

lemma new_last_push: "good r \<Longrightarrow> items (push x r) \<noteq> [] \<and> last (items (push x r)) = x"
  using cap_pos [of r] by (simp add: push_items lastn_def)

end

section \<open>The ring keeps the interface\<close>

definition ringInv :: "'a Ring option \<Rightarrow> bool" where
  "ringInv ro \<longleftrightarrow> (\<exists>r. ro = Some r \<and> rhead r < length (rbuf r) \<and> rsize r \<le> length (rbuf r))"

lemma sliceOldest_eq: "sliceOldest (Some r) = sliceFrom 0 r"
  by (simp add: sliceOldest_def sliceFrom_def)

lemma length_sliceOldest: "length (sliceOldest ro) = ringLen ro"
  by (cases ro) (simp_all add: sliceOldest_def ringLen_def sliceFrom_def)

lemma sliceOldest_nth:
  assumes "i < ringLen ro"
  shows "\<exists>r. ro = Some r \<and> sliceOldest ro ! i = rbuf r ! ((rhead r + i) mod length (rbuf r))"
  using assms by (cases ro) (auto simp: ringLen_def sliceOldest_eq sliceFrom_def)

text \<open>Different logical positions are different places of the buffer.\<close>

lemma mod_place:
  fixes h :: nat
  assumes "i < n" "j < n" "(h + i) mod n = (h + j) mod n"
  shows "i = j"
proof -
  have "i mod n = j mod n" using assms(3) by (simp add: nat_mod_eq_iff)
  with assms(1,2) show ?thesis by simp
qed

lemma ringPush_room:
  assumes "rhead r < length (rbuf r)" "rsize r < length (rbuf r)"
  shows "sliceOldest (ringPush v (Some r)) = sliceOldest (Some r) @ [v]"
proof -
  let ?n = "length (rbuf r)" and ?h = "rhead r" and ?s = "rsize r"
  have "(rbuf r)[(?h + ?s) mod ?n := v] ! ((?h + i) mod ?n) = rbuf r ! ((?h + i) mod ?n)" if "i < ?s" for i
    using mod_place [of i ?n ?s ?h] that assms by (intro nth_list_update_neq) auto
  moreover have "(?h + ?s) mod ?n < ?n" using assms by (intro mod_less_divisor) linarith
  moreover have "rbuf r \<noteq> []" using assms by auto
  ultimately show ?thesis using assms by (simp add: ringPush_def sliceOldest_eq sliceFrom_def)
qed

lemma ringPush_full:
  assumes "rhead r < length (rbuf r)" "rsize r = length (rbuf r)"
  shows "sliceOldest (ringPush v (Some r)) = tl (sliceOldest (Some r)) @ [v]"
proof -
  let ?n = "length (rbuf r)" and ?h = "rhead r" and ?b = "(rbuf r)[rhead r := v]"
  have n: "0 < ?n" using assms(1) by linarith
  have "sliceOldest (ringPush v (Some r)) = map (\<lambda>i. ?b ! ((?h + Suc i) mod ?n)) [0..<?n]"
    using assms n by (simp add: ringPush_def sliceOldest_eq sliceFrom_def mod_add_left_eq)
  also have "\<dots> = map (\<lambda>i. ?b ! ((?h + i) mod ?n)) (map Suc [0..<?n])" by simp
  also have "map Suc [0..<?n] = [1..<?n] @ [?n]" using n by (simp add: map_Suc_upt Suc_le_eq)
  also have "map (\<lambda>i. ?b ! ((?h + i) mod ?n)) ([1..<?n] @ [?n]) = map (\<lambda>i. rbuf r ! ((?h + i) mod ?n)) [1..<?n] @ [v]"
  proof -
    have "?b ! ((?h + i) mod ?n) = rbuf r ! ((?h + i) mod ?n)" if "1 \<le> i" "i < ?n" for i
      using mod_place [of i ?n 0 ?h] that assms(1) n by (intro nth_list_update_neq) auto
    then show ?thesis using assms(1) by simp
  qed
  also have "\<dots> = tl (sliceOldest (Some r)) @ [v]" using assms(2) n by (simp add: sliceOldest_eq sliceFrom_def map_tl [symmetric] upt_rec [of 0])
  finally show ?thesis .
qed

lemma ringPush_inv: "ringInv ro \<Longrightarrow> ringInv (ringPush v ro) \<and> ringCap (ringPush v ro) = ringCap ro"
  by (auto simp: ringInv_def ringPush_def ringCap_def)

lemma ringPush_items:
  assumes "ringInv ro"
  shows "sliceOldest (ringPush v ro) = lastn (ringCap ro) (sliceOldest ro @ [v])"
proof -
  from assms obtain r where r: "ro = Some r" "rhead r < length (rbuf r)" "rsize r \<le> length (rbuf r)" by (auto simp: ringInv_def)
  have len: "length (sliceOldest (Some r)) = rsize r" by (simp add: length_sliceOldest ringLen_def)
  show ?thesis
  proof (cases "rsize r < length (rbuf r)")
    case True
    with r len show ?thesis by (simp add: ringPush_room ringCap_def)
  next
    case False
    with r have "rsize r = length (rbuf r)" "0 < length (rbuf r)" by linarith+
    with r len show ?thesis by (simp add: ringPush_full ringCap_def lastn_full)
  qed
qed

definition ringOf :: "'a \<Rightarrow> nat \<Rightarrow> 'a Ring option" where
  "ringOf zero n = ringNew zero (int n)"

lemma ringOf_new:
  assumes "0 < n"
  shows "ringInv (ringOf zero n) \<and> sliceOldest (ringOf zero n) = [] \<and> ringCap (ringOf zero n) = n"
  using assms by (simp add: ringOf_def ringNew_def ringInv_def sliceOldest_def ringCap_def)

interpretation rg: bounded_log "ringOf zero" ringPush sliceOldest ringCap ringInv for zero
proof
  show "length (sliceOldest r) \<le> ringCap r" if "ringInv r" for r :: "'a Ring option"
    using that by (auto simp: length_sliceOldest ringInv_def ringLen_def ringCap_def)
  show "0 < ringCap r" if "ringInv r" for r :: "'a Ring option"
    using that by (auto simp: ringInv_def ringCap_def)
qed (simp_all add: ringOf_new ringPush_inv ringPush_items)

text \<open>The remaining queries, on the list that the ring stands for.\<close>

lemma ringOldest_items: "ringInv ro \<Longrightarrow> ringOldest ro = (case sliceOldest ro of [] \<Rightarrow> None | x # _ \<Rightarrow> Some x)"
  by (auto simp: ringInv_def ringOldest_def sliceOldest_eq sliceFrom_def upt_rec [of 0])

lemma ringNewest_items: "ringInv ro \<Longrightarrow> ringNewest ro = (if sliceOldest ro = [] then None else Some (last (sliceOldest ro)))"
  by (auto simp: ringInv_def ringNewest_def sliceOldest_eq sliceFrom_def last_map)

lemma sliceLastN_items: "ringInv ro \<Longrightarrow> sliceLastN n ro = lastn (nat n) (sliceOldest ro)"
  by (auto simp: ringInv_def sliceLastN_def sliceOldest_eq sliceFrom_def lastn_def drop_map Let_def nat_le_iff)

lemma lastn_lastn: "lastn k (lastn n xs) = lastn (min k n) xs"
  by (auto simp: lastn_def min_def intro!: arg_cong [where f = "\<lambda>i. drop i xs"])

text \<open>C25. The ring is a list of the newest elements: after any sequence of pushes to a new ring of a positive
  capacity, the slices, the length, the oldest and the newest element and the iteration are those of the last
  elements of the sequence, as many as the capacity allows, in the order of the pushes.\<close>

theorem ring_refines_list:
  assumes "0 < n" "r = fold ringPush xs (ringNew zero n)"
  shows "sliceOldest r = lastn (nat n) xs \<and> ringCap r = nat n \<and> ringLen r = min (nat n) (length xs)
    \<and> ringOldest r = (case lastn (nat n) xs of [] \<Rightarrow> None | x # _ \<Rightarrow> Some x)
    \<and> ringNewest r = (if xs = [] then None else Some (last xs))
    \<and> sliceLastN k r = lastn (min (nat k) (nat n)) xs
    \<and> forEachOldest (Some f) r s = fold f (lastn (nat n) xs) s"
proof -
  have r: "ringInv r" "ringCap r = nat n" "sliceOldest r = lastn (nat n) xs"
    using rg.rebuild [of "nat n" xs zero] assms by (simp_all add: ringOf_def)
  have "ringLen r = min (nat n) (length xs)" using length_sliceOldest [of r] r(3) by simp
  moreover have "last (lastn (nat n) xs) = last xs" "lastn (nat n) xs = [] \<longleftrightarrow> xs = []" 
    using assms(1) by (simp_all add: last_lastn lastn_eq_Nil)
  ultimately show ?thesis using r
    by (simp add: ringOldest_items ringNewest_items sliceLastN_items forEachOldest_def lastn_lastn)
qed

theorem ring_refines_list_witness:
  "sliceOldest (fold ringPush [1, 2, 3, 4, 5] (ringNew (0 :: nat) 3)) = [3, 4, 5]"
proof -
  have "sliceOldest (fold ringPush [1, 2, 3, 4, 5] (ringNew (0 :: nat) 3)) = lastn (nat 3) [1, 2, 3, 4, 5]"
    by (rule ring_refines_list [OF _ refl, where f = "\<lambda>x s. s" and s = "()" and k = 0, THEN conjunct1]) simp
  then show ?thesis by (simp add: lastn_def)
qed

end
