(* ===== verification/HotStore.thy ===== *)
theory HotStore
  imports Telemetry Ring "HOL-Library.AList" "HOL-Library.Multiset"
begin

text \<open>
  The hot store of the controller (\<^verbatim>\<open>controller/ingest/store.go\<close>): the registry of nodes with its retention, the
  metric history of a node, and the snapshots that are persisted.

  Of a node the fields are written out that these operations use; the others, which \<^verbatim>\<open>StoreMetrics\<close>,
  \<^verbatim>\<open>StoreProcesses\<close> and \<^verbatim>\<open>StoreLogs\<close> fill, are the field \<open>samples\<close>.  A Go map is an association list; \<open>order\<close>
  is the order in which a map is iterated.  Rounding of floating-point numbers is a parameter.
\<close>

section \<open>Data\<close>

record MetricHistorySample =
  SampleTime :: int
  SampleIngestedAt :: int
  SampleMetrics :: "(string \<times> float64) list"

record 'x NodeSnapshot =
  NodeID :: string
  NodeHostname :: string
  NodeVersion :: string
  NodeOS :: string
  NodeArch :: string
  NodeLabels :: "(string \<times> string) list"
  LastSeen :: int
  LastBatchID :: string
  LastCollectionAt :: int
  NodeLastIngestAt :: int
  IngestLagMs :: float64
  UpdatedAt :: int
  ServiceMetricObservedAt :: "(string \<times> int) list"
  ServiceMetricScopeMixed :: bool
  samples :: 'x

record StoreConfig =
  NodeRetention :: int
  HistorySamplesPerNode :: int
  MaxNodes :: int

record 'x MemoryStore =
  scfg :: StoreConfig
  nodes :: "(string \<times> 'x NodeSnapshot) list"
  history :: "(string \<times> MetricHistorySample Ring option) list"
  attached :: bool
  stateVersion :: "64 word"
  persistedVersion :: "64 word"
  lastPersistErr :: string

record 'x HotEnv =
  noSamples :: 'x
  fadd :: "float64 \<Rightarrow> float64 \<Rightarrow> float64"
  secondsToMs :: "int \<Rightarrow> float64"
  order :: "string list \<Rightarrow> string list"
  wallClock :: int

definition defaultStoreConfig :: StoreConfig where
  "defaultStoreConfig = \<lparr>NodeRetention = 24 * 3600 * 10 ^ 9, HistorySamplesPerNode = 1440, MaxNodes = 5000\<rparr>"

definition storeNormalized :: "StoreConfig \<Rightarrow> StoreConfig" where
  "storeNormalized c = \<lparr>NodeRetention = (if NodeRetention c \<le> 0 then NodeRetention defaultStoreConfig else NodeRetention c),
     HistorySamplesPerNode = (if HistorySamplesPerNode c \<le> 0 then HistorySamplesPerNode defaultStoreConfig else HistorySamplesPerNode c),
     MaxNodes = (if MaxNodes c \<le> 0 then MaxNodes defaultStoreConfig else MaxNodes c)\<rparr>"

definition newMemoryStoreWithConfig :: "StoreConfig \<Rightarrow> 'x MemoryStore" where
  "newMemoryStoreWithConfig c = \<lparr>scfg = storeNormalized c, nodes = [], history = [], attached = False, stateVersion = 0, persistedVersion = 0,
     lastPersistErr = ''''\<rparr>"

definition zeroSample :: MetricHistorySample where
  "zeroSample = \<lparr>SampleTime = 0, SampleIngestedAt = 0, SampleMetrics = []\<rparr>"

section \<open>Retention\<close>

definition seenAt :: "'x NodeSnapshot \<Rightarrow> int" where
  "seenAt n = (if LastSeen n = 0 then UpdatedAt n else LastSeen n)"

definition dropNodes :: "string set \<Rightarrow> 'x MemoryStore \<Rightarrow> 'x MemoryStore" where
  "dropNodes ks s = s\<lparr>nodes := filter (\<lambda>(k, n). k \<notin> ks) (nodes s), history := filter (\<lambda>(k, h). k \<notin> ks) (history s)\<rparr>"

definition expired :: "int \<Rightarrow> 'x MemoryStore \<Rightarrow> string set" where
  "expired now s = (if NodeRetention (scfg s) > 0
     then set (map fst (filter (\<lambda>(k, n). seenAt n = 0 \<or> seenAt n < now - NodeRetention (scfg s)) (nodes s))) else {})"

text \<open>The collectors in the order of their last sign of life; those at the front are dropped.\<close>

definition surplus :: "'x HotEnv \<Rightarrow> 'x MemoryStore \<Rightarrow> string set" where
  "surplus E s = (if MaxNodes (scfg s) > 0 \<and> int (length (nodes s)) > MaxNodes (scfg s)
     then let entries = sort_key (\<lambda>k. seenAt (the (map_of (nodes s) k))) (order E (map fst (nodes s))) in
       set (take (length entries - nat (MaxNodes (scfg s))) entries)
     else {})"

definition pruneNodesLocked :: "'x HotEnv \<Rightarrow> int \<Rightarrow> 'x MemoryStore \<Rightarrow> 'x MemoryStore" where
  "pruneNodesLocked E now s =
     (let now = (if now = 0 then wallClock E else now);
          s = dropNodes (expired now s) s
      in dropNodes (surplus E s) s)"

definition markDirtyLocked :: "'x HotEnv \<Rightarrow> int \<Rightarrow> 'x MemoryStore \<Rightarrow> 'x MemoryStore" where
  "markDirtyLocked E now s = pruneNodesLocked E now (s\<lparr>stateVersion := stateVersion s + 1\<rparr>)"

section \<open>Nodes\<close>

definition ensureNode :: "'x HotEnv \<Rightarrow> string \<Rightarrow> 'x MemoryStore \<Rightarrow> 'x NodeSnapshot" where
  "ensureNode E k s = (case map_of (nodes s) k of Some n \<Rightarrow> n
     | None \<Rightarrow> \<lparr>NodeID = k, NodeHostname = '''', NodeVersion = '''', NodeOS = '''', NodeArch = '''', NodeLabels = [], LastSeen = 0, LastBatchID = '''',
         LastCollectionAt = 0, NodeLastIngestAt = 0, IngestLagMs = Fin 0, UpdatedAt = 0, ServiceMetricObservedAt = [], ServiceMetricScopeMixed = False,
         samples = noSamples E\<rparr>)"

definition putNode :: "string \<Rightarrow> 'x NodeSnapshot \<Rightarrow> 'x MemoryStore \<Rightarrow> 'x MemoryStore" where
  "putNode k n s = s\<lparr>nodes := AList.update k n (nodes s)\<rparr>"

definition labelsToMap :: "Label option list \<Rightarrow> (string \<times> string) list" where
  "labelsToMap ls = fold (\<lambda>l m. case l of None \<Rightarrow> m
     | Some l \<Rightarrow> let key = trimSpace (Key l) in if key = '''' then m else AList.update key (Value l) m) ls []"

text \<open>The values of the closure \<^verbatim>\<open>add\<close> must agree where they are not blank.\<close>

fun selectAll :: "string \<Rightarrow> string list \<Rightarrow> string option" where
  "selectAll selected [] = Some selected"
| "selectAll selected (v # vs) = (let value = trimSpace v in
     if value = '''' then selectAll selected vs
     else if selected \<noteq> '''' \<and> selected \<noteq> value then None
     else selectAll value vs)"

definition serviceScopeValue :: "(string \<times> string) list \<Rightarrow> Label option list \<Rightarrow> string list \<Rightarrow> string option" where
  "serviceScopeValue collectorLabels metricLabels names = selectAll ''''
     (map (\<lambda>n. case map_of collectorLabels n of None \<Rightarrow> '''' | Some v \<Rightarrow> v) names
      @ concat (map (\<lambda>lo. case lo of None \<Rightarrow> [] | Some l \<Rightarrow> map (\<lambda>n. Value l) (filter (\<lambda>n. Key l = n) names)) metricLabels))"

text \<open>The key as the list of the values it quotes; the empty list is the empty key of an ambiguous scope.\<close>

definition serviceHealthMetricScopeKey :: "'x NodeSnapshot \<Rightarrow> Label option list \<Rightarrow> string list" where
  "serviceHealthMetricScopeKey n ls = (let value = serviceScopeValue (NodeLabels n) ls in
     case value [''namespace'', ''k8s_namespace''] of None \<Rightarrow> [] | Some namespace \<Rightarrow>
     (case value [''service'', ''app''] of None \<Rightarrow> [] | Some service \<Rightarrow>
     (case value [''workload'', ''k8s_workload''] of None \<Rightarrow> [] | Some workload \<Rightarrow>
     (case value [''pod_uid'', ''k8s_pod_uid'', ''pod_id''] of None \<Rightarrow> [] | Some podUID \<Rightarrow>
     (case value [''pod'', ''pod_name'', ''k8s_pod_name''] of None \<Rightarrow> [] | Some podName \<Rightarrow>
       [NodeID n, namespace, service, workload, podUID, podName])))))"

definition hotUpsertCollector :: "'x HotEnv \<Rightarrow> CollectorInfo \<Rightarrow> int \<Rightarrow> 'x MemoryStore \<Rightarrow> 'x MemoryStore" where
  "hotUpsertCollector E info heartbeat s =
     (let node = ensureNode E (CollectorId info) s;
          observed = ServiceMetricObservedAt node \<noteq> [];
          previousScope = serviceHealthMetricScopeKey node [];
          node = node\<lparr>NodeID := CollectorId info, NodeHostname := Hostname info, NodeVersion := CollectorVersion info, NodeOS := Os info,
            NodeArch := Arch info, NodeLabels := labelsToMap (CollectorLabels info)\<rparr>;
          node = (if observed \<and> previousScope \<noteq> serviceHealthMetricScopeKey node [] then node\<lparr>ServiceMetricScopeMixed := True\<rparr> else node);
          node = node\<lparr>LastSeen := heartbeat, UpdatedAt := heartbeat\<rparr>
      in markDirtyLocked E heartbeat (putNode (CollectorId info) node s))"

definition hotStoreBatchMeta :: "'x HotEnv \<Rightarrow> string \<Rightarrow> TelemetryBatch option \<Rightarrow> int \<Rightarrow> 'x MemoryStore \<Rightarrow> 'x MemoryStore" where
  "hotStoreBatchMeta E k bo receivedAt s = (case bo of
     None \<Rightarrow> s
   | Some b \<Rightarrow>
       let node = (ensureNode E k s)\<lparr>LastBatchID := BatchId b, LastSeen := receivedAt, UpdatedAt := receivedAt, NodeLastIngestAt := receivedAt\<rparr>;
           node = (if WallTimeUnixNano b > 0
             then let collectionAt = WallTimeUnixNano b + unixEpoch; lag = receivedAt - collectionAt in
               node\<lparr>LastCollectionAt := collectionAt, IngestLagMs := (if lag < 0 then Fin 0 else secondsToMs E lag)\<rparr>
             else node)
       in markDirtyLocked E receivedAt (putNode k node s))"

definition hotNode :: "string \<Rightarrow> 'x MemoryStore \<Rightarrow> 'x NodeSnapshot option" where
  "hotNode k s = map_of (nodes s) k"

section \<open>Metric history\<close>

definition aggregateMetrics :: "string list" where
  "aggregateMetrics = [
    ''node_network_receive_bytes_total'', ''node_network_transmit_bytes_total'', ''node_network_receive_packets_total'',
    ''node_network_transmit_packets_total'', ''node_network_receive_errs_total'', ''node_network_transmit_errs_total'',
    ''node_network_receive_drop_total'', ''node_network_transmit_drop_total'', ''node_network_receive_bytes_per_second'',
    ''node_network_transmit_bytes_per_second'', ''node_network_receive_packets_per_second'', ''node_network_transmit_packets_per_second'',
    ''node_network_receive_errs_per_second'', ''node_network_transmit_errs_per_second'', ''node_network_receive_drop_per_second'',
    ''node_network_transmit_drop_per_second'', ''node_disk_read_bytes_total'', ''node_disk_written_bytes_total'',
    ''node_disk_reads_completed_total'', ''node_disk_writes_completed_total'', ''node_disk_read_bytes_per_second'',
    ''node_disk_written_bytes_per_second'', ''node_disk_io_now'', ''node_schedstat_running_seconds_total'',
    ''node_schedstat_waiting_seconds_total'', ''node_schedstat_timeslices_total'', ''node_kmsg_messages_total'']"

definition shouldAggregateMetric :: "string \<Rightarrow> bool" where
  "shouldAggregateMetric name \<longleftrightarrow> name \<in> set aggregateMetrics"

definition trendMetrics :: "string list" where
  "trendMetrics = [
    ''node_cpu_usage_percent'', ''node_cpu_iowait_percent'', ''node_load1'', ''node_load5'', ''node_load15'', ''node_memory_used_percent'',
    ''node_memory_Used_bytes'', ''node_memory_used_bytes'', ''node_memory_Dirty_bytes'', ''node_memory_Writeback_bytes'',
    ''node_memory_MemTotal_bytes'', ''node_memory_total_bytes'', ''node_memory_MemAvailable_bytes'', ''node_memory_available_bytes'',
    ''node_memory_SwapTotal_bytes'', ''node_memory_SwapFree_bytes'', ''node_network_receive_bytes_per_second'',
    ''node_network_transmit_bytes_per_second'', ''node_network_total_receive_bytes_per_second'',
    ''node_network_total_transmit_bytes_per_second'', ''node_network_total_receive_packets_per_second'',
    ''node_network_total_transmit_packets_per_second'', ''node_network_total_errs_per_second'', ''node_network_total_drop_per_second'',
    ''node_network_utilization_peak_percent'', ''node_network_utilization_avg_percent'', ''node_network_capacity_utilization_percent'',
    ''node_network_interrupts_per_second'', ''node_tcp_retransmits_per_second'', ''node_tcp_retransmit_ratio'',
    ''node_softnet_dropped_per_second'', ''node_softnet_times_squeezed_per_second'', ''node_rdma_errors_per_second'',
    ''node_rdma_congestion_events_per_second'', ''node_disk_read_bytes_per_second'', ''node_disk_written_bytes_per_second'',
    ''node_disk_total_read_bytes_per_second'', ''node_disk_total_written_bytes_per_second'', ''node_disk_total_reads_per_second'',
    ''node_disk_total_writes_per_second'', ''node_disk_total_iops_per_second'', ''node_disk_queue_depth_total'',
    ''node_disk_queue_depth_avg'', ''node_disk_utilization_peak_percent'', ''node_disk_avg_read_latency_seconds'',
    ''node_disk_avg_write_latency_seconds'', ''node_disk_avg_request_latency_seconds'', ''node_disk_request_latency_p50_seconds'',
    ''node_disk_request_latency_p90_seconds'', ''node_disk_request_latency_p99_seconds'', ''service_latency_p95_ms'',
    ''service_latency_p99_ms'', ''service_request_latency_p95_ms'', ''service_request_latency_p99_ms'', ''service_log_burst_count'',
    ''service_log_error_warn_count'', ''service_log_error_count'', ''node_nvme_total_read_bytes_per_second'',
    ''node_nvme_total_written_bytes_per_second'', ''node_nvme_total_iops_per_second'', ''node_nvme_queue_depth_total'',
    ''node_nvme_utilization_peak_percent'', ''node_nvme_avg_request_latency_seconds'', ''node_filesystem_total_used_percent'',
    ''node_filesystem_space_pressure_percent'', ''node_filesystem_inode_pressure_percent'', ''node_vmstat_pgpgin_per_second'',
    ''node_vmstat_pgpgout_per_second'', ''node_vmstat_nr_dirtied_per_second'', ''node_vmstat_nr_written_per_second'',
    ''node_numa_locality_ratio_percent'', ''node_numa_miss_ratio_percent'', ''node_numa_hit_ratio_percent'',
    ''node_vmstat_nr_dirty_pages'', ''node_vmstat_nr_writeback_pages'', ''node_pressure_io_some_avg10'', ''node_pressure_io_full_avg10'',
    ''node_pressure_memory_some_avg10'', ''node_pressure_memory_full_avg10'', ''node_pressure_cpu_some_avg10'', ''node_procs_running'',
    ''node_procs_blocked'', ''node_filefd_allocated'', ''node_filefd_maximum'', ''node_gpu_utilization_sm_avg_percent'',
    ''node_gpu_temperature_celsius'', ''node_gpu_temperature_peak_celsius'', ''node_gpu_power_draw_watts'', ''node_gpu_power_limit_watts'',
    ''node_gpu_memory_used_total_mib'', ''node_gpu_memory_used_percent'', ''node_gpu_memory_total_all_mib'', ''node_gpu_pcie_rx_mb_s'',
    ''node_gpu_pcie_tx_mb_s'', ''node_gpu_pcie_link_utilization_percent'', ''node_gpu_pcie_bandwidth_max_mb_s'',
    ''node_gpu_process_total'', ''collector_probe_core_client_available'', ''collector_probe_core_active'',
    ''collector_probe_core_collector_selection_valid'', ''collector_probe_core_decode_errors_total'',
    ''collector_probe_core_crc_failures_total'', ''collector_probe_core_restarts_total'', ''collector_probe_core_last_frame_age_seconds'',
    ''collector_probe_core_fresh'', ''collector_self_cpu_percent'', ''collector_self_rss_bytes'', ''collector_protection_mode_severity'',
    ''collector_protection_signal_pressure'', ''collector_protection_spool_fill_ratio'', ''collector_protection_cpu_budget_ratio'',
    ''collector_protection_cpu_time_budget_ratio'', ''collector_protection_memory_budget_ratio'', ''collector_hardware_cpu_anomaly_score'',
    ''collector_hardware_memory_anomaly_score'', ''collector_hardware_disk_anomaly_score'', ''collector_hardware_gpu_anomaly_score'',
    ''collector_hardware_network_anomaly_score'', ''node_security_world_writable_sensitive_paths'',
    ''node_security_sensitive_readable_files_count'', ''node_security_weak_permission_count'', ''node_security_suid_sgid_binaries_count'',
    ''node_security_ssh_weak_permissions_count'', ''node_security_ssh_insecure_config_count'', ''node_security_large_files_count'',
    ''node_security_large_file_growth_bytes'', ''node_security_listening_ports_count'', ''node_security_unexpected_listening_ports_count'',
    ''node_security_stale_listening_ports_count'', ''node_security_suspicious_outbound_destinations_count'',
    ''node_security_syn_backlog_pressure_ratio'', ''node_security_sysctl_risky_count'', ''node_security_firewall_disabled'',
    ''node_security_selinux_disabled'', ''node_security_apparmor_disabled'', ''node_security_privileged_unusual_path_process_count'',
    ''node_security_cron_anomalies_count'', ''node_security_systemd_unknown_units_count'', ''node_security_container_privileged_count'',
    ''node_security_container_capability_risk_count'', ''node_security_package_vulnerability_count'', ''node_security_findings_total'']"

definition shouldStoreTrendMetric :: "string \<Rightarrow> bool" where
  "shouldStoreTrendMetric name \<longleftrightarrow> name \<in> set trendMetrics"

definition selectTrendMetrics :: "(string \<times> float64) list \<Rightarrow> (string \<times> float64) list" where
  "selectTrendMetrics ms = filter (\<lambda>(name, v). shouldStoreTrendMetric name) ms"

definition recordMetricHistory :: "string \<Rightarrow> int \<Rightarrow> int \<Rightarrow> (string \<times> float64) list \<Rightarrow> 'x MemoryStore \<Rightarrow> 'x MemoryStore" where
  "recordMetricHistory k sampleAt ingestedAt ms s =
     (if k = '''' \<or> ms = [] then s
      else let selected = selectTrendMetrics ms in
        if selected = [] then s
        else
          let h = (case map_of (history s) k of Some (Some r) \<Rightarrow> Some r | _ \<Rightarrow> ringNew zeroSample (HistorySamplesPerNode (scfg s)));
              s = s\<lparr>history := AList.update k h (history s)\<rparr>
          in if \<exists>prior \<in> set (sliceOldest h). SampleIngestedAt prior = ingestedAt \<and> SampleTime prior = sampleAt then s
             else
               let sample = \<lparr>SampleTime = sampleAt, SampleIngestedAt = ingestedAt, SampleMetrics = selected\<rparr> in
               (case ringNewest h of
                  Some newest \<Rightarrow>
                    if SampleIngestedAt newest > ingestedAt
                    then let points = sort_key SampleIngestedAt (sliceOldest h @ [sample]) in
                      s\<lparr>history := AList.update k (fold ringPush (drop (length points - ringCap h) points) (ringNew zeroSample (int (ringCap h)))) (history s)\<rparr>
                    else s\<lparr>history := AList.update k (ringPush sample h) (history s)\<rparr>
                | None \<Rightarrow> s\<lparr>history := AList.update k (ringPush sample h) (history s)\<rparr>))"

definition addMetric :: "'x HotEnv \<Rightarrow> Metric option \<Rightarrow> (string \<times> float64) list \<Rightarrow> (string \<times> float64) list" where
  "addMetric E mo ms = (case mo of
     None \<Rightarrow> ms
   | Some m \<Rightarrow>
       if MetricName m = '''' then ms
       else if shouldAggregateMetric (MetricName m)
       then AList.update (MetricName m) (fadd E (case map_of ms (MetricName m) of None \<Rightarrow> Fin 0 | Some v \<Rightarrow> v) (MetricValue m)) ms
       else AList.update (MetricName m) (MetricValue m) ms)"

definition hotStoreHistoricalBatch :: "'x HotEnv \<Rightarrow> string \<Rightarrow> TelemetryBatch option \<Rightarrow> int \<Rightarrow> 'x MemoryStore \<Rightarrow> 'x MemoryStore" where
  "hotStoreHistoricalBatch E k bo receivedAt s = (case bo of
     None \<Rightarrow> s
   | Some b \<Rightarrow>
       let ms = fold (addMetric E) (Metrics b) [];
           sampleAt = (if WallTimeUnixNano b > 0 then WallTimeUnixNano b + unixEpoch else receivedAt)
       in markDirtyLocked E (wallClock E) (recordMetricHistory k sampleAt receivedAt ms s))"

text \<open>\<^verbatim>\<open>sort.Slice\<close> by time and then by arrival; samples that agree in both are never stored twice.\<close>

definition metricHistory :: "string \<Rightarrow> int \<Rightarrow> int \<Rightarrow> 'x MemoryStore \<Rightarrow> MetricHistorySample list" where
  "metricHistory k since limit s = (case map_of (history s) k of
     Some (Some r) \<Rightarrow>
       let out = filter (\<lambda>p. \<not> (since \<noteq> 0 \<and> SampleTime p < since) \<and> SampleMetrics p \<noteq> []) (sliceOldest (Some r));
           out = sort_key SampleTime (sort_key SampleIngestedAt out)
       in if limit > 0 \<and> int (length out) > limit then drop (length out - nat limit) out else out
   | _ \<Rightarrow> [])"

section \<open>Retention at run time\<close>

definition resizeHistory :: "int \<Rightarrow> MetricHistorySample Ring option \<Rightarrow> MetricHistorySample Ring option" where
  "resizeHistory n h = (case h of
     None \<Rightarrow> None
   | Some r \<Rightarrow>
       let points = sliceOldest (Some r); start = (if int (length points) > n then length points - nat n else 0) in
       fold ringPush (drop start points) (ringNew zeroSample n))"

definition setRetention :: "'x HotEnv \<Rightarrow> int \<Rightarrow> int \<Rightarrow> 'x MemoryStore \<Rightarrow> goerr option \<times> 'x MemoryStore" where
  "setRetention E nodeRetention historySamplesPerNode s =
     (if nodeRetention \<le> 0 then (Some (Plain ''node retention must be > 0''), s)
      else if historySamplesPerNode \<le> 0 then (Some (Plain ''history_samples_per_node must be > 0''), s)
      else
        let s = s\<lparr>scfg := (scfg s)\<lparr>NodeRetention := nodeRetention, HistorySamplesPerNode := historySamplesPerNode\<rparr>\<rparr>;
            s = pruneNodesLocked E (wallClock E) s;
            s = s\<lparr>history := map (\<lambda>(k, h). (k, resizeHistory historySamplesPerNode h)) (history s)\<rparr>
        in (None, markDirtyLocked E (wallClock E) s))"

section \<open>Persistence\<close>

record 'x StoreSnapshot =
  snapNodes :: "(string \<times> 'x NodeSnapshot) list"
  snapHistory :: "(string \<times> MetricHistorySample list) list"

definition liveHistory :: "(string \<times> MetricHistorySample Ring option) list \<Rightarrow> (string \<times> MetricHistorySample list) list" where
  "liveHistory hs = map (\<lambda>(k, h). (k, sliceOldest h)) (filter (\<lambda>(k, h). h \<noteq> None) hs)"

text \<open>The snapshot with its version, and whether it has to be saved; \<open>None\<close> without a backing file.\<close>

definition snapshotForPersistence :: "bool \<Rightarrow> 'x MemoryStore \<Rightarrow> ('x StoreSnapshot \<times> 64 word \<times> bool) option" where
  "snapshotForPersistence force s =
     (if \<not> attached s then None
      else let shouldPersist = persistedVersion s < stateVersion s in
        if \<not> shouldPersist \<and> \<not> force then Some (\<lparr>snapNodes = [], snapHistory = []\<rparr>, stateVersion s, False)
        else Some (\<lparr>snapNodes = nodes s, snapHistory = liveHistory (history s)\<rparr>, stateVersion s, shouldPersist))"

text \<open>What \<^verbatim>\<open>flushPersistence\<close> does with the store after the file was written; the answers of the file are arguments.\<close>

definition finishSave :: "goerr option \<Rightarrow> string \<Rightarrow> 64 word \<Rightarrow> 'x MemoryStore \<Rightarrow> 'x MemoryStore" where
  "finishSave saved text version s = (case saved of
     Some e \<Rightarrow> s\<lparr>lastPersistErr := text\<rparr>
   | None \<Rightarrow> s\<lparr>persistedVersion := (if version > persistedVersion s then version else persistedVersion s), lastPersistErr := ''''\<rparr>)"

definition finishCompact :: "bool \<Rightarrow> goerr option \<Rightarrow> string \<Rightarrow> 'x MemoryStore \<Rightarrow> 'x MemoryStore" where
  "finishCompact force compacted text s = (if \<not> force then s
     else s\<lparr>lastPersistErr := (if compacted = None then '''' else text)\<rparr>)"

definition restoreHistory :: "int \<Rightarrow> MetricHistorySample list \<Rightarrow> MetricHistorySample Ring option" where
  "restoreHistory n points =
     (let start = (if int (length points) > n then length points - nat n else 0) in fold ringPush (drop start points) (ringNew zeroSample n))"

definition restoreSnapshotLocked :: "'x HotEnv \<Rightarrow> 'x StoreSnapshot \<Rightarrow> int \<Rightarrow> 'x MemoryStore \<Rightarrow> 'x MemoryStore" where
  "restoreSnapshotLocked E snap now s =
     (let s = (if snapNodes snap \<noteq> [] then s\<lparr>nodes := snapNodes snap\<rparr> else s);
          s = (if snapHistory snap \<noteq> []
            then s\<lparr>history := map (\<lambda>(k, ps). (k, restoreHistory (HistorySamplesPerNode (scfg s)) ps)) (snapHistory snap)\<rparr> else s)
      in pruneNodesLocked E now s)"

definition flushPersistence :: "bool \<Rightarrow> ('x StoreSnapshot \<Rightarrow> goerr option) \<Rightarrow> goerr option \<Rightarrow> (goerr \<Rightarrow> string) \<Rightarrow> 'x MemoryStore \<Rightarrow> 'x MemoryStore" where
  "flushPersistence force save compacted text s = (case snapshotForPersistence force s of
     None \<Rightarrow> s
   | Some (snap, version, shouldPersist) \<Rightarrow>
       if shouldPersist then (case save snap of
           Some e \<Rightarrow> finishSave (Some e) (text e) version s
         | None \<Rightarrow> finishCompact force compacted (case compacted of None \<Rightarrow> '''' | Some e \<Rightarrow> text e) (finishSave None '''' version s))
       else finishCompact force compacted (case compacted of None \<Rightarrow> '''' | Some e \<Rightarrow> text e) s)"

end
