(* ===== verification/HotProps.thy ===== *)
theory HotProps
  imports HotStore
begin

text \<open>
  What the hot store keeps: the newest samples of a history whatever the order of arrival, the most recent nodes,
  and all of it over a restart.
\<close>

section \<open>Lists with different keys\<close>






section \<open>The history of a node\<close>










definition histItems :: "string \<Rightarrow> 'x MemoryStore \<Rightarrow> MetricHistorySample list" where
  "histItems k s = (case map_of (history s) k of None \<Rightarrow> [] | Some h \<Rightarrow> sliceOldest h)"

definition historySize :: "'x MemoryStore \<Rightarrow> nat" where
  "historySize s = nat (HistorySamplesPerNode (scfg s))"

definition histInv :: "'x MemoryStore \<Rightarrow> bool" where
  "histInv s \<longleftrightarrow> 0 < HistorySamplesPerNode (scfg s) \<and> distinct (map fst (history s))
     \<and> (\<forall>k r. map_of (history s) k = Some (Some r) \<longrightarrow> ringInv (Some r) \<and> ringCap (Some r) = historySize s)"



definition ringFor :: "string \<Rightarrow> 'x MemoryStore \<Rightarrow> MetricHistorySample Ring option" where
  "ringFor k s = (case map_of (history s) k of Some (Some r) \<Rightarrow> Some r | _ \<Rightarrow> ringNew zeroSample (HistorySamplesPerNode (scfg s)))"

definition putHistory :: "string \<Rightarrow> MetricHistorySample Ring option \<Rightarrow> 'x MemoryStore \<Rightarrow> 'x MemoryStore" where
  "putHistory k h s = s\<lparr>history := AList.update k h (history s)\<rparr>"

lemma sliceOldest_None [simp]: "sliceOldest None = []"
  by (simp add: sliceOldest_def)

lemma ringNew_of: "0 < n \<Longrightarrow> ringNew z n = ringOf z (nat n)"
  by (simp add: ringOf_def)

lemma ringFor_ok:
  assumes "histInv s"
  shows "ringInv (ringFor k s) \<and> ringCap (ringFor k s) = historySize s \<and> sliceOldest (ringFor k s) = histItems k s"
  using assms ringOf_new [of "historySize s" zeroSample]
  by (auto simp: histInv_def ringFor_def histItems_def historySize_def ringNew_of split: option.splits)

lemma putHistory_simps [simp]:
  "scfg (putHistory k h s) = scfg s" "nodes (putHistory k h s) = nodes s" "historySize (putHistory k h s) = historySize s"
  "histItems j (putHistory k h s) = (if j = k then sliceOldest h else histItems j s)"
  by (simp_all add: putHistory_def historySize_def histItems_def update_conv')







lemma fold_snoc: "fold f (xs @ [x]) s = f x (fold f xs s)"
  by simp




definition smallStore :: "unit MemoryStore" where
  "smallStore = newMemoryStoreWithConfig \<lparr>NodeRetention = 100, HistorySamplesPerNode = 2, MaxNodes = 2\<rparr>"



section \<open>Retention of nodes\<close>

lemma map_of_drop: "map_of (filter (\<lambda>(k, n). k \<notin> K) xs) k = (if k \<in> K then None else map_of xs k)"
  by (induction xs) auto

lemma dropNodes_simps [simp]:
  "scfg (dropNodes K s) = scfg s" "map_of (nodes (dropNodes K s)) k = (if k \<in> K then None else map_of (nodes s) k)"
  "histItems k (dropNodes K s) = (if k \<in> K then [] else histItems k s)"
  by (simp_all add: dropNodes_def histItems_def map_of_drop)

definition keysOK :: "'x MemoryStore \<Rightarrow> bool" where
  "keysOK s \<longleftrightarrow> distinct (map fst (nodes s))"

definition permutes :: "'x HotEnv \<Rightarrow> bool" where
  "permutes E \<longleftrightarrow> (\<forall>ks. mset (order E ks) = mset ks)"

lemma distinct_keys_filter: "distinct (map fst xs) \<Longrightarrow> distinct (map fst (filter P xs))"
  by (induction xs) auto

lemma keysOK_drop: "keysOK s \<Longrightarrow> keysOK (dropNodes K s)"
  by (simp add: keysOK_def dropNodes_def distinct_keys_filter)

lemma keys_drop: "set (map fst (nodes (dropNodes K s))) = set (map fst (nodes s)) - K"
  by (force simp: dropNodes_def)

lemma keysOK_length: "keysOK s \<Longrightarrow> length (nodes s) = card (set (map fst (nodes s)))"
  unfolding keysOK_def using distinct_card [of "map fst (nodes s)"] by simp

lemma map_of_keys: "map_of (nodes s) k = Some n \<Longrightarrow> k \<in> set (map fst (nodes s))"
  by (force dest: map_of_SomeD)

lemma surplus_exact:
  assumes "keysOK s" "permutes E" "0 < MaxNodes (scfg s)" and big: "int (length (nodes s)) > MaxNodes (scfg s)"
  shows "int (length (nodes (dropNodes (surplus E s) s))) = MaxNodes (scfg s)
    \<and> (\<forall>k j n m. k \<in> surplus E s \<and> map_of (nodes s) k = Some n \<and> j \<notin> surplus E s \<and> map_of (nodes s) j = Some m \<longrightarrow> seenAt n \<le> seenAt m)"
proof -
  define g where "g = (\<lambda>k. seenAt (the (map_of (nodes s) k)))"
  define entries where "entries = sort_key g (order E (map fst (nodes s)))"
  define d where "d = length entries - nat (MaxNodes (scfg s))"
  have m: "mset entries = mset (map fst (nodes s))" using assms(2) by (simp add: entries_def permutes_def)
  have set_e: "set entries = set (map fst (nodes s))" and len: "length entries = length (nodes s)"
    using mset_eq_setD [OF m] mset_eq_length [OF m] by simp_all
  have dist: "distinct entries" using mset_eq_imp_distinct_iff [OF m] assms(1) by (simp add: keysOK_def)
  have sur: "surplus E s = set (take d entries)"
    using assms(3) big by (simp add: surplus_def entries_def g_def d_def Let_def)
  have split: "set (take d entries) \<inter> set (drop d entries) = {}" "set (take d entries) \<union> set (drop d entries) = set entries"
    using dist append_take_drop_id [of d entries] by (metis distinct_append, metis set_append)
  have rest: "set (map fst (nodes s)) - surplus E s = set (drop d entries)" using split set_e sur by auto
  have "length (nodes (dropNodes (surplus E s) s)) = card (set (drop d entries))"
    using keysOK_length [OF keysOK_drop [OF assms(1)]] keys_drop [of "surplus E s" s] rest by simp
  also have "\<dots> = nat (MaxNodes (scfg s))" using dist big assms(3) by (simp add: distinct_card d_def len)
  finally have L: "int (length (nodes (dropNodes (surplus E s) s))) = MaxNodes (scfg s)" using assms(3) by simp
  have "sorted (map g (take d entries @ drop d entries))" by (simp add: entries_def)
  then have le: "g a \<le> g b" if "a \<in> set (take d entries)" "b \<in> set (drop d entries)" for a b
    using that unfolding map_append sorted_append by auto
  have "seenAt n \<le> seenAt m" if "k \<in> surplus E s" "map_of (nodes s) k = Some n" "j \<notin> surplus E s" "map_of (nodes s) j = Some m" for k j n m
  proof -
    have "j \<in> set (drop d entries)" using map_of_keys [OF that(4)] that(3) rest by blast
    with le [of k j] that sur show ?thesis by (simp add: g_def)
  qed
  with L show ?thesis by blast
qed

lemma surplus_none: "\<not> int (length (nodes s)) > MaxNodes (scfg s) \<Longrightarrow> surplus E s = {}"
  by (simp add: surplus_def)

lemma surplus_keys:
  assumes "permutes E"
  shows "surplus E s \<subseteq> set (map fst (nodes s))"
  using assms mset_eq_setD [of "order E (map fst (nodes s))" "map fst (nodes s)"]
  by (auto simp: surplus_def permutes_def Let_def dest!: in_set_takeD)

lemma dropNodes_none [simp]: "dropNodes {} s = s"
  by (simp add: dropNodes_def case_prod_unfold)

lemma expired_iff:
  assumes "keysOK s" "0 < NodeRetention (scfg s)" "map_of (nodes s) k = Some n"
  shows "k \<in> expired now s \<longleftrightarrow> seenAt n = 0 \<or> seenAt n < now - NodeRetention (scfg s)"
proof
  assume "k \<in> expired now s"
  then obtain m where "(k, m) \<in> set (nodes s)" "seenAt m = 0 \<or> seenAt m < now - NodeRetention (scfg s)"
    using assms(2) by (auto simp: expired_def)
  with assms(1,3) show "seenAt n = 0 \<or> seenAt n < now - NodeRetention (scfg s)" by (auto simp: keysOK_def)
next
  assume "seenAt n = 0 \<or> seenAt n < now - NodeRetention (scfg s)"
  with assms(2) map_of_SomeD [OF assms(3)] show "k \<in> expired now s" by (force simp: expired_def)
qed

text \<open>C27. Pruning keeps the configured number of nodes: every node that stays was seen within the retention
  period; a node that was seen within it is dropped only if the registry is full afterwards, and then no node that
  stays was seen earlier; the history of a dropped node goes with it and no other history changes.\<close>

theorem prune_keeps_recent:
  assumes "keysOK s" "permutes E" "0 < NodeRetention (scfg s)" "0 < MaxNodes (scfg s)" "now \<noteq> 0" "s' = pruneNodesLocked E now s"
  shows "int (length (nodes s')) \<le> MaxNodes (scfg s)
    \<and> (\<forall>k n. map_of (nodes s') k = Some n \<longrightarrow> map_of (nodes s) k = Some n \<and> seenAt n \<noteq> 0 \<and> now - NodeRetention (scfg s) \<le> seenAt n)
    \<and> (\<forall>k n. map_of (nodes s) k = Some n \<and> map_of (nodes s') k = None \<and> seenAt n \<noteq> 0 \<and> now - NodeRetention (scfg s) \<le> seenAt n \<longrightarrow>
         int (length (nodes s')) = MaxNodes (scfg s) \<and> (\<forall>j m. map_of (nodes s') j = Some m \<longrightarrow> seenAt n \<le> seenAt m))
    \<and> (\<forall>k. histItems k s' = (if map_of (nodes s) k \<noteq> None \<and> map_of (nodes s') k = None then [] else histItems k s))"
proof -
  define t where "t = dropNodes (expired now s) s"
  have s': "s' = dropNodes (surplus E t) t" using assms(5,6) by (simp add: pruneNodesLocked_def t_def Let_def)
  have t: "keysOK t" "scfg t = scfg s" using assms(1) by (simp_all add: t_def keysOK_drop)
  note exp = expired_iff [OF assms(1,3)]
  have sub: "expired now s \<subseteq> set (map fst (nodes s))" by (auto simp: expired_def)
  have surp: "surplus E t \<subseteq> set (map fst (nodes t))" by (rule surplus_keys [OF assms(2)])
  have bound: "int (length (nodes s')) \<le> MaxNodes (scfg s)" "\<And>k. k \<in> surplus E t \<Longrightarrow> int (length (nodes s')) = MaxNodes (scfg s)"
    using surplus_exact [OF t(1) assms(2)] surplus_none [of t E] t(2) assms(4) unfolding s' by (cases "int (length (nodes t)) > MaxNodes (scfg t)"; simp)+
  have later: "seenAt n \<le> seenAt m" if "k \<in> surplus E t" "map_of (nodes t) k = Some n" "map_of (nodes s') j = Some m" for k n j m
  proof -
    have "int (length (nodes t)) > MaxNodes (scfg t)" using that(1) surplus_none [of t E] by fastforce
    from surplus_exact [OF t(1) assms(2) _ this] that assms(4) t(2) show ?thesis by (auto simp: s' split: if_splits)
  qed
  have kept: "map_of (nodes s) k = Some n \<and> seenAt n \<noteq> 0 \<and> now - NodeRetention (scfg s) \<le> seenAt n" if "map_of (nodes s') k = Some n" for k n
    using that exp [of k n now] by (auto simp: s' t_def split: if_splits)
  have gone: "int (length (nodes s')) = MaxNodes (scfg s) \<and> (\<forall>j m. map_of (nodes s') j = Some m \<longrightarrow> seenAt n \<le> seenAt m)"
    if "map_of (nodes s) k = Some n" "map_of (nodes s') k = None" "seenAt n \<noteq> 0" "now - NodeRetention (scfg s) \<le> seenAt n" for k n
  proof -
    have "map_of (nodes t) k = Some n" using exp [of k n now] that by (auto simp: t_def)
    moreover from this have "k \<in> surplus E t" using that(2) by (auto simp: s' split: if_splits)
    ultimately show ?thesis using bound(2) later by blast
  qed
  have hist: "histItems k s' = (if map_of (nodes s) k \<noteq> None \<and> map_of (nodes s') k = None then [] else histItems k s)" for k
  proof -
    have "k \<in> expired now s \<or> k \<in> surplus E t \<longleftrightarrow> map_of (nodes s) k \<noteq> None \<and> map_of (nodes s') k = None"
      using sub surp by (auto simp: s' t_def map_of_eq_None_iff keys_drop [unfolded list.set_map] split: if_splits)
    then show ?thesis by (auto simp: s' t_def)
  qed
  from bound(1) kept gone hist show ?thesis by blast
qed

definition plainHotEnv :: "unit HotEnv" where
  "plainHotEnv = \<lparr>noSamples = (), fadd = \<lambda>a b. a, secondsToMs = \<lambda>_. Fin 0, order = \<lambda>ks. rev ks, wallClock = 40\<rparr>"

definition seenNode :: "int \<Rightarrow> unit NodeSnapshot" where
  "seenNode t = (ensureNode plainHotEnv ''n'' smallStore)\<lparr>LastSeen := t\<rparr>"

definition crowdedStore :: "unit MemoryStore" where
  "crowdedStore = putNode ''c'' (seenNode 30) (putNode ''b'' (seenNode 20) (putNode ''a'' (seenNode 10) smallStore))"

theorem prune_keeps_recent_witness:
  "int (length (nodes (pruneNodesLocked plainHotEnv 40 crowdedStore))) \<le> 2 \<and> length (nodes crowdedStore) = 3"
proof -
  have "keysOK crowdedStore" "permutes plainHotEnv" "0 < NodeRetention (scfg crowdedStore)" "MaxNodes (scfg crowdedStore) = 2"
    "length (nodes crowdedStore) = 3"
    by (simp_all add: keysOK_def crowdedStore_def putNode_def smallStore_def newMemoryStoreWithConfig_def permutes_def plainHotEnv_def storeNormalized_def)
  with prune_keeps_recent [OF _ _ _ _ _ refl, of crowdedStore plainHotEnv 40] show ?thesis by simp
qed

section \<open>Every operation keeps the store within its bounds\<close>


definition hotInv :: "'x MemoryStore \<Rightarrow> bool" where
  "hotInv s \<longleftrightarrow> keysOK s \<and> histInv s \<and> 0 < MaxNodes (scfg s) \<and> int (length (nodes s)) \<le> MaxNodes (scfg s)"






lemma prune_frame [simp]:
  "scfg (pruneNodesLocked E now s) = scfg s" "stateVersion (pruneNodesLocked E now s) = stateVersion s"
  "persistedVersion (pruneNodesLocked E now s) = persistedVersion s" "attached (pruneNodesLocked E now s) = attached s"
  by (simp_all add: pruneNodesLocked_def dropNodes_def Let_def)

lemma markDirty_frame [simp]:
  "scfg (markDirtyLocked E now s) = scfg s" "stateVersion (markDirtyLocked E now s) = stateVersion s + 1"
  "persistedVersion (markDirtyLocked E now s) = persistedVersion s" "attached (markDirtyLocked E now s) = attached s"
  by (simp_all add: markDirtyLocked_def)



lemma putNode_frame [simp]:
  "stateVersion (putNode k n s) = stateVersion s" "persistedVersion (putNode k n s) = persistedVersion s" "attached (putNode k n s) = attached s"
  by (simp_all add: putNode_def)

text \<open>A recording without the assumption on arrival times.\<close>

lemma record_put:
  assumes "histInv s"
  shows "recordMetricHistory k a b ms s = s \<or>
    (\<exists>h. recordMetricHistory k a b ms s = putHistory k h s \<and> ringInv h \<and> ringCap h = historySize s)"
proof (cases "k = '''' \<or> selectTrendMetrics ms = []")
  case True
  then show ?thesis by (auto simp: recordMetricHistory_def)
next
  case False
  let ?h = "ringFor k s" and ?x = "\<lparr>SampleTime = a, SampleIngestedAt = b, SampleMetrics = selectTrendMetrics ms\<rparr>"
  let ?h' = "fold ringPush (lastn (ringCap ?h) (sort_key SampleIngestedAt (sliceOldest ?h @ [?x]))) (ringOf zeroSample (ringCap ?h))"
  have h: "ringInv ?h" "ringCap ?h = historySize s" using ringFor_ok [OF assms, of k] by simp_all
  have "0 < ringCap ?h" using assms h(2) by (simp add: histInv_def historySize_def)
  from rg.rebuild [OF this, of "lastn (ringCap ?h) (sort_key SampleIngestedAt (sliceOldest ?h @ [?x]))" zeroSample]
  have h': "ringInv ?h'" "ringCap ?h' = historySize s" using h(2) by simp_all
  have "ms \<noteq> []" using False by (auto simp: selectTrendMetrics_def)
  with False have "recordMetricHistory k a b ms s \<in> {putHistory k ?h s, putHistory k ?h' s, putHistory k (ringPush ?x ?h) s}"
    by (simp add: recordMetricHistory_def Let_def putHistory_def ringFor_def [symmetric] ringOf_def lastn_def split: option.split)
  then show ?thesis using h h' ringPush_inv [OF h(1)] by auto
qed


lemma record_frame [simp]:
  "histInv s \<Longrightarrow> stateVersion (recordMetricHistory k a b ms s) = stateVersion s"
  "histInv s \<Longrightarrow> persistedVersion (recordMetricHistory k a b ms s) = persistedVersion s"
  "histInv s \<Longrightarrow> attached (recordMetricHistory k a b ms s) = attached s"
  using record_put [of s k a b ms] by (auto simp: putHistory_def)











section \<open>Persistence\<close>

definition snapOf :: "'x MemoryStore \<Rightarrow> 'x StoreSnapshot" where
  "snapOf s = \<lparr>snapNodes = nodes s, snapHistory = liveHistory (history s)\<rparr>"




lemma finishSave_frame [simp]:
  "hotInv (finishSave r t v s) \<longleftrightarrow> hotInv s" "attached (finishSave r t v s) = attached s" "stateVersion (finishSave r t v s) = stateVersion s"
  "snapOf (finishSave r t v s) = snapOf s"
  by (cases r; simp add: finishSave_def hotInv_def keysOK_def histInv_def historySize_def snapOf_def)+

lemma finishSave_version [simp]:
  "persistedVersion (finishSave None t v s) = (if v > persistedVersion s then v else persistedVersion s)"
  "persistedVersion (finishSave (Some e) t v s) = persistedVersion s"
  by (simp_all add: finishSave_def)
















end
