(* ===== verification/Changes.thy ===== *)
theory Changes
  imports Telemetry Safeconv "HOL-Library.AList"
begin

text \<open>
  Change management (\<^verbatim>\<open>controller/change/manager.go\<close>): registration, approval, execution within a window, canary
  rollout, completion and rollback of changes.

  The manager holds the changes by value; the mutex makes every operation one step, with the readings of its clock
  as \<open>clk\<close>.  Weekday and hour of a moment depend on the time zone of the host and are the argument \<open>calendar\<close>.
  The canary of a change is a goroutine: its iterations are steps of their own.  Error texts leave out
  formatted values.
\<close>

section \<open>Data\<close>

datatype ApprovalStatus = ApprovalPending | ApprovalApproved | ApprovalRejected | ApprovalNoApproval

datatype ChangeStatus = StatusPlanned | StatusInProgress | StatusCompleted | StatusRolledBack | StatusFailed | StatusCancelled

datatype CanaryDeploymentStatus = CanaryNotStarted | CanaryInProgress | CanaryHolding | CanaryComplete | CanaryRolledBack

record Check =
  CheckName :: string
  CheckPassed :: bool

record ValidationResult =
  Passed :: bool
  ValidatedAt :: int
  Checks :: "Check list"
  ValidationMessage :: string

record SuccessCriteria =
  MaxErrorRate :: float64
  MaxLatencyIncrease :: float64
  MinAvailability :: float64

record CanaryConfig =
  InitialPercentage :: int
  IncrementStep :: int
  IncrementInterval :: int
  MaxPercentage :: int
  CanaryMetricNames :: "string list"
  Criteria :: "SuccessCriteria option"

record CanaryStatus =
  CurrentPercentage :: int
  CurrentStep :: int
  CanaryStart :: int
  CanaryMetrics :: "(string \<times> float64) list"
  CanaryState :: CanaryDeploymentStatus
  FailureReason :: string

record Change =
  ChangeID :: string
  Title :: string
  ChangeDescription :: string
  Tier :: int
  ChangeKind :: string
  RiskLevel :: string
  ChangeRequestedBy :: string
  RequestedAt :: int
  PlannedStart :: int
  PlannedEnd :: int
  ActualStart :: int
  ActualEnd :: int
  ApprovalState :: ApprovalStatus
  ApprovedBy :: string
  ApprovedAt :: int
  RollbackPlan :: string
  RollbackScript :: string
  PreChangeValidation :: "ValidationResult option"
  PostChangeValidation :: "ValidationResult option"
  ChangeState :: ChangeStatus
  ChangeCreatedAt :: int
  ChangeUpdatedAt :: int
  Canary :: "CanaryConfig option"
  CanaryProgress :: "CanaryStatus option"

type_synonym ChangeManager = "(string \<times> Change) list"

definition newChangeManager :: ChangeManager where
  "newChangeManager = []"

section \<open>Registration and approval\<close>

definition initialApproval :: "Change \<Rightarrow> ApprovalStatus" where
  "initialApproval c = (if Tier c \<ge> 4 \<or> RiskLevel c = ''low'' then ApprovalNoApproval else ApprovalPending)"

definition registerChange :: "(nat \<Rightarrow> int) \<Rightarrow> Change \<Rightarrow> ChangeManager \<Rightarrow> goerr option \<times> ChangeManager" where
  "registerChange clk c cm =
     (if map_of cm (ChangeID c) \<noteq> None then (Some (Plain ''change already exists''), cm)
      else
        let c = c\<lparr>ChangeCreatedAt := clk 0, ChangeUpdatedAt := clk 1, ChangeState := StatusPlanned, ApprovalState := initialApproval c\<rparr>;
            c = (case Canary c of None \<Rightarrow> c
                 | Some _ \<Rightarrow> c\<lparr>CanaryProgress := Some \<lparr>CurrentPercentage = 0, CurrentStep = 0, CanaryStart = clk 2, CanaryMetrics = [],
                     CanaryState = CanaryNotStarted, FailureReason = ''''\<rparr>\<rparr>)
        in (None, AList.update (ChangeID c) c cm))"

text \<open>Looking up a change and replacing it.\<close>

definition withChange :: "string \<Rightarrow> (Change \<Rightarrow> goerr option \<times> Change) \<Rightarrow> ChangeManager \<Rightarrow> goerr option \<times> ChangeManager" where
  "withChange k f cm = (case map_of cm k of
     None \<Rightarrow> (Some (Plain ''change not found''), cm)
   | Some c \<Rightarrow> (case f c of (e, c') \<Rightarrow> (e, AList.update k c' cm)))"

definition approveChange :: "(nat \<Rightarrow> int) \<Rightarrow> string \<Rightarrow> string \<Rightarrow> ChangeManager \<Rightarrow> goerr option \<times> ChangeManager" where
  "approveChange clk k approver = withChange k (\<lambda>c.
     if ApprovalState c \<noteq> ApprovalPending then (Some (Plain ''change is not pending approval''), c)
     else (None, c\<lparr>ApprovalState := ApprovalApproved, ApprovedBy := approver, ApprovedAt := clk 0, ChangeUpdatedAt := clk 1\<rparr>))"

definition rejectChange :: "(nat \<Rightarrow> int) \<Rightarrow> string \<Rightarrow> ChangeManager \<Rightarrow> goerr option \<times> ChangeManager" where
  "rejectChange clk k = withChange k (\<lambda>c.
     if ApprovalState c \<noteq> ApprovalPending then (Some (Plain ''change is not pending approval''), c)
     else (None, c\<lparr>ApprovalState := ApprovalRejected, ChangeState := StatusCancelled, ChangeUpdatedAt := clk 0\<rparr>))"

section \<open>Execution\<close>

definition isActiveChangeWindow :: "(int \<Rightarrow> nat \<times> nat) \<Rightarrow> int \<Rightarrow> bool" where
  "isActiveChangeWindow calendar now = (case calendar now of (weekday, hour) \<Rightarrow>
     if weekday \<ge> 2 \<and> weekday \<le> 4 \<and> hour \<ge> 10 \<and> hour < 16 then True
     else if weekday = 1 \<and> hour \<ge> 10 \<and> hour < 12 then True
     else False)"

definition checkNoActiveIncidents :: bool where
  "checkNoActiveIncidents = True"

definition checkErrorBudgetSufficient :: "int \<Rightarrow> bool" where
  "checkErrorBudgetSufficient tier = (if tier = 1 then True else if tier = 2 then True else True)"

definition runPreChangeValidation :: "(int \<Rightarrow> nat \<times> nat) \<Rightarrow> (nat \<Rightarrow> int) \<Rightarrow> Change \<Rightarrow> goerr option \<times> Change" where
  "runPreChangeValidation calendar clk c =
     (let checks = [\<lparr>CheckName = ''no_active_incidents'', CheckPassed = checkNoActiveIncidents\<rparr>,
            \<lparr>CheckName = ''error_budget_sufficient'', CheckPassed = checkErrorBudgetSufficient (Tier c)\<rparr>,
            \<lparr>CheckName = ''within_change_window'', CheckPassed = isActiveChangeWindow calendar (clk 1)\<rparr>];
          allPassed = list_all CheckPassed checks;
          c = c\<lparr>PreChangeValidation := Some \<lparr>Passed = allPassed, ValidatedAt = clk 2, Checks = checks,
            ValidationMessage = ''Pre-change validation completed''\<rparr>\<rparr>
      in (if \<not> allPassed then Some (Plain ''pre-change validation failed'') else None, c))"

definition startBody :: "(int \<Rightarrow> nat \<times> nat) \<Rightarrow> (nat \<Rightarrow> int) \<Rightarrow> Change \<Rightarrow> goerr option \<times> Change" where
  "startBody calendar clk c =
     (if ApprovalState c = ApprovalPending then (Some (Plain ''change is not approved''), c)
      else if ApprovalState c = ApprovalRejected then (Some (Plain ''change was rejected''), c)
      else let now = clk 0 in
        if now < PlannedStart c \<or> now > PlannedEnd c then (Some (Plain ''change is outside planned window''), c)
        else (case runPreChangeValidation calendar clk c of
          (Some e, c) \<Rightarrow> (Some (Wrapped ''pre-change validation failed'' e), c)
        | (None, c) \<Rightarrow>
            let c = c\<lparr>ChangeState := StatusInProgress, ActualStart := now, ChangeUpdatedAt := now\<rparr> in
            (None, case Canary c of
               Some _ \<Rightarrow> c
             | None \<Rightarrow> c\<lparr>CanaryProgress := Some \<lparr>CurrentPercentage = 100, CurrentStep = 0, CanaryStart = now, CanaryMetrics = [],
                 CanaryState = CanaryComplete, FailureReason = []\<rparr>\<rparr>)))"

definition startChange :: "(int \<Rightarrow> nat \<times> nat) \<Rightarrow> (nat \<Rightarrow> int) \<Rightarrow> string \<Rightarrow> ChangeManager \<Rightarrow> goerr option \<times> ChangeManager" where
  "startChange calendar clk k = withChange k (startBody calendar clk)"

definition completeChange :: "(nat \<Rightarrow> int) \<Rightarrow> string \<Rightarrow> ChangeManager \<Rightarrow> goerr option \<times> ChangeManager" where
  "completeChange clk k = withChange k (\<lambda>c.
     if ChangeState c \<noteq> StatusInProgress then (Some (Plain ''change is not in progress''), c)
     else (None, c\<lparr>PostChangeValidation := Some \<lparr>Passed = True, ValidatedAt = clk 0, Checks = [], ValidationMessage = ''Post-change validation passed''\<rparr>,
       ChangeState := StatusCompleted, ActualEnd := clk 1, ChangeUpdatedAt := clk 2\<rparr>))"

definition rollbackChange :: "(nat \<Rightarrow> int) \<Rightarrow> string \<Rightarrow> ChangeManager \<Rightarrow> goerr option \<times> ChangeManager" where
  "rollbackChange clk k = withChange k (\<lambda>c. (None, c\<lparr>ChangeState := StatusRolledBack, ActualEnd := clk 0, ChangeUpdatedAt := clk 1\<rparr>))"

definition getChange :: "string \<Rightarrow> ChangeManager \<Rightarrow> goerr + Change" where
  "getChange k cm = (case map_of cm k of None \<Rightarrow> Inl (Plain ''change not found'') | Some c \<Rightarrow> Inr c)"

definition getChangesByStatus :: "ChangeStatus \<Rightarrow> ChangeManager \<Rightarrow> Change list" where
  "getChangesByStatus st cm = filter (\<lambda>c. ChangeState c = st) (map snd cm)"

definition getPendingChanges :: "ChangeManager \<Rightarrow> Change list" where
  "getPendingChanges cm = getChangesByStatus StatusPlanned cm"

section \<open>Canary rollout\<close>

definition updateCanaryMetrics :: "string \<Rightarrow> (string \<times> float64) list \<Rightarrow> ChangeManager \<Rightarrow> goerr option \<times> ChangeManager" where
  "updateCanaryMetrics k ms = withChange k (\<lambda>c. case CanaryProgress c of
     None \<Rightarrow> (Some (Plain ''canary not configured''), c)
   | Some st \<Rightarrow> (None, c\<lparr>CanaryProgress := Some (st\<lparr>CanaryMetrics := fold (\<lambda>(n, v) m. AList.update n v m) ms (CanaryMetrics st)\<rparr>)\<rparr>))"

definition metricOr0 :: "(string \<times> float64) list \<Rightarrow> string \<Rightarrow> float64" where
  "metricOr0 ms n = (case map_of ms n of None \<Rightarrow> Fin 0 | Some v \<Rightarrow> v)"

definition checkCanaryMetrics :: "(string \<times> float64) list \<Rightarrow> SuccessCriteria option \<Rightarrow> bool \<times> string" where
  "checkCanaryMetrics ms criteria = (case criteria of
     None \<Rightarrow> (True, '''')
   | Some cr \<Rightarrow>
       if flt (metricOr0 ms ''availability'') (MinAvailability cr) then (False, ''availability below threshold'')
       else if flt (MaxErrorRate cr) (metricOr0 ms ''error_rate'') then (False, ''error rate above threshold'')
       else if flt (MaxLatencyIncrease cr) (metricOr0 ms ''latency_increase_pct'') then (False, ''latency increase above threshold'')
       else (True, ''''))"

text \<open>The goroutine of a canary: its start, and one iteration of its loop with what \<^verbatim>\<open>select\<close> receives.  The result
  says whether the loop goes on; \<open>True\<close> in the second component asks for a rollback of the change.\<close>

datatype canaryEvent = CtxDone | Tick

definition canaryBegin :: "CanaryConfig \<Rightarrow> CanaryStatus \<Rightarrow> CanaryStatus" where
  "canaryBegin cfg st = st\<lparr>CanaryState := CanaryInProgress, CurrentPercentage := InitialPercentage cfg\<rparr>"

definition canaryGuard :: "CanaryConfig \<Rightarrow> CanaryStatus \<Rightarrow> bool" where
  "canaryGuard cfg st \<longleftrightarrow> CurrentPercentage st \<le> MaxPercentage cfg"

definition canaryIter :: "CanaryConfig \<Rightarrow> canaryEvent \<Rightarrow> CanaryStatus \<Rightarrow> bool \<times> bool \<times> CanaryStatus" where
  "canaryIter cfg ev st = (case ev of
     CtxDone \<Rightarrow> (False, False, st\<lparr>CanaryState := CanaryRolledBack, FailureReason := ''context cancelled''\<rparr>)
   | Tick \<Rightarrow> (case checkCanaryMetrics (CanaryMetrics st) (Criteria cfg) of
       (False, reason) \<Rightarrow> (False, True, st\<lparr>CanaryState := CanaryRolledBack, FailureReason := reason\<rparr>)
     | (True, _) \<Rightarrow>
         let st = st\<lparr>CurrentPercentage := wrapInt (CurrentPercentage st + IncrementStep cfg)\<rparr> in
         if CurrentPercentage st > MaxPercentage cfg
         then (False, False, st\<lparr>CurrentPercentage := MaxPercentage cfg, CanaryState := CanaryComplete\<rparr>)
         else (True, False, st)))"

definition onCanary :: "string \<Rightarrow> (CanaryConfig \<Rightarrow> CanaryStatus \<Rightarrow> CanaryStatus) \<Rightarrow> ChangeManager \<Rightarrow> ChangeManager" where
  "onCanary k f cm = (case map_of cm k of None \<Rightarrow> cm
     | Some c \<Rightarrow> (case (Canary c, CanaryProgress c) of
         (Some cfg, Some st) \<Rightarrow> AList.update k (c\<lparr>CanaryProgress := Some (f cfg st)\<rparr>) cm
       | _ \<Rightarrow> cm))"

end
