(* ===== verification/ChangesProps.thy ===== *)
theory ChangesProps
  imports Changes
begin

text \<open>
  What change management promises: no change runs without approval or outside its window, a rejected change never
  runs, and a canary moves step by step to its maximum and ends.
\<close>

section \<open>Operations and goroutines\<close>

text \<open>The goroutines that were started, and those in their loop.  A ticker with an interval that is not positive
  panics, which ends the process.\<close>

record changeSys =
  cmgr :: ChangeManager
  spawned :: "string list"
  loops :: "string list"
  panicked :: bool

inductive changeStep :: "changeSys \<Rightarrow> changeSys \<Rightarrow> bool" where
  registered: "registerChange clk c (cmgr s) = (r, cm) \<Longrightarrow> changeStep s (s\<lparr>cmgr := cm\<rparr>)"
| approved: "approveChange clk k who (cmgr s) = (r, cm) \<Longrightarrow> changeStep s (s\<lparr>cmgr := cm\<rparr>)"
| rejected: "rejectChange clk k (cmgr s) = (r, cm) \<Longrightarrow> changeStep s (s\<lparr>cmgr := cm\<rparr>)"
| started: "startChange calendar clk k (cmgr s) = (r, cm) \<Longrightarrow> map_of cm k = Some c
    \<Longrightarrow> changeStep s (s\<lparr>cmgr := cm, spawned := (if r = None \<and> Canary c \<noteq> None then k # spawned s else spawned s)\<rparr>)"
| completed: "completeChange clk k (cmgr s) = (r, cm) \<Longrightarrow> changeStep s (s\<lparr>cmgr := cm\<rparr>)"
| rolledBack: "rollbackChange clk k (cmgr s) = (r, cm) \<Longrightarrow> changeStep s (s\<lparr>cmgr := cm\<rparr>)"
| measured: "updateCanaryMetrics k ms (cmgr s) = (r, cm) \<Longrightarrow> changeStep s (s\<lparr>cmgr := cm\<rparr>)"
| begun: "k \<in> set (spawned s) \<Longrightarrow> map_of (cmgr s) k = Some c \<Longrightarrow> Canary c = Some cfg
    \<Longrightarrow> changeStep s (s\<lparr>cmgr := onCanary k canaryBegin (cmgr s), spawned := remove1 k (spawned s),
          loops := (if IncrementInterval cfg > 0 then k # loops s else loops s), panicked := (panicked s \<or> IncrementInterval cfg \<le> 0)\<rparr>)"
| left: "k \<in> set (loops s) \<Longrightarrow> map_of (cmgr s) k = Some c \<Longrightarrow> Canary c = Some cfg \<Longrightarrow> CanaryProgress c = Some st \<Longrightarrow> \<not> canaryGuard cfg st
    \<Longrightarrow> changeStep s (s\<lparr>loops := remove1 k (loops s)\<rparr>)"
| iterated: "k \<in> set (loops s) \<Longrightarrow> map_of (cmgr s) k = Some c \<Longrightarrow> Canary c = Some cfg \<Longrightarrow> CanaryProgress c = Some st \<Longrightarrow> canaryGuard cfg st
    \<Longrightarrow> canaryIter cfg ev st = (again, undo, st') \<Longrightarrow> cm = onCanary k (\<lambda>_ _. st') (cmgr s)
    \<Longrightarrow> changeStep s (s\<lparr>cmgr := (if undo then snd (rollbackChange clk k cm) else cm), loops := (if again then loops s else remove1 k (loops s))\<rparr>)"

inductive changeReach :: "changeSys \<Rightarrow> bool" where
  start: "changeReach \<lparr>cmgr = newChangeManager, spawned = [], loops = [], panicked = False\<rparr>"
| step: "changeReach s \<Longrightarrow> changeStep s s' \<Longrightarrow> changeReach s'"

section \<open>Governance\<close>

definition cleared :: "Change \<Rightarrow> bool" where
  "cleared c \<longleftrightarrow> ApprovalState c = ApprovalApproved \<or> ApprovalState c = ApprovalNoApproval \<and> (Tier c \<ge> 4 \<or> RiskLevel c = ''low'')"

definition changeOK :: "Change \<Rightarrow> bool" where
  "changeOK c \<longleftrightarrow> (ApprovalState c \<in> {ApprovalApproved, ApprovalNoApproval} \<longrightarrow> cleared c)
     \<and> (ChangeState c \<in> {StatusInProgress, StatusCompleted} \<longrightarrow> cleared c \<and> PlannedStart c \<le> ActualStart c \<and> ActualStart c \<le> PlannedEnd c)
     \<and> (ApprovalState c = ApprovalRejected \<longrightarrow> ChangeState c \<in> {StatusCancelled, StatusRolledBack})"

definition managerOK :: "ChangeManager \<Rightarrow> bool" where
  "managerOK cm \<longleftrightarrow> (\<forall>k c. map_of cm k = Some c \<longrightarrow> changeOK c)"

lemma managerOK_update: "managerOK cm \<Longrightarrow> changeOK c \<Longrightarrow> managerOK (AList.update k c cm)"
  by (simp add: managerOK_def update_conv')

lemma withChange_ok:
  assumes "withChange k f cm = (r, cm')" "managerOK cm" "\<And>c. map_of cm k = Some c \<Longrightarrow> changeOK c \<Longrightarrow> changeOK (snd (f c))"
  shows "managerOK cm'"
  using assms by (auto simp: withChange_def managerOK_def update_conv' split: option.splits prod.splits if_splits)

lemmas change_ops = approveChange_def rejectChange_def startChange_def completeChange_def rollbackChange_def updateCanaryMetrics_def

lemma changeOK_ops:
  assumes "changeOK c"
  shows "changeOK (c\<lparr>ChangeState := StatusRolledBack, ActualEnd := t, ChangeUpdatedAt := u\<rparr>)"
    and "changeOK (c\<lparr>CanaryProgress := st\<rparr>)" and "changeOK (c\<lparr>PreChangeValidation := v\<rparr>)"
    and "ApprovalState c = ApprovalPending \<Longrightarrow> changeOK (c\<lparr>ApprovalState := ApprovalApproved, ApprovedBy := w, ApprovedAt := t, ChangeUpdatedAt := u\<rparr>)"
    and "ApprovalState c = ApprovalPending \<Longrightarrow> changeOK (c\<lparr>ApprovalState := ApprovalRejected, ChangeState := StatusCancelled, ChangeUpdatedAt := u\<rparr>)"
    and "ChangeState c = StatusInProgress \<Longrightarrow> changeOK (c\<lparr>PostChangeValidation := v, ChangeState := StatusCompleted, ActualEnd := t, ChangeUpdatedAt := u\<rparr>)"
  using assms by (auto simp: changeOK_def cleared_def)

lemma preValidation: "\<exists>v. runPreChangeValidation calendar clk c
    = (if isActiveChangeWindow calendar (clk 1) then None else Some (Plain ''pre-change validation failed''), c\<lparr>PreChangeValidation := v\<rparr>)"
proof -
  have [simp]: "checkNoActiveIncidents" "checkErrorBudgetSufficient t" for t by (simp_all add: checkNoActiveIncidents_def checkErrorBudgetSufficient_def)
  show ?thesis
    by (rule exI [of _ "PreChangeValidation (snd (runPreChangeValidation calendar clk c))"]) (simp add: runPreChangeValidation_def Let_def)
qed

lemma startBody_cases:
  obtains (refused) e v where "startBody calendar clk c = (Some e, c\<lparr>PreChangeValidation := v\<rparr>)"
      "\<not> (ApprovalState c \<in> {ApprovalApproved, ApprovalNoApproval} \<and> PlannedStart c \<le> clk 0 \<and> clk 0 \<le> PlannedEnd c \<and> isActiveChangeWindow calendar (clk 1))"
  | (started) c' where "ApprovalState c \<in> {ApprovalApproved, ApprovalNoApproval}" "PlannedStart c \<le> clk 0" "clk 0 \<le> PlannedEnd c"
      "isActiveChangeWindow calendar (clk 1)"
      "startBody calendar clk c = (None, c')" "ChangeState c' = StatusInProgress" "ActualStart c' = clk 0" "ApprovalState c' = ApprovalState c"
      "Tier c' = Tier c" "RiskLevel c' = RiskLevel c" "PlannedStart c' = PlannedStart c" "PlannedEnd c' = PlannedEnd c" "Canary c' = Canary c"
proof (cases "ApprovalState c \<in> {ApprovalApproved, ApprovalNoApproval} \<and> PlannedStart c \<le> clk 0 \<and> clk 0 \<le> PlannedEnd c")
  case False
  have "c = c\<lparr>PreChangeValidation := PreChangeValidation c\<rparr>" by simp
  then have "\<exists>e. startBody calendar clk c = (Some e, c\<lparr>PreChangeValidation := PreChangeValidation c\<rparr>)"
    using False by (cases "ApprovalState c") (auto simp: startBody_def Let_def)
  with False refused show ?thesis by blast
next
  case True
  obtain v where pre: "runPreChangeValidation calendar clk c
      = (if isActiveChangeWindow calendar (clk 1) then None else Some (Plain ''pre-change validation failed''), c\<lparr>PreChangeValidation := v\<rparr>)"
    using preValidation by blast
  have go: "ApprovalState c \<noteq> ApprovalPending" "ApprovalState c \<noteq> ApprovalRejected" "\<not> (clk 0 < PlannedStart c \<or> clk 0 > PlannedEnd c)"
    using True by auto
  show ?thesis
  proof (cases "isActiveChangeWindow calendar (clk 1)")
    case w: True
    obtain c' where c': "startBody calendar clk c = (None, c')" using go w by (simp add: startBody_def pre Let_def)
    have "ChangeState c' = StatusInProgress \<and> ActualStart c' = clk 0 \<and> ApprovalState c' = ApprovalState c
      \<and> Tier c' = Tier c \<and> RiskLevel c' = RiskLevel c \<and> PlannedStart c' = PlannedStart c \<and> PlannedEnd c' = PlannedEnd c \<and> Canary c' = Canary c"
      using c' go w by (auto simp: startBody_def pre Let_def split: option.splits)
    with c' True w started show ?thesis by blast
  next
    case w: False
    have "startBody calendar clk c = (Some (Wrapped ''pre-change validation failed'' (Plain ''pre-change validation failed'')), c\<lparr>PreChangeValidation := v\<rparr>)"
      using go pre w by (simp add: startBody_def)
    with w refused show ?thesis by blast
  qed
qed

lemma startBody_ok:
  assumes "changeOK c"
  shows "changeOK (snd (startBody calendar clk c))"
proof (cases rule: startBody_cases [of calendar clk c])
  case (refused e v)
  with changeOK_ops(3) [OF assms] show ?thesis by simp
next
  case (started c')
  with assms have "cleared c" by (auto simp: changeOK_def)
  with started have "cleared c'" by (simp add: cleared_def)
  with started show ?thesis by (auto simp: changeOK_def)
qed

lemma register_ok:
  assumes "registerChange clk c cm = (r, cm')" "managerOK cm"
  shows "managerOK cm'"
proof -
  have "changeOK (c\<lparr>ChangeCreatedAt := t, ChangeUpdatedAt := u, ChangeState := StatusPlanned, ApprovalState := initialApproval c\<rparr>)" for t u
    by (auto simp: changeOK_def cleared_def initialApproval_def)
  from this changeOK_ops(2) [OF this] assms show ?thesis
    by (auto simp: registerChange_def Let_def managerOK_update split: if_splits option.splits)
qed

lemma onCanary_ok: "managerOK cm \<Longrightarrow> managerOK (onCanary k f cm)"
  by (auto simp: onCanary_def managerOK_def update_conv' changeOK_ops split: option.splits if_splits)

lemma op_ok:
  assumes "managerOK cm"
  shows "managerOK (snd (approveChange clk k who cm))" "managerOK (snd (rejectChange clk k cm))" "managerOK (snd (startChange calendar clk k cm))"
    "managerOK (snd (completeChange clk k cm))" "managerOK (snd (rollbackChange clk k cm))" "managerOK (snd (updateCanaryMetrics k ms cm))"
  unfolding change_ops
  by (rule withChange_ok [OF prod.collapse [symmetric] assms], auto simp: changeOK_ops startBody_ok split: option.split)+

lemma changeStep_ok:
  assumes "changeStep s s'" "managerOK (cmgr s)"
  shows "managerOK (cmgr s')"
  using assms(1)
proof cases
  case (registered clk c r cm)
  with register_ok [OF registered(2) assms(2)] show ?thesis by simp
next
  case (started calendar clk k r cm c)
  with op_ok(3) [OF assms(2), of calendar clk k] show ?thesis by simp
next
  case (iterated k c cfg st ev again undo st' cm clk)
  with onCanary_ok [OF assms(2), of k] op_ok(5) show ?thesis by simp
qed (use assms(2) op_ok [OF assms(2)] onCanary_ok in \<open>auto dest!: arg_cong [where f = snd] simp: snd_conv\<close>)

lemma changeReach_ok: "changeReach s \<Longrightarrow> managerOK (cmgr s)"
proof (induction rule: changeReach.induct)
  case start
  then show ?case by (simp add: managerOK_def newChangeManager_def)
next
  case (step s s')
  then show ?case by (blast intro: changeStep_ok)
qed

lemma startChange_iff:
  assumes "map_of cm k = Some c"
  shows "fst (startChange calendar clk k cm) = None \<longleftrightarrow> ApprovalState c \<in> {ApprovalApproved, ApprovalNoApproval}
    \<and> PlannedStart c \<le> clk 0 \<and> clk 0 \<le> PlannedEnd c \<and> isActiveChangeWindow calendar (clk 1)"
  using assms by (cases rule: startBody_cases [of calendar clk c]) (auto simp: startChange_def withChange_def)

text \<open>C30. Changes are governed, for every order of operations and steps of the canaries: a change in progress or
  completed was approved, or needs no approval by its tier or risk, and it started within its planned window; a
  rejected change is cancelled or rolled back; and a change starts exactly if it is cleared, the time is within the
  planned window and the hour is one of the weekly change windows.\<close>

theorem changes_governed:
  assumes "changeReach s" "map_of (cmgr s) k = Some c"
  shows "(ChangeState c \<in> {StatusInProgress, StatusCompleted} \<longrightarrow>
      (ApprovalState c = ApprovalApproved \<or> ApprovalState c = ApprovalNoApproval \<and> (Tier c \<ge> 4 \<or> RiskLevel c = ''low''))
      \<and> PlannedStart c \<le> ActualStart c \<and> ActualStart c \<le> PlannedEnd c)
    \<and> (ApprovalState c = ApprovalRejected \<longrightarrow> ChangeState c \<in> {StatusCancelled, StatusRolledBack})
    \<and> (\<forall>calendar clk. fst (startChange calendar clk k (cmgr s)) = None \<longleftrightarrow> ApprovalState c \<in> {ApprovalApproved, ApprovalNoApproval}
         \<and> PlannedStart c \<le> clk 0 \<and> clk 0 \<le> PlannedEnd c \<and> isActiveChangeWindow calendar (clk 1))"
proof -
  have "changeOK c" using changeReach_ok [OF assms(1)] assms(2) by (simp add: managerOK_def)
  then show ?thesis using startChange_iff [OF assms(2)] by (simp add: changeOK_def cleared_def)
qed

definition exampleCanary :: CanaryConfig where
  "exampleCanary = \<lparr>InitialPercentage = 5, IncrementStep = 40, IncrementInterval = 60, MaxPercentage = 100, CanaryMetricNames = [], Criteria = None\<rparr>"

definition exampleChange :: Change where
  "exampleChange = \<lparr>ChangeID = ''c1'', Title = '''', ChangeDescription = '''', Tier = 4, ChangeKind = ''deploy'', RiskLevel = ''high'', ChangeRequestedBy = '''',
     RequestedAt = 0, PlannedStart = 10, PlannedEnd = 20, ActualStart = 0, ActualEnd = 0, ApprovalState = ApprovalPending, ApprovedBy = '''', ApprovedAt = 0,
     RollbackPlan = '''', RollbackScript = '''', PreChangeValidation = None, PostChangeValidation = None, ChangeState = StatusPlanned,
     ChangeCreatedAt = 0, ChangeUpdatedAt = 0, Canary = Some exampleCanary, CanaryProgress = None\<rparr>"

definition runningChanges :: ChangeManager where
  "runningChanges = snd (startChange (\<lambda>_. (2, 11)) (\<lambda>_. 15) ''c1'' (snd (registerChange (\<lambda>_. 9) exampleChange newChangeManager)))"

lemma running_example:
  "changeReach \<lparr>cmgr = runningChanges, spawned = [''c1''], loops = [], panicked = False\<rparr>"
  "\<exists>c. map_of runningChanges ''c1'' = Some c \<and> ChangeState c = StatusInProgress \<and> ApprovalState c = ApprovalNoApproval \<and> PlannedStart c = 10 \<and> PlannedEnd c = 20"
proof -
  let ?cm = "snd (registerChange (\<lambda>_. 9) exampleChange newChangeManager)"
  have r: "registerChange (\<lambda>_. 9) exampleChange newChangeManager = (None, ?cm)"
    by (simp add: registerChange_def newChangeManager_def Let_def)
  have s: "startChange (\<lambda>_. (2, 11)) (\<lambda>_. 15) ''c1'' ?cm = (None, runningChanges)"
    and c: "\<exists>c. map_of runningChanges ''c1'' = Some c \<and> ChangeState c = StatusInProgress \<and> ApprovalState c = ApprovalNoApproval
      \<and> PlannedStart c = 10 \<and> PlannedEnd c = 20 \<and> Canary c \<noteq> None"
    by (simp_all add: runningChanges_def registerChange_def newChangeManager_def Let_def exampleChange_def initialApproval_def startChange_def withChange_def
        startBody_def runPreChangeValidation_def checkNoActiveIncidents_def checkErrorBudgetSufficient_def isActiveChangeWindow_def)
  then obtain c where c': "map_of runningChanges ''c1'' = Some c" "Canary c \<noteq> None" by blast
  show "changeReach \<lparr>cmgr = runningChanges, spawned = [''c1''], loops = [], panicked = False\<rparr>"
  proof -
    let ?s0 = "\<lparr>cmgr = newChangeManager, spawned = [], loops = [], panicked = False\<rparr>"
    have a: "changeStep ?s0 (?s0\<lparr>cmgr := ?cm\<rparr>)" using r by (intro registered) simp
    have "changeStep (?s0\<lparr>cmgr := ?cm\<rparr>) (?s0\<lparr>cmgr := ?cm\<rparr>\<lparr>cmgr := runningChanges,
        spawned := (if None = (None :: goerr option) \<and> Canary c \<noteq> None then ''c1'' # spawned (?s0\<lparr>cmgr := ?cm\<rparr>) else spawned (?s0\<lparr>cmgr := ?cm\<rparr>))\<rparr>)"
      using s by (intro started [OF _ c'(1)]) simp
    with changeReach.step [OF changeReach.start a] have "changeReach \<dots>" by (rule changeReach.step)
    with c'(2) show ?thesis by simp
  qed
  show "\<exists>c. map_of runningChanges ''c1'' = Some c \<and> ChangeState c = StatusInProgress \<and> ApprovalState c = ApprovalNoApproval \<and> PlannedStart c = 10 \<and> PlannedEnd c = 20"
    using c by blast
qed

theorem changes_governed_witness:
  "\<exists>c. map_of runningChanges ''c1'' = Some c \<and> ChangeState c = StatusInProgress \<and> 10 \<le> ActualStart c \<and> ActualStart c \<le> 20"
proof -
  obtain c where c: "map_of runningChanges ''c1'' = Some c" "ChangeState c = StatusInProgress" "PlannedStart c = 10" "PlannedEnd c = 20"
    using running_example(2) by blast
  with changes_governed [OF running_example(1), of "''c1''" c] show ?thesis by simp
qed

section \<open>Canary rollout\<close>

text \<open>The loop of a canary on the metrics and events of its iterations: whether it still runs, whether it asks for a
  rollback, and its status.\<close>

fun canaryRun :: "CanaryConfig \<Rightarrow> ((string \<times> float64) list \<times> canaryEvent) list \<Rightarrow> CanaryStatus \<Rightarrow> bool \<times> bool \<times> CanaryStatus" where
  "canaryRun cfg [] st = (canaryGuard cfg st, False, st)"
| "canaryRun cfg ((ms, ev) # evs) st =
     (if \<not> canaryGuard cfg st then (False, False, st)
      else case canaryIter cfg ev (st\<lparr>CanaryMetrics := ms\<rparr>) of (again, undo, st) \<Rightarrow>
        if again then canaryRun cfg evs st else (False, undo, st))"

definition goodTick :: "CanaryConfig \<Rightarrow> (string \<times> float64) list \<times> canaryEvent \<Rightarrow> bool" where
  "goodTick cfg e \<longleftrightarrow> snd e = Tick \<and> fst (checkCanaryMetrics (fst e) (Criteria cfg))"

definition ticksLeft :: "CanaryConfig \<Rightarrow> int \<Rightarrow> nat" where
  "ticksLeft cfg p = nat ((MaxPercentage cfg - p) div IncrementStep cfg) + 1"

lemma ticksLeft_step:
  assumes "0 < IncrementStep cfg"
  shows "p + IncrementStep cfg \<le> MaxPercentage cfg \<Longrightarrow> ticksLeft cfg p = Suc (ticksLeft cfg (p + IncrementStep cfg))"
    and "p \<le> MaxPercentage cfg \<Longrightarrow> MaxPercentage cfg < p + IncrementStep cfg \<Longrightarrow> ticksLeft cfg p = 1"
proof -
  assume le: "p + IncrementStep cfg \<le> MaxPercentage cfg"
  have "(MaxPercentage cfg - p) div IncrementStep cfg = (MaxPercentage cfg - (p + IncrementStep cfg)) div IncrementStep cfg + 1"
    using assms div_add_self2 [of "IncrementStep cfg" "MaxPercentage cfg - (p + IncrementStep cfg)"] by simp
  moreover have "0 \<le> (MaxPercentage cfg - (p + IncrementStep cfg)) div IncrementStep cfg" using le assms by (simp add: pos_imp_zdiv_nonneg_iff)
  ultimately show "ticksLeft cfg p = Suc (ticksLeft cfg (p + IncrementStep cfg))" by (simp add: ticksLeft_def)
next
  assume "p \<le> MaxPercentage cfg" "MaxPercentage cfg < p + IncrementStep cfg"
  then show "ticksLeft cfg p = 1" by (simp add: ticksLeft_def div_pos_pos_trivial)
qed

lemma canaryIter_bad:
  "\<not> goodTick cfg (ms, ev) \<Longrightarrow> \<exists>undo st'. canaryIter cfg ev (st\<lparr>CanaryMetrics := ms\<rparr>) = (False, undo, st')
     \<and> CanaryState st' = CanaryRolledBack \<and> CurrentPercentage st' = CurrentPercentage st \<and> (undo \<longleftrightarrow> ev = Tick)"
  by (cases ev) (auto simp: canaryIter_def goodTick_def split: prod.splits bool.splits)

lemma canaryIter_good:
  assumes "goodTick cfg (ms, ev)" "wrapInt (CurrentPercentage st + IncrementStep cfg) = q"
  shows "canaryIter cfg ev (st\<lparr>CanaryMetrics := ms\<rparr>) = (if q > MaxPercentage cfg
     then (False, False, st\<lparr>CanaryMetrics := ms, CurrentPercentage := MaxPercentage cfg, CanaryState := CanaryComplete\<rparr>)
     else (True, False, st\<lparr>CanaryMetrics := ms, CurrentPercentage := q\<rparr>))"
  using assms by (cases st) (auto simp: canaryIter_def goodTick_def Let_def split: prod.splits)

lemma canaryRun_spec:
  assumes "0 < IncrementStep cfg" "isInt (MaxPercentage cfg + IncrementStep cfg)" "isInt lo"
    "lo \<le> CurrentPercentage st" "CurrentPercentage st \<le> MaxPercentage cfg" "CanaryState st = CanaryInProgress"
    "canaryRun cfg evs st = (running, undo, st')"
  shows "lo \<le> CurrentPercentage st' \<and> CurrentPercentage st' \<le> MaxPercentage cfg
    \<and> (running \<longleftrightarrow> length evs < ticksLeft cfg (CurrentPercentage st) \<and> (\<forall>e \<in> set evs. goodTick cfg e))
    \<and> (CanaryState st' = CanaryComplete \<longleftrightarrow> ticksLeft cfg (CurrentPercentage st) \<le> length evs
         \<and> (\<forall>e \<in> set (take (ticksLeft cfg (CurrentPercentage st)) evs). goodTick cfg e))
    \<and> (CanaryState st' = CanaryComplete \<longrightarrow> CurrentPercentage st' = MaxPercentage cfg)
    \<and> (undo \<longrightarrow> CanaryState st' = CanaryRolledBack)
    \<and> (\<not> running \<longrightarrow> CanaryState st' \<in> {CanaryComplete, CanaryRolledBack})"
  using assms(4-)
proof (induction evs arbitrary: st)
  case Nil
  then show ?case by (auto simp: canaryGuard_def ticksLeft_def)
next
  case (Cons e evs)
  obtain ms ev where e: "e = (ms, ev)" by fastforce
  let ?p = "CurrentPercentage st" and ?s = "IncrementStep cfg"
  have guard: "canaryGuard cfg st" using Cons.prems by (simp add: canaryGuard_def)
  show ?case
  proof (cases "goodTick cfg e")
    case False
    then obtain st1 where it: "canaryIter cfg ev (st\<lparr>CanaryMetrics := ms\<rparr>) = (False, ev = Tick, st1)" "CanaryState st1 = CanaryRolledBack" "CurrentPercentage st1 = ?p"
      using canaryIter_bad e by metis
    have "0 < ticksLeft cfg ?p" by (simp add: ticksLeft_def)
    then obtain m where "ticksLeft cfg ?p = Suc m" by (cases "ticksLeft cfg ?p") auto
    with False it Cons.prems guard e show ?thesis by auto
  next
    case True
    have "isInt (?p + ?s)" using assms(1-3) Cons.prems(1,2) by (auto simp: isInt_def)
    then have q: "wrapInt (?p + ?s) = ?p + ?s" by (rule wrapInt_id)
    note it = canaryIter_good [OF True [unfolded e] q]
    show ?thesis
    proof (cases "?p + ?s > MaxPercentage cfg")
      case fin: True
      then have "ticksLeft cfg ?p = 1" using ticksLeft_step(2) [OF assms(1)] Cons.prems(2) by simp
      with True fin it Cons.prems guard e assms(1) show ?thesis by auto
    next
      case more: False
      let ?st = "st\<lparr>CanaryMetrics := ms, CurrentPercentage := ?p + ?s\<rparr>"
      have run: "canaryRun cfg evs ?st = (running, undo, st')" using Cons.prems(4) guard it more e by simp
      have "ticksLeft cfg ?p = Suc (ticksLeft cfg (?p + ?s))" using ticksLeft_step(1) [OF assms(1)] more by simp
      with Cons.IH [OF _ _ _ run] Cons.prems(1,3) more assms(1) True show ?thesis by simp blast
    qed
  qed
qed

text \<open>C31. A canary is a stepwise rollout that ends: for a positive step the percentage stays between the initial and
  the maximal one; the loop still runs only while every tick so far was good and fewer ticks came than the
  distance takes; it completes, at exactly the maximal percentage, if and only if the first so many events are
  ticks whose metrics meet the criteria; otherwise it ends rolled back.\<close>

theorem canary_rollout:
  assumes "0 < IncrementStep cfg" "InitialPercentage cfg \<le> MaxPercentage cfg" "isInt (InitialPercentage cfg)"
    "isInt (MaxPercentage cfg + IncrementStep cfg)" "canaryRun cfg evs (canaryBegin cfg st) = (running, undo, st')"
    "n = nat ((MaxPercentage cfg - InitialPercentage cfg) div IncrementStep cfg) + 1"
  shows "InitialPercentage cfg \<le> CurrentPercentage st' \<and> CurrentPercentage st' \<le> MaxPercentage cfg
    \<and> (running \<longleftrightarrow> length evs < n \<and> (\<forall>e \<in> set evs. goodTick cfg e))
    \<and> (CanaryState st' = CanaryComplete \<longleftrightarrow> n \<le> length evs \<and> (\<forall>e \<in> set (take n evs). goodTick cfg e))
    \<and> (CanaryState st' = CanaryComplete \<longrightarrow> CurrentPercentage st' = MaxPercentage cfg)
    \<and> (undo \<longrightarrow> CanaryState st' = CanaryRolledBack)
    \<and> (\<not> running \<longrightarrow> CanaryState st' \<in> {CanaryComplete, CanaryRolledBack})"
proof -
  have n: "n = ticksLeft cfg (CurrentPercentage (canaryBegin cfg st))" using assms(6) by (simp add: canaryBegin_def ticksLeft_def)
  show ?thesis unfolding n using assms(2) by (intro canaryRun_spec [OF assms(1,4,3) _ _ _ assms(5)]) (simp_all add: canaryBegin_def)
qed

theorem canary_rollout_witness:
  "CanaryState (snd (snd (canaryRun exampleCanary [([], Tick), ([], Tick), ([], Tick)] (canaryBegin exampleCanary
     \<lparr>CurrentPercentage = 0, CurrentStep = 0, CanaryStart = 0, CanaryMetrics = [], CanaryState = CanaryNotStarted, FailureReason = ''''\<rparr>)))) = CanaryComplete"
proof -
  let ?st = "\<lparr>CurrentPercentage = 0, CurrentStep = 0, CanaryStart = 0, CanaryMetrics = [], CanaryState = CanaryNotStarted, FailureReason = ''''\<rparr>"
  obtain running undo st' where run: "canaryRun exampleCanary [([], Tick), ([], Tick), ([], Tick)] (canaryBegin exampleCanary ?st) = (running, undo, st')"
    using prod_cases3 by blast
  have "3 = nat ((MaxPercentage exampleCanary - InitialPercentage exampleCanary) div IncrementStep exampleCanary) + 1" by (simp add: exampleCanary_def)
  from canary_rollout [OF _ _ _ _ run this] run show ?thesis
    by (simp add: exampleCanary_def isInt_def minInt_def maxInt_def goodTick_def checkCanaryMetrics_def)
qed

section \<open>Behaviour worth knowing\<close>

text \<open>A change that was completed or rolled back can be started again; the state of the change is not looked at.\<close>

lemma restart_finished:
  assumes "map_of cm k = Some c" "ChangeState c = StatusCompleted" "changeOK c" "PlannedStart c \<le> clk 0" "clk 0 \<le> PlannedEnd c"
    "isActiveChangeWindow calendar (clk 1)"
  shows "fst (startChange calendar clk k cm) = None"
  using startChange_iff [OF assms(1)] assms by (auto simp: changeOK_def cleared_def)

text \<open>A rollback is accepted in every state, also before a change has started and after it was completed.\<close>

lemma rollback_any: "map_of cm k = Some c \<Longrightarrow> fst (rollbackChange clk k cm) = None"
  by (simp add: rollbackChange_def withChange_def)

text \<open>A canary that is cancelled leaves its change in progress, which can then be completed.\<close>

lemma cancelled_canary_completes:
  assumes "map_of cm k = Some c" "ChangeState c = StatusInProgress" "Canary c = Some cfg" "CanaryProgress c = Some st"
  shows "fst (completeChange clk k (onCanary k (\<lambda>cfg st. snd (snd (canaryIter cfg CtxDone st))) cm)) = None"
  using assms by (simp add: completeChange_def withChange_def onCanary_def update_conv')

text \<open>A canary with an availability criterion and without metrics is rolled back at its first tick.\<close>

lemma no_metrics_roll_back:
  "Criteria cfg = Some cr \<Longrightarrow> MinAvailability cr = Fin q \<Longrightarrow> 0 < q \<Longrightarrow> fst (checkCanaryMetrics [] (Criteria cfg)) = False"
  by (simp add: checkCanaryMetrics_def metricOr0_def)

end
