(* ===== verification/ActionRunner.thy ===== *)
theory ActionRunner
  imports Telemetry IngestPolicy "HOL-Library.Sublist"
begin

text \<open>
  The playbook runner of the agent (\<^verbatim>\<open>controller/agentcore/actions.go\<close>): actions that a language model or a playbook
  proposes, the harness that decides which of them may run at all, authorization, idempotency and rollback.

  A nil slice or map is \<open>None\<close>, because it shows in the idempotency key.  The digest of the key, the conversion of
  decimal numbers and the moments at which the context ends are parameters; formatted values are left out of
  error texts.
\<close>

section \<open>Strings\<close>

text \<open>\<^verbatim>\<open>strings.Fields\<close>, \<^verbatim>\<open>strings.Contains\<close> and \<^verbatim>\<open>firstNonEmpty\<close>.\<close>

function strFields :: "string \<Rightarrow> string list" where
  "strFields s = (let t = dropWhile isSpace s in
     if t = [] then [] else takeWhile (\<lambda>c. \<not> isSpace c) t # strFields (dropWhile (\<lambda>c. \<not> isSpace c) t))"
  by auto

lemma strFields_shrinks:
  assumes "dropWhile isSpace s \<noteq> []"
  shows "length (dropWhile (\<lambda>c. \<not> isSpace c) (dropWhile isSpace s)) < length s"
proof -
  obtain c t where t: "dropWhile isSpace s = c # t" using assms by (cases "dropWhile isSpace s") auto
  then have "\<not> isSpace c" using hd_dropWhile [of isSpace s] assms by simp
  then have "length (dropWhile (\<lambda>c. \<not> isSpace c) (c # t)) \<le> length t" using length_dropWhile_le [of "\<lambda>c. \<not> isSpace c" t] by simp
  also have "\<dots> < length (dropWhile isSpace s)" using t by simp
  also have "\<dots> \<le> length s" by (rule length_dropWhile_le)
  finally show ?thesis using t by simp
qed

termination strFields by (relation "measure length") (auto simp: strFields_shrinks)

declare strFields.simps [simp del]

definition contains :: "string \<Rightarrow> string \<Rightarrow> bool" where
  "contains s sub \<longleftrightarrow> sublist sub s"

fun firstNonEmpty :: "string list \<Rightarrow> string" where
  "firstNonEmpty [] = ''''"
| "firstNonEmpty (v # vs) = (if trimSpace v \<noteq> '''' then trimSpace v else firstNonEmpty vs)"

definition compactStrings :: "string list \<Rightarrow> string list" where
  "compactStrings vs = filter (\<lambda>v. v \<noteq> '''') (map trimSpace vs)"

definition sliceOf :: "'a list option \<Rightarrow> 'a list" where
  "sliceOf xo = (case xo of None \<Rightarrow> [] | Some xs \<Rightarrow> xs)"

section \<open>Data\<close>

record RunnerConfig =
  DryRun :: bool
  AllowUnsafe :: bool
  DefaultNamespace :: string
  AllowedNamespaces :: "string list"
  AllowedShellCommands :: "string list"
  IdempotencyTTL :: int
  MaxParallelActions :: int
  ActionTimeout :: int

record ActionSpec =
  ActID :: string
  ActType :: string
  ActNode :: string
  ActTarget :: string
  ActDescription :: string
  Command :: string
  Args :: "string list option"
  Namespace :: string
  Resource :: string
  ResourceName :: string
  Priority :: string
  Safe :: bool
  RequiresApproval :: bool
  RollbackCommand :: string
  Metadata :: "(string \<rightharpoonup> string) option"
  ApprovalRequired :: bool
  ApprovalToken :: string
  ActExpiresAt :: int

record OperatorActionHandoff =
  HandoffStatus :: string
  Proposal :: string
  HandoffScope :: string
  HandoffPreconditions :: "string list"
  HandoffImpact :: string
  HandoffBlastRadius :: "string list"
  HandoffRollback :: string
  MissingInformation :: "string list"

datatype resultStatus = ActionResultExecuted | ActionResultDryRun | ActionResultSkipped | ActionResultFailed | ActionResultBlocked

record RunnerResult =
  ResID :: string
  ResType :: string
  ResStatus :: resultStatus
  ResOutput :: string
  ResError :: string
  ResDryRun :: bool
  ResKey :: string
  IsRollback :: bool
  OperatorHandoff :: "OperatorActionHandoff option"
  ResStartedAt :: int
  ResCompletedAt :: int

record MetricCondition =
  CondMetric :: string
  CondOp :: string
  CondThreshold :: float64

record MetricPlaybook =
  PbID :: string
  PbSummary :: string
  PbSeverity :: string
  PbConditions :: "MetricCondition list"
  PbActions :: "ActionSpec list"

record idempotencyRecord =
  RecResult :: RunnerResult
  RecExpiresAt :: int

record PlaybookRunner =
  rcfg :: RunnerConfig
  playbooks :: "MetricPlaybook list"
  allowedNamespaces :: "string set"
  allowedShell :: "string set"
  executed :: "string \<rightharpoonup> idempotencyRecord"

text \<open>What \<^verbatim>\<open>idempotencyKey\<close> hashes.\<close>

record KeyPayload =
  kType :: string
  kNode :: string
  kTarget :: string
  kCommand :: string
  kArgs :: "string list option"
  kNamespace :: string
  kResource :: string
  kName :: string
  kMetadata :: "(string \<rightharpoonup> string) option"

record RunnerEnv =
  digest :: "KeyPayload \<Rightarrow> string"
  parseFloat :: "string \<Rightarrow> float64 option"

text \<open>Errors: \<open>HumanRequired\<close> wraps \<^verbatim>\<open>errHumanOperatorRequired\<close>, which \<^verbatim>\<open>errors.Is\<close> finds.\<close>

datatype runnerErr = HumanRequired string | RunnerErr string

fun errText :: "runnerErr \<Rightarrow> string" where
  "errText (HumanRequired m) = ''human operator required: '' @ m"
| "errText (RunnerErr m) = m"

section \<open>Normal forms\<close>

definition toSet :: "string list \<Rightarrow> string set" where
  "toSet vs = set (compactStrings vs)"

definition normalizeAction :: "ActionSpec \<Rightarrow> ActionSpec" where
  "normalizeAction a = a\<lparr>ActID := trimSpace (ActID a), ActType := toLower (trimSpace (ActType a)), ActNode := trimSpace (ActNode a),
     ActTarget := trimSpace (ActTarget a), ActDescription := trimSpace (ActDescription a), Command := trimSpace (Command a),
     Namespace := trimSpace (Namespace a), Resource := trimSpace (Resource a), ResourceName := trimSpace (ResourceName a),
     Priority := trimSpace (Priority a), Metadata := (case Metadata a of None \<Rightarrow> Some Map.empty | Some md \<Rightarrow> Some md)\<rparr>"

definition normalizePlaybooks :: "MetricPlaybook list \<Rightarrow> MetricPlaybook list" where
  "normalizePlaybooks pbs = map (\<lambda>pb. let sev = trimSpace (PbSeverity pb) in
       pb\<lparr>PbID := trimSpace (PbID pb), PbSummary := trimSpace (PbSummary pb), PbSeverity := sev,
         PbActions := map (\<lambda>a. let a = normalizeAction a in if Priority a = '''' then a\<lparr>Priority := sev\<rparr> else a) (PbActions pb)\<rparr>)
     (filter (\<lambda>pb. \<not> (trimSpace (PbID pb) = '''' \<or> PbActions pb = [])) pbs)"

definition sanitizeChar :: "char \<Rightarrow> char" where
  "sanitizeChar c = (let n = of_char c :: nat in
     if (97 \<le> n \<and> n \<le> 122) \<or> (65 \<le> n \<and> n \<le> 90) \<or> (48 \<le> n \<and> n \<le> 57) \<or> c = CHR ''-'' \<or> c = CHR ''_'' then c else CHR ''-'')"

definition sanitizeID :: "string \<Rightarrow> string" where
  "sanitizeID s = (if s = '''' then ''action''
     else let m = map sanitizeChar s; dash = (\<lambda>c. c = CHR ''-'') in rev (dropWhile dash (rev (dropWhile dash m))))"

definition truncateOutput :: "string \<Rightarrow> string" where
  "truncateOutput s = (let clean = trimSpace s in if length clean \<le> 1024 then clean else take 1024 clean)"

definition idempotencyKey :: "RunnerEnv \<Rightarrow> ActionSpec \<Rightarrow> string" where
  "idempotencyKey E a = digest E \<lparr>kType = ActType a, kNode = ActNode a, kTarget = ActTarget a, kCommand = Command a, kArgs = Args a,
     kNamespace = Namespace a, kResource = Resource a, kName = ResourceName a, kMetadata = Metadata a\<rparr>"

fun dedupeLoop :: "RunnerEnv \<Rightarrow> string list \<Rightarrow> ActionSpec list \<Rightarrow> ActionSpec list" where
  "dedupeLoop E seen [] = []"
| "dedupeLoop E seen (a # acts) = (let key = idempotencyKey E a in
     if key \<in> set seen then dedupeLoop E seen acts else a # dedupeLoop E (key # seen) acts)"

definition dedupeActionSpecs :: "RunnerEnv \<Rightarrow> ActionSpec list \<Rightarrow> ActionSpec list" where
  "dedupeActionSpecs E acts = dedupeLoop E [] acts"

section \<open>Construction\<close>

definition defaultRunnerConfig :: RunnerConfig where
  "defaultRunnerConfig = \<lparr>DryRun = True, AllowUnsafe = False, DefaultNamespace = ''default'', AllowedNamespaces = [''default''],
     AllowedShellCommands = [''echo''], IdempotencyTTL = 30 * 60 * 10 ^ 9, MaxParallelActions = 4, ActionTimeout = 15 * 10 ^ 9\<rparr>"

definition runnerDefaults :: "RunnerConfig \<Rightarrow> RunnerConfig" where
  "runnerDefaults c = c\<lparr>IdempotencyTTL := (if IdempotencyTTL c \<le> 0 then 30 * 60 * 10 ^ 9 else IdempotencyTTL c),
     DefaultNamespace := (if DefaultNamespace c = '''' then ''default'' else DefaultNamespace c),
     MaxParallelActions := (if MaxParallelActions c \<le> 0 then 4 else MaxParallelActions c),
     ActionTimeout := (if ActionTimeout c \<le> 0 then 15 * 10 ^ 9 else ActionTimeout c)\<rparr>"

text \<open>\<open>loaded\<close> is the answer of \<^verbatim>\<open>LoadPlaybooks\<close>: an error, with a mark for a missing file, or the playbooks.\<close>

definition newPlaybookRunner :: "RunnerConfig \<Rightarrow> (bool + MetricPlaybook list) \<Rightarrow> runnerErr + PlaybookRunner" where
  "newPlaybookRunner c loaded = (let c = runnerDefaults c;
       ns = toSet (AllowedNamespaces c); sh = toSet (AllowedShellCommands c);
       r = \<lparr>rcfg = c, playbooks = [], allowedNamespaces = (if ns = {} then {DefaultNamespace c} else ns),
         allowedShell = (if sh = {} then {''echo''} else sh), executed = Map.empty\<rparr>
     in case loaded of
       Inl missing \<Rightarrow> if missing then Inr r else Inl (RunnerErr ''load playbooks'')
     | Inr pbs \<Rightarrow> Inr (r\<lparr>playbooks := normalizePlaybooks pbs\<rparr>))"

definition reload :: "RunnerConfig \<Rightarrow> (bool + MetricPlaybook list) \<Rightarrow> PlaybookRunner \<Rightarrow> runnerErr option \<times> PlaybookRunner" where
  "reload c loaded r = (let c = runnerDefaults c in
     if (case loaded of Inl missing \<Rightarrow> \<not> missing | Inr _ \<Rightarrow> False) then (Some (RunnerErr ''load playbooks''), r)
     else let c = c\<lparr>AllowedNamespaces := (if AllowedNamespaces c = [] then [DefaultNamespace c] else AllowedNamespaces c),
                AllowedShellCommands := (if AllowedShellCommands c = [] then [''echo''] else AllowedShellCommands c)\<rparr>
       in (None, r\<lparr>rcfg := c, playbooks := (case loaded of Inl _ \<Rightarrow> [] | Inr pbs \<Rightarrow> normalizePlaybooks pbs),
             allowedNamespaces := toSet (AllowedNamespaces c), allowedShell := toSet (AllowedShellCommands c)\<rparr>))"


section \<open>Proposals\<close>

definition fle :: "float64 \<Rightarrow> float64 \<Rightarrow> bool" where
  "fle a b \<longleftrightarrow> a \<noteq> NaN \<and> b \<noteq> NaN \<and> \<not> flt b a"

definition feq :: "float64 \<Rightarrow> float64 \<Rightarrow> bool" where
  "feq a b \<longleftrightarrow> a \<noteq> NaN \<and> a = b"

definition conditionMatches :: "MetricCondition \<Rightarrow> (string \<rightharpoonup> float64) \<Rightarrow> bool" where
  "conditionMatches cond ms = (case ms (CondMetric cond) of None \<Rightarrow> False
     | Some v \<Rightarrow> let op = CondOp cond; t = CondThreshold cond in
        if op = ''>'' then flt t v else if op = ''>='' then fle t v
        else if op = ''<'' then flt v t else if op = ''<='' then fle v t
        else if op = ''=='' then feq v t else if op = ''!='' then \<not> feq v t else False)"

definition playbookMatches :: "MetricPlaybook \<Rightarrow> (string \<rightharpoonup> float64) \<Rightarrow> bool" where
  "playbookMatches pb ms \<longleftrightarrow> PbConditions pb \<noteq> [] \<and> list_all (\<lambda>c. conditionMatches c ms) (PbConditions pb)"

definition candidateFrom :: "string \<Rightarrow> MetricPlaybook \<Rightarrow> nat \<times> ActionSpec \<Rightarrow> ActionSpec" where
  "candidateFrom node pb ia = (case ia of (i, action) \<Rightarrow>
     let c = (normalizeAction action)\<lparr>ActNode := node\<rparr>;
         c = (if ActID c = '''' then c\<lparr>ActID := sanitizeID (PbID pb) @ ''-'' @ formatNat (i + 1)\<rparr> else c);
         c = (if ActDescription c = '''' then c\<lparr>ActDescription := PbSummary pb\<rparr> else c)
     in if Priority c = '''' then c\<lparr>Priority := PbSeverity pb\<rparr> else c)"

definition proposeFromMetrics :: "RunnerEnv \<Rightarrow> string \<Rightarrow> (string \<rightharpoonup> float64) \<Rightarrow> PlaybookRunner \<Rightarrow> ActionSpec list" where
  "proposeFromMetrics E node ms r = dedupeActionSpecs E
     (concat (map (\<lambda>pb. map (candidateFrom node pb) (enumerate 0 (PbActions pb))) (filter (\<lambda>pb. playbookMatches pb ms) (playbooks r))))"

section \<open>The harness\<close>

definition isShellAction :: "string \<Rightarrow> bool" where
  "isShellAction t \<longleftrightarrow> toLower (trimSpace t) \<in> {''shell'', ''command''}"

definition isKubernetesAction :: "string \<Rightarrow> bool" where
  "isKubernetesAction t \<longleftrightarrow> toLower (trimSpace t) \<in> {''kubernetes'', ''k8s'', ''restart_pod'', ''restart_deployment'', ''scale_deployment''}"

definition shellInvocation :: "ActionSpec \<Rightarrow> runnerErr + (string \<times> string list)" where
  "shellInvocation a = (let command = trimSpace (Command a) in
     if command = '''' then Inl (RunnerErr ''shell action requires command'')
     else case strFields command of [] \<Rightarrow> Inl (RunnerErr ''shell command is empty'')
       | p # ps \<Rightarrow> Inr (p, ps @ sliceOf (Args a)))"

definition sleepSeconds :: "RunnerEnv \<Rightarrow> string \<Rightarrow> bool" where
  "sleepSeconds E arg = (case parseFloat E arg of Some (Fin q) \<Rightarrow> \<not> (q < 0 \<or> q > 60) | _ \<Rightarrow> False)"

definition enforceActionHarness :: "RunnerEnv \<Rightarrow> ActionSpec \<Rightarrow> runnerErr option" where
  "enforceActionHarness E a =
     (if isKubernetesAction (ActType a) then Some (HumanRequired ''Kubernetes commands and mutations are proposal-only'')
      else if \<not> isShellAction (ActType a) then Some (RunnerErr ''unsupported action type'')
      else case shellInvocation a of Inl e \<Rightarrow> Some e
       | Inr (command, args) \<Rightarrow>
           if command \<noteq> pathBase command then Some (HumanRequired ''executable paths are not allowed'')
           else if command = ''echo'' then
             (if list_ex (\<lambda>arg. containsAny arg [CHR 0x00, CHR 10, CHR 13]) args then Some (RunnerErr ''invalid echo argument'') else None)
           else if command = ''sleep'' then
             (case args of [arg] \<Rightarrow> if sleepSeconds E arg then None else Some (RunnerErr ''sleep duration must be between 0 and 60 seconds'')
              | _ \<Rightarrow> Some (RunnerErr ''sleep requires one numeric duration''))
           else Some (HumanRequired ''command is proposal-only''))"

definition namespaceAllowed :: "string \<Rightarrow> PlaybookRunner \<Rightarrow> bool" where
  "namespaceAllowed ns r \<longleftrightarrow> (let ns = trimSpace ns in if ns = '''' then DefaultNamespace (rcfg r) else ns) \<in> allowedNamespaces r"

definition shellAllowed :: "string \<Rightarrow> PlaybookRunner \<Rightarrow> bool" where
  "shellAllowed command r \<longleftrightarrow> command \<in> allowedShell r"

definition authorize :: "RunnerEnv \<Rightarrow> ActionSpec \<Rightarrow> PlaybookRunner \<Rightarrow> runnerErr option" where
  "authorize E a r = (case enforceActionHarness E a of Some e \<Rightarrow> Some e
     | None \<Rightarrow>
       if RequiresApproval a then Some (RunnerErr ''action requires explicit approval'')
       else if \<not> Safe a \<and> \<not> AllowUnsafe (rcfg r) then Some (RunnerErr ''unsafe action blocked by policy'')
       else if isKubernetesAction (ActType a) \<and> \<not> namespaceAllowed (Namespace a) r then Some (RunnerErr ''namespace not allowed'')
       else if isShellAction (ActType a) then
         (case shellInvocation a of Inl e \<Rightarrow> Some e
          | Inr (cmd, _) \<Rightarrow> if \<not> shellAllowed cmd r then Some (RunnerErr ''shell command not allowed'') else None)
       else None)"

text \<open>\<open>interrupted\<close> is the error of the context if it ends before the timer of a \<^verbatim>\<open>sleep\<close>.\<close>

definition runShell :: "RunnerEnv \<Rightarrow> runnerErr option \<Rightarrow> ActionSpec \<Rightarrow> runnerErr + string" where
  "runShell E interrupted a = (case shellInvocation a of Inl e \<Rightarrow> Inl e
     | Inr (cmdName, args) \<Rightarrow> (case enforceActionHarness E a of Some e \<Rightarrow> Inl e
       | None \<Rightarrow>
         if cmdName = ''echo'' then Inr (truncateOutput (joinWith '' '' args @ [CHR 10]))
         else if cmdName = ''sleep'' then (case interrupted of Some e \<Rightarrow> Inl e | None \<Rightarrow> Inr '''')
         else Inl (HumanRequired ''command is proposal-only'')))"

definition dispatch :: "RunnerEnv \<Rightarrow> runnerErr option \<Rightarrow> ActionSpec \<Rightarrow> runnerErr + string" where
  "dispatch E interrupted a = (case enforceActionHarness E a of Some e \<Rightarrow> Inl e
     | None \<Rightarrow>
       if isShellAction (ActType a) then runShell E interrupted a
       else if isKubernetesAction (ActType a) then (case enforceActionHarness E a of Some e \<Rightarrow> Inl e | None \<Rightarrow> Inr '''')
       else Inl (RunnerErr ''unsupported action type''))"

section \<open>Execution\<close>

definition operatorHandoffForAction :: "ActionSpec \<Rightarrow> OperatorActionHandoff" where
  "operatorHandoffForAction a = \<lparr>HandoffStatus = ''awaiting_human_execution'',
     Proposal = firstNonEmpty [ActDescription a, Command a, ActType a],
     HandoffScope = joinWith ''/'' (compactStrings [Namespace a, Resource a, ResourceName a, ActTarget a, ActNode a]),
     HandoffPreconditions = [], HandoffImpact = '''', HandoffBlastRadius = [], HandoffRollback = trimSpace (RollbackCommand a), MissingInformation = []\<rparr>"

fun errHandoff :: "ActionSpec \<Rightarrow> runnerErr option \<Rightarrow> OperatorActionHandoff option" where
  "errHandoff a (Some (HumanRequired m)) = Some (operatorHandoffForAction a)"
| "errHandoff a _ = None"

definition buildActionResult :: "ActionSpec \<Rightarrow> string \<Rightarrow> int \<Rightarrow> int \<Rightarrow> resultStatus \<Rightarrow> string \<Rightarrow> runnerErr option \<Rightarrow> bool \<Rightarrow> RunnerResult" where
  "buildActionResult a key started completed status out err dry = \<lparr>ResID = ActID a, ResType = ActType a, ResStatus = status,
     ResOutput = truncateOutput out, ResError = (case err of None \<Rightarrow> '''' | Some e \<Rightarrow> errText e), ResDryRun = dry, ResKey = key,
     IsRollback = False, OperatorHandoff = errHandoff a err, ResStartedAt = started, ResCompletedAt = completed\<rparr>"

definition pruneExpiredLocked :: "int \<Rightarrow> PlaybookRunner \<Rightarrow> PlaybookRunner" where
  "pruneExpiredLocked now r = r\<lparr>executed := (\<lambda>k. case executed r k of None \<Rightarrow> None
     | Some rec \<Rightarrow> if now > RecExpiresAt rec then None else Some rec)\<rparr>"

definition previousResult :: "int \<Rightarrow> string \<Rightarrow> PlaybookRunner \<Rightarrow> RunnerResult option \<times> PlaybookRunner" where
  "previousResult now key r = (let r = pruneExpiredLocked now r in
     (case executed r key of None \<Rightarrow> None | Some rec \<Rightarrow> Some (RecResult rec), r))"

definition rememberResult :: "int \<Rightarrow> int \<Rightarrow> string \<Rightarrow> RunnerResult \<Rightarrow> PlaybookRunner \<Rightarrow> PlaybookRunner" where
  "rememberResult now now' key res r = (let r = pruneExpiredLocked now r in
     r\<lparr>executed := (executed r)(key \<mapsto> \<lparr>RecResult = res, RecExpiresAt = now' + IdempotencyTTL (rcfg r)\<rparr>)\<rparr>)"

text \<open>The world of one call: its readings of the clock, whether its context ends before a timer, and whether the
  deadline has passed when an error is reported.\<close>

record CallWorld =
  clk :: "nat \<Rightarrow> int"
  interrupted :: "runnerErr option"
  deadlineExceeded :: bool

text \<open>What follows when no earlier result is found: the result, and whether it is remembered.\<close>

definition attempt :: "RunnerEnv \<Rightarrow> CallWorld \<Rightarrow> ActionSpec \<Rightarrow> bool \<Rightarrow> PlaybookRunner \<Rightarrow> RunnerResult \<times> bool" where
  "attempt E w action forceDryRun r = (let key = idempotencyKey E action; start = clk w 0 in
     case authorize E action r of
       Some e \<Rightarrow> (buildActionResult action key start (clk w 2) ActionResultBlocked '''' (Some e) True, False)
     | None \<Rightarrow>
         if forceDryRun \<or> DryRun (rcfg r)
         then (buildActionResult action key start (clk w 2) ActionResultDryRun ''dry-run mode enabled'' None True, True)
         else (case dispatch E (interrupted w) action of
             Inr out \<Rightarrow> (buildActionResult action key start (clk w 2) ActionResultExecuted out None False, True)
           | Inl e \<Rightarrow> (buildActionResult action key start (clk w 2) ActionResultFailed ''''
               (Some (if deadlineExceeded w then RunnerErr ''action timed out'' else e)) False, True)))"

definition skippedResult :: "RunnerResult \<Rightarrow> RunnerResult" where
  "skippedResult prev = prev\<lparr>ResStatus := ActionResultSkipped, ResOutput := ''action already executed for this idempotency key''\<rparr>"

definition executeOne :: "RunnerEnv \<Rightarrow> CallWorld \<Rightarrow> ActionSpec \<Rightarrow> bool \<Rightarrow> PlaybookRunner \<Rightarrow> RunnerResult \<times> PlaybookRunner" where
  "executeOne E w raw forceDryRun r = (let action = normalizeAction raw; key = idempotencyKey E action in
     case previousResult (clk w 1) key r of
       (Some prev, r) \<Rightarrow> (skippedResult prev, r)
     | (None, r) \<Rightarrow> (case attempt E w action forceDryRun r of
         (res, keep) \<Rightarrow> (res, if keep then rememberResult (clk w 3) (clk w 4) key res r else r)))"

definition executeRollback :: "RunnerEnv \<Rightarrow> CallWorld \<Rightarrow> ActionSpec \<Rightarrow> bool \<Rightarrow> PlaybookRunner \<Rightarrow> RunnerResult" where
  "executeRollback E w action dry r = (let started = clk w 0; key = idempotencyKey E action @ ''-rollback'' in
     if RollbackCommand action = '''' then buildActionResult action key started (clk w 2) ActionResultSkipped ''No rollback command defined'' None dry
     else let ra = action\<lparr>Command := RollbackCommand action, ActDescription := ''Rollback proposal: '' @ RollbackCommand action\<rparr> in
       case authorize E ra r of
         Some e \<Rightarrow> (buildActionResult ra key started (clk w 2) ActionResultBlocked '''' (Some e) True)\<lparr>IsRollback := True\<rparr>
       | None \<Rightarrow>
           if dry \<or> DryRun (rcfg r)
           then buildActionResult action key started (clk w 2) ActionResultDryRun (''Dry run: would execute rollback: '' @ RollbackCommand action) None True
           else (case dispatch E (interrupted w) ra of
               Inr out \<Rightarrow> (buildActionResult action key started (clk w 2) ActionResultExecuted out None False)\<lparr>IsRollback := True\<rparr>
             | Inl e \<Rightarrow> (buildActionResult action key started (clk w 2) ActionResultFailed '''' (Some e) False)\<lparr>IsRollback := True,
                 ResError := (if deadlineExceeded w then ''rollback timed out'' else errText e)\<rparr>))"


section \<open>A batch of actions\<close>

text \<open>\<^verbatim>\<open>Execute\<close> starts a goroutine per action, as many at a time as the semaphore admits.  A goroutine looks for an
  earlier result and, if there is none, attempts the action; the mutex makes the lookup and the remembering one
  step each.  Other users of the runner act at any moment (\<open>meanwhile\<close>).\<close>

datatype routine = Started nat | Missed nat

record BatchState =
  brunner :: PlaybookRunner
  sem :: int
  nextAction :: nat
  routines :: "routine list"
  bresults :: "nat \<rightharpoonup> RunnerResult"

definition batchStart :: "PlaybookRunner \<Rightarrow> BatchState" where
  "batchStart r = \<lparr>brunner = r, sem = MaxParallelActions (rcfg r), nextAction = 0, routines = [], bresults = Map.empty\<rparr>"

definition batchDone :: "ActionSpec list \<Rightarrow> BatchState \<Rightarrow> bool" where
  "batchDone acts s \<longleftrightarrow> nextAction s = length acts \<and> routines s = []"

inductive batchStep :: "RunnerEnv \<Rightarrow> (nat \<Rightarrow> CallWorld) \<Rightarrow> ActionSpec list \<Rightarrow> bool \<Rightarrow> BatchState \<Rightarrow> BatchState \<Rightarrow> bool"
  for E ws acts forceDryRun where
  spawn: "\<lbrakk>nextAction s < length acts; int (length (routines s)) < sem s\<rbrakk>
    \<Longrightarrow> batchStep E ws acts forceDryRun s (s\<lparr>nextAction := nextAction s + 1, routines := Started (nextAction s) # routines s\<rparr>)"
| hit: "\<lbrakk>routines s = as @ Started i # bs; previousResult (clk (ws i) 1) (idempotencyKey E (normalizeAction (acts ! i))) (brunner s) = (Some prev, r)\<rbrakk>
    \<Longrightarrow> batchStep E ws acts forceDryRun s (s\<lparr>brunner := r, routines := as @ bs, bresults := (bresults s)(i \<mapsto> skippedResult prev)\<rparr>)"
| miss: "\<lbrakk>routines s = as @ Started i # bs; previousResult (clk (ws i) 1) (idempotencyKey E (normalizeAction (acts ! i))) (brunner s) = (None, r)\<rbrakk>
    \<Longrightarrow> batchStep E ws acts forceDryRun s (s\<lparr>brunner := r, routines := as @ Missed i # bs\<rparr>)"
| finish: "\<lbrakk>routines s = as @ Missed i # bs; action = normalizeAction (acts ! i); attempt E (ws i) action forceDryRun (brunner s) = (res, keep);
      r = (if keep then rememberResult (clk (ws i) 3) (clk (ws i) 4) (idempotencyKey E action) res (brunner s) else brunner s)\<rbrakk>
    \<Longrightarrow> batchStep E ws acts forceDryRun s (s\<lparr>brunner := r, routines := as @ bs, bresults := (bresults s)(i \<mapsto> res)\<rparr>)"
| meanwhile: "batchStep E ws acts forceDryRun s (s\<lparr>brunner := r\<rparr>)"

end
