(* ===== verification/ActuatorSafety.thy ===== *)
theory ActuatorSafety
  imports ActionRunner
begin

text \<open>
  Contracts for actions and the policy that decides how far they may go (\<^verbatim>\<open>controller/agentcore/action_contracts.go\<close>,
  \<^verbatim>\<open>actuator_safety.go\<close>, parts of \<^verbatim>\<open>validation_planner.go\<close>, and the remediation tool with its policy engine in
  \<^verbatim>\<open>workflow_tools.go\<close>).

  Of the configuration of the workflow, of a candidate and of a request the fields are written out that this code reads.
  Decoding of JSON is a parameter; summaries for the reader are left out.
\<close>

section \<open>Data\<close>

record ActionTargetRef =
  TargetCollector :: string
  TargetRefScope :: string
  TargetNamespace :: string
  TargetResource :: string
  TargetName :: string

record RollbackContract =
  RbSummary :: string
  RbCommand :: string
  RbRequired :: bool
  RbReversible :: bool

record ValidationActionContract =
  ContractID :: string
  Intent :: string
  ActionCategory :: string
  ContractSummary :: string
  ExecutionCategory :: string
  ValidationCategory :: string
  ActuatorSafetyTier :: string
  ContractLevel :: string
  TargetScope :: string
  TargetRef :: ActionTargetRef
  Preconditions :: "string list"
  ExpectedImpact :: string
  BlastRadiusEstimate :: int
  BlastRadiusScope :: "string list"
  BlastRadiusNotes :: "string list"
  DryRunDefault :: bool
  DryRunState :: string
  ContractApproval :: bool
  ReadOnly :: bool
  ContractSafe :: bool
  RollbackPart :: RollbackContract
  Execution :: "ActionSpec option"
  ContractMetadata :: "(string \<rightharpoonup> string) option"

record ValidationActionCandidate =
  CandID :: string
  CandCategory :: string
  CandIntent :: string
  CandActionCategory :: string
  CandTier :: string
  CandSummary :: string
  CandScope :: string
  CandLevel :: string
  CandSafe :: bool
  CandDryRunDefault :: bool
  CandApproval :: bool
  CandReversible :: bool
  CandPreconditions :: "string list"
  RollbackHint :: string
  CandImpact :: string
  CandBlastRadius :: int
  CandRollback :: RollbackContract
  CandContract :: "ValidationActionContract option"
  CandMetadata :: "(string \<rightharpoonup> string) option"

record ActionPolicyDecision =
  PolicyStatus :: string
  ExecutionLevel :: string
  SafetyTier :: string
  ProposalOnly :: bool
  ExecutionEligible :: bool
  NeedsApproval :: bool
  DryRunRequired :: bool
  RollbackRequired :: bool
  MissingConditions :: "string list"

record WorkflowConfig =
  WorkflowDryRun :: bool
  AllowSafeReversibleExec :: bool
  AllowProfilingExec :: bool
  AllowImpactingExec :: bool
  AllowRemediationExec :: bool
  ValidationAllowExecCategories :: "string list"
  ActionRunnerUnsafe :: bool

section \<open>Safety tiers\<close>

definition underscores :: "string \<Rightarrow> string" where
  "underscores s = map (\<lambda>c. if c = CHR '' '' \<or> c = CHR ''-'' then CHR ''_'' else c) s"

definition normalizeActuatorSafetyTier :: "string \<Rightarrow> string" where
  "normalizeActuatorSafetyTier value = (let v = underscores (toLower (trimSpace value)) in
     if v = '''' then ''''
     else if v \<in> {''read_only'', ''read_only_validation''} then ''read_only''
     else if v \<in> {''safe_reversible'', ''safe'', ''diagnostic''} then ''safe_reversible''
     else if v \<in> {''impacting'', ''contained'', ''remediation''} then ''impacting''
     else if v = ''destructive'' then ''destructive''
     else v)"

definition normalizeValidationCategory :: "string \<Rightarrow> string" where
  "normalizeValidationCategory value = (let v = underscores (toLower (trimSpace value)) in
     if v \<in> {'''', ''read_only'', ''read_only_validation''} then ''read_only_validation''
     else if v \<in> {''immediate_investigation'', ''knowledge_review''} then ''read_only_validation''
     else if v \<in> {''probable_containment'', ''containment''} then ''probable_containment''
     else if v \<in> {''medium_term_remediation'', ''remediation''} then ''medium_term_remediation''
     else if v \<in> {''profiling'', ''diagnostic_execution''} then ''profiling''
     else v)"

definition contractMetadataValue :: "(string \<rightharpoonup> string) option \<Rightarrow> string \<Rightarrow> string" where
  "contractMetadataValue md key = (case md of None \<Rightarrow> ''''
     | Some f \<Rightarrow> (case f key of None \<Rightarrow> '''' | Some v \<Rightarrow> trimSpace v))"

definition destructiveWords :: "string list" where
  "destructiveWords = [''delete'', ''destroy'', ''drop'', ''wipe'', ''terminate'', ''shutdown'', ''purge'', ''decommission'', ''rm -'', ''truncate'']"

definition looksDestructiveAction :: "string \<Rightarrow> bool" where
  "looksDestructiveAction s = (let t = toLower (trimSpace s) in t \<noteq> '''' \<and> list_ex (contains t) destructiveWords)"

definition writeWords :: "string list" where
  "writeWords = [''restart'', ''rollback'', ''scale'', ''contain'', ''drain'', ''remediation'', ''revert'', ''patch'', ''apply'']"

definition looksWriteLikeAction :: "string \<Rightarrow> bool" where
  "looksWriteLikeAction s = (let t = toLower (trimSpace s) in t \<noteq> '''' \<and> list_ex (contains t) writeWords)"

definition classifyActuatorSafetyTier :: "string \<Rightarrow> string \<Rightarrow> string \<Rightarrow> string \<Rightarrow> string \<Rightarrow> bool \<Rightarrow> bool \<Rightarrow> (string \<rightharpoonup> string) option \<Rightarrow> string" where
  "classifyActuatorSafetyTier executionCategory intent actionCategory summary expectedImpact safe reversible md =
     (let tier = normalizeActuatorSafetyTier (contractMetadataValue md ''actuator_safety_tier'') in
      if tier \<noteq> '''' then tier
      else let category = normalizeValidationCategory executionCategory in
      if category = ''profiling'' then ''safe_reversible''
      else let t = toLower (trimSpace (joinWith '' '' [intent, actionCategory, summary, expectedImpact, contractMetadataValue md ''action_type''])) in
      if looksDestructiveAction t then ''destructive''
      else if contains t ''profile'' \<or> contains t ''diagnostic'' \<or> contains t ''trace'' then ''safe_reversible''
      else if safe \<and> reversible \<and> (contains t ''capture'' \<or> contains t ''profile'' \<or> contains t ''diagnostic'') then ''safe_reversible''
      else if (category = '''' \<or> category = ''read_only_validation'') \<and> \<not> looksWriteLikeAction t then ''read_only''
      else ''impacting'')"

definition actuatorSafetyTierForContract :: "RunnerEnv \<Rightarrow> ValidationActionContract option \<Rightarrow> string" where
  "actuatorSafetyTierForContract E co = (case co of None \<Rightarrow> ''read_only'' | Some c \<Rightarrow>
      if (case Execution c of None \<Rightarrow> False | Some a \<Rightarrow> enforceActionHarness E a \<noteq> None) then ''destructive''
      else let tier = normalizeActuatorSafetyTier (firstNonEmpty [ActuatorSafetyTier c, contractMetadataValue (ContractMetadata c) ''actuator_safety_tier'']) in
      if tier \<noteq> '''' then tier
      else classifyActuatorSafetyTier (trimSpace (ExecutionCategory c)) (trimSpace (Intent c)) (trimSpace (ActionCategory c))
        (trimSpace (ContractSummary c)) (trimSpace (ExpectedImpact c)) (ContractSafe c) (RbReversible (RollbackPart c)) (ContractMetadata c))"

definition actuatorSafetyTierForCandidate :: "RunnerEnv \<Rightarrow> ValidationActionCandidate \<Rightarrow> string" where
  "actuatorSafetyTierForCandidate E c = (case CandContract c of
     Some k \<Rightarrow> actuatorSafetyTierForContract E (Some k)
   | None \<Rightarrow> classifyActuatorSafetyTier (trimSpace (CandCategory c)) (trimSpace (CandIntent c)) (trimSpace (CandActionCategory c))
       (trimSpace (CandSummary c)) (trimSpace (CandImpact c)) (CandSafe c) (CandReversible c \<or> RbReversible (CandRollback c)) (CandMetadata c))"

section \<open>The policy\<close>

definition validationExecutionAllowed :: "WorkflowConfig \<Rightarrow> string \<Rightarrow> bool" where
  "validationExecutionAllowed cfg category = (let category = normalizeValidationCategory category in
     if category = '''' \<or> category = ''read_only_validation'' then True
     else list_ex (\<lambda>allowed. let allowed = normalizeValidationCategory allowed in allowed = ''*'' \<or> allowed = category) (ValidationAllowExecCategories cfg))"

definition safeReversibleExecutionAllowed :: "WorkflowConfig \<Rightarrow> string \<Rightarrow> bool" where
  "safeReversibleExecutionAllowed cfg category \<longleftrightarrow> AllowSafeReversibleExec cfg \<or> AllowProfilingExec cfg \<or> validationExecutionAllowed cfg category"

definition impactingExecutionAllowed :: "WorkflowConfig \<Rightarrow> string \<Rightarrow> bool" where
  "impactingExecutionAllowed cfg category = (if \<not> AllowImpactingExec cfg then False
     else AllowRemediationExec cfg \<or> validationExecutionAllowed cfg category)"

definition contractExecutionCategory :: "ValidationActionContract option \<Rightarrow> string" where
  "contractExecutionCategory co = (case co of None \<Rightarrow> ''''
     | Some c \<Rightarrow> normalizeValidationCategory (firstNonEmpty [ExecutionCategory c, ValidationCategory c]))"

definition contractRequiresApproval :: "ValidationActionContract option \<Rightarrow> bool" where
  "contractRequiresApproval co = (case co of None \<Rightarrow> False | Some c \<Rightarrow> ContractApproval c)"

definition contractDryRunDefault :: "ValidationActionContract option \<Rightarrow> bool" where
  "contractDryRunDefault co = (case co of None \<Rightarrow> False | Some c \<Rightarrow> DryRunDefault c)"

definition decisionFor :: "string \<Rightarrow> ActionPolicyDecision" where
  "decisionFor tier = \<lparr>PolicyStatus = '''', ExecutionLevel = '''', SafetyTier = tier, ProposalOnly = False, ExecutionEligible = False,
     NeedsApproval = False, DryRunRequired = False, RollbackRequired = False, MissingConditions = []\<rparr>"

definition evaluateActuatorExecutionPolicy :: "RunnerEnv \<Rightarrow> WorkflowConfig \<Rightarrow> ValidationActionContract option \<Rightarrow> bool \<Rightarrow> ActionPolicyDecision" where
  "evaluateActuatorExecutionPolicy E cfg c requestedDryRun =
     (let tier = actuatorSafetyTierForContract E c; d = decisionFor tier in
      if tier = ''read_only'' then d\<lparr>PolicyStatus := ''allowed'', ExecutionLevel := ''read_only'', ExecutionEligible := True\<rparr>
      else if tier = ''safe_reversible'' then
        (if \<not> safeReversibleExecutionAllowed cfg (contractExecutionCategory c)
         then d\<lparr>PolicyStatus := ''proposal_only'', ExecutionLevel := ''suggest_only'', ProposalOnly := True, MissingConditions := [''allow_safe_reversible_exec'']\<rparr>
         else let d = d\<lparr>PolicyStatus := ''allowed'', ExecutionEligible := True\<rparr> in
           if contractRequiresApproval c then d\<lparr>ExecutionLevel := ''approval_required'', NeedsApproval := True\<rparr>
           else if requestedDryRun \<or> contractDryRunDefault c then d\<lparr>ExecutionLevel := ''dry_run_only'', DryRunRequired := True\<rparr>
           else d\<lparr>ExecutionLevel := ''auto_execute''\<rparr>)
      else if tier = ''impacting'' then
        (if \<not> impactingExecutionAllowed cfg (contractExecutionCategory c)
         then d\<lparr>PolicyStatus := ''proposal_only'', ExecutionLevel := ''suggest_only'', ProposalOnly := True, MissingConditions := [''allow_impacting_exec'']\<rparr>
         else d\<lparr>PolicyStatus := ''allowed'', ExecutionLevel := ''approval_required'', ExecutionEligible := True, NeedsApproval := True, RollbackRequired := True\<rparr>)
      else d\<lparr>PolicyStatus := ''proposal_only'', ExecutionLevel := ''suggest_only'', ProposalOnly := True, RollbackRequired := True\<rparr>)"

section \<open>Contracts\<close>

fun dedupeStringsLoop :: "string list \<Rightarrow> string list \<Rightarrow> string list" where
  "dedupeStringsLoop seen [] = []"
| "dedupeStringsLoop seen (item # items) = (let key = toLower (trimSpace item) in
     if key = '''' \<or> key \<in> set seen then dedupeStringsLoop seen items
     else trimSpace item # dedupeStringsLoop (key # seen) items)"

definition dedupeStrings :: "string list \<Rightarrow> string list" where
  "dedupeStrings items = dedupeStringsLoop [] items"

definition actionIntentFromText :: "string list \<Rightarrow> string" where
  "actionIntentFromText values = (let t = toLower (trimSpace (joinWith '' '' values)) in
     if contains t ''rollback'' \<or> contains t ''revert'' then ''rollback_revision''
     else if contains t ''restart'' then ''restart_workload''
     else if contains t ''scale'' then ''scale_workload''
     else if contains t ''isolate'' \<or> contains t ''contain'' then ''contain_workload''
     else if contains t ''drain'' then ''drain_target''
     else if contains t ''profile'' then ''capture_profile''
     else ''targeted_remediation'')"

definition actionCategoryFromIntent :: "string \<Rightarrow> string" where
  "actionCategoryFromIntent intent = (let i = trimSpace intent in
     if i = ''rollback_revision'' then ''rollback''
     else if i \<in> {''restart_workload'', ''scale_workload'', ''contain_workload'', ''drain_target''} then ''containment''
     else if i = ''capture_profile'' then ''diagnostic''
     else ''remediation'')"

definition actionDryRunState :: "bool \<Rightarrow> bool \<Rightarrow> bool \<Rightarrow> string" where
  "actionDryRunState dryRunDefault safe requiresApproval = (if dryRunDefault then ''dry_run_default''
     else if requiresApproval \<or> \<not> safe then ''approval_gated'' else ''execution_ready_when_allowed'')"

definition actionBlastRadiusNotes :: "ValidationActionCandidate \<Rightarrow> string \<Rightarrow> string list \<Rightarrow> string list" where
  "actionBlastRadiusNotes c collectorID scopes = (let scope = trimSpace (firstNonEmpty [CandScope c, collectorID]) in
     dedupeStrings ((if scope \<noteq> '''' then [''target scope: '' @ scope] else [])
       @ (if scopes \<noteq> [] then [''downstream scope touched: '' @ joinWith '', '' (dedupeStrings scopes)] else [])
       @ (if CandBlastRadius c > 1 then [''blast radius estimate: '' @ formatInt (CandBlastRadius c) @ '' scoped targets''] else [])
       @ (if CandApproval c then [''human approval remains mandatory before any non-read-only execution''] else [])))"

text \<open>\<^verbatim>\<open>cloneStringMap\<close> and \<^verbatim>\<open>cloneActionSpec\<close>: an empty map or slice becomes nil.\<close>

definition cloneStringMap :: "(string \<rightharpoonup> string) option \<Rightarrow> (string \<rightharpoonup> string) option" where
  "cloneStringMap md = (case md of None \<Rightarrow> None | Some f \<Rightarrow> if f = Map.empty then None else Some f)"

definition cloneActionSpec :: "ActionSpec \<Rightarrow> ActionSpec" where
  "cloneActionSpec a = a\<lparr>Args := (case Args a of None \<Rightarrow> None | Some as \<Rightarrow> if as = [] then None else Some as), Metadata := cloneStringMap (Metadata a)\<rparr>"

definition entries :: "(string \<rightharpoonup> string) option \<Rightarrow> string \<rightharpoonup> string" where
  "entries md = (case md of None \<Rightarrow> Map.empty | Some f \<Rightarrow> f)"

definition buildValidationActionContract :: "RunnerEnv \<Rightarrow> ValidationActionCandidate \<Rightarrow> string \<Rightarrow> string list \<Rightarrow> ValidationActionContract" where
  "buildValidationActionContract E c collectorID scopes =
     (let intent = firstNonEmpty [trimSpace (CandIntent c), actionIntentFromText [CandSummary c, CandImpact c, RollbackHint c]];
          scope = trimSpace (firstNonEmpty [CandScope c, collectorID]);
          k = \<lparr>ContractID = firstNonEmpty [trimSpace (CandID c), ''contract-'' @ sanitizeID (CandSummary c)],
            Intent = intent,
            ActionCategory = firstNonEmpty [trimSpace (CandActionCategory c), actionCategoryFromIntent intent],
            ContractSummary = trimSpace (CandSummary c),
            ExecutionCategory = normalizeValidationCategory (CandCategory c),
            ValidationCategory = normalizeValidationCategory (CandCategory c),
            ActuatorSafetyTier = normalizeActuatorSafetyTier (CandTier c),
            ContractLevel = trimSpace (CandLevel c),
            TargetScope = scope,
            TargetRef = \<lparr>TargetCollector = trimSpace collectorID, TargetRefScope = scope, TargetNamespace = '''', TargetResource = '''', TargetName = scope\<rparr>,
            Preconditions = CandPreconditions c,
            ExpectedImpact = trimSpace (CandImpact c),
            BlastRadiusEstimate = max (CandBlastRadius c) (int (length scopes)),
            BlastRadiusScope = dedupeStrings scopes,
            BlastRadiusNotes = actionBlastRadiusNotes c collectorID scopes,
            DryRunDefault = CandDryRunDefault c,
            DryRunState = actionDryRunState (CandDryRunDefault c) (CandSafe c) (CandApproval c),
            ContractApproval = CandApproval c,
            ReadOnly = (normalizeValidationCategory (CandCategory c) = ''read_only_validation''),
            ContractSafe = CandSafe c,
            RollbackPart = \<lparr>RbSummary = trimSpace (firstNonEmpty [RbSummary (CandRollback c), RollbackHint c]), RbCommand = trimSpace (RbCommand (CandRollback c)),
              RbRequired = (CandReversible c \<or> trimSpace (RollbackHint c) \<noteq> '''' \<or> trimSpace (RbSummary (CandRollback c)) \<noteq> ''''),
              RbReversible = (CandReversible c \<or> RbReversible (CandRollback c))\<rparr>,
            Execution = None,
            ContractMetadata = Some (entries (CandMetadata c))\<rparr>;
          k = (if ActuatorSafetyTier k = '''' then k\<lparr>ActuatorSafetyTier := actuatorSafetyTierForContract E (Some k)\<rparr> else k);
          md = (entries (ContractMetadata k))(''action_category'' \<mapsto> ActionCategory k, ''validation_category'' \<mapsto> ValidationCategory k,
            ''target_scope'' \<mapsto> TargetScope k, ''dry_run_state'' \<mapsto> DryRunState k, ''actuator_safety_tier'' \<mapsto> ActuatorSafetyTier k);
          md = (if BlastRadiusEstimate k > 0 then md(''blast_radius_estimate'' \<mapsto> formatInt (BlastRadiusEstimate k)) else md);
          md = (if TargetRefScope (TargetRef k) \<noteq> '''' then md(''scope'' \<mapsto> TargetRefScope (TargetRef k)) else md);
          k = k\<lparr>ContractMetadata := Some md\<rparr>
      in case CandContract c of
           None \<Rightarrow> k
         | Some kc \<Rightarrow> (case Execution kc of None \<Rightarrow> k | Some a \<Rightarrow> k\<lparr>Execution := Some (cloneActionSpec a)\<rparr>))"

text \<open>\<open>unmarshal\<close> is the decoding of JSON, which can fail.\<close>

definition decodeValidationActionContract :: "RunnerEnv \<Rightarrow> (string \<Rightarrow> ValidationActionContract option) \<Rightarrow> string \<Rightarrow> runnerErr + ValidationActionContract option" where
  "decodeValidationActionContract E unmarshal raw = (let raw = trimSpace raw in
     if raw = '''' then Inr None
     else case unmarshal raw of None \<Rightarrow> Inl (RunnerErr ''json'')
       | Some k \<Rightarrow>
         let k = (if trimSpace (ContractID k) = '''' then k\<lparr>ContractID := ''contract-'' @ sanitizeID (firstNonEmpty [ContractSummary k, Intent k, ''remediation''])\<rparr> else k);
             k = k\<lparr>ExecutionCategory := normalizeValidationCategory (ExecutionCategory k)\<rparr>;
             k = k\<lparr>ValidationCategory := normalizeValidationCategory (firstNonEmpty [ValidationCategory k, ExecutionCategory k]),
               ActuatorSafetyTier := normalizeActuatorSafetyTier (ActuatorSafetyTier k),
               ActionCategory := trimSpace (firstNonEmpty [ActionCategory k, actionCategoryFromIntent (Intent k)]),
               TargetScope := trimSpace (firstNonEmpty [TargetScope k, TargetRefScope (TargetRef k)]),
               BlastRadiusScope := dedupeStrings (BlastRadiusScope k), BlastRadiusNotes := dedupeStrings (BlastRadiusNotes k),
               Preconditions := dedupeStrings (Preconditions k),
               DryRunState := trimSpace (firstNonEmpty [DryRunState k, actionDryRunState (DryRunDefault k) (ContractSafe k) (ContractApproval k)]),
               ContractMetadata := cloneStringMap (ContractMetadata k)\<rparr>;
             k = (if ActuatorSafetyTier k = '''' then k\<lparr>ActuatorSafetyTier := actuatorSafetyTierForContract E (Some k)\<rparr> else k)
         in Inr (Some (k\<lparr>ContractMetadata := Some ((entries (ContractMetadata k))(''actuator_safety_tier'' \<mapsto> ActuatorSafetyTier k))\<rparr>)))"

section \<open>The remediation tool\<close>

record ToolRequest =
  ReqCollector :: string
  ReqQuery :: "string \<rightharpoonup> string"
  ReqDryRun :: bool

definition queryValue :: "ToolRequest \<Rightarrow> string \<Rightarrow> string" where
  "queryValue req key = (case ReqQuery req key of None \<Rightarrow> '''' | Some v \<Rightarrow> v)"

record RemediationData =
  DataContract :: ValidationActionContract
  DataAction :: string
  DataCategory :: string
  DataTier :: string
  DataProposalOnly :: bool
  DataEligible :: bool
  DataDryRun :: bool
  DataApproval :: bool
  DataReversible :: bool
  DataRollback :: string
  Mode :: string
  DataBlastRadius :: int
  DownstreamNodes :: "string list"
  DataPreconditions :: "string list"
  ExecutedAction :: "ActionSpec option"
  DataHandoff :: "OperatorActionHandoff option"

definition emptyRollback :: RollbackContract where
  "emptyRollback = \<lparr>RbSummary = '''', RbCommand = '''', RbRequired = False, RbReversible = False\<rparr>"

definition legacyCandidate :: "int \<Rightarrow> ToolRequest \<Rightarrow> ValidationActionCandidate" where
  "legacyCandidate unixNow req = \<lparr>CandID = ''legacy-'' @ formatInt unixNow, CandCategory = normalizeValidationCategory (queryValue req ''validation_category''),
     CandIntent = actionIntentFromText [queryValue req ''action''], CandActionCategory = '''', CandTier = '''',
     CandSummary = firstNonEmpty [trimSpace (queryValue req ''action''), ''validate_and_hold''],
     CandScope = trimSpace (firstNonEmpty [queryValue req ''scope'', ReqCollector req, ''fleet'']), CandLevel = '''', CandSafe = False,
     CandDryRunDefault = True, CandApproval = True, CandReversible = (trimSpace (queryValue req ''rollback'') \<noteq> ''''), CandPreconditions = [],
     RollbackHint = trimSpace (queryValue req ''rollback''), CandImpact = '''', CandBlastRadius = 0, CandRollback = emptyRollback, CandContract = None,
     CandMetadata = None\<rparr>"

definition remediationContractFromRequest :: "RunnerEnv \<Rightarrow> (string \<Rightarrow> ValidationActionContract option) \<Rightarrow> int \<Rightarrow> ToolRequest \<Rightarrow> runnerErr + ValidationActionContract" where
  "remediationContractFromRequest E unmarshal unixNow req = (case decodeValidationActionContract E unmarshal (queryValue req ''action_contract'') of
     Inl e \<Rightarrow> Inl e
   | Inr (Some k) \<Rightarrow> Inr k
   | Inr None \<Rightarrow> Inr (buildValidationActionContract E (legacyCandidate unixNow req) (ReqCollector req)
       (compactStrings (splitChar (CHR '','') (queryValue req ''downstream_nodes'')))))"

definition enrichOperatorHandoff :: "OperatorActionHandoff \<Rightarrow> ValidationActionContract \<Rightarrow> OperatorActionHandoff" where
  "enrichOperatorHandoff h k = h\<lparr>HandoffPreconditions := Preconditions k, HandoffImpact := ExpectedImpact k, HandoffBlastRadius := BlastRadiusScope k,
     HandoffRollback := firstNonEmpty [RbSummary (RollbackPart k), HandoffRollback h],
     MissingInformation := MissingInformation h
       @ (if firstNonEmpty [TargetRefScope (TargetRef k), TargetScope k] = '''' then [''exact target scope''] else [])
       @ [''exact production object and version'', ''observation window and service success thresholds'']
       @ (if Preconditions k = [] then [''action-specific preconditions''] else [])
       @ (if trimSpace (ExpectedImpact k) = '''' then [''expected service impact''] else [])
       @ (if BlastRadiusScope k = [] then [''blast radius''] else [])
       @ (if trimSpace (RbSummary (RollbackPart k)) = '''' then [''concrete backup or rollback steps''] else [])\<rparr>"

definition operatorHandoffForContract :: "ValidationActionContract \<Rightarrow> OperatorActionHandoff" where
  "operatorHandoffForContract k = enrichOperatorHandoff (operatorHandoffForAction
     \<lparr>ActID = '''', ActType = '''', ActNode = '''', ActTarget = firstNonEmpty [TargetRefScope (TargetRef k), TargetScope k, TargetCollector (TargetRef k)],
      ActDescription = firstNonEmpty [ContractSummary k, Intent k], Command = '''', Args = None, Namespace = TargetNamespace (TargetRef k),
      Resource = TargetResource (TargetRef k), ResourceName = TargetName (TargetRef k), Priority = '''', Safe = False, RequiresApproval = False,
      RollbackCommand = '''', Metadata = None, ApprovalRequired = False, ApprovalToken = '''', ActExpiresAt = 0\<rparr>) k"

definition remediationData :: "WorkflowConfig \<Rightarrow> ValidationActionContract \<Rightarrow> ActionPolicyDecision \<Rightarrow> ToolRequest \<Rightarrow> RemediationData" where
  "remediationData cfg k d req = (let dry = ReqDryRun req \<or> WorkflowDryRun cfg in
     \<lparr>DataContract = k, DataAction = firstNonEmpty [ContractSummary k, Intent k],
      DataCategory = normalizeValidationCategory (firstNonEmpty [ExecutionCategory k, queryValue req ''validation_category'']),
      DataTier = firstNonEmpty [SafetyTier d, ActuatorSafetyTier k], DataProposalOnly = ProposalOnly d, DataEligible = ExecutionEligible d,
      DataDryRun = dry, DataApproval = (ContractApproval k \<or> NeedsApproval d), DataReversible = (RbReversible (RollbackPart k) \<or> RbRequired (RollbackPart k)),
      DataRollback = firstNonEmpty [RbSummary (RollbackPart k), ''capture pre-change baseline -> execute single scoped change -> revert workload/config to previous revision''],
      Mode = (if dry then ''dry_run'' else ''planned_only''), DataBlastRadius = BlastRadiusEstimate k, DownstreamNodes = BlastRadiusScope k,
      DataPreconditions = Preconditions k, ExecutedAction = None, DataHandoff = None\<rparr>)"

text \<open>The result of a run: the data, an error, and the runner afterwards.  A tool without a runner has \<open>None\<close>.\<close>

definition remediationRun :: "RunnerEnv \<Rightarrow> (string \<Rightarrow> ValidationActionContract option) \<Rightarrow> int \<Rightarrow> WorkflowConfig \<Rightarrow> CallWorld \<Rightarrow> ToolRequest
    \<Rightarrow> PlaybookRunner option \<Rightarrow> RemediationData option \<times> runnerErr option \<times> PlaybookRunner option" where
  "remediationRun E unmarshal unixNow cfg w req ro = (case remediationContractFromRequest E unmarshal unixNow req of
     Inl e \<Rightarrow> (None, Some e, ro)
   | Inr k \<Rightarrow>
     let dry = ReqDryRun req \<or> WorkflowDryRun cfg; d = evaluateActuatorExecutionPolicy E cfg (Some k) dry; data = remediationData cfg k d req in
     if ProposalOnly d then (Some (data\<lparr>Mode := ''proposal_only'', DataHandoff := Some (operatorHandoffForContract k)\<rparr>), None, ro)
     else if dry then (Some data, None, ro)
     else case Execution k of
       None \<Rightarrow> (Some (data\<lparr>Mode := ''planned_only''\<rparr>), None, ro)
     | Some a \<Rightarrow>
         if \<not> (ActionRunnerUnsafe cfg \<or> AllowRemediationExec cfg) then (Some (data\<lparr>Mode := ''blocked_by_policy''\<rparr>), None, ro)
         else case ro of
           None \<Rightarrow> (Some (data\<lparr>Mode := ''approved_execution_requested''\<rparr>), None, ro)
         | Some r \<Rightarrow>
             let execution = cloneActionSpec a in
             (case executeOne E w execution False r of (res, r') \<Rightarrow>
                let data = data\<lparr>ExecutedAction := Some execution\<rparr> in
                if ResStatus res = ActionResultExecuted then (Some (data\<lparr>Mode := ''executed''\<rparr>), None, Some r')
                else (case (ResStatus res = ActionResultBlocked, OperatorHandoff res) of
                    (True, Some h) \<Rightarrow> (Some (data\<lparr>Mode := ''human_operator_required'', DataProposalOnly := True, DataEligible := False,
                      DataHandoff := Some (enrichOperatorHandoff h k)\<rparr>), None, Some r')
                  | _ \<Rightarrow> (Some (data\<lparr>Mode := ''failed''\<rparr>), Some (RunnerErr ''remediation failed''), Some r'))))"

section \<open>The policy engine\<close>

record ToolDescriptor =
  DescReadOnly :: bool
  DescApproval :: bool
  DescRollback :: bool

text \<open>The descriptor of the remediation tool.\<close>

definition remediationDescriptor :: ToolDescriptor where
  "remediationDescriptor = \<lparr>DescReadOnly = False, DescApproval = True, DescRollback = True\<rparr>"

definition policyEvaluate :: "RunnerEnv \<Rightarrow> (string \<Rightarrow> ValidationActionContract option) \<Rightarrow> int \<Rightarrow> WorkflowConfig \<Rightarrow> ToolDescriptor \<Rightarrow> bool \<Rightarrow> ToolRequest
    \<Rightarrow> ActionPolicyDecision" where
  "policyEvaluate E unmarshal unixNow cfg desc isRemediation req =
     (if DescReadOnly desc then (decisionFor ''read_only'')\<lparr>PolicyStatus := ''allowed'', ExecutionLevel := ''read_only'', ExecutionEligible := True\<rparr>
      else if isRemediation then
        (case remediationContractFromRequest E unmarshal unixNow req of
           Inl e \<Rightarrow> (decisionFor ''impacting'')\<lparr>PolicyStatus := ''blocked'', ExecutionLevel := ''suggest_only''\<rparr>
         | Inr k \<Rightarrow>
           let d = evaluateActuatorExecutionPolicy E cfg (Some k) (ReqDryRun req) in
           if PolicyStatus d \<noteq> ''allowed'' then d
           else let rb = trimSpace (queryValue req ''rollback'');
                    rb = (if rb = '''' then trimSpace (firstNonEmpty [RbSummary (RollbackPart k), RbCommand (RollbackPart k)]) else rb) in
           if rb = '''' then (decisionFor (SafetyTier d))\<lparr>PolicyStatus := ''blocked'', ExecutionLevel := ''suggest_only'', RollbackRequired := True,
             MissingConditions := [''rollback'']\<rparr>
           else if ReqDryRun req then d\<lparr>DryRunRequired := True\<rparr>
           else if NeedsApproval d \<or> DescApproval desc then d\<lparr>PolicyStatus := ''pending'', ExecutionLevel := ''approval_required'', NeedsApproval := True,
             DryRunRequired := DryRunRequired d \<or> contractDryRunDefault (Some k), RollbackRequired := True\<rparr>
           else d)
      else if ReqDryRun req then (decisionFor ''safe_reversible'')\<lparr>PolicyStatus := ''allowed'', ExecutionLevel := ''dry_run_only'', ExecutionEligible := True,
        DryRunRequired := True\<rparr>
      else if DescApproval desc then (decisionFor ''safe_reversible'')\<lparr>PolicyStatus := ''pending'', ExecutionLevel := ''approval_required'',
        ExecutionEligible := True, NeedsApproval := True, DryRunRequired := True, RollbackRequired := DescRollback desc\<rparr>
      else (decisionFor ''safe_reversible'')\<lparr>PolicyStatus := ''allowed'', ExecutionLevel := ''dry_run_only'', ExecutionEligible := True, DryRunRequired := True\<rparr>)"

text \<open>The gate of the tool manager between the decision and the tool.\<close>

datatype gate = PolicyBlock | ApprovalPending | Proceed ToolRequest

definition toolGate :: "ActionPolicyDecision \<Rightarrow> ToolRequest \<Rightarrow> gate" where
  "toolGate d req = (if PolicyStatus d = ''blocked'' then PolicyBlock
     else if NeedsApproval d \<and> \<not> ReqDryRun req then ApprovalPending
     else if DryRunRequired d \<and> \<not> ReqDryRun req then Proceed (req\<lparr>ReqDryRun := True\<rparr>)
     else Proceed req)"

end
