(* ===== verification/ActionProps.thy ===== *)
theory ActionProps
  imports ActionRunner
begin

text \<open>
  Properties of the playbook runner: what the harness lets through whatever the configuration, when an action is
  repeated, and how a batch of actions proceeds.
\<close>

section \<open>The harness\<close>

text \<open>The two commands that need no operator.\<close>

definition harmless :: "RunnerEnv \<Rightarrow> ActionSpec \<Rightarrow> bool" where
  "harmless E a \<longleftrightarrow> toLower (trimSpace (ActType a)) \<in> {''shell'', ''command''}
     \<and> (\<exists>cmd args. strFields (trimSpace (Command a)) @ sliceOf (Args a) = cmd # args \<and> trimSpace (Command a) \<noteq> ''''
         \<and> (cmd = ''echo'' \<and> (\<forall>arg \<in> set args. \<forall>c \<in> set arg. c \<notin> {CHR 0x00, CHR 10, CHR 13})
            \<or> cmd = ''sleep'' \<and> (\<exists>arg q. args = [arg] \<and> parseFloat E arg = Some (Fin q) \<and> 0 \<le> q \<and> q \<le> 60)))"

lemma isSpace_lower [simp]: "isSpace (lowerChar c) = isSpace c"
  by (auto simp: isSpace_def lowerChar_def Let_def)

lemma trimSpace_toLower: "trimSpace (toLower s) = toLower (trimSpace s)"
  by (simp add: trimSpace_def toLower_def dropWhile_map rev_map o_def)

lemma harmless_normalize: "harmless E (normalizeAction a) \<longleftrightarrow> harmless E a"
  by (simp add: harmless_def normalizeAction_def trimSpace_toLower)

lemma shell_not_kubernetes: "isShellAction t \<Longrightarrow> \<not> isKubernetesAction t"
  by (auto simp: isShellAction_def isKubernetesAction_def)

lemma dropWhile_trimSpace: "dropWhile isSpace (trimSpace s) = trimSpace s"
  by (metis dropWhile_rev_dropWhile hd_dropWhile trimSpace_def dropWhile_eq_self_iff)

lemma strFields_trim: "trimSpace s \<noteq> [] \<Longrightarrow> strFields (trimSpace s) \<noteq> []"
  by (subst strFields.simps) (simp add: dropWhile_trimSpace Let_def)

lemma shellInvocation_eq:
  "shellInvocation a = Inr (cmd, args) \<longleftrightarrow> trimSpace (Command a) \<noteq> '''' \<and> strFields (trimSpace (Command a)) @ sliceOf (Args a) = cmd # args"
  using strFields_trim [of "Command a"] by (auto simp: shellInvocation_def Let_def split: list.splits)

lemma sleepSeconds_iff: "sleepSeconds E arg \<longleftrightarrow> (\<exists>q. parseFloat E arg = Some (Fin q) \<and> 0 \<le> q \<and> q \<le> 60)"
  by (auto simp: sleepSeconds_def not_less split: option.splits float64.splits)

lemma harness_iff: "enforceActionHarness E a = None \<longleftrightarrow> harmless E a"
proof (cases "isShellAction (ActType a)")
  case True
  show ?thesis
  proof (cases "shellInvocation a")
    case (Inl e)
    then have "\<nexists>cmd args. shellInvocation a = Inr (cmd, args)" by simp
    then have "\<not> harmless E a" unfolding shellInvocation_eq harmless_def by blast
    with Inl True shell_not_kubernetes [OF True] show ?thesis by (simp add: enforceActionHarness_def)
  next
    case (Inr ca)
    obtain cmd args where ca: "ca = (cmd, args)" by (cases ca)
    have eq: "trimSpace (Command a) \<noteq> ''''" "strFields (trimSpace (Command a)) @ sliceOf (Args a) = cmd # args"
      using Inr ca shellInvocation_eq by auto
    have base: "''echo'' = pathBase ''echo''" "''sleep'' = pathBase ''sleep''" by code_simp+
    have "harmless E a \<longleftrightarrow> cmd = ''echo'' \<and> (\<forall>arg \<in> set args. \<forall>c \<in> set arg. c \<notin> {CHR 0x00, CHR 10, CHR 13})
        \<or> cmd = ''sleep'' \<and> (\<exists>arg q. args = [arg] \<and> parseFloat E arg = Some (Fin q) \<and> 0 \<le> q \<and> q \<le> 60)"
      using True eq by (auto simp: harmless_def isShellAction_def)
    then show ?thesis using Inr ca True shell_not_kubernetes [OF True] base
      by (auto simp: enforceActionHarness_def sleepSeconds_iff containsAny_def list_ex_iff split: list.splits)
  qed
qed (auto simp: enforceActionHarness_def harmless_def isShellAction_def)

lemma harmless_shell: "harmless E a \<Longrightarrow> isShellAction (ActType a)"
  by (simp add: harmless_def isShellAction_def)

definition commandOf :: "ActionSpec \<Rightarrow> string" where
  "commandOf a = hd (strFields (trimSpace (Command a)))"

lemma harmless_command:
  assumes "harmless E a"
  obtains args where "shellInvocation a = Inr (commandOf a, args)" "commandOf a = ''echo'' \<or> commandOf a = ''sleep''"
proof -
  obtain cmd args where c: "trimSpace (Command a) \<noteq> ''''" "strFields (trimSpace (Command a)) @ sliceOf (Args a) = cmd # args"
    "cmd = ''echo'' \<or> cmd = ''sleep''" using assms by (auto simp: harmless_def)
  then have "commandOf a = cmd" using strFields_trim [OF c(1)] by (cases "strFields (trimSpace (Command a))") (auto simp: commandOf_def)
  with c that show thesis by (simp add: shellInvocation_eq)
qed

lemma authorize_iff:
  "authorize E a r = None \<longleftrightarrow> harmless E a \<and> \<not> RequiresApproval a \<and> (Safe a \<or> AllowUnsafe (rcfg r)) \<and> commandOf a \<in> allowedShell r"
proof (cases "harmless E a")
  case True
  then obtain args where i: "shellInvocation a = Inr (commandOf a, args)" by (rule harmless_command)
  have k: "enforceActionHarness E a = None" "isShellAction (ActType a)" "\<not> isKubernetesAction (ActType a)"
    using True harmless_shell shell_not_kubernetes by (simp_all add: harness_iff)
  show ?thesis using True i k by (simp add: authorize_def shellAllowed_def)
qed (auto simp: authorize_def harness_iff [symmetric])

lemma dispatch_ok:
  "(\<exists>out. dispatch E io a = Inr out) \<longleftrightarrow> harmless E a \<and> (commandOf a = ''sleep'' \<longrightarrow> io = None)"
proof (cases "harmless E a")
  case True
  then obtain args where i: "shellInvocation a = Inr (commandOf a, args)" "commandOf a = ''echo'' \<or> commandOf a = ''sleep''" by (rule harmless_command)
  have k: "enforceActionHarness E a = None" "isShellAction (ActType a)" using True harmless_shell by (simp_all add: harness_iff)
  show ?thesis using True i k by (auto simp: dispatch_def runShell_def split: option.splits)
qed (auto simp: dispatch_def harness_iff [symmetric] split: option.splits)

definition remembered :: "int \<Rightarrow> string \<Rightarrow> PlaybookRunner \<Rightarrow> bool" where
  "remembered now key r \<longleftrightarrow> (\<exists>rec. executed r key = Some rec \<and> now \<le> RecExpiresAt rec)"

definition permitted :: "RunnerEnv \<Rightarrow> ActionSpec \<Rightarrow> PlaybookRunner \<Rightarrow> bool" where
  "permitted E a r \<longleftrightarrow> harmless E a \<and> \<not> RequiresApproval a \<and> (Safe a \<or> AllowUnsafe (rcfg r)) \<and> commandOf a \<in> allowedShell r"

lemma prune_config [simp]:
  "rcfg (pruneExpiredLocked now r) = rcfg r" "allowedShell (pruneExpiredLocked now r) = allowedShell r"
  "allowedNamespaces (pruneExpiredLocked now r) = allowedNamespaces r" "playbooks (pruneExpiredLocked now r) = playbooks r"
  by (simp_all add: pruneExpiredLocked_def)

lemma permitted_prune [simp]: "permitted E a (pruneExpiredLocked now r) \<longleftrightarrow> permitted E a r"
  by (simp add: permitted_def)

lemma authorize_permitted: "authorize E a r = None \<longleftrightarrow> permitted E a r"
  by (simp add: authorize_iff permitted_def)

lemma executed_prune: "executed (pruneExpiredLocked now r) k = Some rec \<longleftrightarrow> executed r k = Some rec \<and> now \<le> RecExpiresAt rec"
  by (auto simp: pruneExpiredLocked_def split: option.splits)

lemma previousResult_none: "fst (previousResult now k r) = None \<longleftrightarrow> \<not> remembered now k r"
proof (cases "executed (pruneExpiredLocked now r) k")
  case None
  then show ?thesis using executed_prune [of now r k] by (auto simp: previousResult_def Let_def remembered_def)
next
  case (Some rec)
  then show ?thesis using executed_prune [of now r k rec] by (auto simp: previousResult_def Let_def remembered_def)
qed

lemma previousResult_runner [simp]: "snd (previousResult now k r) = pruneExpiredLocked now r"
  by (simp add: previousResult_def Let_def)

lemma build_fields [simp]:
  "ResStatus (buildActionResult a key st ct status out err dry) = status"
  "OperatorHandoff (buildActionResult a key st ct status out err dry) = errHandoff a err"
  "ResKey (buildActionResult a key st ct status out err dry) = key"
  "ResDryRun (buildActionResult a key st ct status out err dry) = dry"
  by (simp_all add: buildActionResult_def)

text \<open>The outcome of an attempt, case by case.\<close>

lemma attempt_cases:
  obtains (blocked) e where "authorize E a r = Some e" "\<not> permitted E a r"
      "attempt E w a force r = (buildActionResult a (idempotencyKey E a) (clk w 0) (clk w 2) ActionResultBlocked '''' (Some e) True, False)"
  | (dry) "permitted E a r" "force \<or> DryRun (rcfg r)"
      "attempt E w a force r = (buildActionResult a (idempotencyKey E a) (clk w 0) (clk w 2) ActionResultDryRun ''dry-run mode enabled'' None True, True)"
  | (ran) out where "permitted E a r" "\<not> (force \<or> DryRun (rcfg r))" "dispatch E (interrupted w) a = Inr out"
      "commandOf a = ''sleep'' \<longrightarrow> interrupted w = None"
      "attempt E w a force r = (buildActionResult a (idempotencyKey E a) (clk w 0) (clk w 2) ActionResultExecuted out None False, True)"
  | (failed) e where "permitted E a r" "\<not> (force \<or> DryRun (rcfg r))" "commandOf a = ''sleep''" "interrupted w \<noteq> None"
      "attempt E w a force r = (buildActionResult a (idempotencyKey E a) (clk w 0) (clk w 2) ActionResultFailed '''' (Some e) False, True)"
proof (cases "authorize E a r")
  case (Some e)
  then show thesis using authorize_permitted [of E a r] by (intro blocked) (auto simp: attempt_def Let_def)
next
  case None
  then have p: "permitted E a r" by (simp add: authorize_permitted)
  show thesis
  proof (cases "force \<or> DryRun (rcfg r)")
    case True
    then show thesis using None p by (intro dry) (simp_all add: attempt_def Let_def)
  next
    case False
    have d: "(\<exists>out. dispatch E (interrupted w) a = Inr out) \<longleftrightarrow> (commandOf a = ''sleep'' \<longrightarrow> interrupted w = None)"
      using p dispatch_ok [of E "interrupted w" a] by (simp add: permitted_def)
    show thesis
    proof (cases "dispatch E (interrupted w) a")
      case (Inl e)
      then show thesis using None p False d by (intro failed) (simp_all add: attempt_def Let_def)
    next
      case (Inr out)
      then show thesis using None p False d by (intro ran) (simp_all add: attempt_def Let_def)
    qed
  qed
qed

lemma executeOne_cases:
  assumes "executeOne E w raw force r = (res, r')" "a = normalizeAction raw" "k = idempotencyKey E a"
  obtains (old) prev where "remembered (clk w 1) k r" "res = skippedResult prev" "r' = pruneExpiredLocked (clk w 1) r"
  | (new) keep where "\<not> remembered (clk w 1) k r" "attempt E w a force (pruneExpiredLocked (clk w 1) r) = (res, keep)"
      "r' = (if keep then rememberResult (clk w 3) (clk w 4) k res (pruneExpiredLocked (clk w 1) r) else pruneExpiredLocked (clk w 1) r)"
proof (cases "fst (previousResult (clk w 1) k r)")
  case None
  then have "previousResult (clk w 1) k r = (None, pruneExpiredLocked (clk w 1) r)" by (simp add: prod_eq_iff)
  with assms None show thesis
    by (cases "attempt E w a force (pruneExpiredLocked (clk w 1) r)")
      (auto intro!: new simp: executeOne_def Let_def previousResult_none)
next
  case (Some prev)
  then have "previousResult (clk w 1) k r = (Some prev, pruneExpiredLocked (clk w 1) r)" by (simp add: prod_eq_iff)
  with assms Some previousResult_none [of "clk w 1" k r] show thesis by (intro old [of prev]) (auto simp: executeOne_def Let_def)
qed

lemma executeOne_status:
  assumes "executeOne E w raw force r = (res, r')" "a = normalizeAction raw" "k = idempotencyKey E a"
  shows "(ResStatus res = ActionResultSkipped \<longleftrightarrow> remembered (clk w 1) k r)
    \<and> (ResStatus res = ActionResultBlocked \<longleftrightarrow> \<not> remembered (clk w 1) k r \<and> \<not> permitted E a r)
    \<and> (ResStatus res = ActionResultDryRun \<longleftrightarrow> \<not> remembered (clk w 1) k r \<and> permitted E a r \<and> (force \<or> DryRun (rcfg r)))
    \<and> (ResStatus res = ActionResultExecuted \<longleftrightarrow> \<not> remembered (clk w 1) k r \<and> permitted E a r \<and> \<not> (force \<or> DryRun (rcfg r))
         \<and> (commandOf a = ''sleep'' \<longrightarrow> interrupted w = None))"
  using assms
proof (cases rule: executeOne_cases)
  case old
  then show ?thesis by (simp add: skippedResult_def)
next
  case (new keep)
  then show ?thesis
    by (cases rule: attempt_cases [of E a "pruneExpiredLocked (clk w 1) r" w force]) auto
qed










definition exampleRunnerEnv :: RunnerEnv where
  "exampleRunnerEnv = \<lparr>digest = (\<lambda>p. kType p @ ''|'' @ kCommand p @ ''|'' @ kTarget p), parseFloat = (\<lambda>s. if s = ''5'' then Some (Fin 5) else None)\<rparr>"

definition exampleRunner :: PlaybookRunner where
  "exampleRunner = \<lparr>rcfg = defaultRunnerConfig\<lparr>DryRun := False\<rparr>, playbooks = [], allowedNamespaces = {''default''}, allowedShell = {''echo'', ''sleep''},
     executed = Map.empty\<rparr>"

definition exampleAction :: "string \<Rightarrow> string \<Rightarrow> ActionSpec" where
  "exampleAction t c = \<lparr>ActID = ''a1'', ActType = t, ActNode = '''', ActTarget = '''', ActDescription = '''', Command = c, Args = None, Namespace = '''',
     Resource = '''', ResourceName = '''', Priority = '''', Safe = True, RequiresApproval = False, RollbackCommand = '''', Metadata = None,
     ApprovalRequired = False, ApprovalToken = '''', ActExpiresAt = 0\<rparr>"

definition exampleWorld :: "int \<Rightarrow> CallWorld" where
  "exampleWorld t = \<lparr>clk = (\<lambda>n. t + int n), interrupted = None, deadlineExceeded = False\<rparr>"

lemmas example_runner_defs = exampleRunnerEnv_def exampleRunner_def exampleAction_def exampleWorld_def

lemma fresh_example: "\<not> remembered now k exampleRunner"
  by (simp add: remembered_def exampleRunner_def)



section \<open>Idempotency\<close>

text \<open>The calls on a runner in the order of their locked sections: lookups, attempts with what they remember, and reloads
  of the configuration with lifetimes between \<open>lo\<close> and \<open>hi\<close>.  The clock does not go back.\<close>

datatype useEvent = Looked string int bool | Ran string int

record UseState =
  urunner :: PlaybookRunner
  unow :: int
  ulog :: "useEvent list"

inductive useStep :: "RunnerEnv \<Rightarrow> int \<Rightarrow> int \<Rightarrow> UseState \<Rightarrow> UseState \<Rightarrow> bool" for E lo hi where
  looked: "\<lbrakk>unow s \<le> t; previousResult t k (urunner s) = (prev, r)\<rbrakk>
    \<Longrightarrow> useStep E lo hi s (s\<lparr>urunner := r, unow := t, ulog := Looked k t (prev \<noteq> None) # ulog s\<rparr>)"
| kept: "\<lbrakk>attempt E w a force (urunner s) = (res, True); k = idempotencyKey E a; unow s \<le> clk w 3; clk w 3 \<le> clk w 4\<rbrakk>
    \<Longrightarrow> useStep E lo hi s (s\<lparr>urunner := rememberResult (clk w 3) (clk w 4) k res (urunner s), unow := clk w 4, ulog := Ran k (clk w 4) # ulog s\<rparr>)"
| reloaded: "\<lbrakk>reload c loaded (urunner s) = (e, r); lo \<le> IdempotencyTTL (runnerDefaults c); IdempotencyTTL (runnerDefaults c) \<le> hi\<rbrakk>
    \<Longrightarrow> useStep E lo hi s (s\<lparr>urunner := r\<rparr>)"

inductive useReach :: "RunnerEnv \<Rightarrow> int \<Rightarrow> int \<Rightarrow> UseState \<Rightarrow> bool" for E lo hi where
  start: "\<lbrakk>executed r = Map.empty; lo \<le> IdempotencyTTL (rcfg r); IdempotencyTTL (rcfg r) \<le> hi\<rbrakk>
    \<Longrightarrow> useReach E lo hi \<lparr>urunner = r, unow = t, ulog = []\<rparr>"
| step: "\<lbrakk>useReach E lo hi s; useStep E lo hi s s'\<rbrakk> \<Longrightarrow> useReach E lo hi s'"

definition ranKey :: "useEvent list \<Rightarrow> string \<Rightarrow> int \<Rightarrow> bool" where
  "ranKey es k t \<longleftrightarrow> Ran k t \<in> set es"

fun lookupsOK :: "int \<Rightarrow> int \<Rightarrow> useEvent list \<Rightarrow> bool" where
  "lookupsOK lo hi [] = True"
| "lookupsOK lo hi (Ran k t # es) = lookupsOK lo hi es"
| "lookupsOK lo hi (Looked k t hit # es) \<longleftrightarrow> lookupsOK lo hi es \<and> (\<forall>t0. ranKey es k t0 \<and> t \<le> t0 + lo \<longrightarrow> hit)
     \<and> (hit \<longrightarrow> (\<exists>t0. ranKey es k t0 \<and> t \<le> t0 + hi))"

definition useInv :: "int \<Rightarrow> int \<Rightarrow> UseState \<Rightarrow> bool" where
  "useInv lo hi s \<longleftrightarrow> lo \<le> IdempotencyTTL (rcfg (urunner s)) \<and> IdempotencyTTL (rcfg (urunner s)) \<le> hi
     \<and> (\<forall>k t. ranKey (ulog s) k t \<longrightarrow> t \<le> unow s \<and> (unow s \<le> t + lo \<longrightarrow> (\<exists>rec. executed (urunner s) k = Some rec \<and> t + lo \<le> RecExpiresAt rec)))
     \<and> (\<forall>k rec. executed (urunner s) k = Some rec \<longrightarrow> (\<exists>t. ranKey (ulog s) k t \<and> RecExpiresAt rec \<le> t + hi))
     \<and> lookupsOK lo hi (ulog s)"

lemma ranKey_simps [simp]:
  "ranKey (Looked k t h # es) k' t' = ranKey es k' t'"
  "ranKey (Ran k t # es) k' t' \<longleftrightarrow> k' = k \<and> t' = t \<or> ranKey es k' t'"
  "\<not> ranKey [] k' t'"
  by (auto simp: ranKey_def)

lemma useInv_live:
  assumes "useInv lo hi s" "ranKey (ulog s) k t" "unow s \<le> t + lo"
  obtains rec where "executed (urunner s) k = Some rec" "t + lo \<le> RecExpiresAt rec"
  using assms unfolding useInv_def by blast

lemma reload_keeps:
  assumes "reload c loaded r = (e, r')"
  shows "executed r' = executed r" "IdempotencyTTL (rcfg r') = IdempotencyTTL (rcfg r) \<or> IdempotencyTTL (rcfg r') = IdempotencyTTL (runnerDefaults c)"
  using assms by (auto simp: reload_def Let_def split: if_splits sum.splits)

lemma remember_executed:
  "executed (rememberResult now now' k res r) k' = (if k' = k then Some \<lparr>RecResult = res, RecExpiresAt = now' + IdempotencyTTL (rcfg r)\<rparr>
     else executed (pruneExpiredLocked now r) k')" "rcfg (rememberResult now now' k res r) = rcfg r"
  by (simp_all add: rememberResult_def Let_def)

lemma useInv_looked:
  assumes "useInv lo hi s" "unow s \<le> t" "previousResult t k (urunner s) = (prev, r)"
  shows "useInv lo hi (s\<lparr>urunner := r, unow := t, ulog := Looked k t (prev \<noteq> None) # ulog s\<rparr>)"
proof -
  have r: "r = pruneExpiredLocked t (urunner s)" using assms(3) previousResult_runner [of t k "urunner s"] by simp
  have hit: "prev \<noteq> None \<longleftrightarrow> remembered t k (urunner s)" using assms(3) previousResult_none [of t k "urunner s"] by auto
  have keep: "\<exists>rec. executed r k' = Some rec \<and> t0 + lo \<le> RecExpiresAt rec" if "ranKey (ulog s) k' t0" "t \<le> t0 + lo" for k' t0
  proof -
    have "unow s \<le> t0 + lo" using that(2) assms(2) by simp
    with assms(1) that(1) obtain rec where "executed (urunner s) k' = Some rec" "t0 + lo \<le> RecExpiresAt rec" by (rule useInv_live)
    with that(2) show ?thesis by (auto simp: r executed_prune)
  qed
  have "\<forall>t0. ranKey (ulog s) k t0 \<and> t \<le> t0 + lo \<longrightarrow> prev \<noteq> None"
    using keep [of k] unfolding hit remembered_def by (fastforce simp: r executed_prune)
  moreover have "prev \<noteq> None \<longrightarrow> (\<exists>t0. ranKey (ulog s) k t0 \<and> t \<le> t0 + hi)"
    using assms(1) unfolding hit remembered_def useInv_def by fastforce
  moreover have "\<forall>k' t0. ranKey (ulog s) k' t0 \<longrightarrow> t0 \<le> t" using assms(1,2) by (fastforce simp: useInv_def)
  moreover have "\<forall>k' rec. executed r k' = Some rec \<longrightarrow> (\<exists>t0. ranKey (ulog s) k' t0 \<and> RecExpiresAt rec \<le> t0 + hi)"
    using assms(1) by (simp add: r executed_prune useInv_def)
  ultimately show ?thesis using assms(1) keep by (simp add: useInv_def r)
qed

lemma useInv_kept:
  assumes "useInv lo hi s" "unow s \<le> now" "now \<le> now'"
  shows "useInv lo hi (s\<lparr>urunner := rememberResult now now' k res (urunner s), unow := now', ulog := Ran k now' # ulog s\<rparr>)"
proof -
  let ?r = "rememberResult now now' k res (urunner s)"
  have ttl: "lo \<le> IdempotencyTTL (rcfg (urunner s))" "IdempotencyTTL (rcfg (urunner s)) \<le> hi" using assms(1) by (simp_all add: useInv_def)
  have "\<exists>rec. executed ?r k' = Some rec \<and> t + lo \<le> RecExpiresAt rec" if "ranKey (Ran k now' # ulog s) k' t" "now' \<le> t + lo" for k' t
  proof (cases "k' = k")
    case True
    have "t \<le> now'" using that(1) assms by (fastforce simp: useInv_def)
    with True ttl show ?thesis by (simp add: remember_executed)
  next
    case False
    with that have "ranKey (ulog s) k' t" "unow s \<le> t + lo" using assms(2,3) by auto
    with assms(1) obtain rec where "executed (urunner s) k' = Some rec" "t + lo \<le> RecExpiresAt rec" by (rule useInv_live)
    with False that(2) assms(3) show ?thesis by (auto simp: remember_executed executed_prune)
  qed
  moreover have "\<forall>k' t. ranKey (Ran k now' # ulog s) k' t \<longrightarrow> t \<le> now'" using assms by (fastforce simp: useInv_def)
  moreover have "\<exists>t. ranKey (Ran k now' # ulog s) k' t \<and> RecExpiresAt rec \<le> t + hi" if "executed ?r k' = Some rec" for k' rec
  proof (cases "k' = k")
    case True
    with that ttl show ?thesis by (auto simp: remember_executed)
  next
    case False
    with that assms(1) show ?thesis by (auto simp: remember_executed executed_prune useInv_def)
  qed
  ultimately show ?thesis using assms(1) ttl by (simp add: useInv_def remember_executed(2))
qed

lemma useReach_inv: "useReach E lo hi s \<Longrightarrow> useInv lo hi s"
proof (induction rule: useReach.induct)
  case (start r t)
  then show ?case by (simp add: useInv_def)
next
  case (step s s')
  from step.hyps(2) step.IH show ?case
  proof (cases rule: useStep.cases)
    case (looked t k prev r)
    then show ?thesis using useInv_looked [OF step.IH looked(2,3)] by simp
  next
    case (kept w a force res k)
    then show ?thesis using useInv_kept [OF step.IH kept(4,5)] by simp
  next
    case (reloaded c loaded e r)
    then show ?thesis using step.IH reload_keeps [OF reloaded(2)] by (auto simp: useInv_def)
  qed
qed

lemma lookupsOK_split:
  "lookupsOK lo hi (later @ es) \<Longrightarrow> lookupsOK lo hi es"
  by (induction later rule: list.induct) (simp, metis append_Cons lookupsOK.simps(2,3) useEvent.exhaust)

text \<open>C33. An action is not repeated within its window, however calls and reloads interleave: a lookup of a key finds
  the earlier result if an attempt under that key was remembered at most the shortest lifetime before, and
  only if one was remembered at most the longest lifetime before.  With a hit the call reports
  \<^verbatim>\<open>skipped\<close> and runs nothing.\<close>

theorem idempotent_window:
  assumes "useReach E lo hi s" "ulog s = later @ Looked k t hit # earlier"
  shows "((\<exists>t0. Ran k t0 \<in> set earlier \<and> t \<le> t0 + lo) \<longrightarrow> hit) \<and> (hit \<longrightarrow> (\<exists>t0. Ran k t0 \<in> set earlier \<and> t \<le> t0 + hi))
    \<and> (\<forall>w raw force r. idempotencyKey E (normalizeAction raw) = k \<and> clk w 1 = t \<and> fst (previousResult t k r) \<noteq> None \<longrightarrow>
         ResStatus (fst (executeOne E w raw force r)) = ActionResultSkipped \<and> snd (executeOne E w raw force r) = pruneExpiredLocked t r)"
proof -
  have "lookupsOK lo hi (Looked k t hit # earlier)"
    using useReach_inv [OF assms(1)] assms(2) lookupsOK_split by (fastforce simp: useInv_def)
  moreover have "ResStatus (fst (executeOne E w raw force r)) = ActionResultSkipped \<and> snd (executeOne E w raw force r) = pruneExpiredLocked t r"
    if "idempotencyKey E (normalizeAction raw) = k" "clk w 1 = t" "fst (previousResult t k r) \<noteq> None" for w raw force r
  proof -
    have rem: "remembered (clk w 1) k r" using that previousResult_none [of t k r] by simp
    have "executeOne E w raw force r = (fst (executeOne E w raw force r), snd (executeOne E w raw force r))" by simp
    from this refl that(1) [symmetric] show ?thesis
    proof (cases rule: executeOne_cases)
      case (old prev)
      then show ?thesis using that(2) by (simp add: skippedResult_def)
    qed (use rem in simp)
  qed
  ultimately show ?thesis by (auto simp: ranKey_def)
qed

lemma example_use:
  "useReach exampleRunnerEnv (30 * 60 * 10 ^ 9) (30 * 60 * 10 ^ 9)
     \<lparr>urunner = pruneExpiredLocked 20 (snd (executeOne exampleRunnerEnv (exampleWorld 10) (exampleAction ''shell'' ''echo'') False exampleRunner)),
      unow = 20, ulog = [Looked ''shell|echo|'' 20 True, Ran ''shell|echo|'' 14, Looked ''shell|echo|'' 11 False]\<rparr>"
proof -
  let ?E = exampleRunnerEnv and ?T = "30 * 60 * 10 ^ 9 :: int" and ?a = "normalizeAction (exampleAction ''shell'' ''echo'')"
  let ?w = "exampleWorld 10" and ?k = "''shell|echo|''"
  let ?r1 = "pruneExpiredLocked 11 exampleRunner"
  have key: "idempotencyKey ?E ?a = ?k" by code_simp
  have "snd (attempt ?E ?w ?a False ?r1)" by code_simp
  then obtain res where att: "attempt ?E ?w ?a False ?r1 = (res, True)" by (cases "attempt ?E ?w ?a False ?r1") simp
  have first: "previousResult 11 ?k exampleRunner = (None, ?r1)"
    using fresh_example previousResult_none [of 11 ?k exampleRunner] by (simp add: prod_eq_iff)
  define r2 where "r2 = rememberResult 13 14 ?k res ?r1"
  have w: "clk ?w 3 = 13" "clk ?w 4 = 14" "clk ?w 1 = 11" by (simp_all add: exampleWorld_def)
  have e: "snd (executeOne ?E ?w (exampleAction ''shell'' ''echo'') False exampleRunner) = r2"
    unfolding executeOne_def Let_def key w first by (simp only: prod.case option.case att if_True snd_conv r2_def)
  let ?s0 = "\<lparr>urunner = exampleRunner, unow = 10, ulog = []\<rparr>"
  let ?s1 = "\<lparr>urunner = ?r1, unow = 11, ulog = [Looked ?k 11 False]\<rparr>"
  let ?s2 = "\<lparr>urunner = r2, unow = 14, ulog = [Ran ?k 14, Looked ?k 11 False]\<rparr>"
  have r0: "useReach ?E ?T ?T ?s0" by (rule useReach.start) (simp_all add: exampleRunner_def defaultRunnerConfig_def)
  have s1: "useStep ?E ?T ?T ?s0 ?s1" using looked [of ?s0 11 ?k None ?r1 ?E ?T ?T] first by simp
  have "useStep ?E ?T ?T ?s1 (?s1\<lparr>urunner := rememberResult (clk ?w 3) (clk ?w 4) ?k res (urunner ?s1), unow := clk ?w 4, ulog := Ran ?k (clk ?w 4) # ulog ?s1\<rparr>)"
    by (rule kept [where force = False, OF _ key [symmetric]]) (simp_all only: UseState.simps att w)
  then have s2: "useStep ?E ?T ?T ?s1 ?s2" unfolding w UseState.simps r2_def .
  have "fst (previousResult 20 ?k r2) \<noteq> None"
    unfolding previousResult_none r2_def by (simp add: remembered_def remember_executed exampleRunner_def defaultRunnerConfig_def)
  then obtain prev where "previousResult 20 ?k r2 = (Some prev, pruneExpiredLocked 20 r2)" by (auto simp: prod_eq_iff)
  then have s3: "useStep ?E ?T ?T ?s2 \<lparr>urunner = pruneExpiredLocked 20 r2, unow = 20, ulog = [Looked ?k 20 True, Ran ?k 14, Looked ?k 11 False]\<rparr>"
    using looked [of ?s2 20 ?k "Some prev" "pruneExpiredLocked 20 r2" ?E ?T ?T] by simp
  show ?thesis unfolding e by (rule useReach.step [OF useReach.step [OF useReach.step [OF r0 s1] s2] s3])
qed

theorem idempotent_window_witness:
  "\<exists>t0. Ran ''shell|echo|'' t0 \<in> set [Ran ''shell|echo|'' 14, Looked ''shell|echo|'' 11 False] \<and> 20 \<le> t0 + 30 * 60 * 10 ^ 9"
  using idempotent_window [OF example_use, of "[]" "''shell|echo|''" 20 True "[Ran ''shell|echo|'' 14, Looked ''shell|echo|'' 11 False]"] by simp

section \<open>Batches\<close>

fun routineIndex :: "routine \<Rightarrow> nat" where
  "routineIndex (Started i) = i"
| "routineIndex (Missed i) = i"

fun routineWork :: "routine \<Rightarrow> nat" where
  "routineWork (Started i) = 2"
| "routineWork (Missed i) = 1"

definition indices :: "BatchState \<Rightarrow> nat list" where
  "indices s = map routineIndex (routines s)"

definition resultOK :: "RunnerEnv \<Rightarrow> ActionSpec list \<Rightarrow> bool \<Rightarrow> nat \<Rightarrow> RunnerResult \<Rightarrow> bool" where
  "resultOK E acts force i res \<longleftrightarrow> (ResStatus res = ActionResultExecuted \<longrightarrow>
     harmless E (normalizeAction (acts ! i)) \<and> \<not> RequiresApproval (acts ! i) \<and> \<not> force)"

definition batchInv :: "RunnerEnv \<Rightarrow> ActionSpec list \<Rightarrow> bool \<Rightarrow> int \<Rightarrow> BatchState \<Rightarrow> bool" where
  "batchInv E acts force cap s \<longleftrightarrow> sem s = cap \<and> int (length (routines s)) \<le> cap \<and> nextAction s \<le> length acts
     \<and> distinct (indices s) \<and> set (indices s) \<inter> dom (bresults s) = {} \<and> set (indices s) \<union> dom (bresults s) = {..<nextAction s}
     \<and> (\<forall>i res. bresults s i = Some res \<longrightarrow> resultOK E acts force i res)"

text \<open>The work that is left: three steps for an action that is not started, two or one for a goroutine.\<close>

definition batchWork :: "ActionSpec list \<Rightarrow> BatchState \<Rightarrow> nat" where
  "batchWork acts s = 3 * (length acts - nextAction s) + sum_list (map routineWork (routines s))"

lemma attempt_resultOK:
  assumes "attempt E w (normalizeAction (acts ! i)) force r = (res, keep)"
  shows "resultOK E acts force i res"
  using assms by (cases rule: attempt_cases [of E "normalizeAction (acts ! i)" r w force])
    (auto simp: resultOK_def permitted_def normalizeAction_def)

lemma batchInv_finished:
  assumes "batchInv E acts force cap s" "routines s = as @ q # bs" "routineIndex q = i" "resultOK E acts force i res"
  shows "batchInv E acts force cap (s\<lparr>brunner := r, routines := as @ bs, bresults := (bresults s)(i \<mapsto> res)\<rparr>)"
proof -
  have "set (indices s) = insert i (set (map routineIndex (as @ bs)))" "i \<notin> set (map routineIndex (as @ bs))"
    using assms(1-3) by (auto simp: batchInv_def indices_def)
  then show ?thesis using assms by (auto simp: batchInv_def indices_def)
qed

lemma batchStep_inv:
  assumes "batchStep E ws acts force s s'" "batchInv E acts force cap s"
  shows "batchInv E acts force cap s'"
  using assms(1)
proof (cases rule: batchStep.cases)
  case spawn
  have "nextAction s \<notin> set (indices s) \<union> dom (bresults s)" using assms(2) by (simp add: batchInv_def)
  then show ?thesis using spawn assms(2) by (auto simp: batchInv_def indices_def lessThan_Suc)
next
  case (hit as i bs prev r)
  then show ?thesis using batchInv_finished [OF assms(2) hit(2)] by (simp add: resultOK_def skippedResult_def)
next
  case (miss as i bs r)
  then show ?thesis using assms(2) by (simp add: batchInv_def indices_def)
next
  case (finish as i bs action res keep r)
  have "resultOK E acts force i res" using attempt_resultOK finish(3,4) by simp
  then show ?thesis using finish batchInv_finished [OF assms(2) finish(2)] by simp
next
  case (meanwhile r)
  then show ?thesis using assms(2) by (simp add: batchInv_def indices_def)
qed

lemma batchReach_inv:
  assumes "(batchStep E ws acts force)\<^sup>*\<^sup>* (batchStart r) s" "0 < MaxParallelActions (rcfg r)"
  shows "batchInv E acts force (MaxParallelActions (rcfg r)) s"
  using assms(1)
proof (induction rule: rtranclp_induct)
  case base
  show ?case using assms(2) by (simp add: batchInv_def batchStart_def indices_def)
next
  case (step s s')
  then show ?case using batchStep_inv by blast
qed

lemma progressI:
  "\<lbrakk>batchStep E ws acts force s s'; batchWork acts s' < batchWork acts s\<rbrakk>
    \<Longrightarrow> \<exists>s'. batchStep E ws acts force s s' \<and> batchWork acts s' < batchWork acts s"
  by blast

lemma batch_progress:
  assumes "batchInv E acts force cap s" "0 < cap" "\<not> batchDone acts s"
  shows "\<exists>s'. batchStep E ws acts force s s' \<and> batchWork acts s' < batchWork acts s"
proof (cases "routines s")
  case Nil
  then have n: "nextAction s < length acts" using assms by (auto simp: batchDone_def batchInv_def)
  moreover have "int (length (routines s)) < sem s" using assms Nil by (simp add: batchInv_def)
  ultimately have "batchStep E ws acts force s (s\<lparr>nextAction := nextAction s + 1, routines := Started (nextAction s) # routines s\<rparr>)" by (rule spawn)
  then show ?thesis by (rule progressI) (use n in \<open>simp add: batchWork_def\<close>)
next
  case (Cons q qs)
  show ?thesis
  proof (cases q)
    case (Started i)
    let ?look = "previousResult (clk (ws i) 1) (idempotencyKey E (normalizeAction (acts ! i))) (brunner s)"
    show ?thesis
    proof (cases "fst ?look")
      case None
      then have "?look = (None, snd ?look)" by (simp add: prod_eq_iff)
      with Cons Started have "batchStep E ws acts force s (s\<lparr>brunner := snd ?look, routines := [] @ Missed i # qs\<rparr>)" by (intro miss) simp_all
      then show ?thesis by (rule progressI) (use Cons Started in \<open>simp add: batchWork_def\<close>)
    next
      case (Some prev)
      then have "?look = (Some prev, snd ?look)" by (simp add: prod_eq_iff)
      with Cons Started have "batchStep E ws acts force s (s\<lparr>brunner := snd ?look, routines := [] @ qs, bresults := (bresults s)(i \<mapsto> skippedResult prev)\<rparr>)"
        by (intro hit) simp_all
      then show ?thesis by (rule progressI) (use Cons Started in \<open>simp add: batchWork_def\<close>)
    qed
  next
    case (Missed i)
    obtain res keep where a: "attempt E (ws i) (normalizeAction (acts ! i)) force (brunner s) = (res, keep)" by (cases "attempt E (ws i) (normalizeAction (acts ! i)) force (brunner s)")
    have "routines s = [] @ Missed i # qs" using Cons Missed by simp
    from finish [where ws = ws and acts = acts and i = i, OF this refl a refl] show ?thesis by (rule progressI) (use Cons Missed in \<open>simp add: batchWork_def\<close>)
  qed
qed

text \<open>C34. A batch completes under every schedule and whatever else happens to the runner: never more goroutines than the
  semaphore admits are at work, every action has at most one result, and as long as the batch is not done a step
  is possible that leaves less work; when it is done every action has its result, and an action that was executed
  was harmless, not waiting for approval and not forced into dry-run mode.\<close>

theorem batch_completes:
  assumes "(batchStep E ws acts force)\<^sup>*\<^sup>* (batchStart r) s" "0 < MaxParallelActions (rcfg r)"
  shows "int (length (routines s)) \<le> MaxParallelActions (rcfg r)
    \<and> distinct (indices s) \<and> set (indices s) \<inter> dom (bresults s) = {} \<and> set (indices s) \<union> dom (bresults s) = {..<nextAction s}
    \<and> (\<not> batchDone acts s \<longrightarrow> (\<exists>s'. batchStep E ws acts force s s' \<and> batchWork acts s' < batchWork acts s))
    \<and> (batchDone acts s \<longrightarrow> (\<forall>i < length acts. \<exists>res. bresults s i = Some res \<and> (ResStatus res = ActionResultExecuted \<longrightarrow>
         harmless E (normalizeAction (acts ! i)) \<and> \<not> RequiresApproval (acts ! i) \<and> \<not> force)))"
proof -
  have inv: "batchInv E acts force (MaxParallelActions (rcfg r)) s" by (rule batchReach_inv [OF assms])
  have "\<exists>res. bresults s i = Some res \<and> resultOK E acts force i res" if "batchDone acts s" "i < length acts" for i
  proof -
    have "dom (bresults s) = {..<length acts}" using inv that(1) by (simp add: batchInv_def batchDone_def indices_def)
    with that(2) obtain res where "bresults s i = Some res" by (metis domD lessThan_iff)
    with inv show ?thesis by (auto simp: batchInv_def)
  qed
  with inv batch_progress [OF inv assms(2)] show ?thesis by (simp add: batchInv_def resultOK_def)
qed

theorem batch_completes_witness:
  "\<exists>s'. batchStep exampleRunnerEnv (\<lambda>_. exampleWorld 0) [exampleAction ''shell'' ''echo''] False (batchStart exampleRunner) s'
     \<and> batchWork [exampleAction ''shell'' ''echo''] s' < batchWork [exampleAction ''shell'' ''echo''] (batchStart exampleRunner)"
proof -
  have "0 < MaxParallelActions (rcfg exampleRunner)" by (simp add: exampleRunner_def defaultRunnerConfig_def)
  from batch_completes [OF rtranclp.rtrancl_refl this, of "[exampleAction ''shell'' ''echo'']" exampleRunnerEnv "\<lambda>_. exampleWorld 0" False]
  show ?thesis by (simp add: batchDone_def batchStart_def)
qed

section \<open>Behaviours to know of\<close>

text \<open>A dry run is remembered like an execution: for the lifetime of the record the live call is skipped.\<close>

lemma dry_run_blocks_live:
  assumes "executeOne E w raw True r = (res, r')" "ResStatus res = ActionResultDryRun"
    "clk w' 1 \<le> clk w 4 + IdempotencyTTL (rcfg r)" "executeOne E w' raw False r' = (res', r'')"
  shows "ResStatus res' = ActionResultSkipped"
proof -
  let ?a = "normalizeAction raw" and ?k = "idempotencyKey E (normalizeAction raw)"
  from assms(1) refl refl have "remembered (clk w' 1) ?k r'"
  proof (cases rule: executeOne_cases)
    case (old prev)
    then show ?thesis using assms(2) by (simp add: skippedResult_def)
  next
    case (new keep)
    from new(2) have keep using assms(2)
      by (cases rule: attempt_cases [of E ?a "pruneExpiredLocked (clk w 1) r" w True]) auto
    with new(3) assms(3) show ?thesis by (simp add: remembered_def remember_executed)
  qed
  then show ?thesis using executeOne_status [OF assms(4) refl refl] by simp
qed

text \<open>Looking for an earlier result and remembering the new one are two locked sections: two calls for the same action
  that both look before one of them remembers both run it.\<close>

lemma duplicate_calls_both_run:
  assumes "permitted E a r" "\<not> DryRun (rcfg r)" "commandOf a = ''echo''" "\<not> remembered now k r" "k = idempotencyKey E a"
  shows "fst (previousResult now k r) = None" "fst (previousResult now k (snd (previousResult now k r))) = None"
    "ResStatus (fst (attempt E w a False r)) = ActionResultExecuted"
    "ResStatus (fst (attempt E w a False (rememberResult t t' k res r))) = ActionResultExecuted"
proof -
  show "fst (previousResult now k r) = None" using assms(4) by (simp add: previousResult_none)
  have "\<not> remembered now k (pruneExpiredLocked now r)" using assms(4) by (auto simp: remembered_def executed_prune)
  then show "fst (previousResult now k (snd (previousResult now k r))) = None" by (simp add: previousResult_none)
  have run: "ResStatus (fst (attempt E w a False r'')) = ActionResultExecuted" if "permitted E a r''" "\<not> DryRun (rcfg r'')" for r''
    using that assms(3) by (cases rule: attempt_cases [of E a r'' w False]) auto
  show "ResStatus (fst (attempt E w a False r)) = ActionResultExecuted" by (rule run [OF assms(1,2)])
  have "permitted E a (rememberResult t t' k res r)" using assms(1) by (simp add: permitted_def rememberResult_def Let_def)
  then show "ResStatus (fst (attempt E w a False (rememberResult t t' k res r))) = ActionResultExecuted"
    using assms(2) by (intro run) (simp_all add: remember_executed)
qed

section \<open>Proposals\<close>

lemma dedupeLoop_keys:
  "distinct (map (idempotencyKey E) (dedupeLoop E seen acts)) \<and> idempotencyKey E ` set (dedupeLoop E seen acts) \<inter> set seen = {}
   \<and> idempotencyKey E ` set acts \<subseteq> set seen \<union> idempotencyKey E ` set (dedupeLoop E seen acts)
   \<and> set (dedupeLoop E seen acts) \<subseteq> set acts"
proof (induction acts arbitrary: seen)
  case (Cons a acts)
  show ?case using Cons.IH [of seen] Cons.IH [of "idempotencyKey E a # seen"] by (auto simp: Let_def)
qed simp

text \<open>Proposals are distinct by their keys, and each comes from a playbook with at least one condition, all of which
  hold for metrics that were reported.\<close>

lemma proposals_justified:
  "distinct (map (idempotencyKey E) (proposeFromMetrics E node ms r))
   \<and> (\<forall>a \<in> set (proposeFromMetrics E node ms r). ActNode a = node \<and> (\<exists>pb \<in> set (playbooks r). \<exists>i < length (PbActions pb).
        a = candidateFrom node pb (i, PbActions pb ! i) \<and> PbConditions pb \<noteq> []
        \<and> (\<forall>c \<in> set (PbConditions pb). ms (CondMetric c) \<noteq> None \<and> conditionMatches c ms)))"
proof (intro conjI ballI)
  show "distinct (map (idempotencyKey E) (proposeFromMetrics E node ms r))"
    using dedupeLoop_keys by (simp add: proposeFromMetrics_def dedupeActionSpecs_def)
  fix a assume "a \<in> set (proposeFromMetrics E node ms r)"
  then have "a \<in> set (concat (map (\<lambda>pb. map (candidateFrom node pb) (enumerate 0 (PbActions pb))) (filter (\<lambda>pb. playbookMatches pb ms) (playbooks r))))"
    using dedupeLoop_keys unfolding proposeFromMetrics_def dedupeActionSpecs_def by blast
  then obtain pb i where p: "pb \<in> set (playbooks r)" "playbookMatches pb ms" "i < length (PbActions pb)" "a = candidateFrom node pb (i, PbActions pb ! i)"
    by (auto simp: in_set_enumerate_eq)
  then show "ActNode a = node" by (simp add: candidateFrom_def Let_def)
  have "ms (CondMetric c) \<noteq> None \<and> conditionMatches c ms" if "c \<in> set (PbConditions pb)" for c
    using p(2) that by (auto simp: playbookMatches_def list_all_iff conditionMatches_def split: option.splits)
  with p show "\<exists>pb \<in> set (playbooks r). \<exists>i < length (PbActions pb). a = candidateFrom node pb (i, PbActions pb ! i) \<and> PbConditions pb \<noteq> []
        \<and> (\<forall>c \<in> set (PbConditions pb). ms (CondMetric c) \<noteq> None \<and> conditionMatches c ms)"
    by (auto simp: playbookMatches_def)
qed

end
