(* ===== verification/ActuatorProps.thy ===== *)
theory ActuatorProps
  imports ActuatorSafety ActionProps
begin

text \<open>
  What the safety policy for actuators guarantees, and that the remediation tool behind the gate of the tool manager
  never runs anything.
\<close>

section \<open>The policy\<close>

lemmas policy_defs = evaluateActuatorExecutionPolicy_def Let_def decisionFor_def

lemma decision_tier: "SafetyTier (evaluateActuatorExecutionPolicy E cfg co dry) = actuatorSafetyTierForContract E co"
  by (simp add: policy_defs)

lemma decision_eligible:
  "ExecutionEligible (evaluateActuatorExecutionPolicy E cfg co dry) \<longleftrightarrow>
     (let tier = actuatorSafetyTierForContract E co; category = contractExecutionCategory co in
      tier = ''read_only'' \<or> tier = ''safe_reversible'' \<and> safeReversibleExecutionAllowed cfg category
      \<or> tier = ''impacting'' \<and> impactingExecutionAllowed cfg category)"
  by (auto simp: policy_defs)

lemma decision_proposal:
  "ProposalOnly (evaluateActuatorExecutionPolicy E cfg co dry) \<longleftrightarrow> \<not> ExecutionEligible (evaluateActuatorExecutionPolicy E cfg co dry)"
  by (simp add: policy_defs)

lemma decision_status:
  "PolicyStatus (evaluateActuatorExecutionPolicy E cfg co dry) =
     (if ExecutionEligible (evaluateActuatorExecutionPolicy E cfg co dry) then ''allowed'' else ''proposal_only'')"
  by (simp add: policy_defs)

lemma decision_eligible_dry:
  "ExecutionEligible (evaluateActuatorExecutionPolicy E cfg co dry) = ExecutionEligible (evaluateActuatorExecutionPolicy E cfg co dry')"
  by (simp add: decision_eligible)

lemma proposal_no_approval:
  "ProposalOnly (evaluateActuatorExecutionPolicy E cfg co dry) \<Longrightarrow> \<not> NeedsApproval (evaluateActuatorExecutionPolicy E cfg co dry)"
  by (simp add: policy_defs split: if_splits)

lemma tier_harmful:
  assumes "Execution c = Some a" "\<not> harmless E a"
  shows "actuatorSafetyTierForContract E (Some c) = ''destructive''"
  using assms harness_iff [of E a] by (simp add: actuatorSafetyTierForContract_def)

text \<open>C35. The policy for actuators.  A decision is either eligible for execution or a proposal.  Whatever labels a
  contract carries and whatever is configured, a contract whose action the harness refuses is a proposal, and so
  is every contract of an unknown tier.  An impacting action is eligible only if impacting actions are enabled,
  and then needs approval and a rollback; the level \<^verbatim>\<open>auto_execute\<close> is reached exactly by a safe and reversible
  contract that is allowed, needs no approval and is not to be a dry run.\<close>

theorem actuator_policy:
  assumes "d = evaluateActuatorExecutionPolicy E cfg co dry" "tier = actuatorSafetyTierForContract E co"
  shows "(ExecutionEligible d \<longleftrightarrow> \<not> ProposalOnly d) \<and> (ExecutionEligible d \<longleftrightarrow> PolicyStatus d = ''allowed'')
    \<and> (\<forall>c a. co = Some c \<and> Execution c = Some a \<and> \<not> harmless E a \<longrightarrow> ProposalOnly d \<and> ExecutionLevel d = ''suggest_only'')
    \<and> (tier \<notin> {''read_only'', ''safe_reversible'', ''impacting''} \<longrightarrow> ProposalOnly d)
    \<and> (tier = ''impacting'' \<and> ExecutionEligible d \<longrightarrow> AllowImpactingExec cfg \<and> NeedsApproval d \<and> RollbackRequired d)
    \<and> (ExecutionLevel d = ''auto_execute'' \<longleftrightarrow> tier = ''safe_reversible'' \<and> safeReversibleExecutionAllowed cfg (contractExecutionCategory co)
         \<and> \<not> contractRequiresApproval co \<and> \<not> dry \<and> \<not> contractDryRunDefault co)"
proof (intro conjI)
  show "ExecutionEligible d \<longleftrightarrow> \<not> ProposalOnly d" by (simp add: assms(1) decision_proposal)
  show "ExecutionEligible d \<longleftrightarrow> PolicyStatus d = ''allowed''" by (simp add: assms(1) decision_status)
  show "\<forall>c a. co = Some c \<and> Execution c = Some a \<and> \<not> harmless E a \<longrightarrow> ProposalOnly d \<and> ExecutionLevel d = ''suggest_only''"
  proof (intro allI impI)
    fix c a assume "co = Some c \<and> Execution c = Some a \<and> \<not> harmless E a"
    then have "actuatorSafetyTierForContract E co = ''destructive''" using tier_harmful by simp
    then show "ProposalOnly d \<and> ExecutionLevel d = ''suggest_only''" by (simp add: assms(1) policy_defs)
  qed
  show "tier \<notin> {''read_only'', ''safe_reversible'', ''impacting''} \<longrightarrow> ProposalOnly d" by (simp add: assms policy_defs)
  show "tier = ''impacting'' \<and> ExecutionEligible d \<longrightarrow> AllowImpactingExec cfg \<and> NeedsApproval d \<and> RollbackRequired d"
    by (simp add: assms policy_defs impactingExecutionAllowed_def split: if_splits)
  show "ExecutionLevel d = ''auto_execute'' \<longleftrightarrow> tier = ''safe_reversible'' \<and> safeReversibleExecutionAllowed cfg (contractExecutionCategory co)
         \<and> \<not> contractRequiresApproval co \<and> \<not> dry \<and> \<not> contractDryRunDefault co"
    by (simp add: assms policy_defs)
qed

definition exampleContract :: "string \<Rightarrow> ActionSpec option \<Rightarrow> ValidationActionContract" where
  "exampleContract tier ex = \<lparr>ContractID = ''c1'', Intent = ''restart_workload'', ActionCategory = '''', ContractSummary = '''', ExecutionCategory = '''',
     ValidationCategory = '''', ActuatorSafetyTier = tier, ContractLevel = '''', TargetScope = '''',
     TargetRef = \<lparr>TargetCollector = '''', TargetRefScope = '''', TargetNamespace = '''', TargetResource = '''', TargetName = ''''\<rparr>, Preconditions = [],
     ExpectedImpact = '''', BlastRadiusEstimate = 0, BlastRadiusScope = [], BlastRadiusNotes = [], DryRunDefault = False, DryRunState = '''',
     ContractApproval = False, ReadOnly = False, ContractSafe = True,
     RollbackPart = \<lparr>RbSummary = ''undo'', RbCommand = '''', RbRequired = True, RbReversible = True\<rparr>, Execution = ex, ContractMetadata = None\<rparr>"

definition permissiveConfig :: WorkflowConfig where
  "permissiveConfig = \<lparr>WorkflowDryRun = False, AllowSafeReversibleExec = True, AllowProfilingExec = True, AllowImpactingExec = True,
     AllowRemediationExec = True, ValidationAllowExecCategories = [''*''], ActionRunnerUnsafe = True\<rparr>"

definition lockedConfig :: WorkflowConfig where
  "lockedConfig = \<lparr>WorkflowDryRun = False, AllowSafeReversibleExec = False, AllowProfilingExec = False, AllowImpactingExec = False,
     AllowRemediationExec = False, ValidationAllowExecCategories = [], ActionRunnerUnsafe = False\<rparr>"

theorem actuator_policy_witness:
  "ProposalOnly (evaluateActuatorExecutionPolicy exampleRunnerEnv permissiveConfig
     (Some (exampleContract ''read_only'' (Some (exampleAction ''k8s'' ''kubectl delete pod'')))) False)"
proof -
  have "\<not> isShellAction (ActType (exampleAction ''k8s'' ''kubectl delete pod''))" by code_simp
  then have "\<not> harmless exampleRunnerEnv (exampleAction ''k8s'' ''kubectl delete pod'')" using harmless_shell by blast
  then show ?thesis
    using actuator_policy [OF refl refl, of exampleRunnerEnv permissiveConfig "Some (exampleContract ''read_only'' (Some (exampleAction ''k8s'' ''kubectl delete pod'')))" False]
    by (simp add: exampleContract_def)
qed

section \<open>The tool behind its gate\<close>

lemma legacy_no_execution: "Execution (buildValidationActionContract E (legacyCandidate now req) cid scopes) = None"
  by (simp add: buildValidationActionContract_def legacyCandidate_def Let_def)

lemma contract_time:
  assumes "remediationContractFromRequest E unmarshal now req = Inr k" "remediationContractFromRequest E unmarshal now' req = Inr k'"
    "Execution k' \<noteq> None"
  shows "k = k'"
  using assms by (auto simp: remediationContractFromRequest_def legacy_no_execution split: sum.splits option.splits)

lemma queryValue_dry [simp]: "queryValue (req\<lparr>ReqDryRun := b\<rparr>) = queryValue req"
  by (rule ext) (simp add: queryValue_def)

lemma collector_dry: "ReqCollector (req\<lparr>ReqDryRun := b\<rparr>) = ReqCollector req"
  by simp

lemma legacy_dry [simp]: "legacyCandidate now (req\<lparr>ReqDryRun := b\<rparr>) = legacyCandidate now req"
  by (simp add: legacyCandidate_def)

lemma contract_dry [simp]:
  "remediationContractFromRequest E unmarshal now (req\<lparr>ReqDryRun := b\<rparr>) = remediationContractFromRequest E unmarshal now req"
  unfolding remediationContractFromRequest_def queryValue_dry legacy_dry collector_dry by (rule refl)

lemma contract_fails:
  "remediationContractFromRequest E unmarshal now req = Inl e \<Longrightarrow> remediationContractFromRequest E unmarshal now' req = Inl e"
  by (simp add: remediationContractFromRequest_def split: sum.splits option.splits)

text \<open>A run, case by case.\<close>

lemma remediationRun_cases:
  assumes "remediationRun E unmarshal now cfg w req ro = (data, err, ro')"
  obtains (undecoded) "data = None" "ro' = ro"
  | (idle) k x where "remediationContractFromRequest E unmarshal now req = Inr k" "data = Some x" "ro' = ro" "ExecutedAction x = None"
      "ReqDryRun req \<or> WorkflowDryRun cfg \<or> \<not> ExecutionEligible (evaluateActuatorExecutionPolicy E cfg (Some k) False) \<or> Execution k = None"
      "Mode x \<in> {''dry_run'', ''planned_only'', ''proposal_only''}"
  | (refused) k a x where "remediationContractFromRequest E unmarshal now req = Inr k" "Execution k = Some a" "data = Some x" "ro' = ro"
      "\<not> ReqDryRun req" "ExecutionEligible (evaluateActuatorExecutionPolicy E cfg (Some k) False)" "Mode x \<noteq> ''executed''"
  | (live) k a r res r' x where "remediationContractFromRequest E unmarshal now req = Inr k" "Execution k = Some a" "ro = Some r" "ro' = Some r'"
      "executeOne E w (cloneActionSpec a) False r = (res, r')" "data = Some x" "Mode x = ''executed'' \<longrightarrow> ResStatus res = ActionResultExecuted"
      "ActionRunnerUnsafe cfg \<or> AllowRemediationExec cfg" "\<not> ReqDryRun req" "\<not> WorkflowDryRun cfg"
      "ExecutionEligible (evaluateActuatorExecutionPolicy E cfg (Some k) False)"
proof (cases "remediationContractFromRequest E unmarshal now req")
  case (Inl e)
  then show thesis using assms by (intro undecoded) (auto simp: remediationRun_def)
next
  case (Inr k)
  let ?dry = "ReqDryRun req \<or> WorkflowDryRun cfg"
  let ?d = "evaluateActuatorExecutionPolicy E cfg (Some k) ?dry"
  let ?data = "remediationData cfg k ?d req"
  have mode: "Mode ?data = (if ?dry then ''dry_run'' else ''planned_only'')" "ExecutedAction ?data = None"
    by (simp_all add: remediationData_def Let_def)
  have el: "ProposalOnly ?d \<longleftrightarrow> \<not> ExecutionEligible (evaluateActuatorExecutionPolicy E cfg (Some k) False)"
    using decision_proposal decision_eligible_dry by metis
  note run = assms [unfolded remediationRun_def Inr sum.case Let_def]
  show thesis
  proof (cases "ProposalOnly ?d \<or> ?dry \<or> Execution k = None")
    case True
    then have "\<exists>x. data = Some x \<and> ro' = ro \<and> ExecutedAction x = None \<and> Mode x \<in> {''dry_run'', ''planned_only'', ''proposal_only''}"
      using run mode by (auto split: if_splits)
    moreover have "ReqDryRun req \<or> WorkflowDryRun cfg \<or> \<not> ExecutionEligible (evaluateActuatorExecutionPolicy E cfg (Some k) False) \<or> Execution k = None"
      using True el by auto
    ultimately show thesis using idle [OF Inr] by blast
  next
    case False
    then obtain a where a: "Execution k = Some a" by blast
    have f: "\<not> ProposalOnly ?d" "\<not> ?dry" "ExecutionEligible (evaluateActuatorExecutionPolicy E cfg (Some k) False)" using False el by blast+
    show thesis
    proof (cases "(ActionRunnerUnsafe cfg \<or> AllowRemediationExec cfg) \<and> ro \<noteq> None")
      case True
      then obtain r where r: "ro = Some r" by blast
      obtain res r' where e: "executeOne E w (cloneActionSpec a) False r = (res, r')" by (cases "executeOne E w (cloneActionSpec a) False r")
      have "\<exists>x. data = Some x \<and> ro' = Some r' \<and> (Mode x = ''executed'' \<longrightarrow> ResStatus res = ActionResultExecuted)"
        using run f(1,2) True
        by (cases "OperatorHandoff res") (auto simp: a r e split: if_splits bool.splits)
      then show thesis using live [OF Inr a r _ e] True f by blast
    next
      case refuse: False
      then have "\<exists>x. data = Some x \<and> ro' = ro \<and> Mode x \<noteq> ''executed''"
        using run f(1,2) by (auto simp: a split: if_splits option.splits)
      then show thesis using refused [OF Inr a] f by blast
    qed
  qed
qed

lemma remediationRun_idle:
  assumes "remediationRun E unmarshal now cfg w req ro = (data, err, ro')"
    "\<And>k. remediationContractFromRequest E unmarshal now req = Inr k \<Longrightarrow>
       ReqDryRun req \<or> Execution k = None \<or> \<not> ExecutionEligible (evaluateActuatorExecutionPolicy E cfg (Some k) False)"
  shows "ro' = ro \<and> (\<forall>x. data = Some x \<longrightarrow> ExecutedAction x = None \<and> Mode x \<in> {''dry_run'', ''planned_only'', ''proposal_only''})"
  using assms(1)
proof (cases rule: remediationRun_cases)
  case (refused k a x)
  then show ?thesis using assms(2) [OF refused(1)] by simp
next
  case (live k a r res r' x)
  then show ?thesis using assms(2) [OF live(1)] by simp
qed auto

lemma gate_live:
  assumes "toolGate (policyEvaluate E unmarshal now cfg remediationDescriptor True req) req = Proceed req'" "\<not> ReqDryRun req'"
    "remediationContractFromRequest E unmarshal now req = Inr k"
  shows "req' = req \<and> \<not> ExecutionEligible (evaluateActuatorExecutionPolicy E cfg (Some k) False)"
proof -
  let ?d = "policyEvaluate E unmarshal now cfg remediationDescriptor True req"
  have r: "req' = req" "\<not> ReqDryRun req" "\<not> NeedsApproval ?d" "PolicyStatus ?d \<noteq> ''blocked''"
    using assms(1,2) by (auto simp: toolGate_def split: if_splits)
  have "\<not> ExecutionEligible (evaluateActuatorExecutionPolicy E cfg (Some k) False)"
  proof
    assume "ExecutionEligible (evaluateActuatorExecutionPolicy E cfg (Some k) False)"
    then have "PolicyStatus (evaluateActuatorExecutionPolicy E cfg (Some k) False) = ''allowed''" by (simp add: decision_status)
    then have "PolicyStatus ?d = ''blocked'' \<or> NeedsApproval ?d"
      using r(2) assms(3) by (simp add: policyEvaluate_def Let_def remediationDescriptor_def)
    with r show False by simp
  qed
  with r show ?thesis by simp
qed

lemma executed_clone:
  assumes "executeOne E w (cloneActionSpec a) force r = (res, r')" "ResStatus res = ActionResultExecuted"
  shows "harmless E a \<and> \<not> RequiresApproval a"
proof -
  have "harmless E (normalizeAction (cloneActionSpec a)) \<and> \<not> RequiresApproval (normalizeAction (cloneActionSpec a))"
    using executeOne_status [OF assms(1) refl refl] assms(2) by (simp add: permitted_def)
  moreover have "sliceOf (Args (cloneActionSpec a)) = sliceOf (Args a)" by (simp add: cloneActionSpec_def sliceOf_def split: option.splits)
  ultimately show ?thesis unfolding harmless_normalize by (simp add: harmless_def normalizeAction_def cloneActionSpec_def)
qed

text \<open>C36. The remediation tool proposes and never acts.  Whatever the configuration, the contract and the time, a request
  that passes the policy engine and the gate of the tool manager leaves the runner untouched: its result
  is a dry run, a plan or a proposal, without an executed action.  Called without the gate the tool
  runs an action only if it is harmless, its contract is eligible, execution is enabled and nothing asks for a dry run.\<close>

theorem remediation_tool_proposes:
  assumes "remediationRun E unmarshal now' cfg w req' ro = (data, err, ro')"
  shows "(toolGate (policyEvaluate E unmarshal now cfg remediationDescriptor True req) req = Proceed req' \<longrightarrow>
      ro' = ro \<and> (\<forall>x. data = Some x \<longrightarrow> ExecutedAction x = None \<and> Mode x \<in> {''dry_run'', ''planned_only'', ''proposal_only''}))
    \<and> (\<forall>x. data = Some x \<and> Mode x = ''executed'' \<longrightarrow> (\<exists>k a. remediationContractFromRequest E unmarshal now' req' = Inr k \<and> Execution k = Some a
         \<and> harmless E a \<and> \<not> RequiresApproval a \<and> ExecutionEligible (evaluateActuatorExecutionPolicy E cfg (Some k) False)
         \<and> (ActionRunnerUnsafe cfg \<or> AllowRemediationExec cfg) \<and> \<not> ReqDryRun req' \<and> \<not> WorkflowDryRun cfg))"
proof (intro conjI impI allI)
  assume gate: "toolGate (policyEvaluate E unmarshal now cfg remediationDescriptor True req) req = Proceed req'"
  have req: "remediationContractFromRequest E unmarshal t req' = remediationContractFromRequest E unmarshal t req" for t
    using gate by (auto simp: toolGate_def split: if_splits)
  have "ReqDryRun req' \<or> Execution k = None \<or> \<not> ExecutionEligible (evaluateActuatorExecutionPolicy E cfg (Some k) False)"
    if k: "remediationContractFromRequest E unmarshal now' req' = Inr k" for k
  proof (cases "remediationContractFromRequest E unmarshal now req")
    case (Inl e)
    then show ?thesis using k req contract_fails by (metis Inl_Inr_False)
  next
    case (Inr k0)
    then show ?thesis using gate_live [OF gate _ Inr] contract_time [OF Inr] k by (metis req)
  qed
  from remediationRun_idle [OF assms this]
  show "ro' = ro" "\<And>x. data = Some x \<Longrightarrow> ExecutedAction x = None" "\<And>x. data = Some x \<Longrightarrow> Mode x \<in> {''dry_run'', ''planned_only'', ''proposal_only''}" by blast+
next
  fix x assume x: "data = Some x \<and> Mode x = ''executed''"
  from assms show "\<exists>k a. remediationContractFromRequest E unmarshal now' req' = Inr k \<and> Execution k = Some a
         \<and> harmless E a \<and> \<not> RequiresApproval a \<and> ExecutionEligible (evaluateActuatorExecutionPolicy E cfg (Some k) False)
         \<and> (ActionRunnerUnsafe cfg \<or> AllowRemediationExec cfg) \<and> \<not> ReqDryRun req' \<and> \<not> WorkflowDryRun cfg"
  proof (cases rule: remediationRun_cases)
    case undecoded
    then show ?thesis using x by simp
  next
    case (idle k y)
    then have "Mode y = ''executed''" using x by simp
    with idle(6) show ?thesis by simp
  next
    case (refused k a y)
    then show ?thesis using x by simp
  next
    case (live k a r res r' y)
    have "ResStatus res = ActionResultExecuted" using live(6,7) x by simp
    from executed_clone [OF live(5) this] live(1,2,8-11) show ?thesis by blast
  qed
qed

lemma gate_dry:
  assumes "ReqDryRun req" "remediationContractFromRequest E unmarshal now req = Inr k" "trimSpace (queryValue req ''rollback'') \<noteq> ''''"
  shows "toolGate (policyEvaluate E unmarshal now cfg remediationDescriptor True req) req = Proceed req"
  using assms decision_status [of E cfg "Some k" True]
  by (auto simp: toolGate_def policyEvaluate_def Let_def remediationDescriptor_def split: if_splits)

definition exampleRequest :: ToolRequest where
  "exampleRequest = \<lparr>ReqCollector = ''node-1'', ReqQuery = [''action'' \<mapsto> ''restart web'', ''rollback'' \<mapsto> ''undo''], ReqDryRun = True\<rparr>"

theorem remediation_tool_proposes_witness:
  "toolGate (policyEvaluate exampleRunnerEnv (\<lambda>_. None) 1 permissiveConfig remediationDescriptor True exampleRequest) exampleRequest = Proceed exampleRequest
   \<and> snd (snd (remediationRun exampleRunnerEnv (\<lambda>_. None) 2 permissiveConfig (exampleWorld 0) exampleRequest (Some exampleRunner))) = Some exampleRunner"
proof -
  have q: "queryValue exampleRequest ''action_contract'' = ''''" "queryValue exampleRequest ''rollback'' = ''undo''"
    by (simp_all add: queryValue_def exampleRequest_def)
  have t: "trimSpace ''undo'' \<noteq> ''''" by code_simp
  have "\<exists>k. remediationContractFromRequest exampleRunnerEnv (\<lambda>_. None) 1 exampleRequest = Inr k"
    by (simp add: remediationContractFromRequest_def decodeValidationActionContract_def q)
  then obtain k where k: "remediationContractFromRequest exampleRunnerEnv (\<lambda>_. None) 1 exampleRequest = Inr k" by blast
  have gate: "toolGate (policyEvaluate exampleRunnerEnv (\<lambda>_. None) 1 permissiveConfig remediationDescriptor True exampleRequest) exampleRequest = Proceed exampleRequest"
    by (rule gate_dry [OF _ k]) (simp add: exampleRequest_def, simp add: q t)
  let ?run = "remediationRun exampleRunnerEnv (\<lambda>_. None) 2 permissiveConfig (exampleWorld 0) exampleRequest (Some exampleRunner)"
  have "?run = (fst ?run, fst (snd ?run), snd (snd ?run))" by simp
  from remediation_tool_proposes [OF this, of 1 exampleRequest] gate show ?thesis by blast
qed

section \<open>Behaviours to know of\<close>

text \<open>The label of a contract without an action is taken as it is: a contract whose text says \<^verbatim>\<open>delete\<close> is eligible as
  read-only.\<close>

lemma label_overrides_text:
  "ExecutionEligible (evaluateActuatorExecutionPolicy E lockedConfig (Some (exampleContract ''read_only'' None\<lparr>Intent := ''delete database''\<rparr>)) False)"
proof -
  have "normalizeActuatorSafetyTier (firstNonEmpty [''read_only'', contractMetadataValue None ''actuator_safety_tier'']) = ''read_only''" by code_simp
  then show ?thesis by (simp add: decision_eligible actuatorSafetyTierForContract_def exampleContract_def Let_def)
qed

text \<open>A contract without an execution category counts as read-only validation, which is always allowed: a
  safe-reversible contract is then eligible although every switch is off.\<close>

lemma blank_category_is_allowed:
  "ExecutionEligible (evaluateActuatorExecutionPolicy E lockedConfig (Some (exampleContract ''safe_reversible'' None)) False)"
proof -
  have "normalizeActuatorSafetyTier (firstNonEmpty [''safe_reversible'', contractMetadataValue None ''actuator_safety_tier'']) = ''safe_reversible''"
    "validationExecutionAllowed lockedConfig (normalizeValidationCategory (firstNonEmpty ['''', '''']))" by code_simp+
  then show ?thesis
    by (simp add: decision_eligible actuatorSafetyTierForContract_def contractExecutionCategory_def exampleContract_def Let_def safeReversibleExecutionAllowed_def)
qed

end
