(* ===== verification/PendingActions.thy ===== *)
theory PendingActions
  imports ActionProps "HOL-Library.AList" "HOL-Library.Multiset"
begin

text \<open>
  Proposed actions that wait for their execution (\<^verbatim>\<open>controller/agentcore/agent.go\<close>): a query caches its proposals with an
  expiry and, where needed, an approval token; a later request executes one of them by its identifier.

  The table of pending actions is an association list, \<open>order\<close> the order in which a Go map is iterated, \<open>tokens\<close> the
  source of random tokens.  Statistics and events are left out.
\<close>

section \<open>Data\<close>

record pendingAction =
  PendQuery :: string
  PendAction :: ActionSpec
  PendCreatedAt :: int
  PendExpiresAt :: int
  PendApproval :: bool
  PendToken :: string

record QueryService =
  SvcDryRun :: bool
  RequireApprovalToken :: bool
  PendingActionTTL :: int
  MaxPendingActions :: int
  pending :: "(string \<times> pendingAction) list"
  srunner :: PlaybookRunner

record ExecuteRequest =
  ExecActionID :: string
  ExecDryRun :: "bool option"
  ExecToken :: string

datatype svcErr = ErrActionIDRequired | ErrActionNotFound | ErrActionExpired | ErrApprovalRequired | ErrApprovalInvalid

section \<open>Proposals\<close>

definition mergeActions :: "RunnerEnv \<Rightarrow> ActionSpec list \<Rightarrow> ActionSpec list \<Rightarrow> string \<Rightarrow> ActionSpec list" where
  "mergeActions E primary secondary queryID =
     map (\<lambda>(i, a). (normalizeAction a)\<lparr>ActID := queryID @ ''-a'' @ formatNat (i + 1)\<rparr>) (enumerate 0 (dedupeActionSpecs E (primary @ secondary)))"

definition actionApprovalRequired :: "ActionSpec \<Rightarrow> QueryService \<Rightarrow> bool" where
  "actionApprovalRequired a s = (if RequiresApproval a then True else if \<not> Safe a then True else RequireApprovalToken s \<and> \<not> SvcDryRun s)"

definition prunePendingLocked :: "int \<Rightarrow> QueryService \<Rightarrow> QueryService" where
  "prunePendingLocked now s = s\<lparr>pending := filter (\<lambda>(k, e). \<not> now > PendExpiresAt e) (pending s)\<rparr>"

definition prunePendingOverflowLocked :: "(string list \<Rightarrow> string list) \<Rightarrow> QueryService \<Rightarrow> QueryService" where
  "prunePendingOverflowLocked order s =
     (if MaxPendingActions s \<le> 0 \<or> int (length (pending s)) \<le> MaxPendingActions s then s
      else let items = sort_key (\<lambda>k. PendCreatedAt (the (map_of (pending s) k))) (order (map fst (pending s)));
               dropped = set (take (length items - nat (MaxPendingActions s)) items)
        in s\<lparr>pending := filter (\<lambda>(k, e). k \<notin> dropped) (pending s)\<rparr>)"

text \<open>One action of the loop: its token, if it needs one, and its entry.\<close>

definition pendingFor :: "string \<Rightarrow> string \<Rightarrow> int \<Rightarrow> int \<Rightarrow> QueryService \<Rightarrow> ActionSpec \<Rightarrow> ActionSpec \<times> pendingAction" where
  "pendingFor token queryID now expiresAt s raw =
     (let action = normalizeAction raw; required = actionApprovalRequired action s; token = (if required then token else '''');
          action = action\<lparr>ApprovalRequired := required, ApprovalToken := token, ActExpiresAt := expiresAt\<rparr>
      in (action, \<lparr>PendQuery = queryID, PendAction = action, PendCreatedAt = now, PendExpiresAt = expiresAt, PendApproval = required, PendToken = token\<rparr>))"

fun cacheLoop :: "(nat \<Rightarrow> string) \<Rightarrow> nat \<Rightarrow> string \<Rightarrow> int \<Rightarrow> int \<Rightarrow> ActionSpec list \<Rightarrow> QueryService \<Rightarrow> ActionSpec list \<times> QueryService" where
  "cacheLoop tokens n queryID now expiresAt [] s = ([], s)"
| "cacheLoop tokens n queryID now expiresAt (raw # raws) s =
     (case pendingFor (tokens n) queryID now expiresAt s raw of (action, entry) \<Rightarrow>
       (case cacheLoop tokens (n + 1) queryID now expiresAt raws (s\<lparr>pending := AList.update (ActID action) entry (pending s)\<rparr>) of
         (out, s) \<Rightarrow> (action # out, s)))"

definition cachePending :: "(string list \<Rightarrow> string list) \<Rightarrow> (nat \<Rightarrow> string) \<Rightarrow> int \<Rightarrow> string \<Rightarrow> ActionSpec list \<Rightarrow> QueryService
    \<Rightarrow> (ActionSpec list \<times> int) \<times> QueryService" where
  "cachePending order tokens now queryID actions s =
     (if actions = [] then (([], 0), s)
      else let expiresAt = (if PendingActionTTL s \<le> 0 then now + 30 * 60 * 10 ^ 9 else now + PendingActionTTL s) in
        case cacheLoop tokens 0 queryID now expiresAt actions (prunePendingLocked now s) of
          (out, s) \<Rightarrow> ((out, expiresAt), prunePendingOverflowLocked order s))"

section \<open>Execution\<close>

definition dropPending :: "string \<Rightarrow> QueryService \<Rightarrow> QueryService" where
  "dropPending k s = s\<lparr>pending := AList.delete k (pending s)\<rparr>"

definition loadPending :: "int \<Rightarrow> string \<Rightarrow> QueryService \<Rightarrow> (svcErr + pendingAction option) \<times> QueryService" where
  "loadPending now k s = (case map_of (pending s) k of
     Some e \<Rightarrow> if now > PendExpiresAt e then (Inl ErrActionExpired, prunePendingLocked now (dropPending k s)) else (Inr (Some e), prunePendingLocked now s)
   | None \<Rightarrow> (Inr None, prunePendingLocked now s))"

definition validateApprovalToken :: "string \<Rightarrow> pendingAction \<Rightarrow> bool \<Rightarrow> svcErr + bool" where
  "validateApprovalToken token entry effectiveDryRun =
     (if effectiveDryRun then Inr False
      else if \<not> PendApproval entry then Inr False
      else if trimSpace token = '''' then Inl ErrApprovalRequired
      else if trimSpace token \<noteq> PendToken entry then Inl ErrApprovalInvalid
      else Inr True)"

definition svcExecute :: "RunnerEnv \<Rightarrow> CallWorld \<Rightarrow> int \<Rightarrow> ExecuteRequest \<Rightarrow> QueryService \<Rightarrow> (svcErr + (ActionSpec \<times> RunnerResult)) \<times> QueryService" where
  "svcExecute E w now req s = (let k = trimSpace (ExecActionID req) in
     if k = '''' then (Inl ErrActionIDRequired, s)
     else case loadPending now k s of
       (Inl e, s) \<Rightarrow> (Inl e, s)
     | (Inr None, s) \<Rightarrow> (Inl ErrActionNotFound, s)
     | (Inr (Some entry), s) \<Rightarrow>
         let forceDryRun = (ExecDryRun req = Some True); effectiveDryRun = (forceDryRun \<or> SvcDryRun s) in
         (case validateApprovalToken (ExecToken req) entry effectiveDryRun of
            Inl e \<Rightarrow> (Inl e, s)
          | Inr approved \<Rightarrow>
              let action = PendAction entry;
                  action = (if approved \<or> effectiveDryRun then action\<lparr>RequiresApproval := False\<rparr> else action) in
              (case executeOne E w action forceDryRun (srunner s) of
                (res, r) \<Rightarrow> (Inr (action, res), dropPending k (s\<lparr>srunner := r\<rparr>)))))"

end
