(* ===== verification/PendingProps.thy ===== *)
theory PendingProps
  imports PendingActions
begin

text \<open>
  Properties of the pending actions of the query service, for every order of queries and executions.
\<close>

section \<open>Reachable services\<close>

text \<open>The locked sections of the service, in any order; the runner changes at any moment.  The service is made with a
  runner of its own dry-run mode, which no reload of the playbooks changes.\<close>

inductive svcStep :: "(string list \<Rightarrow> string list) \<Rightarrow> QueryService \<Rightarrow> QueryService \<Rightarrow> bool" for order where
  cached: "svcStep order s (snd (cachePending order tokens now queryID actions s))"
| loaded: "svcStep order s (snd (loadPending now k s))"
| deleted: "svcStep order s (dropPending k s)"
| ran: "DryRun (rcfg r) = DryRun (rcfg (srunner s)) \<Longrightarrow> svcStep order s (s\<lparr>srunner := r\<rparr>)"

inductive svcReach :: "(string list \<Rightarrow> string list) \<Rightarrow> QueryService \<Rightarrow> bool" for order where
  start: "\<lbrakk>pending s = []; DryRun (rcfg (srunner s)) = SvcDryRun s\<rbrakk> \<Longrightarrow> svcReach order s"
| step: "\<lbrakk>svcReach order s; svcStep order s s'\<rbrakk> \<Longrightarrow> svcReach order s'"

definition entryOK :: "QueryService \<Rightarrow> string \<Rightarrow> pendingAction \<Rightarrow> bool" where
  "entryOK s k e \<longleftrightarrow> ActID (PendAction e) = k
     \<and> (PendApproval e \<longleftrightarrow> RequiresApproval (PendAction e) \<or> \<not> Safe (PendAction e) \<or> RequireApprovalToken s \<and> \<not> SvcDryRun s)"

definition pendingOK :: "QueryService \<Rightarrow> bool" where
  "pendingOK s \<longleftrightarrow> distinct (map fst (pending s)) \<and> (\<forall>k e. map_of (pending s) k = Some e \<longrightarrow> entryOK s k e)"

definition withinLimit :: "QueryService \<Rightarrow> bool" where
  "withinLimit s \<longleftrightarrow> (0 < MaxPendingActions s \<longrightarrow> int (length (pending s)) \<le> MaxPendingActions s)"

lemma map_of_filter_keys:
  assumes "distinct (map fst xs)"
  shows "map_of (filter P xs) k = (case map_of xs k of None \<Rightarrow> None | Some v \<Rightarrow> if P (k, v) then Some v else None)"
  using assms by (induction xs) (auto split: option.splits, (metis domI domIff map_of_eq_None_iff fst_conv image_iff)+)

lemma pendingOK_filter:
  assumes "pendingOK s"
  shows "pendingOK (s\<lparr>pending := filter P (pending s)\<rparr>)"
proof -
  have d: "distinct (map fst (pending s))" using assms by (simp add: pendingOK_def)
  have "distinct (map fst (filter P (pending s)))" using d by (rule distinct_map_filter)
  moreover have "entryOK (s\<lparr>pending := filter P (pending s)\<rparr>) k e" if "map_of (filter P (pending s)) k = Some e" for k e
    using assms that map_of_filter_keys [OF d] by (auto simp: pendingOK_def entryOK_def split: option.splits if_splits)
  ultimately show ?thesis by (simp add: pendingOK_def)
qed

lemma withinLimit_filter: "withinLimit s \<Longrightarrow> withinLimit (s\<lparr>pending := filter P (pending s)\<rparr>)"
proof -
  assume "withinLimit s"
  moreover have "int (length (filter P (pending s))) \<le> int (length (pending s))" by simp
  ultimately show ?thesis by (auto simp: withinLimit_def simp del: length_filter_le of_nat_le_iff)
qed

lemma delete_filter: "dropPending k s = s\<lparr>pending := filter (\<lambda>(k', e). k \<noteq> k') (pending s)\<rparr>"
  by (simp add: dropPending_def AList.delete_eq)

lemma pending_fields [simp]:
  "MaxPendingActions (prunePendingLocked now s) = MaxPendingActions s" "SvcDryRun (prunePendingLocked now s) = SvcDryRun s"
  "RequireApprovalToken (prunePendingLocked now s) = RequireApprovalToken s" "srunner (prunePendingLocked now s) = srunner s"
  "SvcDryRun (dropPending k s) = SvcDryRun s" "srunner (dropPending k s) = srunner s"
  by (simp_all add: prunePendingLocked_def dropPending_def)

lemma pendingFor_ok: "pendingFor token q now ex s raw = (action, entry) \<Longrightarrow> entryOK s (ActID action) entry"
  by (auto simp: pendingFor_def Let_def entryOK_def actionApprovalRequired_def normalizeAction_def)

lemma pendingOK_update:
  assumes "pendingOK s" "entryOK s k e"
  shows "pendingOK (s\<lparr>pending := AList.update k e (pending s)\<rparr>)"
  using assms by (auto simp: pendingOK_def entryOK_def distinct_update update_conv' split: if_splits)

lemma cacheLoop_ok:
  assumes "pendingOK s" "cacheLoop tokens n q now ex raws s = (out, s')"
  shows "pendingOK s' \<and> MaxPendingActions s' = MaxPendingActions s"
  using assms
proof (induction raws arbitrary: n s out)
  case (Cons raw raws)
  obtain action entry where p: "pendingFor (tokens n) q now ex s raw = (action, entry)" by (cases "pendingFor (tokens n) q now ex s raw")
  let ?s = "s\<lparr>pending := AList.update (ActID action) entry (pending s)\<rparr>"
  obtain out' where l: "cacheLoop tokens (n + 1) q now ex raws ?s = (out', s')" using Cons.prems(2) p by (auto split: prod.splits)
  have "pendingOK ?s" by (rule pendingOK_update [OF Cons.prems(1) pendingFor_ok [OF p]])
  from Cons.IH [OF this l] show ?case by simp
qed simp

lemma filter_not_taken:
  assumes "distinct xs"
  shows "filter (\<lambda>k. k \<notin> set (take n xs)) xs = drop n xs"
proof -
  let ?P = "\<lambda>k. k \<notin> set (take n xs)"
  have "filter ?P xs = filter ?P (take n xs) @ filter ?P (drop n xs)" by (metis append_take_drop_id filter_append)
  moreover have "filter ?P (take n xs) = []" by (simp add: filter_empty_conv)
  moreover have "filter ?P (drop n xs) = drop n xs"
    using set_take_disj_set_drop_if_distinct [OF assms order_refl, of n] by (intro filter_True) blast
  ultimately show ?thesis by simp
qed

lemma overflow_ok:
  assumes "pendingOK s" "\<And>ks. mset (order ks) = mset ks"
  shows "pendingOK (prunePendingOverflowLocked order s) \<and> withinLimit (prunePendingOverflowLocked order s)"
proof (cases "MaxPendingActions s \<le> 0 \<or> int (length (pending s)) \<le> MaxPendingActions s")
  case True
  then show ?thesis using assms(1) by (auto simp: prunePendingOverflowLocked_def withinLimit_def)
next
  case False
  let ?keys = "map fst (pending s)"
  define items where "items = sort_key (\<lambda>k. PendCreatedAt (the (map_of (pending s) k))) (order ?keys)"
  let ?n = "length items - nat (MaxPendingActions s)"
  have ms: "mset items = mset ?keys" by (simp add: items_def assms(2))
  then have len: "length items = length (pending s)" by (metis length_map size_mset)
  have di: "distinct items" using ms assms(1) by (metis mset_eq_imp_distinct_iff pendingOK_def)
  let ?s = "s\<lparr>pending := filter (\<lambda>(k, e). k \<notin> set (take ?n items)) (pending s)\<rparr>"
  have eq: "prunePendingOverflowLocked order s = ?s" using False by (simp add: prunePendingOverflowLocked_def Let_def items_def)
  have "length (pending ?s) = length (filter (\<lambda>k. k \<notin> set (take ?n items)) ?keys)"
    by (simp add: filter_map o_def case_prod_unfold)
  also have "\<dots> = length (filter (\<lambda>k. k \<notin> set (take ?n items)) items)"
    using ms by (metis mset_filter size_mset)
  also have "filter (\<lambda>k. k \<notin> set (take ?n items)) items = drop ?n items" by (rule filter_not_taken [OF di])
  finally have "length (pending ?s) = length items - ?n" by simp
  also have "\<dots> = nat (MaxPendingActions s)" using False len by (intro diff_diff_cancel) (simp add: nat_le_iff)
  finally have "int (length (pending ?s)) \<le> MaxPendingActions s" using False by simp
  then show ?thesis unfolding eq using pendingOK_filter [OF assms(1)] by (simp add: withinLimit_def)
qed

lemma cachePending_ok:
  assumes "pendingOK s" "withinLimit s" "\<And>ks. mset (order ks) = mset ks"
  shows "pendingOK (snd (cachePending order tokens now q acts s)) \<and> withinLimit (snd (cachePending order tokens now q acts s))"
proof (cases "acts = []")
  case False
  let ?ex = "if PendingActionTTL s \<le> 0 then now + 30 * 60 * 10 ^ 9 else now + PendingActionTTL s"
  obtain out s' where l: "cacheLoop tokens 0 q now ?ex acts (prunePendingLocked now s) = (out, s')"
    by (cases "cacheLoop tokens 0 q now ?ex acts (prunePendingLocked now s)")
  have "pendingOK (prunePendingLocked now s)" unfolding prunePendingLocked_def by (rule pendingOK_filter [OF assms(1)])
  then have "pendingOK s'" using cacheLoop_ok l by blast
  from overflow_ok [OF this assms(3)] show ?thesis using False l by (simp add: cachePending_def Let_def)
qed (use assms in \<open>simp add: cachePending_def\<close>)

lemma filtered_ok:
  assumes "pendingOK s \<and> withinLimit s"
  shows "pendingOK (prunePendingLocked now s) \<and> withinLimit (prunePendingLocked now s)" "pendingOK (dropPending k s) \<and> withinLimit (dropPending k s)"
  unfolding prunePendingLocked_def delete_filter using assms by (auto intro: pendingOK_filter withinLimit_filter)

lemma svcReach_ok:
  assumes "svcReach order s" "\<And>ks. mset (order ks) = mset ks"
  shows "pendingOK s \<and> withinLimit s"
  using assms(1)
proof (induction rule: svcReach.induct)
  case (start s)
  then show ?case by (simp add: pendingOK_def withinLimit_def)
next
  case (step s s')
  from step.hyps(2) show ?case
  proof (cases rule: svcStep.cases)
    case (cached tokens now q acts)
    then show ?thesis using cachePending_ok assms(2) step.IH by simp
  next
    case (loaded now k)
    then show ?thesis using filtered_ok step.IH by (simp add: loadPending_def split: option.splits)
  next
    case (deleted k)
    then show ?thesis using filtered_ok step.IH by simp
  next
    case (ran r)
    then show ?thesis using step.IH by (simp add: pendingOK_def withinLimit_def entryOK_def)
  qed
qed

section \<open>Approval\<close>

lemma cacheLoop_same:
  "SvcDryRun (snd (cacheLoop tokens n q now ex raws s)) = SvcDryRun s \<and> srunner (snd (cacheLoop tokens n q now ex raws s)) = srunner s"
proof (induction raws arbitrary: n s)
  case (Cons raw raws)
  then show ?case by (simp add: case_prod_beta)
qed simp

lemma cachePending_same:
  "SvcDryRun (snd (cachePending order tokens now q acts s)) = SvcDryRun s \<and> srunner (snd (cachePending order tokens now q acts s)) = srunner s"
  using cacheLoop_same by (simp add: cachePending_def Let_def case_prod_beta prunePendingOverflowLocked_def)

lemma svcReach_dry: "svcReach order s \<Longrightarrow> DryRun (rcfg (srunner s)) = SvcDryRun s"
proof (induction rule: svcReach.induct)
  case (step s s')
  from step.hyps(2) show ?case
  proof (cases rule: svcStep.cases)
    case (cached tokens now q acts)
    then show ?thesis using step.IH cachePending_same by simp
  next
    case (loaded now k)
    then show ?thesis using step.IH by (simp add: loadPending_def split: option.splits)
  qed (use step.IH in simp_all)
qed

lemma loadPending_some:
  assumes "loadPending now k s = (Inr (Some e), s')"
  shows "map_of (pending s) k = Some e \<and> now \<le> PendExpiresAt e \<and> s' = prunePendingLocked now s"
  using assms by (auto simp: loadPending_def split: option.splits if_splits)

lemma svcExecute_result:
  assumes "svcExecute E w now req s = (Inr (action, res), s')"
  obtains e approved r where "map_of (pending s) (trimSpace (ExecActionID req)) = Some e" "now \<le> PendExpiresAt e"
    "validateApprovalToken (ExecToken req) e (ExecDryRun req = Some True \<or> SvcDryRun s) = Inr approved"
    "action = (if approved \<or> ExecDryRun req = Some True \<or> SvcDryRun s then (PendAction e)\<lparr>RequiresApproval := False\<rparr> else PendAction e)"
    "executeOne E w action (ExecDryRun req = Some True) (srunner s) = (res, r)"
    "s' = dropPending (trimSpace (ExecActionID req)) ((prunePendingLocked now s)\<lparr>srunner := r\<rparr>)"
proof -
  let ?k = "trimSpace (ExecActionID req)" and ?f = "ExecDryRun req = Some True"
  from assms obtain e s1 where l: "loadPending now ?k s = (Inr (Some e), s1)"
    by (auto simp: svcExecute_def Let_def split: if_splits prod.splits sum.splits option.splits)
  note load = loadPending_some [OF l]
  from assms l load obtain approved where v: "validateApprovalToken (ExecToken req) e (?f \<or> SvcDryRun s) = Inr approved"
    by (auto simp: svcExecute_def Let_def split: if_splits sum.splits)
  let ?a = "if approved \<or> ?f \<or> SvcDryRun s then (PendAction e)\<lparr>RequiresApproval := False\<rparr> else PendAction e"
  obtain res' r where x: "executeOne E w ?a ?f (srunner s) = (res', r)" by (cases "executeOne E w ?a ?f (srunner s)")
  have k: "?k \<noteq> ''''" using assms by (auto simp: svcExecute_def)
  have "svcExecute E w now req s = (Inr (?a, res'), dropPending ?k ((prunePendingLocked now s)\<lparr>srunner := r\<rparr>))"
    unfolding svcExecute_def Let_def l using k load v x by (simp del: not_None_eq split del: if_split)
  with assms load v x that show thesis by simp
qed

text \<open>C37. Nothing runs without its approval.  In every reachable state of the service a request executes an action only if
  the action was proposed and has not expired, neither the service nor the request is in dry-run mode, the
  harness lets it through, and, where the action asks for approval, is not marked as safe or the service demands
  it, the request carries exactly the token of that proposal.  The proposal is used up, and no more proposals
  wait than configured.\<close>

theorem approval_enforced:
  assumes "svcReach order s" "\<And>ks. mset (order ks) = mset ks" "svcExecute E w now req s = (Inr (action, res), s')"
    "ResStatus res = ActionResultExecuted" "k = trimSpace (ExecActionID req)"
  shows "(\<exists>e. map_of (pending s) k = Some e \<and> now \<le> PendExpiresAt e \<and> harmless E (PendAction e)
      \<and> (RequiresApproval (PendAction e) \<or> \<not> Safe (PendAction e) \<or> RequireApprovalToken s \<longrightarrow>
           PendToken e = trimSpace (ExecToken req) \<and> PendToken e \<noteq> ''''))
    \<and> \<not> SvcDryRun s \<and> ExecDryRun req \<noteq> Some True \<and> map_of (pending s') k = None
    \<and> (0 < MaxPendingActions s \<longrightarrow> int (length (pending s')) \<le> MaxPendingActions s)"
proof -
  have ok: "pendingOK s \<and> withinLimit s" by (rule svcReach_ok [OF assms(1,2)])
  obtain e approved r where x: "map_of (pending s) k = Some e" "now \<le> PendExpiresAt e"
    "validateApprovalToken (ExecToken req) e (ExecDryRun req = Some True \<or> SvcDryRun s) = Inr approved"
    "action = (if approved \<or> ExecDryRun req = Some True \<or> SvcDryRun s then (PendAction e)\<lparr>RequiresApproval := False\<rparr> else PendAction e)"
    "executeOne E w action (ExecDryRun req = Some True) (srunner s) = (res, r)"
    "s' = dropPending k ((prunePendingLocked now s)\<lparr>srunner := r\<rparr>)"
    using assms(3) unfolding assms(5) by (rule svcExecute_result)
  have status: "harmless E (normalizeAction action)" "ExecDryRun req \<noteq> Some True" "\<not> DryRun (rcfg (srunner s))" "\<not> RequiresApproval action"
    using executeOne_status [OF x(5) refl refl] assms(4) by (auto simp: permitted_def normalizeAction_def)
  have harm: "harmless E (PendAction e)" using status(1) x(4) unfolding harmless_normalize by (auto simp: harmless_def split: if_splits)
  have entry: "entryOK s k e" using ok x(1) by (simp add: pendingOK_def)
  have gone: "map_of (pending s') k = None" by (simp add: x(6) dropPending_def delete_conv')
  have "withinLimit ((prunePendingLocked now s)\<lparr>srunner := r\<rparr>)" "pendingOK ((prunePendingLocked now s)\<lparr>srunner := r\<rparr>)"
    using filtered_ok(1) [OF ok] by (simp_all add: withinLimit_def pendingOK_def entryOK_def)
  then have "withinLimit s'" using filtered_ok(2) x(6) by blast
  moreover have "MaxPendingActions s' = MaxPendingActions s" by (simp add: x(6) dropPending_def)
  ultimately have limit: "0 < MaxPendingActions s \<longrightarrow> int (length (pending s')) \<le> MaxPendingActions s" by (simp add: withinLimit_def)
  have live: "\<not> SvcDryRun s" using status(3) svcReach_dry [OF assms(1)] by simp
  have "PendToken e = trimSpace (ExecToken req) \<and> PendToken e \<noteq> ''''" if "RequiresApproval (PendAction e) \<or> \<not> Safe (PendAction e) \<or> RequireApprovalToken s"
  proof -
    have "PendApproval e" using entry that live by (auto simp: entryOK_def)
    then show ?thesis using x(3) live status(2) by (auto simp: validateApprovalToken_def split: if_splits)
  qed
  with x(1,2) harm live status(2) gone limit show ?thesis by blast
qed

definition exampleService :: QueryService where
  "exampleService = \<lparr>SvcDryRun = False, RequireApprovalToken = True, PendingActionTTL = 100, MaxPendingActions = 1, pending = [], srunner = exampleRunner\<rparr>"

definition exampleProposals :: QueryService where
  "exampleProposals = snd (cachePending (\<lambda>ks. ks) (\<lambda>n. ''appr-1'') 10 ''q1'' [exampleAction ''shell'' ''echo'']  exampleService)"

definition exampleExecute :: ExecuteRequest where
  "exampleExecute = \<lparr>ExecActionID = ''a1'', ExecDryRun = None, ExecToken = '' appr-1''\<rparr>"

theorem approval_enforced_witness:
  "\<exists>action res s'. svcExecute exampleRunnerEnv (exampleWorld 20) 20 exampleExecute exampleProposals = (Inr (action, res), s')
     \<and> ResStatus res = ActionResultExecuted \<and> map_of (pending s') ''a1'' = None"
proof -
  let ?x = "svcExecute exampleRunnerEnv (exampleWorld 20) 20 exampleExecute exampleProposals"
  have "svcReach (\<lambda>ks. ks) exampleService" by (rule svcReach.start) (simp_all add: exampleService_def exampleRunner_def defaultRunnerConfig_def)
  then have r: "svcReach (\<lambda>ks. ks) exampleProposals" unfolding exampleProposals_def by (rule svcReach.step) (rule cached)
  have "case fst ?x of Inl e \<Rightarrow> False | Inr (action, res) \<Rightarrow> ResStatus res = ActionResultExecuted" by code_simp
  then obtain action res where "fst ?x = Inr (action, res)" "ResStatus res = ActionResultExecuted" by (auto split: sum.splits)
  then have x: "?x = (Inr (action, res), snd ?x)" "ResStatus res = ActionResultExecuted" by (simp_all add: prod_eq_iff)
  have "trimSpace (ExecActionID exampleExecute) = ''a1''" by code_simp
  from approval_enforced [OF r refl x this [symmetric]] x show ?thesis by blast
qed

section \<open>Behaviours to know of\<close>

text \<open>The token is part of the proposal that the caller receives: whoever asked can approve.\<close>

lemma token_in_answer:
  assumes "pendingFor token q now ex s raw = (action, entry)"
  shows "ApprovalToken action = PendToken entry"
  using assms by (auto simp: pendingFor_def Let_def)

text \<open>The proposals of a query have identifiers of their own.\<close>

lemma mergeActions_ids: "i < length (mergeActions E p q queryID) \<Longrightarrow> ActID (mergeActions E p q queryID ! i) = queryID @ ''-a'' @ formatNat (i + 1)"
  by (simp add: mergeActions_def nth_enumerate_eq)

end
