(* ===== verification/HACoord.thy ===== *)
theory HACoord
  imports Telemetry "HOL-Library.Sublist"
begin

text \<open>
  High availability of the controller (\<^verbatim>\<open>controller/ha_coordination.go\<close>, \<^verbatim>\<open>ha.go\<close>): the static coordinator, and the election of a
  leader among several controllers over a key in etcd that is bound to a lease.

  The loop of a controller is a state machine whose steps are the calls to etcd with their answers.  Of etcd the model has
  what its documentation promises: a transaction is atomic, a lease that is revoked or expires takes the key
  bound to it along.  Everything else, errors and delays included, is left to the environment.
\<close>

section \<open>Data\<close>

datatype HARole = HARoleStandalone | HARoleLeader | HARoleFollower | HARoleStandby

record HAState =
  HAEnabled :: bool
  HABackend :: string
  HAMode :: string
  HARole :: HARole
  HAActive :: bool
  HAReadOnly :: bool
  HANodeID :: string
  LeaderID :: string
  LeaderHTTP :: string
  LeaderGRPC :: string
  HALeaseExpiresAt :: int
  LastTransitionAt :: int
  TransitionCount :: "64 word"
  HALastError :: string
  AllowFollowerRead :: bool

record HAConfig =
  CfgEnabled :: bool
  CfgBackend :: string
  CfgMode :: string
  CfgNodeID :: string
  AdvertiseHTTP :: string
  AdvertiseGRPC :: string
  EtcdEndpoints :: "string list"
  ElectionKey :: string
  LeaseTTL :: int
  ObserveInterval :: int
  CampaignTimeout :: int
  CfgFollowerRead :: bool

record haLeaderRecord =
  RecNodeID :: string
  RecHTTP :: string
  RecGRPC :: string
  ElectedAt :: int

definition defaultHAConfig :: HAConfig where
  "defaultHAConfig = \<lparr>CfgEnabled = False, CfgBackend = ''static'', CfgMode = ''active'', CfgNodeID = '''', AdvertiseHTTP = '''', AdvertiseGRPC = '''',
     EtcdEndpoints = [], ElectionKey = ''/ai-sre-agent/controller/leader'', LeaseTTL = 15 * 10 ^ 9, ObserveInterval = 3 * 10 ^ 9,
     CampaignTimeout = 5 * 10 ^ 9, CfgFollowerRead = True\<rparr>"

definition normalizeHAMode :: "string \<Rightarrow> string" where
  "normalizeHAMode mode = (if toLower (trimSpace mode) = ''standby'' then ''standby'' else ''active'')"

definition normalizeHABackend :: "string \<Rightarrow> string" where
  "normalizeHABackend backend = (if toLower (trimSpace backend) = ''etcd'' then ''etcd'' else ''static'')"

definition cleanHAEndpoints :: "string list \<Rightarrow> string list" where
  "cleanHAEndpoints vs = filter (\<lambda>v. v \<noteq> '''') (map trimSpace vs)"

definition emptyHAState :: HAState where
  "emptyHAState = \<lparr>HAEnabled = False, HABackend = '''', HAMode = '''', HARole = HARoleStandalone, HAActive = False, HAReadOnly = False, HANodeID = '''',
     LeaderID = '''', LeaderHTTP = '''', LeaderGRPC = '''', HALeaseExpiresAt = 0, LastTransitionAt = 0, TransitionCount = 0, HALastError = '''',
     AllowFollowerRead = False\<rparr>"

section \<open>The static coordinator\<close>

definition newStaticHACoordinator :: "HAConfig \<Rightarrow> int \<Rightarrow> HAState" where
  "newStaticHACoordinator cfg now =
     (let mode = normalizeHAMode (CfgMode cfg);
          st = emptyHAState\<lparr>HAEnabled := CfgEnabled cfg, HABackend := ''static'', HAMode := mode, HANodeID := trimSpace (CfgNodeID cfg),
            AllowFollowerRead := CfgFollowerRead cfg, LastTransitionAt := now\<rparr>
      in if \<not> CfgEnabled cfg then st\<lparr>HARole := HARoleStandalone, HAActive := True\<rparr>
         else if mode = ''standby'' then st\<lparr>HARole := HARoleStandby, HAReadOnly := True\<rparr>
         else st\<lparr>HARole := HARoleLeader, HAActive := True, LeaderID := HANodeID st\<rparr>)"

section \<open>The etcd coordinator\<close>

definition haDefaults :: "HAConfig \<Rightarrow> int \<Rightarrow> HAConfig" where
  "haDefaults cfg unixNano = cfg\<lparr>
     ElectionKey := (if trimSpace (ElectionKey cfg) = '''' then ElectionKey defaultHAConfig else ElectionKey cfg),
     LeaseTTL := (if LeaseTTL cfg \<le> 0 then LeaseTTL defaultHAConfig else LeaseTTL cfg),
     ObserveInterval := (if ObserveInterval cfg \<le> 0 then ObserveInterval defaultHAConfig else ObserveInterval cfg),
     CampaignTimeout := (if CampaignTimeout cfg \<le> 0 then CampaignTimeout defaultHAConfig else CampaignTimeout cfg),
     CfgNodeID := (if trimSpace (CfgNodeID cfg) = '''' then ''controller-'' @ formatInt unixNano else CfgNodeID cfg)\<rparr>"

definition newEtcdHACoordinator :: "HAConfig \<Rightarrow> int \<Rightarrow> int \<Rightarrow> goerr + (HAConfig \<times> HAState)" where
  "newEtcdHACoordinator cfg unixNano now =
     (if cleanHAEndpoints (EtcdEndpoints cfg) = [] then Inl (Plain ''ha backend etcd requires etcd_endpoints'')
      else let cfg = haDefaults cfg unixNano in
        Inr (cfg, emptyHAState\<lparr>HAEnabled := True, HABackend := ''etcd'', HAMode := normalizeHAMode (CfgMode cfg), HARole := HARoleFollower,
          HAReadOnly := True, HANodeID := CfgNodeID cfg, AllowFollowerRead := CfgFollowerRead cfg, LastTransitionAt := now\<rparr>))"

definition newHACoordinator :: "HAConfig \<Rightarrow> int \<Rightarrow> int \<Rightarrow> goerr + (HAConfig \<times> HAState)" where
  "newHACoordinator cfg unixNano now =
     (if \<not> CfgEnabled cfg \<or> normalizeHABackend (CfgBackend cfg) = ''static'' then Inr (cfg, newStaticHACoordinator cfg now)
      else if normalizeHABackend (CfgBackend cfg) = ''etcd'' then newEtcdHACoordinator cfg unixNano now
      else Inr (cfg, newStaticHACoordinator cfg now))"

definition publishState :: "int \<Rightarrow> HAState \<Rightarrow> HAState \<Rightarrow> HAState" where
  "publishState now next current =
     (let changedRole = (HARole current \<noteq> HARole next \<or> HAActive current \<noteq> HAActive next \<or> LeaderID current \<noteq> LeaderID next);
          next = (if LastTransitionAt next = 0 then next\<lparr>LastTransitionAt := LastTransitionAt current\<rparr> else next);
          next = (if LastTransitionAt next = 0 then next\<lparr>LastTransitionAt := now\<rparr> else next)
      in if changedRole then next\<lparr>TransitionCount := TransitionCount current + 1, LastTransitionAt := now\<rparr>
         else if TransitionCount next = 0 then next\<lparr>TransitionCount := TransitionCount current\<rparr>
         else next)"

definition failoverState :: "int \<Rightarrow> string \<Rightarrow> HAState \<Rightarrow> HAState" where
  "failoverState now err st = publishState now (st\<lparr>HAActive := False, HAReadOnly := True, HARole := HARoleFollower, HALastError := trimSpace err,
     HALeaseExpiresAt := 0\<rparr>) st"

definition recordFor :: "HAConfig \<Rightarrow> int \<Rightarrow> haLeaderRecord" where
  "recordFor cfg now = \<lparr>RecNodeID = CfgNodeID cfg, RecHTTP = trimSpace (AdvertiseHTTP cfg), RecGRPC = trimSpace (AdvertiseGRPC cfg), ElectedAt = now\<rparr>"

text \<open>What a lost campaign, a won campaign and a renewed lease publish.\<close>

definition followerState :: "HAConfig \<Rightarrow> haLeaderRecord \<Rightarrow> HAState" where
  "followerState cfg leader = emptyHAState\<lparr>HAEnabled := True, HABackend := ''etcd'', HAMode := normalizeHAMode (CfgMode cfg), HARole := HARoleFollower,
     HAReadOnly := True, HANodeID := CfgNodeID cfg, LeaderID := RecNodeID leader, LeaderHTTP := RecHTTP leader, LeaderGRPC := RecGRPC leader,
     AllowFollowerRead := CfgFollowerRead cfg\<rparr>"

definition leaderState :: "HAConfig \<Rightarrow> haLeaderRecord \<Rightarrow> int \<Rightarrow> HAState" where
  "leaderState cfg leader now = emptyHAState\<lparr>HAEnabled := True, HABackend := ''etcd'', HAMode := normalizeHAMode (CfgMode cfg), HARole := HARoleLeader,
     HAActive := True, HANodeID := CfgNodeID cfg, LeaderID := RecNodeID leader, LeaderHTTP := RecHTTP leader, LeaderGRPC := RecGRPC leader,
     HALeaseExpiresAt := now + LeaseTTL cfg, AllowFollowerRead := CfgFollowerRead cfg\<rparr>"

definition renewedState :: "haLeaderRecord \<Rightarrow> int \<Rightarrow> int \<Rightarrow> HAState \<Rightarrow> HAState" where
  "renewedState leader now ttlSeconds st = st\<lparr>HAActive := True, HARole := HARoleLeader, HAReadOnly := False, LeaderID := RecNodeID leader,
     LeaderHTTP := RecHTTP leader, LeaderGRPC := RecGRPC leader, HALeaseExpiresAt := now + ttlSeconds * 10 ^ 9, HALastError := ''''\<rparr>"

section \<open>Controllers and etcd\<close>

text \<open>Where the loop of a controller stands: before a campaign, with a granted lease, after the transaction it won,
  holding the leadership, waiting for a change, or after its context has ended.\<close>

datatype phase = Idle | Granted nat | Won nat haLeaderRecord | Holding nat haLeaderRecord | Watching | Stopped

record node =
  ncfg :: HAConfig
  nstate :: HAState
  nphase :: phase

text \<open>The value of the election key with the lease it is bound to, the leases that are alive, and the next lease.\<close>

record etcd =
  electionKey :: "(nat \<times> haLeaderRecord) option"
  leases :: "nat set"
  nextLease :: nat

definition dropLease :: "nat \<Rightarrow> etcd \<Rightarrow> etcd" where
  "dropLease l e = e\<lparr>leases := leases e - {l}, electionKey := (case electionKey e of None \<Rightarrow> None
     | Some (l', rec) \<Rightarrow> if l' = l then None else Some (l', rec))\<rparr>"

text \<open>\<^verbatim>\<open>Revoke\<close> is called with its error ignored: the lease is gone or not.\<close>

definition revoke :: "bool \<Rightarrow> nat \<Rightarrow> etcd \<Rightarrow> etcd" where
  "revoke works l e = (if works then dropLease l e else e)"

definition putKey :: "nat \<Rightarrow> haLeaderRecord \<Rightarrow> etcd \<Rightarrow> etcd" where
  "putKey l rec e = e\<lparr>electionKey := Some (l, rec)\<rparr>"

text \<open>One step of one controller.\<close>

inductive haStep :: "etcd \<Rightarrow> node \<Rightarrow> etcd \<Rightarrow> node \<Rightarrow> bool" where
  failed: "nphase n \<in> {Idle, Watching} \<Longrightarrow> haStep e n e (n\<lparr>nstate := failoverState now err (nstate n), nphase := Idle\<rparr>)"
| granted: "nphase n = Idle
    \<Longrightarrow> haStep e n (e\<lparr>leases := insert (nextLease e) (leases e), nextLease := nextLease e + 1\<rparr>) (n\<lparr>nphase := Granted (nextLease e)\<rparr>)"
| txn_error: "\<lbrakk>nphase n = Granted l; e' = (if applied \<and> electionKey e = None \<and> l \<in> leases e then putKey l (recordFor (ncfg n) t) e else e)\<rbrakk>
    \<Longrightarrow> haStep e n (revoke works l e') (n\<lparr>nstate := failoverState now err (nstate n), nphase := Idle\<rparr>)"
| txn_won: "\<lbrakk>nphase n = Granted l; electionKey e = None; l \<in> leases e; rec = recordFor (ncfg n) t\<rbrakk>
    \<Longrightarrow> haStep e n (putKey l rec e) (n\<lparr>nphase := Won l rec\<rparr>)"
| txn_lost: "\<lbrakk>nphase n = Granted l; electionKey e = Some (l', rec)\<rbrakk>
    \<Longrightarrow> haStep e n (revoke works l e) (n\<lparr>nstate := publishState now (followerState (ncfg n) rec) (nstate n), nphase := Watching\<rparr>)"
| no_keepalive: "nphase n = Won l rec
    \<Longrightarrow> haStep e n (revoke works l e) (n\<lparr>nstate := failoverState now err (nstate n), nphase := Idle\<rparr>)"
| leads: "nphase n = Won l rec
    \<Longrightarrow> haStep e n e (n\<lparr>nstate := publishState now (leaderState (ncfg n) rec t) (nstate n), nphase := Holding l rec\<rparr>)"
| renewed: "nphase n = Holding l rec
    \<Longrightarrow> haStep e n e (n\<lparr>nstate := publishState now (renewedState rec t ttl (nstate n)) (nstate n)\<rparr>)"
| lost: "nphase n = Holding l rec \<Longrightarrow> haStep e n e (n\<lparr>nstate := failoverState now err (nstate n), nphase := Idle\<rparr>)"
| changed: "nphase n = Watching \<Longrightarrow> haStep e n e (n\<lparr>nphase := Idle\<rparr>)"
| stopped: "nphase n \<noteq> Stopped
    \<Longrightarrow> haStep e n (case nphase n of Holding l rec \<Rightarrow> revoke works l e | Won l rec \<Rightarrow> revoke works l e | Granted l \<Rightarrow> revoke works l e | _ \<Rightarrow> e) (n\<lparr>nphase := Stopped\<rparr>)"

section \<open>Guard for writes\<close>

text \<open>The state of a controller with the state of its coordinator, if it has one.\<close>

definition haState :: "HAConfig \<Rightarrow> HAState option \<Rightarrow> HAState" where
  "haState cfg coordinator = (case coordinator of Some st \<Rightarrow> st
   | None \<Rightarrow>
       let mode = normalizeHAMode (CfgMode cfg);
           st = emptyHAState\<lparr>HAEnabled := CfgEnabled cfg, HABackend := normalizeHABackend (CfgBackend cfg), HAMode := mode, HANodeID := trimSpace (CfgNodeID cfg),
             AllowFollowerRead := CfgFollowerRead cfg\<rparr>
       in if \<not> CfgEnabled cfg then st\<lparr>HARole := HARoleStandalone, HAActive := True\<rparr>
          else if mode = ''standby'' then st\<lparr>HARole := HARoleStandby, HAActive := False, HAReadOnly := True\<rparr>
          else st\<lparr>HARole := HARoleLeader, HAActive := True\<rparr>)"

definition isStandby :: "HAConfig \<Rightarrow> HAState option \<Rightarrow> bool" where
  "isStandby cfg coordinator = HAReadOnly (haState cfg coordinator)"

definition isActiveController :: "HAConfig \<Rightarrow> HAState option \<Rightarrow> bool" where
  "isActiveController cfg coordinator = HAActive (haState cfg coordinator)"

definition activeControllerWriteError :: "string \<Rightarrow> HAState \<Rightarrow> string option" where
  "activeControllerWriteError surface st = (if HAActive st then None
     else let surface = trimSpace surface; low = toLower surface;
              msg = (if surface = '''' then ''controller is not the active leader for write-sensitive operations''
                else ''controller is not the active leader for '' @ surface)
       in Some (if sublist ''grpc'' low \<and> trimSpace (LeaderGRPC st) \<noteq> '''' then msg @ ''; retry against active controller gRPC endpoint '' @ trimSpace (LeaderGRPC st)
         else if sublist ''http'' low \<and> trimSpace (LeaderHTTP st) \<noteq> '''' then msg @ ''; retry against active controller HTTP endpoint '' @ trimSpace (LeaderHTTP st)
         else msg))"

end
