(* ===== verification/HAProps.thy ===== *)
theory HAProps
  imports HACoord
begin

text \<open>
  Leadership among several controllers: at most one of them holds the election key, and only that one is active with a
  lease that is alive.
\<close>

section \<open>The cluster\<close>

record cluster =
  store :: etcd
  nodesOf :: "nat \<Rightarrow> node"

text \<open>Steps of the controllers interleave with the expiry of leases in etcd.\<close>

inductive clusterStep :: "cluster \<Rightarrow> cluster \<Rightarrow> bool" where
  move: "haStep (store c) (nodesOf c i) e n \<Longrightarrow> clusterStep c (c\<lparr>store := e, nodesOf := (nodesOf c)(i := n)\<rparr>)"
| expire: "clusterStep c (c\<lparr>store := dropLease l (store c)\<rparr>)"

definition initialNode :: "node \<Rightarrow> bool" where
  "initialNode n \<longleftrightarrow> nphase n = Idle \<and> (\<exists>cfg nano now. newEtcdHACoordinator cfg nano now = Inr (ncfg n, nstate n))"

inductive clusterReach :: "cluster \<Rightarrow> bool" where
  start: "\<forall>i. initialNode (ns i) \<Longrightarrow> clusterReach \<lparr>store = \<lparr>electionKey = None, leases = {}, nextLease = 0\<rparr>, nodesOf = ns\<rparr>"
| step: "\<lbrakk>clusterReach c; clusterStep c c'\<rbrakk> \<Longrightarrow> clusterReach c'"

fun leaseOf :: "phase \<Rightarrow> nat option" where
  "leaseOf (Granted l) = Some l"
| "leaseOf (Won l rec) = Some l"
| "leaseOf (Holding l rec) = Some l"
| "leaseOf _ = None"

text \<open>What a controller reports fits its phase.\<close>

definition statusOK :: "node \<Rightarrow> bool" where
  "statusOK n \<longleftrightarrow> (HAReadOnly (nstate n) \<longleftrightarrow> \<not> HAActive (nstate n))
     \<and> (HARole (nstate n) = (if HAActive (nstate n) then HARoleLeader else HARoleFollower))
     \<and> (HAActive (nstate n) \<longrightarrow> LeaderID (nstate n) = CfgNodeID (ncfg n))
     \<and> (nphase n \<noteq> Stopped \<longrightarrow> (HAActive (nstate n) \<longleftrightarrow> (\<exists>l rec. nphase n = Holding l rec)))
     \<and> (\<forall>l rec. nphase n = Won l rec \<or> nphase n = Holding l rec \<longrightarrow> RecNodeID rec = CfgNodeID (ncfg n))"

lemmas ha_state_defs = publishState_def failoverState_def followerState_def leaderState_def renewedState_def emptyHAState_def Let_def

lemma publish_fields [simp]:
  "HAActive (publishState now next current) = HAActive next" "HARole (publishState now next current) = HARole next"
  "HAReadOnly (publishState now next current) = HAReadOnly next" "LeaderID (publishState now next current) = LeaderID next"
  "LeaderGRPC (publishState now next current) = LeaderGRPC next" "LeaderHTTP (publishState now next current) = LeaderHTTP next"
  by (simp_all add: publishState_def Let_def)

lemma failover_fields [simp]:
  "\<not> HAActive (failoverState now err st)" "HARole (failoverState now err st) = HARoleFollower" "HAReadOnly (failoverState now err st)"
  by (simp_all add: failoverState_def)

lemma haStep_status:
  assumes "haStep e n e' n'" "statusOK n"
  shows "statusOK n'"
  using assms by (cases rule: haStep.cases)
    (auto simp: statusOK_def followerState_def leaderState_def renewedState_def emptyHAState_def recordFor_def)

lemma initial_status: "initialNode n \<Longrightarrow> statusOK n"
  by (cases n) (auto simp: initialNode_def statusOK_def newEtcdHACoordinator_def emptyHAState_def Let_def split: if_splits)

section \<open>Leases\<close>

fun winOf :: "phase \<Rightarrow> (nat \<times> haLeaderRecord) option" where
  "winOf (Won l rec) = Some (l, rec)"
| "winOf (Holding l rec) = Some (l, rec)"
| "winOf _ = None"

lemma winOf_lease: "winOf p = Some (l, rec) \<Longrightarrow> leaseOf p = Some l"
  by (cases p) auto

text \<open>Leases are numbered in the order in which they are granted; a controller that holds a lease is the only one, and the
  winner of a campaign whose lease is alive owns the key.\<close>

definition etcdInv :: "etcd \<Rightarrow> bool" where
  "etcdInv e \<longleftrightarrow> (\<forall>l \<in> leases e. l < nextLease e) \<and> (\<forall>l rec. electionKey e = Some (l, rec) \<longrightarrow> l \<in> leases e)"

definition leaseInv :: "etcd \<Rightarrow> (nat \<Rightarrow> phase) \<Rightarrow> bool" where
  "leaseInv e ph \<longleftrightarrow> (\<forall>i l. leaseOf (ph i) = Some l \<longrightarrow> l < nextLease e) \<and> (\<forall>i j l. leaseOf (ph i) = Some l \<longrightarrow> leaseOf (ph j) = Some l \<longrightarrow> i = j)"

definition keyInv :: "etcd \<Rightarrow> (nat \<Rightarrow> phase) \<Rightarrow> bool" where
  "keyInv e ph \<longleftrightarrow> (\<forall>i l rec. winOf (ph i) = Some (l, rec) \<longrightarrow> l \<in> leases e \<longrightarrow> electionKey e = Some (l, rec))"

definition phaseInv :: "etcd \<Rightarrow> (nat \<Rightarrow> phase) \<Rightarrow> bool" where
  "phaseInv e ph \<longleftrightarrow> etcdInv e \<and> leaseInv e ph \<and> keyInv e ph"

lemma inv_release:
  assumes "phaseInv e ph" "leaseOf p = None"
  shows "phaseInv e (ph(i := p))"
proof -
  have "winOf p = None" using assms(2) by (cases p) auto
  then show ?thesis using assms by (auto simp: phaseInv_def leaseInv_def keyInv_def)
qed

lemma inv_drop: "phaseInv e ph \<Longrightarrow> phaseInv (dropLease l e) ph"
  by (auto simp: phaseInv_def etcdInv_def leaseInv_def keyInv_def dropLease_def split: option.splits)

lemma inv_revoke: "phaseInv e ph \<Longrightarrow> phaseInv (revoke works l e) ph"
  using inv_drop by (simp add: revoke_def)

lemma inv_granted:
  assumes "phaseInv e ph"
  shows "phaseInv (e\<lparr>leases := insert (nextLease e) (leases e), nextLease := nextLease e + 1\<rparr>) (ph(i := Granted (nextLease e)))"
proof -
  have lt: "leaseOf (ph j) = Some l \<Longrightarrow> l < nextLease e" for j l using assms by (auto simp: phaseInv_def leaseInv_def)
  have "etcdInv (e\<lparr>leases := insert (nextLease e) (leases e), nextLease := nextLease e + 1\<rparr>)"
    using assms by (auto simp: phaseInv_def etcdInv_def less_Suc_eq)
  moreover have "leaseInv (e\<lparr>leases := insert (nextLease e) (leases e), nextLease := nextLease e + 1\<rparr>) (ph(i := Granted (nextLease e)))"
    using assms lt by (fastforce simp: phaseInv_def leaseInv_def less_Suc_eq)
  moreover have "keyInv (e\<lparr>leases := insert (nextLease e) (leases e), nextLease := nextLease e + 1\<rparr>) (ph(i := Granted (nextLease e)))"
    using assms lt winOf_lease by (fastforce simp: phaseInv_def keyInv_def)
  ultimately show ?thesis by (simp add: phaseInv_def)
qed

lemma inv_same_lease:
  assumes "leaseInv e ph" "leaseOf p = leaseOf (ph i)"
  shows "leaseInv e (ph(i := p))"
proof -
  have "leaseOf ((ph(i := p)) j) = leaseOf (ph j)" for j using assms(2) by simp
  with assms(1) show ?thesis unfolding leaseInv_def by simp
qed

lemma leaseInv_put: "leaseInv (putKey l rec e) ph = leaseInv e ph"
  by (simp add: leaseInv_def putKey_def)

lemma inv_put:
  assumes "phaseInv e ph" "leaseOf (ph i) = Some l" "electionKey e = None" "l \<in> leases e"
  shows "phaseInv (putKey l rec e) (ph(i := Won l rec))"
proof -
  have "leaseInv e (ph(i := Won l rec))" using assms(1,2) by (intro inv_same_lease) (simp_all add: phaseInv_def)
  moreover have "keyInv (putKey l rec e) (ph(i := Won l rec))"
    unfolding keyInv_def
  proof (intro allI impI)
    fix j l' rec' assume w: "winOf ((ph(i := Won l rec)) j) = Some (l', rec')" "l' \<in> leases (putKey l rec e)"
    have "j = i"
    proof (rule ccontr)
      assume "j \<noteq> i"
      then have "winOf (ph j) = Some (l', rec')" "l' \<in> leases e" using w by (simp_all add: putKey_def)
      then have "electionKey e = Some (l', rec')" using assms(1) unfolding phaseInv_def keyInv_def by blast
      with assms(3) show False by simp
    qed
    with w(1) show "electionKey (putKey l rec e) = Some (l', rec')" by (simp add: putKey_def)
  qed
  moreover have "etcdInv (putKey l rec e)" using assms(1,4) by (simp add: phaseInv_def etcdInv_def putKey_def)
  ultimately show ?thesis by (simp add: phaseInv_def leaseInv_put)
qed

lemma inv_keep:
  assumes "phaseInv e ph" "winOf (ph i) = Some (l, rec)"
  shows "phaseInv e (ph(i := Holding l rec))"
proof -
  have "leaseOf (ph i) = Some l" using assms(2) by (rule winOf_lease)
  then have "leaseInv e (ph(i := Holding l rec))" using assms(1) by (intro inv_same_lease) (simp_all add: phaseInv_def)
  moreover have "keyInv e (ph(i := Holding l rec))" using assms by (auto simp: phaseInv_def keyInv_def)
  ultimately show ?thesis using assms(1) by (simp add: phaseInv_def)
qed

lemma haStep_inv:
  assumes "haStep e n e' n'" "phaseInv e ph" "ph i = nphase n"
  shows "phaseInv e' (ph(i := nphase n'))"
  using assms(1)
proof (cases rule: haStep.cases)
  case granted
  then show ?thesis using inv_granted [OF assms(2)] by simp
next
  case (txn_error l e1 applied t works now err)
  show ?thesis
  proof (cases "applied \<and> electionKey e = None \<and> l \<in> leases e")
    case True
    then have "phaseInv (putKey l (recordFor (ncfg n) t) e) (ph(i := Won l (recordFor (ncfg n) t)))"
      using txn_error assms(3) by (intro inv_put [OF assms(2)]) simp_all
    from inv_revoke [OF inv_release [OF this, of Idle i]] show ?thesis using True txn_error by simp
  next
    case False
    have "e1 = e" unfolding txn_error(4) by (rule if_not_P [OF False])
    then show ?thesis using txn_error(1,2) inv_revoke [OF inv_release [OF assms(2), of Idle i]] by simp
  qed
next
  case (txn_won l rec t)
  then show ?thesis using inv_put [OF assms(2)] assms(3) by simp
next
  case (leads l rec now t)
  then show ?thesis using inv_keep [OF assms(2), of i l rec] assms(3) by simp
next
  case (renewed l rec now t ttl)
  then show ?thesis using inv_keep [OF assms(2), of i l rec] assms(3) by simp
next
  case (stopped works)
  have "phaseInv e (ph(i := Stopped))" by (rule inv_release [OF assms(2)]) simp
  then show ?thesis using stopped inv_revoke by (auto split: phase.splits)
qed (use inv_release [OF assms(2), of _ i] inv_revoke [OF inv_release [OF assms(2), of _ i]] in simp_all)

definition clusterInv :: "cluster \<Rightarrow> bool" where
  "clusterInv c \<longleftrightarrow> (\<forall>i. statusOK (nodesOf c i)) \<and> phaseInv (store c) (\<lambda>i. nphase (nodesOf c i))"

lemma move_inv:
  assumes "haStep (store c) (nodesOf c i) e n" "clusterInv c"
  shows "clusterInv (c\<lparr>store := e, nodesOf := (nodesOf c)(i := n)\<rparr>)"
proof -
  have "statusOK n" using assms haStep_status by (auto simp: clusterInv_def)
  moreover have "phaseInv e ((\<lambda>j. nphase (nodesOf c j))(i := nphase n))"
    using assms by (intro haStep_inv [OF assms(1)]) (simp_all add: clusterInv_def)
  moreover have "(\<lambda>j. nphase (nodesOf c j))(i := nphase n) = (\<lambda>j. nphase (((nodesOf c)(i := n)) j))" by auto
  ultimately show ?thesis using assms(2) by (simp add: clusterInv_def)
qed

lemma cluster_inv: "clusterReach c \<Longrightarrow> clusterInv c"
proof (induction rule: clusterReach.induct)
  case (start ns)
  then have "\<forall>i. nphase (ns i) = Idle" "\<forall>i. statusOK (ns i)" using initial_status by (auto simp: initialNode_def)
  then show ?case by (simp add: clusterInv_def phaseInv_def etcdInv_def leaseInv_def keyInv_def)
next
  case (step c c')
  from step.hyps(2) show ?case
  proof (cases rule: clusterStep.cases)
    case (move i e n)
    then show ?thesis using move_inv step.IH by blast
  next
    case (expire l)
    then show ?thesis using inv_drop step.IH by (simp add: clusterInv_def)
  qed
qed

lemma holding_owns:
  assumes "clusterInv c" "nphase (nodesOf c i) = Holding l rec" "l \<in> leases (store c)"
  shows "electionKey (store c) = Some (l, rec)"
proof -
  have "winOf (nphase (nodesOf c i)) = Some (l, rec)" using assms(2) by simp
  then show ?thesis using assms(1,3) unfolding clusterInv_def phaseInv_def keyInv_def by blast
qed

lemma holding_unique:
  assumes "clusterInv c" "nphase (nodesOf c i) = Holding l rec" "l \<in> leases (store c)" "nphase (nodesOf c j) = Holding l' rec'" "l' \<in> leases (store c)"
  shows "i = j"
proof -
  have "l = l'" using holding_owns [OF assms(1,2,3)] holding_owns [OF assms(1,4,5)] by simp
  then have "leaseOf (nphase (nodesOf c i)) = Some l" "leaseOf (nphase (nodesOf c j)) = Some l" using assms by simp_all
  then show ?thesis using assms(1) unfolding clusterInv_def phaseInv_def leaseInv_def by blast
qed

lemma holding_record: "statusOK n \<Longrightarrow> nphase n = Holding l rec \<Longrightarrow> RecNodeID rec = CfgNodeID (ncfg n)"
  by (simp add: statusOK_def)

text \<open>C38. One leader.  Whatever fails, in every reachable state of any number of controllers at most one controller holds the
  leadership with a lease that is alive, and it is the one that the election key names; a controller that has not
  been stopped is active exactly while it holds the leadership, then reports itself as the leader, and
  otherwise is a read-only follower that refuses every write.\<close>

theorem single_leader:
  assumes "clusterReach c"
  shows "(\<forall>i j l rec l' rec'. nphase (nodesOf c i) = Holding l rec \<and> l \<in> leases (store c) \<and> nphase (nodesOf c j) = Holding l' rec' \<and> l' \<in> leases (store c) \<longrightarrow> i = j)
    \<and> (\<forall>i l rec. nphase (nodesOf c i) = Holding l rec \<and> l \<in> leases (store c) \<longrightarrow>
         electionKey (store c) = Some (l, rec) \<and> RecNodeID rec = CfgNodeID (ncfg (nodesOf c i)))
    \<and> (\<forall>i. nphase (nodesOf c i) \<noteq> Stopped \<longrightarrow> (HAActive (nstate (nodesOf c i)) \<longleftrightarrow> (\<exists>l rec. nphase (nodesOf c i) = Holding l rec)))
    \<and> (\<forall>i. if HAActive (nstate (nodesOf c i))
         then HARole (nstate (nodesOf c i)) = HARoleLeader \<and> LeaderID (nstate (nodesOf c i)) = CfgNodeID (ncfg (nodesOf c i))
         else HARole (nstate (nodesOf c i)) = HARoleFollower \<and> HAReadOnly (nstate (nodesOf c i))
           \<and> (\<forall>surface. activeControllerWriteError surface (nstate (nodesOf c i)) \<noteq> None))"
proof (intro conjI)
  have inv: "clusterInv c" by (rule cluster_inv [OF assms])
  have ok: "statusOK (nodesOf c i)" for i using inv by (simp add: clusterInv_def)
  show "\<forall>i j l rec l' rec'. nphase (nodesOf c i) = Holding l rec \<and> l \<in> leases (store c) \<and> nphase (nodesOf c j) = Holding l' rec' \<and> l' \<in> leases (store c) \<longrightarrow> i = j"
    using holding_unique [OF inv] by blast
  show "\<forall>i l rec. nphase (nodesOf c i) = Holding l rec \<and> l \<in> leases (store c) \<longrightarrow>
         electionKey (store c) = Some (l, rec) \<and> RecNodeID rec = CfgNodeID (ncfg (nodesOf c i))"
    using holding_owns [OF inv] holding_record [OF ok] by blast
  show "\<forall>i. nphase (nodesOf c i) \<noteq> Stopped \<longrightarrow> (HAActive (nstate (nodesOf c i)) \<longleftrightarrow> (\<exists>l rec. nphase (nodesOf c i) = Holding l rec))"
    using ok by (simp add: statusOK_def)
  show "\<forall>i. if HAActive (nstate (nodesOf c i))
         then HARole (nstate (nodesOf c i)) = HARoleLeader \<and> LeaderID (nstate (nodesOf c i)) = CfgNodeID (ncfg (nodesOf c i))
         else HARole (nstate (nodesOf c i)) = HARoleFollower \<and> HAReadOnly (nstate (nodesOf c i))
           \<and> (\<forall>surface. activeControllerWriteError surface (nstate (nodesOf c i)) \<noteq> None)"
    using ok by (auto simp: statusOK_def activeControllerWriteError_def Let_def)
qed

section \<open>An election\<close>

definition exampleHAConfig :: "nat \<Rightarrow> HAConfig" where
  "exampleHAConfig i = defaultHAConfig\<lparr>CfgNodeID := ''node-'' @ formatNat i, EtcdEndpoints := [''etcd:2379'']\<rparr>"

definition exampleNode :: "nat \<Rightarrow> node" where
  "exampleNode i = (case newEtcdHACoordinator (exampleHAConfig i) 0 1 of Inr (cfg, st) \<Rightarrow> \<lparr>ncfg = cfg, nstate = st, nphase = Idle\<rparr>)"

lemma example_initial: "initialNode (exampleNode i)"
proof -
  have "cleanHAEndpoints [''etcd:2379''] \<noteq> []" by code_simp
  then have "\<exists>cfg st. newEtcdHACoordinator (exampleHAConfig i) 0 1 = Inr (cfg, st)"
    by (simp add: newEtcdHACoordinator_def exampleHAConfig_def Let_def)
  then obtain cfg st where n: "newEtcdHACoordinator (exampleHAConfig i) 0 1 = Inr (cfg, st)" by blast
  then have "exampleNode i = \<lparr>ncfg = cfg, nstate = st, nphase = Idle\<rparr>" by (simp add: exampleNode_def)
  with n show ?thesis unfolding initialNode_def by auto
qed

text \<open>A campaign of a controller when the key is free.\<close>

lemma campaign:
  assumes "clusterReach c" "nphase (nodesOf c i) = Idle" "electionKey (store c) = None" "l = nextLease (store c)" "rec = recordFor (ncfg (nodesOf c i)) t"
  shows "\<exists>c'. clusterReach c' \<and> nphase (nodesOf c' i) = Holding l rec \<and> store c' = (store c)\<lparr>electionKey := Some (l, rec), leases := insert l (leases (store c)), nextLease := l + 1\<rparr>
     \<and> (\<forall>j. j \<noteq> i \<longrightarrow> nodesOf c' j = nodesOf c j)"
proof -
  let ?n = "nodesOf c i" and ?e1 = "(store c)\<lparr>leases := insert l (leases (store c)), nextLease := l + 1\<rparr>"
  let ?n1 = "?n\<lparr>nphase := Granted l\<rparr>" and ?n2 = "?n\<lparr>nphase := Won l rec\<rparr>"
  let ?n3 = "?n2\<lparr>nstate := publishState t (leaderState (ncfg ?n2) rec t) (nstate ?n2), nphase := Holding l rec\<rparr>"
  let ?c1 = "c\<lparr>store := ?e1, nodesOf := (nodesOf c)(i := ?n1)\<rparr>"
  let ?c2 = "?c1\<lparr>store := putKey l rec ?e1, nodesOf := (nodesOf ?c1)(i := ?n2)\<rparr>"
  let ?c3 = "?c2\<lparr>store := putKey l rec ?e1, nodesOf := (nodesOf ?c2)(i := ?n3)\<rparr>"
  have "haStep (store c) ?n ?e1 ?n1" using granted [OF assms(2)] assms(4) by simp
  then have r1: "clusterReach ?c1" using assms(1) by (blast intro: clusterReach.step move)
  have "haStep ?e1 ?n1 (putKey l rec ?e1) (?n1\<lparr>nphase := Won l rec\<rparr>)" using assms(3,5) by (intro txn_won) simp_all
  then have "clusterStep ?c1 ?c2" using move [of ?c1 i "putKey l rec ?e1" ?n2] by simp
  with r1 have r2: "clusterReach ?c2" by (rule clusterReach.step)
  have "haStep (putKey l rec ?e1) ?n2 (putKey l rec ?e1) ?n3" by (rule leads) simp
  then have "clusterStep ?c2 ?c3" using move [of ?c2 i "putKey l rec ?e1" ?n3] by simp
  with r2 have "clusterReach ?c3" by (rule clusterReach.step)
  then show ?thesis by (intro exI [of _ ?c3]) (simp add: putKey_def)
qed

text \<open>An expired lease is noticed only when the keep-alive channel closes: until then two controllers are active, one of them
  without a lease.\<close>

lemma two_active:
  "\<exists>c. clusterReach c \<and> (\<exists>rec. nphase (nodesOf c 0) = Holding 0 rec) \<and> (\<exists>rec. nphase (nodesOf c 1) = Holding 1 rec \<and> 1 \<in> leases (store c))"
proof -
  let ?c0 = "\<lparr>store = \<lparr>electionKey = None, leases = {}, nextLease = 0\<rparr>, nodesOf = exampleNode\<rparr>"
  have idle: "nphase (exampleNode i) = Idle" for i using example_initial by (simp add: initialNode_def)
  have "clusterReach ?c0" using example_initial by (intro clusterReach.start) simp
  from campaign [OF this _ _ refl refl, of 0 5] idle obtain c1 rec where c1: "clusterReach c1" "nphase (nodesOf c1 0) = Holding 0 rec"
    "store c1 = \<lparr>electionKey = Some (0, rec), leases = {0}, nextLease = 1\<rparr>" "nodesOf c1 1 = exampleNode 1" by auto
  let ?c2 = "c1\<lparr>store := dropLease 0 (store c1)\<rparr>"
  have "clusterReach ?c2" using c1(1) by (rule clusterReach.step) (rule expire)
  from campaign [OF this _ _ refl refl, of 1 9] c1 idle obtain c3 rec' where "clusterReach c3" "nphase (nodesOf c3 1) = Holding 1 rec'"
    "1 \<in> leases (store c3)" "nodesOf c3 0 = nodesOf c1 0" by (auto simp: dropLease_def)
  with c1(2) show ?thesis by auto
qed

theorem single_leader_witness:
  "\<exists>c. clusterReach c \<and> HAActive (nstate (nodesOf c 0)) \<and> HAActive (nstate (nodesOf c 1)) \<and> 0 \<notin> leases (store c)"
proof -
  obtain c rec rec' where c: "clusterReach c" "nphase (nodesOf c 0) = Holding 0 rec" "nphase (nodesOf c 1) = Holding 1 rec'" "1 \<in> leases (store c)"
    using two_active by blast
  note leader = single_leader [OF c(1)]
  have active: "HAActive (nstate (nodesOf c i))" if "nphase (nodesOf c i) = Holding l rec" for i l rec
    using leader [THEN conjunct2, THEN conjunct2, THEN conjunct1, rule_format, of i] that by simp
  have "HAActive (nstate (nodesOf c 0))" "HAActive (nstate (nodesOf c 1))" using active c(2,3) by blast+
  moreover have "0 \<notin> leases (store c)" using leader [THEN conjunct1, rule_format, of 0 0 rec 1 1 rec'] c(2-4) by auto
  ultimately show ?thesis using c(1) by blast
qed

text \<open>A leader whose context ends gives up its lease but goes on reporting that it is the active leader.\<close>

lemma stopped_stays_active:
  assumes "haStep e n e' n'" "nphase n = Holding l rec" "nphase n' = Stopped"
  shows "nstate n' = nstate n"
  using assms by (cases rule: haStep.cases) auto

text \<open>Transitions are counted exactly: the counter moves if and only if role, activity or leader change.\<close>

lemma transition_counted:
  assumes "TransitionCount next = 0 \<or> TransitionCount next = TransitionCount current"
  shows "TransitionCount (publishState now next current) = TransitionCount current +
    (if HARole current \<noteq> HARole next \<or> HAActive current \<noteq> HAActive next \<or> LeaderID current \<noteq> LeaderID next then 1 else 0)"
  using assms by (auto simp: publishState_def Let_def)

text \<open>With the static backend a controller is active or read-only by its configuration alone.\<close>

lemma static_state:
  "HAReadOnly (newStaticHACoordinator cfg now) \<longleftrightarrow> \<not> HAActive (newStaticHACoordinator cfg now)"
  "HAActive (newStaticHACoordinator cfg now) \<longleftrightarrow> isActiveController cfg None"
  "isStandby cfg None \<longleftrightarrow> CfgEnabled cfg \<and> toLower (trimSpace (CfgMode cfg)) = ''standby''"
  by (auto simp: newStaticHACoordinator_def isActiveController_def isStandby_def haState_def emptyHAState_def Let_def normalizeHAMode_def)

end
