(* ===== verification/ControllerAuth.thy ===== *)
theory ControllerAuth
  imports Identities "HOL-Library.Sublist"
begin

text \<open>
  Authentication and authorization of the controller (\<^verbatim>\<open>controller/auth.go\<close>, \<^verbatim>\<open>http_auth.go\<close>, \<^verbatim>\<open>api_authz.go\<close>,
  \<^verbatim>\<open>ingest_auth.go\<close>, \<^verbatim>\<open>security_posture.go\<close>, \<^verbatim>\<open>deployment_posture.go\<close>): how the credentials are resolved from the
  environment, when a controller may run without them, which role a request needs and who it is from.

  \<open>getenv\<close> is \<^verbatim>\<open>os.Getenv\<close>.  \<^verbatim>\<open>net/http\<close> never hands a handler a nil request, so the tests for nil are left out.
  A message that quotes a value is a constructor with that value.
\<close>

section \<open>Configuration\<close>

record ControllerAuthConfig =
  AuthEnabled :: bool
  AllowInsecureDisable :: bool
  AuthMode :: string
  CfgTokenSecretEnv :: string
  CfgTokenIssuer :: string
  CfgTokenAudience :: string
  CfgIngestAuthEnabled :: bool
  CfgIngestTokenAudience :: string
  APIKeyEnv :: string
  ReadAPIKeyEnv :: string
  ActionAPIKeyEnv :: string

text \<open>The empty string is a mode of its own: the zero value, and what \<open>normalizeAuthMode\<close> answers for an unknown mode.\<close>

datatype ControllerAuthMode = ControllerAuthModeEmpty | ControllerAuthModeDisabled | ControllerAuthModeToken
  | ControllerAuthModeMixed | ControllerAuthModeAPIKey

datatype ControllerAPIKeyMode = ControllerAPIKeyModeEmpty | ControllerAPIKeyModeDisabled | ControllerAPIKeyModeShared
  | ControllerAPIKeyModeSplit | ControllerAPIKeyModeReadOnly

record ResolvedAuthConfig =
  ResEnabled :: bool
  AuthModeOf :: ControllerAuthMode
  APIKeyMode :: ControllerAPIKeyMode
  TokenSecret :: string
  TokenSecretEnv :: string
  TokenIssuer :: string
  TokenAudience :: string
  IngestAuthEnabled :: bool
  IngestTokenAudience :: string
  ReadKey :: string
  ActionKey :: string
  ReadKeyEnv :: string
  ActionKeyEnv :: string
  LegacyAPIKeyEnv :: string
  DeploymentMode :: string
  InsecureOverride :: bool
  LocalDevBypass :: bool

datatype auth_error =
    ErrAuthMode
  | ErrTokenSecretUnset string
  | ErrAPIKeyUnset string
  | ErrReadKeyUnset string
  | ErrActionKeyUnset string
  | ErrNoAPICredentials
  | ErrUnsupportedMode string
  | ErrAuthDisabled string

definition emptyResolved :: ResolvedAuthConfig where
  "emptyResolved = \<lparr>ResEnabled = False, AuthModeOf = ControllerAuthModeEmpty, APIKeyMode = ControllerAPIKeyModeEmpty, TokenSecret = '''', TokenSecretEnv = '''',
     TokenIssuer = '''', TokenAudience = '''', IngestAuthEnabled = False, IngestTokenAudience = '''', ReadKey = '''', ActionKey = '''', ReadKeyEnv = '''',
     ActionKeyEnv = '''', LegacyAPIKeyEnv = '''', DeploymentMode = '''', InsecureOverride = False, LocalDevBypass = False\<rparr>"

definition defaultAPIKeyEnv :: string where
  "defaultAPIKeyEnv = ''SRE_AGENT_CONTROLLER_API_KEY''"

definition defaultTokenSecretEnv :: string where
  "defaultTokenSecretEnv = ''SRE_AGENT_CONTROLLER_TOKEN_SECRET''"

definition DefaultAuthConfig :: ControllerAuthConfig where
  "DefaultAuthConfig = \<lparr>AuthEnabled = False, AllowInsecureDisable = False, AuthMode = ''token'', CfgTokenSecretEnv = defaultTokenSecretEnv,
     CfgTokenIssuer = ''ai-sre-agent-controller'', CfgTokenAudience = ''controller-api'', CfgIngestAuthEnabled = True,
     CfgIngestTokenAudience = ''controller-ingest'', APIKeyEnv = defaultAPIKeyEnv, ReadAPIKeyEnv = '''', ActionAPIKeyEnv = ''''\<rparr>"

definition normalizeAuthMode :: "string \<Rightarrow> ControllerAuthMode" where
  "normalizeAuthMode raw = (let m = toLower (trimSpace raw) in
     if m = '''' \<or> m = ''token'' then ControllerAuthModeToken
     else if m = ''mixed'' then ControllerAuthModeMixed
     else if m = ''api_key'' then ControllerAuthModeAPIKey
     else ControllerAuthModeEmpty)"

definition normalizeTokenSecretEnv :: "string \<Rightarrow> string" where
  "normalizeTokenSecretEnv raw = (if trimSpace raw \<noteq> '''' then trimSpace raw else defaultTokenSecretEnv)"

definition defaultTokenIssuer :: "string \<Rightarrow> string" where
  "defaultTokenIssuer raw = (if trimSpace raw \<noteq> '''' then trimSpace raw else ''ai-sre-agent-controller'')"

definition defaultTokenAudience :: "string \<Rightarrow> string \<Rightarrow> string" where
  "defaultTokenAudience raw fallback = (if trimSpace raw \<noteq> '''' then trimSpace raw else fallback)"

text \<open>The keys of the compatibility mode: a shared key, a read key and an action key, or only one of the two.\<close>

definition resolveSharedKey :: "(string \<Rightarrow> string) \<Rightarrow> bool \<Rightarrow> string \<Rightarrow> ResolvedAuthConfig \<Rightarrow> auth_error + ControllerAPIKeyMode \<times> ResolvedAuthConfig" where
  "resolveSharedKey getenv required sharedEnv resolved =
     (let sharedKey = trimSpace (getenv sharedEnv) in
      if sharedKey = '''' then
        (if required then Inl (ErrAPIKeyUnset sharedEnv) else Inr (ControllerAPIKeyModeDisabled, resolved))
      else Inr (ControllerAPIKeyModeShared, resolved\<lparr>ReadKey := sharedKey, ActionKey := sharedKey, ReadKeyEnv := sharedEnv, ActionKeyEnv := sharedEnv\<rparr>))"

definition resolveCompatibilityAPIKeys :: "(string \<Rightarrow> string) \<Rightarrow> ControllerAuthConfig \<Rightarrow> bool \<Rightarrow> auth_error + ControllerAPIKeyMode \<times> ResolvedAuthConfig" where
  "resolveCompatibilityAPIKeys getenv cfg required =
     (let readEnv = trimSpace (ReadAPIKeyEnv cfg);
          actionEnv = trimSpace (ActionAPIKeyEnv cfg);
          sharedEnv = (if trimSpace (APIKeyEnv cfg) = '''' then defaultAPIKeyEnv else trimSpace (APIKeyEnv cfg));
          resolved = emptyResolved\<lparr>LegacyAPIKeyEnv := sharedEnv\<rparr>
      in if readEnv = '''' \<and> actionEnv = '''' then resolveSharedKey getenv required sharedEnv resolved
         else
           let resolved = (if readEnv \<noteq> '''' then resolved\<lparr>ReadKeyEnv := readEnv, ReadKey := trimSpace (getenv readEnv)\<rparr> else resolved) in
           if readEnv \<noteq> '''' \<and> ReadKey resolved = '''' then Inl (ErrReadKeyUnset readEnv)
           else
             let resolved = (if actionEnv \<noteq> '''' then resolved\<lparr>ActionKeyEnv := actionEnv, ActionKey := trimSpace (getenv actionEnv)\<rparr> else resolved) in
             if actionEnv \<noteq> '''' \<and> ActionKey resolved = '''' then Inl (ErrActionKeyUnset actionEnv)
             else if ReadKey resolved \<noteq> '''' \<and> ActionKey resolved \<noteq> '''' then Inr (ControllerAPIKeyModeSplit, resolved)
             else if ReadKey resolved \<noteq> '''' then Inr (ControllerAPIKeyModeReadOnly, resolved)
             else if ActionKey resolved \<noteq> '''' then
               Inr (ControllerAPIKeyModeShared, resolved\<lparr>ReadKey := ActionKey resolved,
                 ReadKeyEnv := (if ReadKeyEnv resolved = '''' then ActionKeyEnv resolved else ReadKeyEnv resolved)\<rparr>)
             else if required then Inl ErrNoAPICredentials
             else Inr (ControllerAPIKeyModeDisabled, resolved))"

definition ResolveAuthConfig :: "(string \<Rightarrow> string) \<Rightarrow> ControllerAuthConfig \<Rightarrow> auth_error + ResolvedAuthConfig" where
  "ResolveAuthConfig getenv cfg =
     (let base = emptyResolved\<lparr>APIKeyMode := ControllerAPIKeyModeDisabled,
            TokenSecretEnv := normalizeTokenSecretEnv (CfgTokenSecretEnv cfg),
            TokenIssuer := defaultTokenIssuer (trimSpace (CfgTokenIssuer cfg)),
            TokenAudience := defaultTokenAudience (trimSpace (CfgTokenAudience cfg)) ''controller-api'',
            IngestTokenAudience := defaultTokenAudience (trimSpace (CfgIngestTokenAudience cfg)) ''controller-ingest''\<rparr>
      in if \<not> AuthEnabled cfg then Inr (base\<lparr>AuthModeOf := ControllerAuthModeDisabled\<rparr>)
         else let mode = normalizeAuthMode (AuthMode cfg) in
           if mode = ControllerAuthModeEmpty then Inl ErrAuthMode
           else
             let resolved = base\<lparr>ResEnabled := True, AuthModeOf := mode, IngestAuthEnabled := CfgIngestAuthEnabled cfg\<rparr>;
                 needSecret = (mode = ControllerAuthModeToken \<or> mode = ControllerAuthModeMixed \<or> IngestAuthEnabled resolved);
                 resolved = (if needSecret then resolved\<lparr>TokenSecret := trimSpace (getenv (TokenSecretEnv resolved))\<rparr> else resolved)
             in if needSecret \<and> TokenSecret resolved = '''' then Inl (ErrTokenSecretUnset (TokenSecretEnv resolved))
                else if mode = ControllerAuthModeAPIKey \<or> mode = ControllerAuthModeMixed then
                  (case resolveCompatibilityAPIKeys getenv cfg (mode = ControllerAuthModeAPIKey) of
                     Inl e \<Rightarrow> Inl e
                   | Inr (apiKeyMode, keys) \<Rightarrow>
                       Inr (resolved\<lparr>APIKeyMode := apiKeyMode, ReadKey := ReadKey keys, ActionKey := ActionKey keys, ReadKeyEnv := ReadKeyEnv keys,
                         ActionKeyEnv := ActionKeyEnv keys, LegacyAPIKeyEnv := LegacyAPIKeyEnv keys\<rparr>))
                else Inr resolved)"

section \<open>Security posture at start\<close>

definition defaultDeploymentMode :: string where
  "defaultDeploymentMode = ''local-dev''"

definition normalizeControllerDeploymentMode :: "string \<Rightarrow> string" where
  "normalizeControllerDeploymentMode raw = (let m = toLower (trimSpace raw) in
     if m \<in> set ['''', ''local'', ''local-dev'', ''dev''] then defaultDeploymentMode
     else if m \<in> set [''standalone'', ''cluster-lite'', ''distributed''] then m
     else '''')"

text \<open>\<open>depMode\<close> and \<open>depOverride\<close> are the fields \<^verbatim>\<open>Mode\<close> and \<^verbatim>\<open>InsecureOverride\<close> of \<^verbatim>\<open>DeploymentConfig\<close>.\<close>

definition controllerInsecureOverrideEnabled :: "bool \<Rightarrow> ControllerAuthConfig \<Rightarrow> ResolvedAuthConfig \<Rightarrow> bool" where
  "controllerInsecureOverrideEnabled depOverride cfg auth \<longleftrightarrow>
     depOverride \<or> InsecureOverride auth \<or> (\<not> ResEnabled auth \<and> AllowInsecureDisable cfg)"

definition enforceControllerSecurityPosture :: "string \<Rightarrow> bool \<Rightarrow> ControllerAuthConfig \<Rightarrow> ResolvedAuthConfig \<Rightarrow> auth_error + ResolvedAuthConfig" where
  "enforceControllerSecurityPosture depMode depOverride cfg resolved =
     (let mode = (if normalizeControllerDeploymentMode depMode = '''' then defaultDeploymentMode else normalizeControllerDeploymentMode depMode);
          resolved = resolved\<lparr>DeploymentMode := mode\<rparr>
      in if ResEnabled resolved then Inr resolved
         else if mode = defaultDeploymentMode then Inr (resolved\<lparr>LocalDevBypass := True\<rparr>)
         else if controllerInsecureOverrideEnabled depOverride cfg resolved then Inr (resolved\<lparr>InsecureOverride := True\<rparr>)
         else Inl (ErrAuthDisabled mode))"

text \<open>The part of \<^verbatim>\<open>New\<close> that fixes the deployment mode and the credentials.\<close>

definition newControllerAuth :: "(string \<Rightarrow> string) \<Rightarrow> string \<Rightarrow> bool \<Rightarrow> ControllerAuthConfig \<Rightarrow> auth_error + ResolvedAuthConfig" where
  "newControllerAuth getenv depMode depOverride cfg =
     (if trimSpace depMode \<noteq> '''' \<and> normalizeControllerDeploymentMode (trimSpace depMode) = '''' then Inl (ErrUnsupportedMode (trimSpace depMode))
      else let depMode = (if normalizeControllerDeploymentMode depMode \<noteq> '''' then normalizeControllerDeploymentMode depMode else defaultDeploymentMode)
        in case ResolveAuthConfig getenv cfg of Inl e \<Rightarrow> Inl e
           | Inr resolved \<Rightarrow> enforceControllerSecurityPosture depMode depOverride cfg resolved)"

section \<open>Requests and routes\<close>

text \<open>\<open>Header\<close> is \<^verbatim>\<open>r.Header.Get\<close>; \<open>ctxActor\<close> is the identity stored in the context of the request.\<close>

record Request =
  Method :: string
  UrlPath :: string
  Header :: "string \<Rightarrow> string"
  RemoteAddr :: string
  ctxActor :: "IdentityRec option"

record controllerRoutePolicy =
  Public :: bool
  ReadLike :: bool
  RequiredRole :: "Role option"

definition isIncidentActionPath :: "string \<Rightarrow> string \<Rightarrow> bool" where
  "isIncidentActionPath path action = (let path = trimSpace path; sfx = ''/'' @ trimSpace action in
     prefix ''/api/v1/agent/incidents/'' path \<and> sublist ''/actions/'' path \<and> suffix sfx path)"

definition isControllerAgentRunStopPath :: "string \<Rightarrow> bool" where
  "isControllerAgentRunStopPath path = (let path = trimSpace path in
     prefix ''/api/v1/controller/agent/runs/'' path \<and> suffix ''/stop'' path)"

definition publicPaths :: "string list" where
  "publicPaths = [''/health'', ''/healthz'', ''/readyz'', ''/metrics'', ''/api/v1/health'', ''/'']"

definition operatorPaths :: "string list" where
  "operatorPaths = [''/api/v1/controller/actions/dry-run'', ''/api/v1/controller/actions/execute'', ''/api/v1/controller/actions/rollback'',
     ''/api/v1/controller/incidents/intake'', ''/api/v1/controller/agent/runs'', ''/api/v1/agent/execute'', ''/api/v1/logs/ingest'']"

definition controllerRoutePolicyForRequest :: "Request \<Rightarrow> controllerRoutePolicy" where
  "controllerRoutePolicyForRequest r =
     (let public = \<lparr>Public = True, ReadLike = False, RequiredRole = None\<rparr>;
          viewer = \<lparr>Public = False, ReadLike = True, RequiredRole = Some RoleViewer\<rparr>;
          role = (\<lambda>x. \<lparr>Public = False, ReadLike = False, RequiredRole = Some x\<rparr>);
          path = trimSpace (UrlPath r)
      in if Method r = ''OPTIONS'' then public
         else if path = '''' then public
         else if path \<in> set publicPaths \<or> prefix ''/web'' path \<or> prefix ''/assets/'' path then public
         else if \<not> prefix ''/api/'' path then public
         else if path = ''/api/v1/agent/query'' \<or> path = ''/api/v1/rag/query'' then viewer
         else if Method r = ''GET'' \<or> Method r = ''HEAD'' then viewer
         else if path = ''/api/v1/controller/actions/approve'' \<or> isIncidentActionPath path ''approve'' then role RoleApprover
         else if path \<in> set operatorPaths \<or> isControllerAgentRunStopPath path \<or> prefix ''/api/v1/agent/actions/'' path
              \<or> isIncidentActionPath path ''execute'' \<or> isIncidentActionPath path ''rollback'' then role RoleOperator
         else role RoleAdmin)"

datatype APIKeyAuthScope = APIKeyAuthScopePublic | APIKeyAuthScopeRead | APIKeyAuthScopeAction

definition controllerRequestScope :: "Request \<Rightarrow> APIKeyAuthScope" where
  "controllerRequestScope r =
     (let path = trimSpace (UrlPath r) in
      if Method r = ''OPTIONS'' then APIKeyAuthScopePublic
      else if path = '''' then APIKeyAuthScopePublic
      else if path \<in> set publicPaths \<or> prefix ''/web'' path \<or> prefix ''/assets/'' path then APIKeyAuthScopePublic
      else if \<not> prefix ''/api/'' path then APIKeyAuthScopePublic
      else if path = ''/api/v1/agent/query'' \<or> path = ''/api/v1/rag/query'' then APIKeyAuthScopeRead
      else if Method r = ''GET'' \<or> Method r = ''HEAD'' then APIKeyAuthScopeRead
      else APIKeyAuthScopeAction)"

section \<open>Who a request is from\<close>

definition bearerOf :: "string \<Rightarrow> string option" where
  "bearerOf value = (let value = trimSpace value in
     if prefix ''bearer '' (toLower value) then Some (trimSpace (drop 7 value)) else None)"

definition bearerTokenFromRequest :: "Request \<Rightarrow> string" where
  "bearerTokenFromRequest r = (case bearerOf (Header r ''Authorization'') of None \<Rightarrow> '''' | Some t \<Rightarrow> t)"

text \<open>The host that \<^verbatim>\<open>net.SplitHostPort\<close> finds, \<open>None\<close> for an error.\<close>

definition splitHost :: "string \<Rightarrow> string option" where
  "splitHost hp =
     (if CHR '':'' \<notin> set hp then None
      else if hd hp = CHR ''['' then
        let inner = takeWhile (\<lambda>c. c \<noteq> CHR '']'') (tl hp); rest = drop (length inner + 1) (tl hp) in
        if CHR '']'' \<notin> set hp \<or> rest = [] \<or> hd rest \<noteq> CHR '':'' \<or> CHR '':'' \<in> set (tl rest)
           \<or> CHR ''['' \<in> set (tl hp) \<or> CHR '']'' \<in> set rest then None
        else Some inner
      else let host = takeWhile (\<lambda>c. c \<noteq> CHR '':'') hp in
        if CHR '':'' \<in> set (drop (length host + 1) hp) \<or> CHR ''['' \<in> set hp \<or> CHR '']'' \<in> set hp then None
        else Some host)"

definition remoteIPFromRequest :: "Request \<Rightarrow> string" where
  "remoteIPFromRequest r =
     (let forwarded = trimSpace (hd (splitChar (CHR '','') (Header r ''X-Forwarded-For''))) in
      if forwarded \<noteq> '''' then forwarded
      else case splitHost (trimSpace (RemoteAddr r)) of Some host \<Rightarrow> host | None \<Rightarrow> trimSpace (RemoteAddr r))"

definition subtleTokenCompare :: "string \<Rightarrow> string \<Rightarrow> int" where
  "subtleTokenCompare expected provided =
     (if length expected \<noteq> length provided then 0 else if expected = provided then 1 else 0)"

definition compareControllerSecret :: "string \<Rightarrow> string \<Rightarrow> bool" where
  "compareControllerSecret candidate configured =
     (let candidate = trimSpace candidate; configured = trimSpace configured in
      if candidate = '''' \<or> configured = '''' then False
      else if length candidate \<noteq> length configured then False
      else subtleTokenCompare candidate configured = 1)"

datatype http_error = ErrHTTPAuthFailed | ErrHTTPToken token_error | ErrIngestTokenRequired

text \<open>\<open>T\<close> and \<open>clockNow\<close> are the encodings and the clock of \<open>VerifyToken\<close>.\<close>

definition verifyBearerActor :: "TokenCodec \<Rightarrow> int \<Rightarrow> ResolvedAuthConfig \<Rightarrow> string \<Rightarrow> string \<Rightarrow> AuthnMethod \<Rightarrow> string \<Rightarrow> http_error + IdentityRec" where
  "verifyBearerActor T clockNow auth token audience method sourceIP =
     (if trimSpace (TokenSecret auth) = '''' then Inl ErrHTTPAuthFailed
      else case VerifyToken T clockNow (bytesOf (TokenSecret auth)) token
             \<lparr>OIssuer = TokenIssuer auth, OAudience = audience, ONow = 0, OMethod = method, OSourceIP = sourceIP\<rparr> of
        Inl e \<Rightarrow> Inl (ErrHTTPToken e) | Inr actor \<Rightarrow> Inr actor)"

definition apiKeyIdentity :: "ResolvedAuthConfig \<Rightarrow> string \<Rightarrow> string \<Rightarrow> Role \<Rightarrow> IdentityRec" where
  "apiKeyIdentity auth sourceIP subject role = \<lparr>Subject = subject, ActorTypeOf = ActorTypeService, Roles = [role], AuthnMethodOf = AuthnMethodAPIKey,
     IssuedAt = 0, ExpiresAt = 0, SourceIP = sourceIP, Audience = TokenAudience auth, ActorCollectorID = ''''\<rparr>"

definition identityFromAPIKey :: "ResolvedAuthConfig \<Rightarrow> Request \<Rightarrow> string \<Rightarrow> http_error + IdentityRec" where
  "identityFromAPIKey auth r sourceIP =
     (let key = trimSpace (Header r ''X-API-Key'');
          key = (if key = '''' \<and> AuthModeOf auth = ControllerAuthModeAPIKey then bearerTokenFromRequest r else key)
      in if key = '''' then Inl ErrHTTPAuthFailed
         else if compareControllerSecret key (ActionKey auth) then Inr (apiKeyIdentity auth sourceIP ''compat-api-key-action'' RoleAdmin)
         else if compareControllerSecret key (ReadKey auth) then Inr (apiKeyIdentity auth sourceIP ''compat-api-key-read'' RoleViewer)
         else Inl ErrHTTPAuthFailed)"

definition authenticateHTTPRequest :: "TokenCodec \<Rightarrow> int \<Rightarrow> ResolvedAuthConfig \<Rightarrow> Request \<Rightarrow> http_error + IdentityRec" where
  "authenticateHTTPRequest T clockNow auth r =
     (let sourceIP = remoteIPFromRequest r; token = bearerTokenFromRequest r in
      case AuthModeOf auth of
        ControllerAuthModeToken \<Rightarrow>
          (if token = '''' then Inl ErrHTTPAuthFailed
           else verifyBearerActor T clockNow auth token (TokenAudience auth) AuthnMethodBearer sourceIP)
      | ControllerAuthModeMixed \<Rightarrow>
          (if token \<noteq> '''' then verifyBearerActor T clockNow auth token (TokenAudience auth) AuthnMethodBearer sourceIP
           else identityFromAPIKey auth r sourceIP)
      | ControllerAuthModeAPIKey \<Rightarrow> identityFromAPIKey auth r sourceIP
      | _ \<Rightarrow> Inl ErrHTTPAuthFailed)"

definition authorizeControllerRequest :: "IdentityRec option \<Rightarrow> Role option \<Rightarrow> bool" where
  "authorizeControllerRequest actor required =
     (case required of None \<Rightarrow> actor \<noteq> None
      | Some role \<Rightarrow>
          if actor = None then False
          else if HasAnyRole actor [RoleAdmin] then True
          else (case role of
             RoleViewer \<Rightarrow> HasAnyRole actor [RoleViewer, RoleOperator, RoleApprover]
           | RoleOperator \<Rightarrow> HasAnyRole actor [RoleOperator]
           | RoleApprover \<Rightarrow> HasAnyRole actor [RoleApprover]
           | RoleCollector \<Rightarrow> HasAnyRole actor [RoleCollector]
           | RoleAdmin \<Rightarrow> False))"

definition anonymousHTTPIdentity :: "Request \<Rightarrow> IdentityRec" where
  "anonymousHTTPIdentity r = \<lparr>Subject = ''anonymous'', ActorTypeOf = ActorTypeUnknown, Roles = [], AuthnMethodOf = AuthnMethodAnonymous,
     IssuedAt = 0, ExpiresAt = 0, SourceIP = remoteIPFromRequest r, Audience = '''', ActorCollectorID = ''''\<rparr>"

section \<open>The ingest stream\<close>

text \<open>\<open>md\<close> are the values of the metadata key \<^verbatim>\<open>authorization\<close> of the stream, \<open>peerAddr\<close> the address of its peer, empty when unknown.\<close>

fun bearerTokenFromIncomingContext :: "string list \<Rightarrow> string" where
  "bearerTokenFromIncomingContext [] = ''''"
| "bearerTokenFromIncomingContext (value # vs) = (case bearerOf value of Some t \<Rightarrow> t | None \<Rightarrow> bearerTokenFromIncomingContext vs)"

definition authenticateIngestStream :: "TokenCodec \<Rightarrow> int \<Rightarrow> ResolvedAuthConfig \<Rightarrow> string list \<Rightarrow> string \<Rightarrow> http_error + IdentityRec option" where
  "authenticateIngestStream T clockNow auth md peerAddr =
     (if \<not> ResEnabled auth \<or> \<not> IngestAuthEnabled auth then Inr None
      else let token = bearerTokenFromIncomingContext md in
        if token = '''' then Inl ErrIngestTokenRequired
        else map_sum id Some (verifyBearerActor T clockNow auth token (IngestTokenAudience auth) AuthnMethodIngestAuth (trimSpace peerAddr)))"

end
