(* ===== verification/HttpStack.thy ===== *)
theory HttpStack
  imports ControllerAuth HACoord
begin

text \<open>
  The handlers around the HTTP API of the controller (\<^verbatim>\<open>controller/http_auth.go\<close>, \<^verbatim>\<open>http_middleware.go\<close>,
  \<^verbatim>\<open>pkg/middleware/rate_limit.go\<close>, the audit log of \<^verbatim>\<open>api_first_handlers.go\<close>): authentication, audit, rate limits
  and the guard that only the active controller writes, wrapped around the handler of the route.

  A handler is a function from the request and the state to what it wrote and the new state; the handler of the route is an
  argument.  The token bucket of \<^verbatim>\<open>golang.org/x/time/rate\<close> is the function \<open>allow\<close> on a state of its own; its rate and
  burst belong to that parameter.
\<close>

section \<open>State\<close>

record ControllerAuditRecord =
  AudID :: string
  AudActor :: string
  AudAction :: string
  AudResource :: string
  AudStatus :: string
  AudOutcome :: string
  AudInput :: "string \<rightharpoonup> string"
  AudOutput :: string
  AudEvidence :: "string list"
  AudOccurredAt :: int
  AudWorkflowID :: string
  AudCollectorID :: string
  AudIncidentID :: string
  AudApprovalGate :: bool

record APIConfig =
  RateLimitEnabled :: bool
  ActionRateLimitEnabled :: bool
  AuditMutations :: bool

record ControllerSettings =
  apiConfig :: APIConfig
  haConfig :: HAConfig
  authOf :: ResolvedAuthConfig

record ('l, 's) HttpState =
  httpAuthnFailures :: "64 word"
  httpAuthzFailures :: "64 word"
  controllerAuditLog :: "ControllerAuditRecord list"
  haCoordinatorState :: "HAState option"
  apiLimiter :: 'l
  actionLimiter :: 'l
  app :: 's

text \<open>The encodings and the clock of tokens, the two readings of the clock for an audit record, and the token bucket.\<close>

record 'l HttpEnv =
  envCodec :: TokenCodec
  envClock :: int
  auditNano :: int
  auditTime :: int
  allow :: "'l \<Rightarrow> bool \<times> 'l"

text \<open>What a handler does to the \<^verbatim>\<open>ResponseWriter\<close>.\<close>

datatype writeOp = WriteHeader int | WriteBody string

type_synonym ('l, 's) handler = "Request \<Rightarrow> ('l, 's) HttpState \<Rightarrow> writeOp list \<times> ('l, 's) HttpState"

definition httpError :: "string \<Rightarrow> int \<Rightarrow> writeOp list" where
  "httpError msg code = [WriteHeader code, WriteBody msg]"

section \<open>Names and texts\<close>

fun authnMethodName :: "AuthnMethod \<Rightarrow> string" where
  "authnMethodName AuthnMethodAnonymous = ''anonymous''"
| "authnMethodName AuthnMethodBearer = ''bearer_token''"
| "authnMethodName AuthnMethodAPIKey = ''api_key''"
| "authnMethodName AuthnMethodIngestAuth = ''ingest_bearer_token''"

fun scopeName :: "APIKeyAuthScope \<Rightarrow> string" where
  "scopeName APIKeyAuthScopePublic = ''public''"
| "scopeName APIKeyAuthScopeRead = ''read''"
| "scopeName APIKeyAuthScopeAction = ''action''"

fun haRoleName :: "HARole \<Rightarrow> string" where
  "haRoleName HARoleStandalone = ''standalone''"
| "haRoleName HARoleLeader = ''leader''"
| "haRoleName HARoleFollower = ''follower''"
| "haRoleName HARoleStandby = ''standby''"

text \<open>\<open>VerifyToken\<close> never answers \<open>ErrTokenEncode\<close>.\<close>

fun tokenErrorText :: "token_error \<Rightarrow> string" where
  "tokenErrorText ErrTokenMalformed = ''token is malformed''"
| "tokenErrorText ErrTokenSignature = ''token signature is invalid''"
| "tokenErrorText ErrTokenExpired = ''token is expired''"
| "tokenErrorText ErrTokenIssuer = ''token issuer mismatch''"
| "tokenErrorText ErrTokenAudience = ''token audience mismatch''"
| "tokenErrorText ErrTokenMissingSub = ''token subject is required''"
| "tokenErrorText ErrTokenMissingRoles = ''token roles are required''"
| "tokenErrorText ErrTokenMissingSecret = ''token secret is required''"
| "tokenErrorText ErrTokenEncode = ''''"

fun httpErrorText :: "http_error \<Rightarrow> string" where
  "httpErrorText ErrHTTPAuthFailed = ''http authentication failed''"
| "httpErrorText (ErrHTTPToken e) = tokenErrorText e"
| "httpErrorText ErrIngestTokenRequired = ''ingest bearer token is required''"

text \<open>\<^verbatim>\<open>http.StatusText\<close>.\<close>

definition statusTable :: "(int \<times> string) list" where
  "statusTable = [(100, ''Continue''), (101, ''Switching Protocols''), (102, ''Processing''), (103, ''Early Hints''),
     (200, ''OK''), (201, ''Created''), (202, ''Accepted''), (203, ''Non-Authoritative Information''), (204, ''No Content''),
     (205, ''Reset Content''), (206, ''Partial Content''), (207, ''Multi-Status''), (208, ''Already Reported''), (226, ''IM Used''),
     (300, ''Multiple Choices''), (301, ''Moved Permanently''), (302, ''Found''), (303, ''See Other''), (304, ''Not Modified''),
     (305, ''Use Proxy''), (307, ''Temporary Redirect''), (308, ''Permanent Redirect''), (400, ''Bad Request''), (401, ''Unauthorized''),
     (402, ''Payment Required''), (403, ''Forbidden''), (404, ''Not Found''), (405, ''Method Not Allowed''), (406, ''Not Acceptable''),
     (407, ''Proxy Authentication Required''), (408, ''Request Timeout''), (409, ''Conflict''), (410, ''Gone''), (411, ''Length Required''),
     (412, ''Precondition Failed''), (413, ''Request Entity Too Large''), (414, ''Request URI Too Long''), (415, ''Unsupported Media Type''),
     (416, ''Requested Range Not Satisfiable''), (417, ''Expectation Failed''), (418, ''I'' @ [char_of (39 :: nat)] @ ''m a teapot''),
     (421, ''Misdirected Request''), (422, ''Unprocessable Entity''), (423, ''Locked''), (424, ''Failed Dependency''), (425, ''Too Early''),
     (426, ''Upgrade Required''), (428, ''Precondition Required''), (429, ''Too Many Requests''), (431, ''Request Header Fields Too Large''),
     (451, ''Unavailable For Legal Reasons''), (500, ''Internal Server Error''), (501, ''Not Implemented''), (502, ''Bad Gateway''),
     (503, ''Service Unavailable''), (504, ''Gateway Timeout''), (505, ''HTTP Version Not Supported''), (506, ''Variant Also Negotiates''),
     (507, ''Insufficient Storage''), (508, ''Loop Detected''), (510, ''Not Extended''), (511, ''Network Authentication Required'')]"

definition statusText :: "int \<Rightarrow> string" where
  "statusText code = (case map_of statusTable code of None \<Rightarrow> '''' | Some t \<Rightarrow> t)"

section \<open>The audit log\<close>

definition controllerAuditRetention :: nat where
  "controllerAuditRetention = 4000"

fun firstNonEmptyValue :: "string list \<Rightarrow> string" where
  "firstNonEmptyValue [] = ''''"
| "firstNonEmptyValue (v # vs) = (if trimSpace v \<noteq> '''' then trimSpace v else firstNonEmptyValue vs)"

fun dedupeSliceLoop :: "nat \<Rightarrow> string list \<Rightarrow> string list \<Rightarrow> string list \<Rightarrow> string list" where
  "dedupeSliceLoop limit seen out [] = out"
| "dedupeSliceLoop limit seen out (raw # values) =
     (let item = trimSpace raw; key = toLower item in
      if item = '''' \<or> key \<in> set seen then dedupeSliceLoop limit seen out values
      else let out = out @ [item] in
        if limit > 0 \<and> length out \<ge> limit then out else dedupeSliceLoop limit (key # seen) out values)"

definition dedupeStringSlice :: "string list \<Rightarrow> nat \<Rightarrow> string list" where
  "dedupeStringSlice values limit = dedupeSliceLoop limit [] [] values"

definition controllerAuditOutcome :: "string \<Rightarrow> string" where
  "controllerAuditOutcome status = (let st = toLower (trimSpace status) in
     if st \<in> set [''executed_success'', ''executed_failure'', ''blocked'', ''skipped'', ''planned_only'', ''proposed_only'', ''read_only_success'', ''read_only_failure''] then st
     else if st \<in> set [''success'', ''completed'', ''approved''] then ''executed_success''
     else if st \<in> set [''failed'', ''error''] then ''executed_failure''
     else if st \<in> set [''forbidden'', ''rejected''] then ''blocked''
     else if st = ''stopped'' then ''skipped''
     else '''')"

definition auditActor :: "Request \<Rightarrow> string" where
  "auditActor r = firstNonEmptyValue ((case ctxActor r of None \<Rightarrow> [] | Some a \<Rightarrow> [trimSpace (Subject a)])
     @ [trimSpace (Header r ''X-SRE-Actor''), trimSpace (Header r ''X-User''), ''anonymous''])"

definition auditInput :: "Request \<Rightarrow> (string \<rightharpoonup> string) \<Rightarrow> string \<rightharpoonup> string" where
  "auditInput r input = (case ctxActor r of None \<Rightarrow> input
   | Some a \<Rightarrow>
       let input = input(''authn_method'' \<mapsto> authnMethodName (AuthnMethodOf a), ''actor_type'' \<mapsto> actorTypeName (ActorTypeOf a)) in
       if RolesCSV (Some a) \<noteq> '''' then input(''roles'' \<mapsto> RolesCSV (Some a)) else input)"

definition auditRecordFor :: "'l HttpEnv \<Rightarrow> Request option \<Rightarrow> ControllerAuditRecord \<Rightarrow> ControllerAuditRecord" where
  "auditRecordFor E ro record =
     (let record = (case ro of None \<Rightarrow> record | Some r \<Rightarrow> record\<lparr>AudActor := auditActor r, AudInput := auditInput r (AudInput record)\<rparr>);
          record = (if AudActor record = '''' then record\<lparr>AudActor := ''controller''\<rparr> else record);
          record = (if AudID record = '''' then record\<lparr>AudID := ''audit-'' @ formatInt (auditNano E)\<rparr> else record);
          record = (if AudOccurredAt record = 0 then record\<lparr>AudOccurredAt := auditTime E\<rparr> else record);
          record = record\<lparr>AudEvidence := dedupeStringSlice (AudEvidence record) 8\<rparr>
      in if trimSpace (AudOutcome record) = '''' then record\<lparr>AudOutcome := controllerAuditOutcome (AudStatus record)\<rparr> else record)"

definition appendControllerAudit :: "'l HttpEnv \<Rightarrow> Request option \<Rightarrow> ControllerAuditRecord \<Rightarrow> ('l, 's) HttpState \<Rightarrow> ('l, 's) HttpState" where
  "appendControllerAudit E ro record s =
     (let log = controllerAuditLog s @ [auditRecordFor E ro record] in
      s\<lparr>controllerAuditLog := (if length log > controllerAuditRetention then drop (length log - controllerAuditRetention) log else log)\<rparr>)"

definition newAudit :: "string \<Rightarrow> string \<Rightarrow> string \<Rightarrow> (string \<rightharpoonup> string) \<Rightarrow> string \<Rightarrow> bool \<Rightarrow> ControllerAuditRecord" where
  "newAudit action resource status input output gate = \<lparr>AudID = '''', AudActor = '''', AudAction = action, AudResource = resource, AudStatus = status, AudOutcome = '''',
     AudInput = input, AudOutput = output, AudEvidence = [], AudOccurredAt = 0, AudWorkflowID = '''', AudCollectorID = '''', AudIncidentID = '''', AudApprovalGate = gate\<rparr>"

section \<open>Middleware\<close>

definition shouldAuditMutationRequest :: "Request \<Rightarrow> bool" where
  "shouldAuditMutationRequest r =
     (if Method r = ''OPTIONS'' then False
      else if \<not> prefix ''/api/'' (trimSpace (UrlPath r)) then False
      else Method r \<in> set [''POST'', ''PUT'', ''PATCH'', ''DELETE''])"

definition auditStatusFromHTTPCode :: "int \<Rightarrow> string" where
  "auditStatusFromHTTPCode code =
     (if code \<ge> 200 \<and> code < 400 then ''success''
      else if code = 401 \<or> code = 403 \<or> code = 429 \<or> code = 503 then ''blocked''
      else if code \<ge> 400 \<and> code < 500 then ''rejected''
      else ''error'')"

text \<open>\<^verbatim>\<open>statusCaptureWriter\<close>: the status after the writes of a handler.\<close>

fun captureStatus :: "int \<Rightarrow> writeOp list \<Rightarrow> int" where
  "captureStatus st [] = st"
| "captureStatus st (WriteHeader code # ws) = captureStatus code ws"
| "captureStatus st (WriteBody b # ws) = captureStatus (if st = 0 then 200 else st) ws"

definition statusCode :: "writeOp list \<Rightarrow> int" where
  "statusCode ws = (let st = captureStatus 0 ws in if st = 0 then 200 else st)"

definition shouldRequireActiveControllerRequest :: "Request \<Rightarrow> bool" where
  "shouldRequireActiveControllerRequest r =
     (if Method r = ''OPTIONS'' then False else controllerRequestScope r = APIKeyAuthScopeAction)"

text \<open>\<^verbatim>\<open>requireActiveController\<close>: \<open>Some\<close> of the refusal that is written.\<close>

definition requireActiveController :: "ControllerSettings \<Rightarrow> ('l, 's) HttpState \<Rightarrow> writeOp list option" where
  "requireActiveController c s =
     map_option (\<lambda>msg. httpError msg 503) (activeControllerWriteError ''write-sensitive operations'' (haState (haConfig c) (haCoordinatorState s)))"

definition guardWriteSensitiveRequests :: "ControllerSettings \<Rightarrow> ('l, 's) handler \<Rightarrow> ('l, 's) handler" where
  "guardWriteSensitiveRequests c next r s =
     (if \<not> shouldRequireActiveControllerRequest r then next r s
      else case requireActiveController c s of Some ws \<Rightarrow> (ws, s) | None \<Rightarrow> next r s)"

definition shouldSkipAPIRateLimit :: "Request \<Rightarrow> bool" where
  "shouldSkipAPIRateLimit r =
     (let path = trimSpace (UrlPath r) in
      if path = '''' then True
      else if path \<in> set [''/health'', ''/healthz'', ''/readyz'', ''/metrics'', ''/api/v1/health'', ''/api/v1/logs/ingest''] \<or> prefix ''/web'' path \<or> prefix ''/assets/'' path then True
      else \<not> prefix ''/api/'' path)"

definition shouldSkipActionAPIRateLimit :: "Request \<Rightarrow> bool" where
  "shouldSkipActionAPIRateLimit r \<longleftrightarrow> controllerRequestScope r \<noteq> APIKeyAuthScopeAction"

text \<open>\<^verbatim>\<open>RateLimit\<close> on the bucket that \<open>get\<close> and \<open>put\<close> reach in the state.\<close>

definition RateLimitHandler :: "'l HttpEnv \<Rightarrow> bool \<Rightarrow> (Request \<Rightarrow> bool) \<Rightarrow> string \<Rightarrow> (('l, 's) HttpState \<Rightarrow> 'l) \<Rightarrow> ('l \<Rightarrow> ('l, 's) HttpState \<Rightarrow> ('l, 's) HttpState)
    \<Rightarrow> ('l, 's) handler \<Rightarrow> ('l, 's) handler" where
  "RateLimitHandler E enabled skip msg get put next r s =
     (if \<not> enabled then next r s
      else if skip r then next r s
      else case allow E (get s) of (ok, l) \<Rightarrow>
        if \<not> ok then (httpError msg 429, put l s) else next r (put l s))"

definition auditMutationRequests :: "'l HttpEnv \<Rightarrow> ControllerSettings \<Rightarrow> ('l, 's) handler \<Rightarrow> ('l, 's) handler" where
  "auditMutationRequests E c next r s =
     (if \<not> shouldAuditMutationRequest r then next r s
      else case next r s of (ws, s') \<Rightarrow>
        let st = statusCode ws; ha = haState (haConfig c) (haCoordinatorState s') in
        (ws, appendControllerAudit E (Some r) (newAudit ''http_mutation_request'' (trimSpace (UrlPath r)) (auditStatusFromHTTPCode st)
           [''method'' \<mapsto> Method r, ''status_code'' \<mapsto> formatInt st, ''remote_addr'' \<mapsto> trimSpace (RemoteAddr r),
            ''auth_scope'' \<mapsto> scopeName (controllerRequestScope r), ''ha_role'' \<mapsto> haRoleName (HAState.HARole ha),
            ''ha_active'' \<mapsto> (if HAActive ha then ''true'' else ''false'')]
           (statusText st) (sublist ''/approve'' (toLower (UrlPath r)))) s'))"

definition wrapHTTPHandler :: "'l HttpEnv \<Rightarrow> ControllerSettings \<Rightarrow> ('l, 's) handler \<Rightarrow> ('l, 's) handler" where
  "wrapHTTPHandler E c next =
     (let handler = guardWriteSensitiveRequests c next;
          handler = (if ActionRateLimitEnabled (apiConfig c)
            then RateLimitHandler E (ActionRateLimitEnabled (apiConfig c)) shouldSkipActionAPIRateLimit ''controller action api rate limit exceeded''
                   actionLimiter (\<lambda>l s. s\<lparr>actionLimiter := l\<rparr>) handler
            else handler);
          handler = (if RateLimitEnabled (apiConfig c)
            then RateLimitHandler E (RateLimitEnabled (apiConfig c)) shouldSkipAPIRateLimit ''controller api rate limit exceeded''
                   apiLimiter (\<lambda>l s. s\<lparr>apiLimiter := l\<rparr>) handler
            else handler)
      in if AuditMutations (apiConfig c) then auditMutationRequests E c handler else handler)"

definition wrapHTTPAuthentication :: "'l HttpEnv \<Rightarrow> ControllerSettings \<Rightarrow> ('l, 's) handler \<Rightarrow> ('l, 's) handler" where
  "wrapHTTPAuthentication E c next r s =
     (let policy = controllerRoutePolicyForRequest r in
      if Public policy then next r s
      else if \<not> ResEnabled (authOf c) then next (r\<lparr>ctxActor := Some (anonymousHTTPIdentity r)\<rparr>) s
      else case authenticateHTTPRequest (envCodec E) (envClock E) (authOf c) r of
        Inl err \<Rightarrow>
          let s = s\<lparr>httpAuthnFailures := httpAuthnFailures s + 1\<rparr>;
              s = (if shouldAuditMutationRequest r
                then appendControllerAudit E (Some r) (newAudit ''http_authenticate'' (trimSpace (UrlPath r)) ''unauthorized'' Map.empty (httpErrorText err) False) s
                else s)
          in (httpError ''Unauthorized'' 401, s)
      | Inr actor \<Rightarrow>
          if \<not> authorizeControllerRequest (Some actor) (RequiredRole policy) then
            let s = s\<lparr>httpAuthzFailures := httpAuthzFailures s + 1\<rparr>;
                s = (if shouldAuditMutationRequest r
                  then appendControllerAudit E (Some (r\<lparr>ctxActor := Some actor\<rparr>)) (newAudit ''http_authorize'' (trimSpace (UrlPath r)) ''forbidden'' Map.empty
                    ''http authorization failed'' False) s
                  else s)
            in (httpError ''Forbidden'' 403, s)
          else next (r\<lparr>ctxActor := Some actor\<rparr>) s)"

text \<open>The handler that \<^verbatim>\<open>Start\<close> gives to the server.\<close>

definition serveHTTP :: "'l HttpEnv \<Rightarrow> ControllerSettings \<Rightarrow> ('l, 's) handler \<Rightarrow> ('l, 's) handler" where
  "serveHTTP E c mux =
     (let handler = wrapHTTPHandler E c mux in
      if ResEnabled (authOf c) then wrapHTTPAuthentication E c handler else handler)"

end
