(* ===== verification/DeploymentPosture.thy ===== *)
theory DeploymentPosture
  imports ControllerAuth Inbox
begin

text \<open>
  The last check of \<^verbatim>\<open>New\<close> (\<^verbatim>\<open>controller/deployment_posture.go\<close>, \<^verbatim>\<open>ingest_transport.go\<close>): outside local development a controller
  refuses to start when its credentials, its transport or its durable stores fall short of what the deployment mode asks for.

  The state of the workflow engine and of its artifacts are arguments, \<open>None\<close> for no engine; the CORS mode is an argument as in the code.
\<close>

record WorkflowDurabilityStatus =
  WfEnabled :: bool
  WfBackend :: string
  WfPersistent :: bool
  WfLocalFirst :: bool
  WfShared :: bool
  WfFallbackActive :: bool
  WfStorePath :: string

record ArtifactDurabilityStatus =
  ArtEnabled :: bool
  MetadataBackend :: string
  MetadataShared :: bool
  PayloadBackend :: string
  PayloadSharedSurvivable :: bool
  ArtLastError :: string

record controllerIngestDurabilityStatus =
  PersistenceConfigured :: bool
  PersistenceEnabled :: bool
  IngBackend :: string
  IngShared :: bool
  IngSingleWriter :: bool
  IngLocalFirst :: bool
  IngFallbackActive :: bool
  IngPath :: string
  IngLastError :: string

record IngestTransportConfig =
  AllowPlaintext :: bool
  TLSOn :: bool
  RequireClientCert :: bool
  AllowedCollectorIDs :: "string list"
  AllowedClusterNames :: "string list"
  AllowedPeerSubjects :: "string list"

record controllerIngestTransportStatus =
  TLSEnabled :: bool
  MTLSEnabled :: bool
  PlaintextActive :: bool
  PlaintextOverride :: bool
  IdentityBindingEnabled :: bool
  AllowlistEnabled :: bool
  AllowlistCollectorIDs :: nat
  AllowlistClusterNames :: nat
  AllowlistPeerSubjects :: nat

text \<open>One constructor per message.\<close>

datatype posture_reason =
    AuthIsDisabled | IngestAuthIsDisabled | LocalDevCORS | NoDurableInbox | DistributedIngestNotShared | PlaintextTransport
  | InboxFellBack string | WorkflowInMemory | WorkflowFellBack string | WorkflowControllerLocal | ArtifactMetadataLocal
  | ArtifactPayloadLocal | ArtifactsDegraded string

record controllerDeploymentPosture =
  PostureMode :: string
  ProductionLike :: bool
  PostureOverride :: bool
  Degraded :: bool
  Reasons :: "posture_reason list"
  PWorkflow :: WorkflowDurabilityStatus
  PArtifacts :: ArtifactDurabilityStatus
  PIngest :: controllerIngestDurabilityStatus
  PTransport :: controllerIngestTransportStatus

text \<open>The configuration that the check reads.\<close>

record PostureConfig =
  depMode :: string
  depOverride :: bool
  authCfg :: ControllerAuthConfig
  inboxCfg :: InboxConfig
  transportCfg :: IngestTransportConfig

definition workflowDurabilityStatus :: "WorkflowDurabilityStatus option \<Rightarrow> WorkflowDurabilityStatus" where
  "workflowDurabilityStatus engine = (case engine of Some st \<Rightarrow> st
     | None \<Rightarrow> \<lparr>WfEnabled = False, WfBackend = ''disabled'', WfPersistent = False, WfLocalFirst = True, WfShared = False, WfFallbackActive = False, WfStorePath = ''''\<rparr>)"

definition artifactDurabilityStatus :: "ArtifactDurabilityStatus option \<Rightarrow> ArtifactDurabilityStatus" where
  "artifactDurabilityStatus engine = (case engine of Some st \<Rightarrow> st
     | None \<Rightarrow> \<lparr>ArtEnabled = False, MetadataBackend = ''disabled'', MetadataShared = False, PayloadBackend = ''disabled'', PayloadSharedSurvivable = False, ArtLastError = ''''\<rparr>)"

fun nonEmptyString :: "string list \<Rightarrow> string" where
  "nonEmptyString [] = ''''"
| "nonEmptyString (v # vs) = (if trimSpace v \<noteq> '''' then trimSpace v else nonEmptyString vs)"

text \<open>\<open>ib\<close> are the statistics of the inbox of the controller, if it has one.\<close>

definition ingestDurabilityStatus :: "InboxConfig \<Rightarrow> InboxStats option \<Rightarrow> controllerIngestDurabilityStatus" where
  "ingestDurabilityStatus cfg ib =
     (let status = \<lparr>PersistenceConfigured = (trimSpace (Backend cfg) \<noteq> ''memory''), PersistenceEnabled = False, IngBackend = ''unavailable'', IngShared = False,
            IngSingleWriter = SingleWriter cfg, IngLocalFirst = True, IngFallbackActive = False, IngPath = '''', IngLastError = ''''\<rparr>
      in case ib of None \<Rightarrow> status
         | Some st \<Rightarrow>
             let enabled = InboxStats.Enabled st \<and> StatsBackend st \<noteq> ''memory'' in
             status\<lparr>PersistenceEnabled := enabled, IngPath := nonEmptyString [StatsPath st, Path cfg], IngLastError := trimSpace (StatsLastError st),
               IngBackend := StatsBackend st, IngShared := Shared st, IngLocalFirst := \<not> Shared st,
               IngFallbackActive := PersistenceConfigured status \<and> \<not> enabled\<rparr>)"

text \<open>The counters of the ingest server that the status repeats are left out.\<close>

definition ingestTransportStatus :: "IngestTransportConfig \<Rightarrow> ResolvedAuthConfig \<Rightarrow> controllerIngestTransportStatus" where
  "ingestTransportStatus cfg auth =
     (let tls = TLSOn cfg; mtls = (TLSOn cfg \<and> RequireClientCert cfg);
          ids = length (AllowedCollectorIDs cfg); clusters = length (AllowedClusterNames cfg); peers = length (AllowedPeerSubjects cfg)
      in \<lparr>TLSEnabled = tls, MTLSEnabled = mtls, PlaintextActive = (\<not> tls), PlaintextOverride = (\<not> tls \<and> AllowPlaintext cfg),
         IdentityBindingEnabled = (IngestAuthEnabled auth \<or> mtls), AllowlistEnabled = (ids > 0 \<or> clusters > 0 \<or> peers > 0),
         AllowlistCollectorIDs = ids, AllowlistClusterNames = clusters, AllowlistPeerSubjects = peers\<rparr>)"

abbreviation clusterMode :: "string \<Rightarrow> bool" where
  "clusterMode mode \<equiv> mode = ''cluster-lite'' \<or> mode = ''distributed''"

abbreviation reasonIf :: "bool \<Rightarrow> posture_reason \<Rightarrow> posture_reason list" where
  "reasonIf b why \<equiv> (if b then [why] else [])"

definition postureReasons :: "string \<Rightarrow> ResolvedAuthConfig \<Rightarrow> string \<Rightarrow> WorkflowDurabilityStatus \<Rightarrow> ArtifactDurabilityStatus
    \<Rightarrow> controllerIngestDurabilityStatus \<Rightarrow> controllerIngestTransportStatus \<Rightarrow> posture_reason list" where
  "postureReasons mode auth corsMode wkf art ing tr =
     reasonIf (\<not> ResEnabled auth) AuthIsDisabled
     @ reasonIf (ResEnabled auth \<and> \<not> IngestAuthEnabled auth) IngestAuthIsDisabled
     @ reasonIf (corsMode = ''local_dev_defaults'') LocalDevCORS
     @ reasonIf (\<not> PersistenceConfigured ing) NoDurableInbox
     @ reasonIf (mode = ''distributed'' \<and> \<not> IngShared ing \<and> \<not> IngSingleWriter ing) DistributedIngestNotShared
     @ reasonIf (PlaintextActive tr \<and> clusterMode mode) PlaintextTransport
     @ reasonIf (IngFallbackActive ing) (InboxFellBack (IngPath ing))
     @ reasonIf (WfEnabled wkf \<and> \<not> WfPersistent wkf)
         (if WfFallbackActive wkf \<and> WfStorePath wkf \<noteq> '''' then WorkflowFellBack (WfStorePath wkf) else WorkflowInMemory)
     @ reasonIf (WfEnabled wkf \<and> WfPersistent wkf \<and> \<not> WfShared wkf \<and> clusterMode mode) WorkflowControllerLocal
     @ reasonIf (WfEnabled wkf \<and> WfShared wkf \<and> ArtEnabled art \<and> \<not> MetadataShared art) ArtifactMetadataLocal
     @ reasonIf (WfEnabled wkf \<and> WfShared wkf \<and> ArtEnabled art \<and> MetadataShared art \<and> \<not> PayloadSharedSurvivable art) ArtifactPayloadLocal
     @ reasonIf (ArtEnabled art \<and> ArtLastError art \<noteq> '''') (ArtifactsDegraded (ArtLastError art))"

definition buildControllerDeploymentPosture :: "PostureConfig \<Rightarrow> ResolvedAuthConfig \<Rightarrow> string \<Rightarrow> string \<Rightarrow> WorkflowDurabilityStatus \<Rightarrow> ArtifactDurabilityStatus
    \<Rightarrow> controllerIngestDurabilityStatus \<Rightarrow> controllerIngestTransportStatus \<Rightarrow> controllerDeploymentPosture" where
  "buildControllerDeploymentPosture cfg auth deploymentMode corsMode wkf art ing tr =
     (let mode = (if normalizeControllerDeploymentMode deploymentMode \<noteq> '''' then normalizeControllerDeploymentMode deploymentMode
            else if normalizeControllerDeploymentMode (depMode cfg) \<noteq> '''' then normalizeControllerDeploymentMode (depMode cfg)
            else defaultDeploymentMode);
          posture = \<lparr>PostureMode = mode, ProductionLike = (mode \<noteq> defaultDeploymentMode),
            PostureOverride = controllerInsecureOverrideEnabled (depOverride cfg) (authCfg cfg) auth, Degraded = False, Reasons = [],
            PWorkflow = wkf, PArtifacts = art, PIngest = ing, PTransport = tr\<rparr>
      in if \<not> ProductionLike posture then posture
         else let reasons = postureReasons mode auth (trimSpace corsMode) wkf art ing tr
           in posture\<lparr>Reasons := reasons, Degraded := (length reasons > 0)\<rparr>)"

definition deploymentPostureStatus :: "PostureConfig \<Rightarrow> ResolvedAuthConfig \<Rightarrow> string \<Rightarrow> WorkflowDurabilityStatus option \<Rightarrow> ArtifactDurabilityStatus option
    \<Rightarrow> InboxStats option \<Rightarrow> controllerDeploymentPosture" where
  "deploymentPostureStatus cfg auth corsMode engine artifacts ib =
     (let mode = (if normalizeControllerDeploymentMode (depMode cfg) \<noteq> '''' then normalizeControllerDeploymentMode (depMode cfg) else defaultDeploymentMode) in
      buildControllerDeploymentPosture cfg auth mode corsMode (workflowDurabilityStatus engine) (artifactDurabilityStatus artifacts)
        (ingestDurabilityStatus (inboxCfg cfg) ib) (ingestTransportStatus (transportCfg cfg) auth))"

text \<open>\<open>Some\<close> of the mode and the reasons of the refusal.\<close>

definition validateControllerDeploymentPosture :: "controllerDeploymentPosture \<Rightarrow> (string \<times> posture_reason list) option" where
  "validateControllerDeploymentPosture posture =
     (if \<not> ProductionLike posture \<or> \<not> Degraded posture then None
      else if PostureOverride posture then None
      else Some (PostureMode posture, Reasons posture))"

end
