(* ===== verification/HttpProps.thy ===== *)
theory HttpProps
  imports HttpStack DeploymentPosture
begin

text \<open>
  What the handlers around the HTTP API guarantee together, and what a controller that has started is known to have.

  The locale \<open>http_layer\<close> is the contract of one wrapper: it refuses with one of its status codes and leaves the
  application alone, or it hands the request on to the next handler under its condition.  Every wrapper is an interpretation;
  two wrappers around each other are one again.
\<close>

section \<open>Routes\<close>

text \<open>The two classifications of a request, one for the roles and one for the limits and the write guard, agree.\<close>

definition approvalRoute :: "Request \<Rightarrow> bool" where
  "approvalRoute r \<longleftrightarrow> trimSpace (UrlPath r) = ''/api/v1/controller/actions/approve'' \<or> isIncidentActionPath (trimSpace (UrlPath r)) ''approve''"

lemma routes_generic:
  "P (if a then APIKeyAuthScopePublic else if b then APIKeyAuthScopePublic else if c then APIKeyAuthScopePublic else if d then APIKeyAuthScopePublic
     else if e then APIKeyAuthScopeRead else if f then APIKeyAuthScopeRead else APIKeyAuthScopeAction)
     (if a then \<lparr>Public = True, ReadLike = False, RequiredRole = None\<rparr> else if b then \<lparr>Public = True, ReadLike = False, RequiredRole = None\<rparr>
     else if c then \<lparr>Public = True, ReadLike = False, RequiredRole = None\<rparr> else if d then \<lparr>Public = True, ReadLike = False, RequiredRole = None\<rparr>
     else if e then \<lparr>Public = False, ReadLike = True, RequiredRole = Some RoleViewer\<rparr> else if f then \<lparr>Public = False, ReadLike = True, RequiredRole = Some RoleViewer\<rparr>
     else if g then \<lparr>Public = False, ReadLike = False, RequiredRole = Some RoleApprover\<rparr> else if h then \<lparr>Public = False, ReadLike = False, RequiredRole = Some RoleOperator\<rparr>
     else \<lparr>Public = False, ReadLike = False, RequiredRole = Some RoleAdmin\<rparr>)
   \<longleftrightarrow> (if a \<or> b \<or> c \<or> d then P APIKeyAuthScopePublic \<lparr>Public = True, ReadLike = False, RequiredRole = None\<rparr>
        else if e \<or> f then P APIKeyAuthScopeRead \<lparr>Public = False, ReadLike = True, RequiredRole = Some RoleViewer\<rparr>
        else P APIKeyAuthScopeAction \<lparr>Public = False, ReadLike = False, RequiredRole = Some (if g then RoleApprover else if h then RoleOperator else RoleAdmin)\<rparr>)"
  by simp

lemma routes_agree:
  fixes r :: Request
  defines "scope \<equiv> controllerRequestScope r" and "policy \<equiv> controllerRoutePolicyForRequest r"
  shows "(scope = APIKeyAuthScopePublic \<longleftrightarrow> Public policy) \<and> (scope = APIKeyAuthScopeRead \<longleftrightarrow> ReadLike policy)
    \<and> (scope = APIKeyAuthScopeRead \<longrightarrow> RequiredRole policy = Some RoleViewer)
    \<and> (scope = APIKeyAuthScopeAction \<longrightarrow> (\<exists>role \<in> {RoleOperator, RoleApprover, RoleAdmin}. RequiredRole policy = Some role \<and> (approvalRoute r \<longrightarrow> role = RoleApprover)))"
  unfolding scope_def policy_def controllerRequestScope_def controllerRoutePolicyForRequest_def Let_def approvalRoute_def
  by (subst routes_generic) simp

lemma scope_public: "Public (controllerRoutePolicyForRequest r) \<longleftrightarrow> controllerRequestScope r = APIKeyAuthScopePublic"
  and read_role: "controllerRequestScope r = APIKeyAuthScopeRead \<Longrightarrow> RequiredRole (controllerRoutePolicyForRequest r) = Some RoleViewer"
  and action_role: "controllerRequestScope r = APIKeyAuthScopeAction \<Longrightarrow>
    \<exists>role \<in> {RoleOperator, RoleApprover, RoleAdmin}. RequiredRole (controllerRoutePolicyForRequest r) = Some role \<and> (approvalRoute r \<longrightarrow> role = RoleApprover)"
  using routes_agree by blast+

lemma HasAnyRole_iff [simp]: "HasAnyRole (Some a) rs \<longleftrightarrow> set (Roles a) \<inter> set rs \<noteq> {}"
  by (auto simp: HasAnyRole_def list_ex_iff)

lemma authorizeRequest_iff: "authorizeControllerRequest (Some a) (Some role) \<longleftrightarrow>
    set (Roles a) \<inter> (if role = RoleViewer then {RoleViewer, RoleOperator, RoleApprover, RoleAdmin} else {role, RoleAdmin}) \<noteq> {}"
  by (cases role) (auto simp: authorizeControllerRequest_def)

section \<open>The contract of a wrapper\<close>

definition handsOn :: "Request \<Rightarrow> ('l, 's) HttpState \<Rightarrow> Request \<Rightarrow> ('l, 's) HttpState \<Rightarrow> bool" where
  "handsOn r s r' s' \<longleftrightarrow> r' = r\<lparr>ctxActor := ctxActor r'\<rparr> \<and> app s' = app s \<and> haCoordinatorState s' = haCoordinatorState s"

lemma handsOn_refl [simp]: "handsOn r s r s"
  by (simp add: handsOn_def)

lemma handsOn_trans: "handsOn r s r1 s1 \<Longrightarrow> handsOn r1 s1 r2 s2 \<Longrightarrow> handsOn r s r2 s2"
  unfolding handsOn_def by (cases r; cases r1; cases r2) simp

locale http_layer =
  fixes wrap :: "('l, 's) handler \<Rightarrow> ('l, 's) handler"
    and admits :: "Request \<Rightarrow> HAState option \<Rightarrow> IdentityRec option \<Rightarrow> bool"
    and codes :: "int set"
  assumes layer: "wrap next r s = (ws, t) \<Longrightarrow>
    (app t = app s \<and> statusCode ws \<in> codes)
    \<or> (\<exists>r1 s1 t1. handsOn r s r1 s1 \<and> admits r (haCoordinatorState s) (ctxActor r1) \<and> next r1 s1 = (ws, t1) \<and> app t = app t1)"
begin

lemma wrap_cases:
  assumes "wrap next r s = (ws, t)"
  obtains (refused) "app t = app s" "statusCode ws \<in> codes"
    | (served) r1 s1 t1 where "handsOn r s r1 s1" "admits r (haCoordinatorState s) (ctxActor r1)" "next r1 s1 = (ws, t1)" "app t = app t1"
  using layer [OF assms] by blast

end

locale two_layers = outer: http_layer wrapO admitsO codesO + inner: http_layer wrapI admitsI codesI
  for wrapO :: "('l, 's) handler \<Rightarrow> ('l, 's) handler" and admitsO codesO
    and wrapI :: "('l, 's) handler \<Rightarrow> ('l, 's) handler" and admitsI codesI
begin

lemma nested:
  assumes "wrapO (wrapI next) r s = (ws, t)"
  shows "(app t = app s \<and> statusCode ws \<in> codesO \<union> codesI)
    \<or> (\<exists>r1 s1 t1. handsOn r s r1 s1 \<and> (\<exists>a. admitsO r (haCoordinatorState s) a \<and> admitsI (r\<lparr>ctxActor := a\<rparr>) (haCoordinatorState s) (ctxActor r1))
         \<and> next r1 s1 = (ws, t1) \<and> app t = app t1)"
  using assms
proof (cases rule: outer.wrap_cases)
  case refused
  then show ?thesis by simp
next
  case (served r1 s1 t1)
  from served(3) show ?thesis
  proof (cases rule: inner.wrap_cases)
    case refused
    with served show ?thesis by (simp add: handsOn_def)
  next
    case (served r2 s2 t2)
    with \<open>handsOn r s r1 s1\<close> \<open>admitsO r _ _\<close> \<open>app t = _\<close>
    have "handsOn r s r2 s2" "admitsO r (haCoordinatorState s) (ctxActor r1)" "admitsI (r\<lparr>ctxActor := ctxActor r1\<rparr>) (haCoordinatorState s) (ctxActor r2)"
      "next r2 s2 = (ws, t2)" "app t = app t2"
      by (auto intro: handsOn_trans) (auto simp: handsOn_def)
    then show ?thesis by blast
  qed
qed

end

sublocale two_layers \<subseteq> both: http_layer "\<lambda>next. wrapO (wrapI next)"
    "\<lambda>r ha a. \<exists>b. admitsO r ha b \<and> admitsI (r\<lparr>ctxActor := b\<rparr>) ha a" "codesO \<union> codesI"
  by unfold_locales (rule nested)


section \<open>The wrappers\<close>

lemma statusCode_httpError [simp]: "code \<noteq> 0 \<Longrightarrow> statusCode (httpError msg code) = code"
  by (simp add: statusCode_def httpError_def)

lemma app_appendControllerAudit [simp]: "app (appendControllerAudit E ro record s) = app s"
  "haCoordinatorState (appendControllerAudit E ro record s) = haCoordinatorState s"
  by (simp_all add: appendControllerAudit_def Let_def)

abbreviation writable :: "ControllerSettings \<Rightarrow> HAState option \<Rightarrow> bool" where
  "writable c ha \<equiv> HAActive (haState (haConfig c) ha)"

definition keepsActor :: "Request \<Rightarrow> HAState option \<Rightarrow> IdentityRec option \<Rightarrow> bool" where
  "keepsActor r ha a \<longleftrightarrow> a = ctxActor r"

definition guardAdmits :: "ControllerSettings \<Rightarrow> Request \<Rightarrow> HAState option \<Rightarrow> IdentityRec option \<Rightarrow> bool" where
  "guardAdmits c r ha a \<longleftrightarrow> a = ctxActor r \<and> (controllerRequestScope r = APIKeyAuthScopeAction \<longrightarrow> writable c ha)"

definition authAdmits :: "'l HttpEnv \<Rightarrow> ControllerSettings \<Rightarrow> Request \<Rightarrow> HAState option \<Rightarrow> IdentityRec option \<Rightarrow> bool" where
  "authAdmits E c r ha a \<longleftrightarrow>
     (if Public (controllerRoutePolicyForRequest r) then a = ctxActor r
      else if \<not> ResEnabled (authOf c) then a = Some (anonymousHTTPIdentity r)
      else \<exists>actor. authenticateHTTPRequest (envCodec E) (envClock E) (authOf c) r = Inr actor
             \<and> authorizeControllerRequest (Some actor) (RequiredRole (controllerRoutePolicyForRequest r)) \<and> a = Some actor)"

lemma options_scope: "Method r = ''OPTIONS'' \<Longrightarrow> controllerRequestScope r = APIKeyAuthScopePublic"
  by (simp add: controllerRequestScope_def Let_def)

lemma requireActive: "shouldRequireActiveControllerRequest r \<longleftrightarrow> controllerRequestScope r = APIKeyAuthScopeAction"
  by (auto simp: shouldRequireActiveControllerRequest_def options_scope)

interpretation writeGuard: http_layer "guardWriteSensitiveRequests c" "guardAdmits c" "{503}" for c
proof
  fix "next" :: "('a, 'b) handler" and r s ws t
  assume "guardWriteSensitiveRequests c next r s = (ws, t)"
  then consider "controllerRequestScope r = APIKeyAuthScopeAction \<longrightarrow> writable c (haCoordinatorState s)" "next r s = (ws, t)"
    | msg where "ws = httpError msg 503" "t = s"
    by (auto simp: guardWriteSensitiveRequests_def requireActive requireActiveController_def activeControllerWriteError_def Let_def split: if_splits)
  then show "(app t = app s \<and> statusCode ws \<in> {503}) \<or>
      (\<exists>r1 s1 t1. handsOn r s r1 s1 \<and> guardAdmits c r (haCoordinatorState s) (ctxActor r1) \<and> next r1 s1 = (ws, t1) \<and> app t = app t1)"
  proof cases
    case 1
    then show ?thesis by (intro disjI2 exI [of _ r] exI [of _ s] exI [of _ t]) (simp add: guardAdmits_def)
  qed simp
qed

lemma rate_layer:
  assumes "\<And>l s. app (put l s) = app s" "\<And>l s. haCoordinatorState (put l s) = haCoordinatorState s"
  shows "http_layer (RateLimitHandler E enabled skip msg get put) keepsActor {429}"
proof
  fix "next" :: "('a, 'b) handler" and r s ws t
  assume "RateLimitHandler E enabled skip msg get put next r s = (ws, t)"
  then consider "next r s = (ws, t)" | l where "next r (put l s) = (ws, t)" | l where "ws = httpError msg 429" "t = put l s"
    by (auto simp: RateLimitHandler_def split: if_splits prod.splits)
  then show "(app t = app s \<and> statusCode ws \<in> {429}) \<or>
      (\<exists>r1 s1 t1. handsOn r s r1 s1 \<and> keepsActor r (haCoordinatorState s) (ctxActor r1) \<and> next r1 s1 = (ws, t1) \<and> app t = app t1)"
  proof cases
    case 1
    then show ?thesis by (intro disjI2 exI [of _ r] exI [of _ s] exI [of _ t]) (simp add: keepsActor_def)
  next
    case (2 l)
    then show ?thesis by (intro disjI2 exI [of _ r] exI [of _ "put l s"] exI [of _ t]) (simp add: handsOn_def keepsActor_def assms)
  next
    case 3
    then show ?thesis by (simp add: assms)
  qed
qed

interpretation actionLimit: http_layer "RateLimitHandler E enabled skip msg actionLimiter (\<lambda>l s. s\<lparr>actionLimiter := l\<rparr>)" keepsActor "{429}"
  for E enabled skip msg by (rule rate_layer) simp_all

interpretation apiLimit: http_layer "RateLimitHandler E enabled skip msg apiLimiter (\<lambda>l s. s\<lparr>apiLimiter := l\<rparr>)" keepsActor "{429}"
  for E enabled skip msg by (rule rate_layer) simp_all

definition auditIf :: "bool \<Rightarrow> 'l HttpEnv \<Rightarrow> ControllerSettings \<Rightarrow> ('l, 's) handler \<Rightarrow> ('l, 's) handler" where
  "auditIf on E c next = (if on then auditMutationRequests E c next else next)"

interpretation audit: http_layer "auditIf on E c" keepsActor "{}" for on E c
proof
  fix "next" :: "('a, 'b) handler" and r s ws t
  assume run: "auditIf on E c next r s = (ws, t)"
  obtain ws1 t1 where n: "next r s = (ws1, t1)" by fastforce
  from run have "ws1 = ws" "app t = app t1"
    by (auto simp: auditIf_def auditMutationRequests_def n Let_def split: if_splits)
  with n show "(app t = app s \<and> statusCode ws \<in> {}) \<or>
      (\<exists>r1 s1 t1. handsOn r s r1 s1 \<and> keepsActor r (haCoordinatorState s) (ctxActor r1) \<and> next r1 s1 = (ws, t1) \<and> app t = app t1)"
    by (intro disjI2 exI [of _ r] exI [of _ s] exI [of _ t1]) (simp add: keepsActor_def)
qed

interpretation authn: http_layer "wrapHTTPAuthentication E c" "authAdmits E c" "{401, 403}" for E c
proof
  fix "next" :: "('a, 'b) handler" and r s ws t
  assume "wrapHTTPAuthentication E c next r s = (ws, t)"
  then consider a where "authAdmits E c r (haCoordinatorState s) a" "next (r\<lparr>ctxActor := a\<rparr>) s = (ws, t)"
    | "ws = httpError ''Unauthorized'' 401" "app t = app s" | "ws = httpError ''Forbidden'' 403" "app t = app s"
    by (cases r) (auto simp: wrapHTTPAuthentication_def authAdmits_def Let_def split: if_splits sum.splits)
  then show "(app t = app s \<and> statusCode ws \<in> {401, 403}) \<or>
      (\<exists>r1 s1 t1. handsOn r s r1 s1 \<and> authAdmits E c r (haCoordinatorState s) (ctxActor r1) \<and> next r1 s1 = (ws, t1) \<and> app t = app t1)"
  proof cases
    case (1 a)
    then show ?thesis by (intro disjI2 exI [of _ "r\<lparr>ctxActor := a\<rparr>"] exI [of _ s] exI [of _ t]) (simp add: handsOn_def)
  qed auto
qed

section \<open>The whole stack\<close>

lemma RateLimitHandler_off: "RateLimitHandler E False skip msg get put next = next"
  by (rule ext)+ (simp add: RateLimitHandler_def)

lemma wrapHTTPHandler_layers:
  "wrapHTTPHandler E c next = auditIf (AuditMutations (apiConfig c)) E c
     (RateLimitHandler E (RateLimitEnabled (apiConfig c)) shouldSkipAPIRateLimit ''controller api rate limit exceeded'' apiLimiter (\<lambda>l s. s\<lparr>apiLimiter := l\<rparr>)
       (RateLimitHandler E (ActionRateLimitEnabled (apiConfig c)) shouldSkipActionAPIRateLimit ''controller action api rate limit exceeded'' actionLimiter (\<lambda>l s. s\<lparr>actionLimiter := l\<rparr>)
         (guardWriteSensitiveRequests c next)))"
  by (auto simp: wrapHTTPHandler_def auditIf_def RateLimitHandler_off Let_def)

interpretation limitedWrites: two_layers "RateLimitHandler E enabled skip msg actionLimiter (\<lambda>l s. s\<lparr>actionLimiter := l\<rparr>)" keepsActor "{429}"
    "guardWriteSensitiveRequests c" "guardAdmits c" "{503}" for E enabled skip msg c ..


interpretation limits: two_layers "RateLimitHandler E enabled skip msg apiLimiter (\<lambda>l s. s\<lparr>apiLimiter := l\<rparr>)" keepsActor "{429}"
    "\<lambda>next. RateLimitHandler E enabled2 skip2 msg2 actionLimiter (\<lambda>l s. s\<lparr>actionLimiter := l\<rparr>) (guardWriteSensitiveRequests c next)"
    "\<lambda>r ha a. \<exists>b. keepsActor r ha b \<and> guardAdmits c (r\<lparr>ctxActor := b\<rparr>) ha a" "{429} \<union> {503}" for E enabled skip msg enabled2 skip2 msg2 c ..

interpretation audited: two_layers "auditIf on E c" keepsActor "{}"
    "\<lambda>next. RateLimitHandler E enabled skip msg apiLimiter (\<lambda>l s. s\<lparr>apiLimiter := l\<rparr>)
       (RateLimitHandler E enabled2 skip2 msg2 actionLimiter (\<lambda>l s. s\<lparr>actionLimiter := l\<rparr>) (guardWriteSensitiveRequests c next))"
    "\<lambda>r ha a. \<exists>b. keepsActor r ha b \<and> (\<exists>d. keepsActor (r\<lparr>ctxActor := b\<rparr>) ha d \<and> guardAdmits c (r\<lparr>ctxActor := b, ctxActor := d\<rparr>) ha a)"
    "{429} \<union> ({429} \<union> {503})" for on E c enabled skip msg enabled2 skip2 msg2 ..

lemma keepsActor_same: "keepsActor r ha b \<Longrightarrow> r\<lparr>ctxActor := b\<rparr> = r"
  by (simp add: keepsActor_def)

interpretation handled: http_layer "wrapHTTPHandler E c" "guardAdmits c" "{429, 503}" for E c
proof
  fix "next" :: "('a, 'b) handler" and r s ws t
  assume "wrapHTTPHandler E c next r s = (ws, t)"
  from audited.nested [OF this [unfolded wrapHTTPHandler_layers]]
  show "(app t = app s \<and> statusCode ws \<in> {429, 503}) \<or>
      (\<exists>r1 s1 t1. handsOn r s r1 s1 \<and> guardAdmits c r (haCoordinatorState s) (ctxActor r1) \<and> next r1 s1 = (ws, t1) \<and> app t = app t1)"
    by (auto simp: keepsActor_def)
qed


lemma controllerRequestScope_actor [simp]: "controllerRequestScope (r\<lparr>ctxActor := a\<rparr>) = controllerRequestScope r"
  by (simp add: controllerRequestScope_def)













text \<open>Conversely a request with a sufficient role is served by the active controller when no rate limit is configured.\<close>

theorem http_served:
  assumes "ResEnabled (authOf c)" "\<not> RateLimitEnabled (apiConfig c)" "\<not> ActionRateLimitEnabled (apiConfig c)"
    and "controllerRequestScope r \<noteq> APIKeyAuthScopePublic" "writable c (haCoordinatorState s)"
    and "authenticateHTTPRequest (envCodec E) (envClock E) (authOf c) r = Inr actor"
    and "authorizeControllerRequest (Some actor) (RequiredRole (controllerRoutePolicyForRequest r))"
    and mux: "mux (r\<lparr>ctxActor := Some actor\<rparr>) s = (ws, t)"
  shows "\<exists>u. serveHTTP E c mux r s = (ws, u) \<and> app u = app t"
  using assms
  by (simp add: serveHTTP_def wrapHTTPAuthentication_def wrapHTTPHandler_layers RateLimitHandler_off auditIf_def auditMutationRequests_def
      guardWriteSensitiveRequests_def requireActiveController_def activeControllerWriteError_def scope_public Let_def)

section \<open>The audit log\<close>

lemma length_log: "length (controllerAuditLog (appendControllerAudit E ro record s)) \<le> controllerAuditRetention"
  by (auto simp: appendControllerAudit_def controllerAuditRetention_def Let_def)

lemma last_log: "last (controllerAuditLog (appendControllerAudit E ro record s)) = auditRecordFor E ro record"
  "controllerAuditLog (appendControllerAudit E ro record s) \<noteq> []"
  by (simp_all add: appendControllerAudit_def controllerAuditRetention_def Let_def last_drop)

lemma firstNonEmptyValue_nonempty: "\<exists>v \<in> set vs. trimSpace v \<noteq> '''' \<Longrightarrow> firstNonEmptyValue vs \<noteq> ''''"
  by (induction vs) auto

lemma auditActor_nonempty [simp]: "auditActor r \<noteq> ''''"
  unfolding auditActor_def by (rule firstNonEmptyValue_nonempty) (simp add: trimSpace_def isSpace_def)

lemma auditRecordFor_new:
  "AudActor (auditRecordFor E (Some r) (newAudit action res st input out gate)) = auditActor r"
  "AudAction (auditRecordFor E (Some r) (newAudit action res st input out gate)) = action"
  "AudResource (auditRecordFor E (Some r) (newAudit action res st input out gate)) = res"
  "AudStatus (auditRecordFor E (Some r) (newAudit action res st input out gate)) = st"
  "AudOccurredAt (auditRecordFor E (Some r) (newAudit action res st input out gate)) = auditTime E"
  by (simp_all add: auditRecordFor_def newAudit_def Let_def)

lemma VerifyToken_subject: "VerifyToken T clk sec tok opts = Inr a \<Longrightarrow> trimSpace (Subject a) \<noteq> '''' \<and> Roles a \<noteq> []"
  by (auto simp: VerifyToken_def identityOf_def Let_def split: list.splits option.splits if_splits)

lemma identityFromAPIKey_subject: "identityFromAPIKey auth r ip = Inr a \<Longrightarrow> trimSpace (Subject a) \<noteq> '''' \<and> Roles a \<noteq> []"
  by (auto simp: identityFromAPIKey_def apiKeyIdentity_def Let_def trimSpace_def isSpace_def split: if_splits)

lemma authenticated_subject: "authenticateHTTPRequest T clk auth r = Inr a \<Longrightarrow> trimSpace (Subject a) \<noteq> '''' \<and> Roles a \<noteq> []"
  by (auto simp: authenticateHTTPRequest_def verifyBearerActor_def Let_def dest: VerifyToken_subject identityFromAPIKey_subject
      split: ControllerAuthMode.splits if_splits sum.splits)

lemma auditActor_authenticated: "authenticateHTTPRequest T clk auth r = Inr a \<Longrightarrow> auditActor (r\<lparr>ctxActor := Some a\<rparr>) = trimSpace (Subject a)"
  using authenticated_subject by (fastforce simp: auditActor_def)

text \<open>The audit log: after a request that would change something under \<^verbatim>\<open>/api/\<close> the log ends with a record of it at the time of the
  clock, under the name of the sender if the sender could be authenticated, and holds at most 4000 records.  The record tells a refused
  authentication, a refused authorization and a handled request apart; only a handled request may have changed the application.\<close>

theorem mutation_audited:
  assumes on: "ResEnabled (authOf c)" "AuditMutations (apiConfig c)" and r: "shouldAuditMutationRequest r" "controllerRequestScope r \<noteq> APIKeyAuthScopePublic"
    and run: "serveHTTP E c mux r s = (ws, t)"
  shows "controllerAuditLog t \<noteq> [] \<and> length (controllerAuditLog t) \<le> 4000
    \<and> AudResource (last (controllerAuditLog t)) = trimSpace (UrlPath r) \<and> AudOccurredAt (last (controllerAuditLog t)) = auditTime E
    \<and> (case authenticateHTTPRequest (envCodec E) (envClock E) (authOf c) r of
        Inl _ \<Rightarrow> AudAction (last (controllerAuditLog t)) = ''http_authenticate'' \<and> app t = app s
      | Inr actor \<Rightarrow> AudActor (last (controllerAuditLog t)) = trimSpace (Subject actor)
          \<and> (if authorizeControllerRequest (Some actor) (RequiredRole (controllerRoutePolicyForRequest r))
             then AudAction (last (controllerAuditLog t)) = ''http_mutation_request''
                \<and> AudStatus (last (controllerAuditLog t)) = auditStatusFromHTTPCode (statusCode ws)
             else AudAction (last (controllerAuditLog t)) = ''http_authorize'' \<and> app t = app s))"
proof -
  have "shouldAuditMutationRequest (r\<lparr>ctxActor := a\<rparr>) = shouldAuditMutationRequest r" for a by (simp add: shouldAuditMutationRequest_def)
  with r(1) have aud: "shouldAuditMutationRequest (r\<lparr>ctxActor := a\<rparr>)" for a by blast
  have len: "length (controllerAuditLog (appendControllerAudit E ro rc s)) \<le> 4000" for ro rc and s :: "('a, 'b) HttpState"
    using length_log [of E ro rc s] by (simp add: controllerAuditRetention_def)
  note step = run [unfolded serveHTTP_def wrapHTTPAuthentication_def wrapHTTPHandler_layers auditIf_def auditMutationRequests_def Let_def]
  show ?thesis
  proof (cases "authenticateHTTPRequest (envCodec E) (envClock E) (authOf c) r")
    case (Inl e)
    with step on r show ?thesis by (auto simp: scope_public last_log auditRecordFor_new len)
  next
    case (Inr actor)
    with step on r aud auditActor_authenticated [OF Inr] show ?thesis
      by (auto simp: scope_public last_log auditRecordFor_new len split: prod.splits if_splits)
  qed
qed

section \<open>Credentials\<close>

text \<open>A holder of the read key, where it is not the action key too, cannot change anything.\<close>

lemma read_key_reads:
  assumes "AuthModeOf (authOf c) = ControllerAuthModeAPIKey" "ResEnabled (authOf c)"
    and key: "trimSpace (Header r ''X-API-Key'') = trimSpace (ReadKey (authOf c))" "trimSpace (ReadKey (authOf c)) \<noteq> ''''"
      "trimSpace (ReadKey (authOf c)) \<noteq> trimSpace (ActionKey (authOf c))"
    and act: "controllerRequestScope r = APIKeyAuthScopeAction" and run: "serveHTTP E c mux r s = (ws, t)"
  shows "statusCode ws = 403 \<and> app t = app s"
proof -
  have auth: "authenticateHTTPRequest (envCodec E) (envClock E) (authOf c) r
      = Inr (apiKeyIdentity (authOf c) (remoteIPFromRequest r) ''compat-api-key-read'' RoleViewer)"
    using assms by (simp add: authenticateHTTPRequest_def identityFromAPIKey_def compareControllerSecret_def subtleTokenCompare_def Let_def)
  from action_role [OF act] have "\<not> authorizeControllerRequest (Some (apiKeyIdentity (authOf c) (remoteIPFromRequest r) ''compat-api-key-read'' RoleViewer))
      (RequiredRole (controllerRoutePolicyForRequest r))"
    by (auto simp: authorizeRequest_iff apiKeyIdentity_def)
  with run assms(2) act auth show ?thesis
    by (auto simp: serveHTTP_def wrapHTTPAuthentication_def scope_public Let_def split: if_splits)
qed

text \<open>A token is good for the HTTP API or for the ingest stream, not for both, unless the two audiences are configured alike.\<close>

lemma VerifyToken_audience:
  "VerifyToken T clk sec tok opts = Inr a \<Longrightarrow> trimSpace (OAudience opts) \<noteq> '''' \<Longrightarrow> Audience a = trimSpace (OAudience opts)"
  by (auto simp: VerifyToken_def identityOf_def Let_def split: list.splits option.splits if_splits)

lemma audiences_separate:
  assumes "trimSpace (TokenAudience auth) \<noteq> ''''" "trimSpace (IngestTokenAudience auth) \<noteq> ''''"
    "trimSpace (TokenAudience auth) \<noteq> trimSpace (IngestTokenAudience auth)"
    and "verifyBearerActor T clk auth token (TokenAudience auth) AuthnMethodBearer ip = Inr a"
  shows "verifyBearerActor T clk2 auth token (IngestTokenAudience auth) AuthnMethodIngestAuth ip2 \<noteq> Inr b"
proof
  assume "verifyBearerActor T clk2 auth token (IngestTokenAudience auth) AuthnMethodIngestAuth ip2 = Inr b"
  with assms show False
    by (auto simp: verifyBearerActor_def VerifyToken_def Let_def split: if_splits sum.splits list.splits option.splits)
qed


section \<open>A controller that has started\<close>

lemma trimmed_ne: "trimSpace (trimSpace x) \<noteq> '''' \<Longrightarrow> trimSpace x \<noteq> ''''"
  by simp

lemma default_nonempty [simp]: "defaultTokenIssuer raw \<noteq> ''''" "fb \<noteq> '''' \<Longrightarrow> defaultTokenAudience raw fb \<noteq> ''''"
  by (simp_all add: defaultTokenIssuer_def defaultTokenAudience_def)

lemma resolveKeys_required:
  "resolveCompatibilityAPIKeys getenv cfg True = Inr (m, k) \<Longrightarrow> ReadKey k \<noteq> '''' \<and> m \<noteq> ControllerAPIKeyModeDisabled
     \<and> (m = ControllerAPIKeyModeReadOnly \<longleftrightarrow> ActionKey k = '''')"
  by (auto simp: resolveCompatibilityAPIKeys_def resolveSharedKey_def emptyResolved_def Let_def split: if_splits)

text \<open>What \<open>ResolveAuthConfig\<close> guarantees when authentication is enabled.\<close>

definition usableAuth :: "ResolvedAuthConfig \<Rightarrow> bool" where
  "usableAuth auth \<longleftrightarrow> AuthModeOf auth \<in> {ControllerAuthModeToken, ControllerAuthModeMixed, ControllerAuthModeAPIKey}
     \<and> (AuthModeOf auth \<noteq> ControllerAuthModeAPIKey \<or> IngestAuthEnabled auth \<longrightarrow> TokenSecret auth \<noteq> '''' \<and> trimSpace (TokenSecret auth) = TokenSecret auth)
     \<and> (AuthModeOf auth = ControllerAuthModeAPIKey \<longrightarrow> ReadKey auth \<noteq> '''')
     \<and> TokenIssuer auth \<noteq> '''' \<and> TokenAudience auth \<noteq> '''' \<and> IngestTokenAudience auth \<noteq> ''''"

lemma ResolveAuthConfig_usable:
  assumes "ResolveAuthConfig getenv cfg = Inr auth" "AuthEnabled cfg"
  shows "ResEnabled auth" "usableAuth auth" "IngestAuthEnabled auth = CfgIngestAuthEnabled cfg" "InsecureOverride auth = False"
  using assms resolveKeys_required [of getenv cfg]
  by (auto simp: ResolveAuthConfig_def usableAuth_def normalizeAuthMode_def emptyResolved_def Let_def split: if_splits sum.splits)

lemma ResolveAuthConfig_off:
  "ResolveAuthConfig getenv cfg = Inr auth \<Longrightarrow> \<not> AuthEnabled cfg \<Longrightarrow> \<not> ResEnabled auth \<and> \<not> InsecureOverride auth"
  by (simp add: ResolveAuthConfig_def emptyResolved_def Let_def, erule subst, simp)

lemma normalizeMode_range: "normalizeControllerDeploymentMode m \<in> {'''', ''local-dev'', ''standalone'', ''cluster-lite'', ''distributed''}"
  by (auto simp: normalizeControllerDeploymentMode_def defaultDeploymentMode_def Let_def)

lemma normalizeMode_known: "m \<in> {''local-dev'', ''standalone'', ''cluster-lite'', ''distributed''} \<Longrightarrow> normalizeControllerDeploymentMode m = m"
  by (elim insertE emptyE; simp add: normalizeControllerDeploymentMode_def defaultDeploymentMode_def Let_def trimSpace_def isSpace_def toLower_def lowerChar_def)

lemma normalizeMode_idem: "normalizeControllerDeploymentMode m \<noteq> '''' \<Longrightarrow>
    normalizeControllerDeploymentMode (normalizeControllerDeploymentMode m) = normalizeControllerDeploymentMode m"
  using normalizeMode_range [of m] by (intro normalizeMode_known) auto

lemma reasonIf_Nil [simp]: "reasonIf b why = [] \<longleftrightarrow> \<not> b"
  by simp

lemma no_reasons:
  assumes "postureReasons mode auth cors wkf art ing tr = []"
  shows "ResEnabled auth" "IngestAuthEnabled auth" "cors \<noteq> ''local_dev_defaults''" "PersistenceConfigured ing" "\<not> IngFallbackActive ing"
    "mode = ''distributed'' \<Longrightarrow> IngShared ing \<or> IngSingleWriter ing" "clusterMode mode \<Longrightarrow> \<not> PlaintextActive tr"
    "WfEnabled wkf \<Longrightarrow> WfPersistent wkf" "WfEnabled wkf \<Longrightarrow> clusterMode mode \<Longrightarrow> WfShared wkf"
  using assms unfolding postureReasons_def append_is_Nil_conv reasonIf_Nil by blast+

lemma durable_inbox:
  assumes "PersistenceConfigured (ingestDurabilityStatus cfg (Some st))" "\<not> IngFallbackActive (ingestDurabilityStatus cfg (Some st))"
  shows "InboxStats.Enabled st \<and> StatsBackend st \<noteq> ''memory''"
  using assms by (simp add: ingestDurabilityStatus_def Let_def)

text \<open>C40. Outside local development and without an explicit override a controller that has come through \<^verbatim>\<open>New\<close> authenticates: its HTTP API
  and its ingest stream, with credentials that are not empty.  It does not run on the CORS defaults for development; its inbox is durable, in
  distributed mode shared or declared to have a single writer; in the cluster modes the ingest transport is encrypted; a workflow engine
  keeps its state, in the cluster modes in a shared store.  A deployment without authentication is refused.\<close>

theorem secure_start:
  assumes new: "newControllerAuth getenv (depMode cfg) (depOverride cfg) (authCfg cfg) = Inr auth"
    and posture: "validateControllerDeploymentPosture (deploymentPostureStatus cfg auth cors engine artifacts (Some st)) = None"
    and prod: "normalizeControllerDeploymentMode (depMode cfg) \<noteq> ''local-dev''"
    and strict: "\<not> depOverride cfg" "AllowInsecureDisable (authCfg cfg) \<longrightarrow> AuthEnabled (authCfg cfg)"
  shows "ResEnabled auth \<and> usableAuth auth \<and> IngestAuthEnabled auth \<and> TokenSecret auth \<noteq> '''' \<and> trimSpace cors \<noteq> ''local_dev_defaults''
    \<and> InboxStats.Enabled st \<and> StatsBackend st \<noteq> ''memory''
    \<and> (DeploymentMode auth = ''distributed'' \<longrightarrow> Shared st \<or> SingleWriter (inboxCfg cfg))
    \<and> (DeploymentMode auth \<in> {''cluster-lite'', ''distributed''} \<longrightarrow> TLSOn (transportCfg cfg))
    \<and> (\<forall>wkf. engine = Some wkf \<and> WfEnabled wkf \<longrightarrow> WfPersistent wkf
         \<and> (DeploymentMode auth \<in> {''cluster-lite'', ''distributed''} \<longrightarrow> WfShared wkf))"
proof -
  let ?m = "normalizeControllerDeploymentMode (depMode cfg)"
  have m: "?m \<noteq> ''''"
    using new by (auto simp: newControllerAuth_def normalizeControllerDeploymentMode_def defaultDeploymentMode_def toLower_def Let_def split: if_splits)
  obtain res where res: "ResolveAuthConfig getenv (authCfg cfg) = Inr res"
      "enforceControllerSecurityPosture ?m (depOverride cfg) (authCfg cfg) res = Inr auth"
    using new m by (auto simp: newControllerAuth_def Let_def split: if_splits sum.splits)
  have on: "AuthEnabled (authCfg cfg)"
    using res strict m prod normalizeMode_idem [OF m] ResolveAuthConfig_off [OF res(1)]
    by (auto simp: enforceControllerSecurityPosture_def controllerInsecureOverrideEnabled_def defaultDeploymentMode_def Let_def split: if_splits)
  note u = ResolveAuthConfig_usable [OF res(1) on]
  have auth: "auth = res\<lparr>DeploymentMode := ?m\<rparr>"
    using res(2) u(1) m normalizeMode_idem [OF m] by (simp add: enforceControllerSecurityPosture_def Let_def)
  have noOverride: "\<not> controllerInsecureOverrideEnabled (depOverride cfg) (authCfg cfg) auth"
    using strict(1) u by (simp add: controllerInsecureOverrideEnabled_def auth)
  have none: "postureReasons ?m auth (trimSpace cors) (workflowDurabilityStatus engine) (artifactDurabilityStatus artifacts)
      (ingestDurabilityStatus (inboxCfg cfg) (Some st)) (ingestTransportStatus (transportCfg cfg) auth) = []"
    using posture m prod noOverride normalizeMode_idem [OF m]
    by (simp add: validateControllerDeploymentPosture_def deploymentPostureStatus_def buildControllerDeploymentPosture_def defaultDeploymentMode_def Let_def split: if_splits)
  note r = no_reasons [OF none]
  have ing: "IngShared (ingestDurabilityStatus (inboxCfg cfg) (Some st)) = Shared st" "IngSingleWriter (ingestDurabilityStatus (inboxCfg cfg) (Some st)) = SingleWriter (inboxCfg cfg)"
    "PlaintextActive (ingestTransportStatus (transportCfg cfg) auth) = (\<not> TLSOn (transportCfg cfg))"
    by (simp_all add: ingestDurabilityStatus_def ingestTransportStatus_def Let_def)
  have wkf: "WfPersistent wkf \<and> (clusterMode ?m \<longrightarrow> WfShared wkf)" if "engine = Some wkf" "WfEnabled wkf" for wkf
    using r(8,9) that by (simp add: workflowDurabilityStatus_def)
  have mode: "DeploymentMode auth = ?m" by (simp add: auth)
  have secret: "TokenSecret auth \<noteq> ''''" using u r(2) by (simp add: usableAuth_def auth)
  have "usableAuth auth" using u by (simp add: usableAuth_def auth)
  with r(1-3) secret durable_inbox [OF r(4,5)] r(6,7) wkf show ?thesis unfolding mode ing by blast
qed

definition exampleStart :: PostureConfig where
  "exampleStart = \<lparr>depMode = ''Cluster-Lite'', depOverride = False, authCfg = DefaultAuthConfig\<lparr>AuthEnabled := True\<rparr>, inboxCfg = DefaultInboxConfig,
     transportCfg = \<lparr>AllowPlaintext = False, TLSOn = True, RequireClientCert = False, AllowedCollectorIDs = [], AllowedClusterNames = [], AllowedPeerSubjects = []\<rparr>\<rparr>"

definition exampleStats :: InboxStats where
  "exampleStats = \<lparr>InboxStats.Enabled = True, StatsBackend = ''bbolt'', Shared = False, StatsPath = ''/var/inbox.db'', Records = 0, PendingCount = 0, AppliedCount = 0,
     Duplicates = 0, Replayed = 0, Pruned = 0, LastGCAt = 0, StatsLastError = '''', RetentionText = '''', StatsMaxRecords = 0, StatsPayloadBytes = 0, StatsMaxBytes = 0, LeaseDuration = ''''\<rparr>"

theorem secure_start_witness:
  "\<exists>auth. newControllerAuth (\<lambda>_. '' s3cret '') ''Cluster-Lite'' False (DefaultAuthConfig\<lparr>AuthEnabled := True\<rparr>) = Inr auth
     \<and> usableAuth auth \<and> TokenSecret auth \<noteq> ''''"
proof -
  obtain auth where auth: "newControllerAuth (\<lambda>_. '' s3cret '') (depMode exampleStart) (depOverride exampleStart) (authCfg exampleStart) = Inr auth"
    "validateControllerDeploymentPosture (deploymentPostureStatus exampleStart auth ''same_origin_only'' None None (Some exampleStats)) = None"
  proof -
    have "case newControllerAuth (\<lambda>_. '' s3cret '') (depMode exampleStart) (depOverride exampleStart) (authCfg exampleStart) of Inl _ \<Rightarrow> False
      | Inr auth \<Rightarrow> validateControllerDeploymentPosture (deploymentPostureStatus exampleStart auth ''same_origin_only'' None None (Some exampleStats)) = None"
      by code_simp
    then show ?thesis using that by (auto split: sum.splits)
  qed
  have "normalizeControllerDeploymentMode (depMode exampleStart) \<noteq> ''local-dev''" by code_simp
  from secure_start [OF auth this] have "usableAuth auth \<and> TokenSecret auth \<noteq> ''''"
    by (simp add: exampleStart_def DefaultAuthConfig_def)
  with auth(1) show ?thesis by (auto simp: exampleStart_def)
qed

end
